(* ===== verification/Prelude.thy ===== *)
theory Prelude
  imports Main
    "HOL-Library.List_Lexorder"
    "HOL-Library.Char_ord"
    "HOL-Library.Word"
begin

text \<open>
  Shared vocabulary of the development: Go's \<^verbatim>\<open>time.Time\<close> and \<^verbatim>\<open>int64\<close>, the functions of
  Go's \<^verbatim>\<open>strings\<close> package the sources call, association lists for Go maps, and the
  generic lemmas on lists, order and results that the component theories use.

  A Go string is a byte sequence, here \<^typ>\<open>string\<close> (a list of 8-bit \<^typ>\<open>char\<close>s), ordered
  bytewise by the lexicographic order of \<^verbatim>\<open>List_Lexorder\<close> over \<^verbatim>\<open>Char_ord\<close>, which is the
  order of \<^verbatim>\<open>bytes.Compare\<close> and of Go's \<^verbatim>\<open><\<close> on strings.
\<close>

named_theorems go_str \<open>defining equations of the Go string functions\<close>
named_theorems sound \<open>what a successful call of a modelled operation guarantees\<close>

section \<open>Time and machine integers\<close>

text \<open>
  A \<^verbatim>\<open>time.Time\<close> is its number of nanoseconds since the Unix epoch. The zero value of the Go
  type is midnight of January 1 of year 1, which \<^verbatim>\<open>IsZero\<close> recognises. \<^verbatim>\<open>Unix\<close> rounds towards
  minus infinity, since Go keeps the nanosecond part of a time non-negative.
\<close>

type_synonym gotime = int

definition zero_time :: gotime where
  "zero_time = - 62135596800 * 1000000000"

definition IsZero :: "gotime \<Rightarrow> bool" where
  "IsZero t \<longleftrightarrow> t = zero_time"

definition Unix :: "gotime \<Rightarrow> int" where
  "Unix t = t div 1000000000"

definition seconds :: "int \<Rightarrow> int" where
  "seconds n = n * 1000000000"

text \<open>\<^verbatim>\<open>t.Sub(u)\<close> as a \<^verbatim>\<open>time.Duration\<close>, which saturates at the ends of the \<^verbatim>\<open>int64\<close> range.\<close>

definition time_Sub :: "gotime \<Rightarrow> gotime \<Rightarrow> int" where
  "time_Sub t u = max (- (2 ^ 63)) (min (2 ^ 63 - 1) (t - u))"

lemma time_Sub_greater: "d < 2 ^ 63 - 1 \<Longrightarrow> - (2 ^ 63) \<le> d \<Longrightarrow> d < time_Sub t u \<longleftrightarrow> d < t - u"
  by (auto simp: time_Sub_def)

text \<open>An \<^verbatim>\<open>int64\<close> is an integer in two's complement range; its addition wraps.\<close>

definition wrap64 :: "int \<Rightarrow> int" where
  "wrap64 x = (x + 2 ^ 63) mod 2 ^ 64 - 2 ^ 63"

definition i64 :: "int \<Rightarrow> bool" where
  "i64 x \<longleftrightarrow> - (2 ^ 63) \<le> x \<and> x < 2 ^ 63"

definition add64 :: "int \<Rightarrow> int \<Rightarrow> int" where
  "add64 a b = wrap64 (a + b)"

definition sub64 :: "int \<Rightarrow> int \<Rightarrow> int" where
  "sub64 a b = wrap64 (a - b)"

lemma wrap64_word: "wrap64 x = sint (word_of_int x :: 64 word)"
proof -
  have "sint (word_of_int x :: 64 word) = signed_take_bit 63 x"
    by (simp add: sint_sbintrunc')
  also have "\<dots> = take_bit 64 (x + 2 ^ 63) - 2 ^ 63"
    by (simp add: signed_take_bit_eq_take_bit_shift)
  finally show ?thesis by (simp add: wrap64_def take_bit_eq_mod)
qed

lemma wrap64_id [simp]: "i64 x \<Longrightarrow> wrap64 x = x"
  by (simp add: wrap64_def i64_def mod_pos_pos_trivial)

lemma i64_wrap64 [simp, intro]: "i64 (wrap64 x)"
proof -
  have "0 \<le> (x + 2 ^ 63) mod 2 ^ 64" "(x + 2 ^ 63) mod 2 ^ 64 < (2 ^ 64 :: int)"
    by (rule pos_mod_sign, simp) (rule pos_mod_bound, simp)
  then show ?thesis by (simp add: wrap64_def i64_def)
qed

lemma add64_wrap [simp]: "add64 (wrap64 a) b = wrap64 (a + b)"
proof -
  have "(wrap64 a + b + 2 ^ 63) mod 2 ^ 64 = ((a + 2 ^ 63) mod 2 ^ 64 + b) mod (2 ^ 64 :: int)"
    by (simp add: wrap64_def algebra_simps)
  also have "\<dots> = (a + b + 2 ^ 63) mod 2 ^ 64"
    by (simp only: mod_add_left_eq) (simp add: algebra_simps)
  finally show ?thesis by (simp add: add64_def wrap64_def)
qed

lemma wrap64_0 [simp]: "wrap64 0 = 0"
  by (simp add: i64_def)

section \<open>Go strings\<close>

definition HasPrefix :: "string \<Rightarrow> string \<Rightarrow> bool" where
  [go_str]: "HasPrefix s p \<longleftrightarrow> take (length p) s = p"

definition HasSuffix :: "string \<Rightarrow> string \<Rightarrow> bool" where
  [go_str]: "HasSuffix s p \<longleftrightarrow> HasPrefix (rev s) (rev p)"

definition TrimPrefix :: "string \<Rightarrow> string \<Rightarrow> string" where
  [go_str]: "TrimPrefix s p = (if HasPrefix s p then drop (length p) s else s)"

definition TrimSuffix :: "string \<Rightarrow> string \<Rightarrow> string" where
  [go_str]: "TrimSuffix s p = (if HasSuffix s p then take (length s - length p) s else s)"

text \<open>\<^verbatim>\<open>strings.Index\<close>: the first position at which \<open>p\<close> occurs, \<^const>\<open>None\<close> for Go's -1.\<close>

fun str_index :: "string \<Rightarrow> string \<Rightarrow> nat option" where
  "str_index [] p = (if p = [] then Some 0 else None)"
| "str_index (c # s) p =
     (if HasPrefix (c # s) p then Some 0 else map_option Suc (str_index s p))"

definition str_contains :: "string \<Rightarrow> string \<Rightarrow> bool" where
  [go_str]: "str_contains s p \<longleftrightarrow> str_index s p \<noteq> None"

text \<open>\<^verbatim>\<open>strings.SplitN(s, sep, n)\<close> and \<^verbatim>\<open>strings.Split\<close> for a one-byte separator.\<close>

fun split_char :: "char \<Rightarrow> string \<Rightarrow> string list" where
  "split_char c [] = [[]]"
| "split_char c (x # s) =
     (if x = c then [] # split_char c s
      else (case split_char c s of [] \<Rightarrow> [[x]] | w # ws \<Rightarrow> (x # w) # ws))"

fun splitn_char :: "char \<Rightarrow> nat \<Rightarrow> string \<Rightarrow> string list" where
  "splitn_char c 0 s = []"
| "splitn_char c (Suc 0) s = [s]"
| "splitn_char c (Suc (Suc n)) s =
     (if c \<in> set s
      then takeWhile (\<lambda>x. x \<noteq> c) s # splitn_char c (Suc n) (tl (dropWhile (\<lambda>x. x \<noteq> c) s))
      else [s])"

text \<open>
  \<^verbatim>\<open>strings.ToLower\<close> and \<^verbatim>\<open>strings.EqualFold\<close> on ASCII text: the sources apply them to header
  names, condition keys and condition operators, which they compare with ASCII constants.
\<close>

definition lower_char :: "char \<Rightarrow> char" where
  "lower_char c = (if 65 \<le> (of_char c :: nat) \<and> of_char c \<le> (90 :: nat)
                   then char_of (of_char c + 32 :: nat) else c)"

definition ToLower :: "string \<Rightarrow> string" where
  [go_str]: "ToLower s = map lower_char s"

definition EqualFold :: "string \<Rightarrow> string \<Rightarrow> bool" where
  [go_str]: "EqualFold s t \<longleftrightarrow> ToLower s = ToLower t"

lemma HasPrefix_iff: "HasPrefix s p \<longleftrightarrow> (\<exists>r. s = p @ r)"
  by (auto simp: HasPrefix_def) (metis append_take_drop_id)

lemma HasSuffix_iff: "HasSuffix s p \<longleftrightarrow> (\<exists>r. s = r @ p)"
  by (auto simp: HasSuffix_def HasPrefix_iff) (metis rev_append rev_rev_ident)+

lemma HasPrefix_append [simp, intro]: "HasPrefix (p @ r) p"
  by (auto simp: HasPrefix_iff)

lemma HasPrefix_Nil [simp]: "HasPrefix s []"
  by (simp add: HasPrefix_def)

lemma HasPrefix_trans: "HasPrefix a b \<Longrightarrow> HasPrefix b c \<Longrightarrow> HasPrefix a c"
  by (auto simp: HasPrefix_iff)

lemma HasPrefix_same_append [simp]: "HasPrefix (p @ s) (p @ q) \<longleftrightarrow> HasPrefix s q"
  by (auto simp: HasPrefix_iff)

lemma TrimPrefix_append [simp]: "TrimPrefix (p @ s) p = s"
  by (simp add: TrimPrefix_def)

lemma HasPrefix_le: "HasPrefix s p \<Longrightarrow> p \<le> s"
proof -
  have "p \<le> p @ r" for r :: string by (induction p) auto
  then show "HasPrefix s p \<Longrightarrow> p \<le> s" by (auto simp: HasPrefix_iff)
qed

lemma append_less_append [simp]: "(p @ x :: string) < p @ y \<longleftrightarrow> x < y"
  by (induction p) auto

lemma append_le_append [simp]: "(p @ x :: string) \<le> p @ y \<longleftrightarrow> x \<le> y"
  by (induction p) auto

lemma str_index_Some:
  "str_index s p = Some i \<Longrightarrow> HasPrefix (drop i s) p \<and> i \<le> length s"
  by (induction s p arbitrary: i rule: str_index.induct) (auto split: if_splits)

lemma str_index_None: "str_index s p = None \<Longrightarrow> \<not> HasPrefix (drop i s) p"
proof (induction s p arbitrary: i rule: str_index.induct)
  case (1 p)
  then show ?case by (auto split: if_splits simp: HasPrefix_def)
next
  case (2 c s p)
  then show ?case by (cases i) (auto split: if_splits)
qed

section \<open>Splitting at a separator\<close>

lemma takeWhile_sep [simp]:
  "c \<notin> set p \<Longrightarrow> takeWhile (\<lambda>x. x \<noteq> c) (p @ c # s) = p"
  by (induction p) auto

lemma dropWhile_sep [simp]:
  "c \<notin> set p \<Longrightarrow> dropWhile (\<lambda>x. x \<noteq> c) (p @ c # s) = c # s"
  by (induction p) auto

text \<open>A field that does not hold the separator can be read back from a joined key.\<close>

lemma sep_inj:
  "c \<notin> set p \<Longrightarrow> c \<notin> set q \<Longrightarrow> p @ c # s = q @ c # t \<longleftrightarrow> p = q \<and> s = t"
  using takeWhile_sep [of c p s] takeWhile_sep [of c q t] by (metis append_same_eq list.inject same_append_eq)

lemma sep_inj_end:
  assumes "c \<notin> set s" "c \<notin> set t"
  shows "p @ c # s = q @ c # t \<longleftrightarrow> p = q \<and> s = t"
proof -
  have "p @ c # s = q @ c # t \<longleftrightarrow> rev (p @ c # s) = rev (q @ c # t)"
    by (simp only: rev_is_rev_conv)
  also have "\<dots> \<longleftrightarrow> rev s @ c # rev p = rev t @ c # rev q"
    by simp
  also have "\<dots> \<longleftrightarrow> p = q \<and> s = t"
    using assms by (auto simp: sep_inj)
  finally show ?thesis .
qed

lemma split_char_not_Nil [simp]: "split_char c s \<noteq> []"
  by (induction s) (auto split: list.splits)

lemma split_char_none: "c \<notin> set s \<Longrightarrow> split_char c s = [s]"
  by (induction s) auto

section \<open>Decimal numbers\<close>

text \<open>\<^verbatim>\<open>%d\<close> of a non-negative number, and the value of a digit string.\<close>

fun digits :: "nat \<Rightarrow> string" where
  "digits n = (if n < 10 then [char_of (48 + n)] else digits (n div 10) @ [char_of (48 + n mod 10)])"

declare digits.simps [simp del]

definition dec_value :: "string \<Rightarrow> nat" where
  "dec_value s = foldl (\<lambda>a c. 10 * a + (of_char c - 48)) 0 s"

lemma dec_value_snoc [simp]: "dec_value (s @ [c]) = 10 * dec_value s + (of_char c - 48)"
  by (simp add: dec_value_def)

lemma dec_value_digits [simp]: "dec_value (digits n) = n"
proof (induction n rule: digits.induct)
  case (1 n)
  then show ?case by (subst digits.simps) (auto simp: dec_value_def of_char_of)
qed

lemma dec_value_zeros [simp]: "dec_value (replicate m CHR ''0'' @ s) = dec_value s"
  by (induction m) (simp_all add: dec_value_def)

lemma digits_range: "c \<in> set (digits n) \<Longrightarrow> (of_char c :: nat) \<in> {48..57}"
proof (induction n rule: digits.induct)
  case (1 n)
  have "(of_char (char_of (48 + m) :: char) :: nat) \<in> {48..57}" if "m < 10" for m :: nat
    using that by (simp only: of_char_of) simp
  from this [of n] this [of "n mod 10"] 1 show ?case
    by (cases "n < 10") (simp_all add: digits.simps [of n], auto)
qed

lemma digits_no_sign: "CHR ''-'' \<notin> set (digits n)" "CHR '':'' \<notin> set (digits n)"
  using digits_range [of "CHR ''-''" n] digits_range [of "CHR '':''" n] by auto

lemma of_char_bound: "(of_char c :: nat) \<le> 255"
proof -
  have "(of_char c :: nat) < 256" by simp
  then show ?thesis by linarith
qed

definition is_digit :: "char \<Rightarrow> bool" where
  "is_digit c \<longleftrightarrow> CHR ''0'' \<le> c \<and> c \<le> CHR ''9''"

lemma is_digit_iff: "is_digit c \<longleftrightarrow> (of_char c :: nat) \<in> {48..57}"
  by (simp add: is_digit_def less_eq_char_def)

lemma is_digit_digits [simp]: "list_all is_digit (digits n)"
  using digits_range by (auto simp: list_all_iff is_digit_iff)

lemma digits_not_Nil [simp]: "digits n \<noteq> []"
  by (simp add: digits.simps [of n])

lemma of_hd_digits: "0 < n \<Longrightarrow> (of_char (hd (digits n)) :: nat) \<noteq> 48"
proof (induction n rule: digits.induct)
  case (1 n)
  have "(of_char (char_of (48 + m) :: char) :: nat) \<noteq> 48" if "0 < m" "m < 10" for m :: nat
    using that by (simp only: of_char_of) simp
  with 1 show ?case by (cases "n < 10") (simp_all add: digits.simps [of n] hd_append)
qed

lemma hd_digits: "0 < n \<Longrightarrow> hd (digits n) \<noteq> CHR ''0''"
  using of_hd_digits [of n] by (cases "hd (digits n) = CHR ''0''") simp_all

section \<open>Lists\<close>

lemma in_map_filter: "y \<in> set (List.map_filter f xs) \<longleftrightarrow> (\<exists>x\<in>set xs. f x = Some y)"
  by (force simp: List.map_filter_def)

section \<open>Sorted lists of keys\<close>

lemma sorted_wrt_less_distinct:
  "sorted_wrt (<) (xs :: ('a :: linorder) list) \<Longrightarrow> distinct xs"
  by (simp add: strict_sorted_iff)

lemma sorted_wrt_less_unique:
  assumes "sorted_wrt (<) (map fst xs)" "sorted_wrt (<) (map fst ys)"
    and "set xs = (set ys :: (('a :: linorder) \<times> 'b) set)"
  shows "xs = ys"
proof -
  have "distinct (map fst xs)" "distinct (map fst ys)"
    using assms(1,2) by (auto intro: sorted_wrt_less_distinct)
  moreover have "sorted (map fst xs)" "sorted (map fst ys)"
    using assms(1,2) by (auto intro: strict_sorted_imp_sorted)
  moreover have "inj_on fst (set xs \<union> set ys)"
    using \<open>distinct (map fst xs)\<close> assms(3) by (simp add: distinct_map)
  moreover have "distinct xs" "distinct ys"
    using \<open>distinct (map fst xs)\<close> \<open>distinct (map fst ys)\<close> by (auto simp: distinct_map)
  ultimately show ?thesis
    using assms(3) by (intro map_sorted_distinct_set_unique) auto
qed

section \<open>Integers as text\<close>

definition show_int64 :: "int \<Rightarrow> string" where
  "show_int64 n = (if n < 0 then ''-'' @ digits (nat (- n)) else digits (nat n))"

text \<open>\<^verbatim>\<open>strconv.ParseInt(s, 10, 64)\<close>: the value, or nothing on a syntax or range error.\<close>

definition int_text :: "string \<Rightarrow> int option" where
  "int_text s = (let
     neg = HasPrefix s ''-'';
     ds = (if neg \<or> HasPrefix s ''+'' then tl s else s)
   in if ds = [] \<or> \<not> list_all is_digit ds then None
      else Some (if neg then - int (dec_value ds) else int (dec_value ds)))"

definition ParseInt :: "string \<Rightarrow> int option" where
  "ParseInt s = (case int_text s of None \<Rightarrow> None | Some n \<Rightarrow> if i64 n then Some n else None)"

text \<open>The value it returns when the error is ignored: 0 on a syntax error, the nearest bound out of range.\<close>

definition ParseInt64 :: "string \<Rightarrow> int" where
  "ParseInt64 s = (case int_text s of None \<Rightarrow> 0 | Some n \<Rightarrow> max (- (2 ^ 63)) (min (2 ^ 63 - 1) n))"

lemma show_int64_not_Nil [simp]: "show_int64 n \<noteq> []"
  by (simp add: show_int64_def)

lemma ParseInt_show:
  assumes "i64 n"
  shows "ParseInt (show_int64 n) = Some n"
proof -
  have sign: "\<not> HasPrefix (digits k) ''-''" "\<not> HasPrefix (digits k) ''+''" for k
    using is_digit_digits [of k] by (cases "digits k"; auto simp: is_digit_def HasPrefix_def)+
  have "int_text (show_int64 n) = Some n"
    using sign by (auto simp: int_text_def show_int64_def Let_def HasPrefix_def)
  then show ?thesis using assms by (simp add: ParseInt_def)
qed

lemma ParseInt64_show: "i64 n \<Longrightarrow> ParseInt64 (show_int64 n) = n"
  using ParseInt_show [of n] by (auto simp: ParseInt_def ParseInt64_def i64_def split: option.splits if_splits)

end
