(* ===== verification/Meta_Types.thy ===== *)
theory Meta_Types
  imports Prelude
begin

text \<open>
  The data of the metadata layer, \<^verbatim>\<open>internal/metadata/types.go\<close> and the error values of
  \<^verbatim>\<open>internal/metadata/store.go\<close>. A struct is a record with the struct's fields in its order,
  prefixed to keep field names apart; a pointer is an option, a Go map an association list
  (a nil and an empty map are both the empty list, as JSON with \<^verbatim>\<open>omitempty\<close> stores them).
  The order of an association list stands for Go's unspecified map iteration order: every
  statement about a list holds for every order.
\<close>

type_synonym smap = "(string \<times> string) list"

section \<open>Objects\<close>

record retention_metadata =
  rt_Mode :: string
  rt_RetainUntilDate :: gotime
  rt_Days :: "int option"
  rt_Years :: "int option"

record meta_owner =
  mo_ID :: string
  mo_DisplayName :: string

record meta_grantee =
  mg_Type :: string
  mg_ID :: string
  mg_DisplayName :: string
  mg_EmailAddress :: string
  mg_URI :: string

record meta_grant =
  mgr_Grantee :: "meta_grantee option"
  mgr_Permission :: string

record acl_metadata =
  am_Owner :: "meta_owner option"
  am_Grants :: "meta_grant list"

record object_metadata =
  om_Bucket :: string
  om_Key :: string
  om_VersionID :: string
  om_IsLatest :: bool
  om_Size :: int
  om_LastModified :: gotime
  om_ETag :: string
  om_ContentType :: string
  om_StorageClass :: string
  om_ContentDisposition :: string
  om_ContentEncoding :: string
  om_CacheControl :: string
  om_ContentLanguage :: string
  om_Metadata :: smap
  om_Tags :: smap
  om_Retention :: "retention_metadata option"
  om_LegalHold :: bool
  om_ACL :: "acl_metadata option"
  om_ChecksumAlgorithm :: string
  om_ChecksumValue :: string
  om_RestoreStatus :: string
  om_RestoreExpiresAt :: "gotime option"
  om_SSEAlgorithm :: string
  om_SSEKeyID :: string
  om_UploadID :: string
  om_TenantID :: string
  om_CreatedAt :: gotime
  om_UpdatedAt :: gotime

record object_version =
  ov_VersionID :: string
  ov_IsLatest :: bool
  ov_Key :: string
  ov_Size :: int
  ov_ETag :: string
  ov_LastModified :: gotime
  ov_StorageClass :: string
  ov_OwnerID :: string

section \<open>Buckets\<close>

text \<open>A value of Go's \<^verbatim>\<open>interface{}\<close> as policies hold it; \<open>IOther\<close> is a number or a boolean.\<close>

datatype iface =
    INil
  | IStr string
  | IArr "iface list"
  | IStrs "string list"
  | IMap "(string \<times> iface) list"
  | IOther

record policy_statement =
  ps_Sid :: string
  ps_Effect :: string
  ps_Principal :: iface
  ps_Action :: iface
  ps_Resource :: iface
  ps_Condition :: "(string \<times> iface) list"

record policy_metadata =
  pm_Version :: string
  pm_Statement :: "policy_statement list"

record versioning_metadata =
  vm_Enabled :: bool
  vm_Status :: string
  vm_MFADelete :: bool

record object_lock_rule_metadata =
  olr_DefaultRetention :: "retention_metadata option"

record object_lock_metadata =
  olm_Enabled :: bool
  olm_Rule :: "object_lock_rule_metadata option"

record public_access_block_metadata =
  pab_BlockPublicAcls :: bool
  pab_IgnorePublicAcls :: bool
  pab_BlockPublicPolicy :: bool
  pab_RestrictPublicBuckets :: bool

record bucket_quota =
  bq_MaxSizeBytes :: int
  bq_MaxObjectCount :: int

record ha_replica_node =
  hr_NodeID :: string
  hr_Status :: string
  hr_Progress :: int
  hr_SyncedAt :: gotime

record bucket_ha =
  ha_PrimaryNodeID :: string
  ha_ReplicaNodes :: "ha_replica_node list"

record lifecycle_and =
  la_Prefix :: string
  la_Tags :: smap

record lifecycle_filter =
  lf_Prefix :: string
  lf_Tags :: smap
  lf_And :: "lifecycle_and option"

record lifecycle_expiration =
  le_Days :: int
  le_Date :: string
  le_ExpiredObjectDeleteMarker :: bool

record lifecycle_transition =
  lt_Days :: int
  lt_Date :: string
  lt_StorageClass :: string

record noncurrent_expiration =
  ne_NoncurrentDays :: int

record noncurrent_transition =
  nt_NoncurrentDays :: int
  nt_StorageClass :: string

record abort_multipart_metadata =
  ab_DaysAfterInitiation :: int

record lifecycle_rule =
  lr_ID :: string
  lr_Status :: string
  lr_Filter :: "lifecycle_filter option"
  lr_Expiration :: "lifecycle_expiration option"
  lr_Transitions :: "lifecycle_transition list"
  lr_NoncurrentVersionExpiration :: "noncurrent_expiration option"
  lr_NoncurrentVersionTransitions :: "noncurrent_transition list"
  lr_AbortIncompleteMultipartUpload :: "abort_multipart_metadata option"

record lifecycle_metadata =
  lm_Rules :: "lifecycle_rule list"

record cors_rule =
  cr_ID :: string
  cr_AllowedOrigins :: "string list"
  cr_AllowedMethods :: "string list"
  cr_AllowedHeaders :: "string list"
  cr_ExposeHeaders :: "string list"
  cr_MaxAgeSeconds :: int

record cors_metadata =
  cm_Rules :: "cors_rule list"

record sse_config =
  sse_Algorithm :: string
  sse_KMSMasterKeyID :: string

record encryption_rule =
  er_ApplyServerSideEncryptionByDefault :: "sse_config option"
  er_BucketKeyEnabled :: bool

record encryption_metadata =
  em_Rules :: "encryption_rule list"

record website_routing_condition =
  wc_HTTPErrorCodeReturnedEquals :: string
  wc_KeyPrefixEquals :: string

record website_routing_redirect =
  wr_HostName :: string
  wr_HTTPRedirectCode :: string
  wr_Protocol :: string
  wr_ReplaceKeyPrefixWith :: string
  wr_ReplaceKeyWith :: string

record website_routing_rule =
  wrr_Condition :: website_routing_condition
  wrr_Redirect :: website_routing_redirect

record website_metadata =
  wm_IndexDocument :: string
  wm_ErrorDocument :: string
  wm_RoutingRules :: "website_routing_rule list"

record notification_filter =
  nf_Prefix :: string
  nf_Suffix :: string

record notification_target =
  nt_ID :: string
  nt_Endpoint :: string
  nt_Events :: "string list"
  nt_Filter :: "notification_filter option"

record notification_metadata =
  nm_TopicConfigurations :: "notification_target list"
  nm_QueueConfigurations :: "notification_target list"
  nm_LambdaConfigurations :: "notification_target list"

record logging_metadata =
  lg_TargetBucket :: string
  lg_TargetPrefix :: string

record bucket_metadata =
  bm_Name :: string
  bm_TenantID :: string
  bm_OwnerID :: string
  bm_OwnerType :: string
  bm_Region :: string
  bm_IsPublic :: bool
  bm_CreatedAt :: gotime
  bm_UpdatedAt :: gotime
  bm_Versioning :: "versioning_metadata option"
  bm_ObjectLock :: "object_lock_metadata option"
  bm_Policy :: "policy_metadata option"
  bm_Lifecycle :: "lifecycle_metadata option"
  bm_CORS :: "cors_metadata option"
  bm_Encryption :: "encryption_metadata option"
  bm_PublicAccessBlock :: "public_access_block_metadata option"
  bm_OwnershipControls :: string
  bm_Website :: "website_metadata option"
  bm_Notification :: "notification_metadata option"
  bm_Logging :: "logging_metadata option"
  bm_Tags :: smap
  bm_Metadata :: smap
  bm_ObjectCount :: int
  bm_TotalSize :: int
  bm_Quota :: "bucket_quota option"
  bm_HA :: "bucket_ha option"

section \<open>Multipart uploads\<close>

record upload_metadata =
  um_UploadID :: string
  um_Bucket :: string
  um_Key :: string
  um_Initiated :: gotime
  um_StorageClass :: string
  um_Metadata :: smap
  um_ContentType :: string
  um_TenantID :: string
  um_OwnerID :: string

record part_metadata =
  pt_UploadID :: string
  pt_PartNumber :: int
  pt_Size :: int
  pt_ETag :: string
  pt_LastModified :: gotime

section \<open>ACL documents stored as raw values\<close>

text \<open>\<^verbatim>\<open>ACL\<close>, \<^verbatim>\<open>Owner\<close>, \<^verbatim>\<open>Grant\<close> and \<^verbatim>\<open>Grantee\<close> of \<^verbatim>\<open>internal/acl/types.go\<close>.\<close>

record acl_owner =
  ow_ID :: string
  ow_DisplayName :: string

record acl_grantee =
  ge_Type :: string
  ge_ID :: string
  ge_DisplayName :: string
  ge_EmailAddress :: string
  ge_URI :: string

record acl_grant =
  gr_Grantee :: acl_grantee
  gr_Permission :: string

record acl =
  acl_Owner :: acl_owner
  acl_Grants :: "acl_grant list"
  acl_CannedACL :: string

section \<open>Search filters, listings and errors\<close>

record object_filter =
  of_ContentTypes :: "string list"
  of_MinSize :: "int option"
  of_MaxSize :: "int option"
  of_ModifiedAfter :: "gotime option"
  of_ModifiedBefore :: "gotime option"
  of_Tags :: smap

record delimited_list_result =
  dl_Objects :: "object_metadata list"
  dl_CommonPrefixes :: "string list"
  dl_NextMarker :: string
  dl_IsTruncated :: bool

text \<open>
  The error values of the metadata layer. \<open>ErrMsg\<close> is an error made on the spot with
  \<^verbatim>\<open>fmt.Errorf\<close> for a bad argument, \<open>ErrEngine\<close> one that wraps a failure of the storage
  engine, \<open>ErrDecode\<close> one that wraps a failed \<^verbatim>\<open>json.Unmarshal\<close>.
\<close>

datatype meta_error =
    ErrBucketNotFound
  | ErrBucketAlreadyExists
  | ErrBucketNotEmpty
  | ErrObjectNotFound
  | ErrInvalidKey
  | ErrUploadNotFound
  | ErrPartNotFound
  | ErrVersionNotFound
  | ErrNotFound
  | ErrMsg string
  | ErrEngine string
  | ErrDecode

section \<open>Zero values\<close>

text \<open>The Go zero values of the structs that the sources build field by field.\<close>

definition zero_object :: object_metadata where
  "zero_object = \<lparr>om_Bucket = [], om_Key = [], om_VersionID = [], om_IsLatest = False, om_Size = 0,
     om_LastModified = zero_time, om_ETag = [], om_ContentType = [], om_StorageClass = [],
     om_ContentDisposition = [], om_ContentEncoding = [], om_CacheControl = [], om_ContentLanguage = [],
     om_Metadata = [], om_Tags = [], om_Retention = None, om_LegalHold = False, om_ACL = None,
     om_ChecksumAlgorithm = [], om_ChecksumValue = [], om_RestoreStatus = [], om_RestoreExpiresAt = None,
     om_SSEAlgorithm = [], om_SSEKeyID = [], om_UploadID = [], om_TenantID = [],
     om_CreatedAt = zero_time, om_UpdatedAt = zero_time\<rparr>"

definition zero_bucket :: bucket_metadata where
  "zero_bucket = \<lparr>bm_Name = [], bm_TenantID = [], bm_OwnerID = [], bm_OwnerType = [], bm_Region = [],
     bm_IsPublic = False, bm_CreatedAt = zero_time, bm_UpdatedAt = zero_time, bm_Versioning = None,
     bm_ObjectLock = None, bm_Policy = None, bm_Lifecycle = None, bm_CORS = None, bm_Encryption = None,
     bm_PublicAccessBlock = None, bm_OwnershipControls = [], bm_Website = None, bm_Notification = None,
     bm_Logging = None, bm_Tags = [], bm_Metadata = [], bm_ObjectCount = 0, bm_TotalSize = 0,
     bm_Quota = None, bm_HA = None\<rparr>"

definition zero_version :: object_version where
  "zero_version = \<lparr>ov_VersionID = [], ov_IsLatest = False, ov_Key = [], ov_Size = 0, ov_ETag = [],
     ov_LastModified = zero_time, ov_StorageClass = [], ov_OwnerID = []\<rparr>"

end
