(* ===== verification/Pebble_Engine.thy ===== *)
theory Pebble_Engine
  imports Meta_Types "HOL-Library.AList"
begin

text \<open>
  The storage engine under the metadata store. Pebble is a third-party key-value engine, so
  it is a parameter: a record of the calls the sources make, over an arbitrary state type,
  and the locale \<open>pebble_engine\<close> with what its documentation promises of them (reads see the
  last committed value, a batch applies in order and at once, an iterator delivers the keys
  of its range in bytewise order). Every call may fail. The locale \<open>pebble_reliable\<close> adds that
  calls do not fail; it is used only where a theorem says that an operation succeeds.
  \<open>mem_engine\<close>, an ordered in-memory engine, satisfies both.

  Values are JSON documents or raw bytes; \<^verbatim>\<open>encoding/json\<close> is modelled as a tag, so decoding
  gives back the encoded document and fails on a value of another kind.
\<close>

section \<open>Values and batches\<close>

datatype kv_value =
    JObject object_metadata
  | JBucket bucket_metadata
  | JUpload upload_metadata
  | JPart part_metadata
  | JAcl acl
  | Bytes string

fun decode_object :: "kv_value \<Rightarrow> object_metadata option" where
  "decode_object (JObject x) = Some x"
| "decode_object _ = None"

fun decode_bucket :: "kv_value \<Rightarrow> bucket_metadata option" where
  "decode_bucket (JBucket x) = Some x"
| "decode_bucket _ = None"

fun decode_upload :: "kv_value \<Rightarrow> upload_metadata option" where
  "decode_upload (JUpload x) = Some x"
| "decode_upload _ = None"

fun decode_part :: "kv_value \<Rightarrow> part_metadata option" where
  "decode_part (JPart x) = Some x"
| "decode_part _ = None"

fun decode_acl :: "kv_value \<Rightarrow> acl option" where
  "decode_acl (JAcl x) = Some x"
| "decode_acl _ = None"

lemma decode_object_Some [simp]: "decode_object v = Some x \<longleftrightarrow> v = JObject x"
  by (cases v) auto

lemma decode_bucket_Some [simp]: "decode_bucket v = Some x \<longleftrightarrow> v = JBucket x"
  by (cases v) auto

lemma decode_upload_Some [simp]: "decode_upload v = Some x \<longleftrightarrow> v = JUpload x"
  by (cases v) auto

lemma decode_part_Some [simp]: "decode_part v = Some x \<longleftrightarrow> v = JPart x"
  by (cases v) auto

lemma decode_acl_Some [simp]: "decode_acl v = Some x \<longleftrightarrow> v = JAcl x"
  by (cases v) auto

datatype batch_op = BSet string kv_value | BDel string

type_synonym contents = "string \<rightharpoonup> kv_value"

fun apply_op :: "batch_op \<Rightarrow> contents \<Rightarrow> contents" where
  "apply_op (BSet k v) m = m(k \<mapsto> v)"
| "apply_op (BDel k) m = m(k := None)"

definition apply_batch :: "batch_op list \<Rightarrow> contents \<Rightarrow> contents" where
  "apply_batch ops = fold apply_op ops"

fun op_key :: "batch_op \<Rightarrow> string" where
  "op_key (BSet k v) = k"
| "op_key (BDel k) = k"

lemma apply_batch_simps [simp]:
  "apply_batch [] m = m"
  "apply_batch (b # bs) m = apply_batch bs (apply_op b m)"
  "apply_batch (bs @ cs) m = apply_batch cs (apply_batch bs m)"
  by (simp_all add: apply_batch_def)

lemma apply_batch_other: "k \<notin> op_key ` set ops \<Longrightarrow> apply_batch ops m k = m k"
proof (induction ops arbitrary: m)
  case (Cons b ops)
  then show ?case by (cases b) auto
qed simp

lemma apply_batch_dels:
  "apply_batch (map (\<lambda>x. BDel (f x)) xs) m k = (if k \<in> f ` set xs then None else m k)"
  by (induction xs arbitrary: m) auto

lemma apply_batch_sets:
  "apply_batch (map (\<lambda>x. BSet (f x) v) xs) m k = (if k \<in> f ` set xs then Some v else m k)"
  by (induction xs arbitrary: m) auto

section \<open>The engine and its contract\<close>

text \<open>
  \<open>eng_get\<close> is \<^verbatim>\<open>db.Get\<close> (\<open>Inr None\<close> for \<^verbatim>\<open>pebble.ErrNotFound\<close>), \<open>eng_commit\<close> the commit of a
  batch with or without \<^verbatim>\<open>pebble.Sync\<close> (a single \<^verbatim>\<open>db.Set\<close> or \<^verbatim>\<open>db.Delete\<close> is a batch of one),
  and \<open>eng_iter\<close> an iterator over \<open>[lower, upper)\<close>: the entries it delivers from first to last
  and the error, if any, that ended the iteration (\<^verbatim>\<open>iter.Error()\<close>).
\<close>

record 'db engine =
  eng_get :: "'db \<Rightarrow> string \<Rightarrow> string + kv_value option"
  eng_commit :: "'db \<Rightarrow> bool \<Rightarrow> batch_op list \<Rightarrow> string + 'db"
  eng_iter :: "'db \<Rightarrow> string \<Rightarrow> string option \<Rightarrow> string + ((string \<times> kv_value) list \<times> string option)"

definition below :: "string \<Rightarrow> string option \<Rightarrow> bool" where
  "below k hi \<longleftrightarrow> (case hi of None \<Rightarrow> True | Some h \<Rightarrow> k < h)"

definition lists_range :: "contents \<Rightarrow> string \<Rightarrow> string option \<Rightarrow> (string \<times> kv_value) list \<Rightarrow> bool" where
  "lists_range m lo hi kvs \<longleftrightarrow>
     sorted_wrt (<) (map fst kvs) \<and>
     set kvs = {(k, v). m k = Some v \<and> lo \<le> k \<and> below k hi}"

locale pebble_engine =
  fixes E :: "'db engine"
    and cont :: "'db \<Rightarrow> contents"
  assumes get_sound: "eng_get E db k = Inr r \<Longrightarrow> r = cont db k"
    and commit_sound: "eng_commit E db sy ops = Inr db' \<Longrightarrow> cont db' = apply_batch ops (cont db)"
    and iter_sound: "eng_iter E db lo hi = Inr (kvs, err) \<Longrightarrow>
      \<exists>rest. lists_range (cont db) lo hi (kvs @ rest) \<and> (err = None \<longrightarrow> rest = [])"
begin

lemma iter_complete: "eng_iter E db lo hi = Inr (kvs, None) \<Longrightarrow> lists_range (cont db) lo hi kvs"
  using iter_sound [of db lo hi kvs None] by auto

lemma iter_sorted: "eng_iter E db lo hi = Inr (kvs, err) \<Longrightarrow> sorted_wrt (<) (map fst kvs)"
  using iter_sound [of db lo hi kvs err] by (auto simp: lists_range_def sorted_wrt_append)

lemma iter_member:
  "eng_iter E db lo hi = Inr (kvs, err) \<Longrightarrow> (k, v) \<in> set kvs \<Longrightarrow>
     cont db k = Some v \<and> lo \<le> k \<and> below k hi"
proof -
  assume "eng_iter E db lo hi = Inr (kvs, err)" and kv: "(k, v) \<in> set kvs"
  then obtain rest where "lists_range (cont db) lo hi (kvs @ rest)"
    using iter_sound by blast
  then have "set (kvs @ rest) = {(k, v). cont db k = Some v \<and> lo \<le> k \<and> below k hi}"
    by (simp add: lists_range_def)
  with kv have "(k, v) \<in> {(k, v). cont db k = Some v \<and> lo \<le> k \<and> below k hi}"
    by (metis Un_iff set_append)
  then show ?thesis by simp
qed

end

locale pebble_reliable = pebble_engine E cont
  for E :: "'db engine" and cont :: "'db \<Rightarrow> contents" +
  assumes get_ok: "eng_get E db k = Inr (cont db k)"
    and commit_ok: "\<exists>db'. eng_commit E db sy ops = Inr db'"
    and iter_ok: "\<exists>kvs. eng_iter E db lo hi = Inr (kvs, None)"

section \<open>An in-memory engine\<close>

fun mem_op :: "batch_op \<Rightarrow> (string \<times> kv_value) list \<Rightarrow> (string \<times> kv_value) list" where
  "mem_op (BSet k v) db = AList.update k v db"
| "mem_op (BDel k) db = AList.delete k db"

definition mem_range :: "(string \<times> kv_value) list \<Rightarrow> string \<Rightarrow> string option \<Rightarrow> (string \<times> kv_value) list" where
  "mem_range db lo hi = sort_key fst (filter (\<lambda>kv. lo \<le> fst kv \<and> below (fst kv) hi) (AList.clearjunk db))"

definition mem_engine :: "((string \<times> kv_value) list) engine" where
  "mem_engine = \<lparr>
     eng_get = (\<lambda>db k. Inr (map_of db k)),
     eng_commit = (\<lambda>db sy ops. Inr (fold mem_op ops db)),
     eng_iter = (\<lambda>db lo hi. Inr (mem_range db lo hi, None))\<rparr>"

lemma map_of_mem_op: "map_of (mem_op b db) = apply_op b (map_of db)"
  by (cases b) (simp_all add: update_conv' delete_conv')

lemma map_of_mem_fold: "map_of (fold mem_op ops db) = apply_batch ops (map_of db)"
  by (induction ops arbitrary: db) (simp_all add: map_of_mem_op)

lemma mem_range_lists: "lists_range (map_of db) lo hi (mem_range db lo hi)"
proof -
  let ?f = "filter (\<lambda>kv. lo \<le> fst kv \<and> below (fst kv) hi) (AList.clearjunk db)"
  have "distinct (map fst ?f)"
    by (simp add: distinct_clearjunk distinct_map_filter)
  then have "distinct (map fst (sort_key fst ?f))"
    by (simp add: distinct_map)
  then have "sorted_wrt (<) (map fst (mem_range db lo hi))"
    by (simp add: mem_range_def strict_sorted_iff)
  moreover have "(k, v) \<in> set (AList.clearjunk db) \<longleftrightarrow> map_of db k = Some v" for k v
    by (metis distinct_clearjunk map_of_clearjunk map_of_eq_Some_iff)
  then have "set (mem_range db lo hi) = {(k, v). map_of db k = Some v \<and> lo \<le> k \<and> below k hi}"
    by (auto simp: mem_range_def)
  ultimately show ?thesis by (simp add: lists_range_def)
qed

interpretation mem: pebble_reliable mem_engine map_of
proof unfold_locales
  show "eng_get mem_engine db k = Inr r \<Longrightarrow> r = map_of db k" for db k r
    by (simp add: mem_engine_def)
  show "eng_commit mem_engine db sy ops = Inr db' \<Longrightarrow> map_of db' = apply_batch ops (map_of db)"
    for db sy ops db'
    by (auto simp: mem_engine_def map_of_mem_fold)
  show "eng_iter mem_engine db lo hi = Inr (kvs, err) \<Longrightarrow>
      \<exists>rest. lists_range (map_of db) lo hi (kvs @ rest) \<and> (err = None \<longrightarrow> rest = [])"
    for db lo hi kvs err
    by (auto simp: mem_engine_def intro!: exI [of _ "[]"] mem_range_lists)
  show "eng_get mem_engine db k = Inr (map_of db k)" for db k
    by (simp add: mem_engine_def)
  show "\<exists>db'. eng_commit mem_engine db sy ops = Inr db'" for db sy ops
    by (simp add: mem_engine_def)
  show "\<exists>kvs. eng_iter mem_engine db lo hi = Inr (kvs, None)" for db lo hi
    by (simp add: mem_engine_def)
qed

end
