(* ===== verification/Meta_Keys.thy ===== *)
theory Meta_Keys
  imports Pebble_Engine
begin

text \<open>
  The key scheme and the search predicates of \<^verbatim>\<open>internal/metadata/keys.go\<close>, and the upper
  bound of a prefix scan, \<^verbatim>\<open>prefixEnd\<close> of \<^verbatim>\<open>internal/metadata/pebble_store.go\<close>.

  Keys join their fields with colons, so they are injective only where the fields before the
  last colon hold none: \<open>no_colon\<close> is the side condition the lemmas below carry. Bucket names
  satisfy it (\<^verbatim>\<open>ValidateBucketName\<close>), object keys and tags need not.
\<close>

definition no_colon :: "string \<Rightarrow> bool" where
  "no_colon s \<longleftrightarrow> CHR '':'' \<notin> set s"

lemma no_colon_simps [simp]:
  "no_colon []"
  "no_colon (c # s) \<longleftrightarrow> c \<noteq> CHR '':'' \<and> no_colon s"
  "no_colon (s @ t) \<longleftrightarrow> no_colon s \<and> no_colon t"
  by (auto simp: no_colon_def)

section \<open>Keys\<close>

definition bucketKey :: "string \<Rightarrow> string \<Rightarrow> string" where
  "bucketKey tenantID name = ''bucket:'' @ tenantID @ '':'' @ name"

definition bucketListPrefix :: "string \<Rightarrow> string" where
  "bucketListPrefix tenantID = ''bucket:'' @ tenantID @ '':''"

definition objectKey :: "string \<Rightarrow> string \<Rightarrow> string" where
  "objectKey bucket key = ''obj:'' @ bucket @ '':'' @ key"

definition objectVersionKey :: "string \<Rightarrow> string \<Rightarrow> string \<Rightarrow> string" where
  "objectVersionKey bucket key versionID = ''version:'' @ bucket @ '':'' @ key @ '':'' @ versionID"

definition objectListPrefix :: "string \<Rightarrow> string" where
  "objectListPrefix bucket = ''obj:'' @ bucket @ '':''"

definition objectPrefixKey :: "string \<Rightarrow> string \<Rightarrow> string" where
  "objectPrefixKey bucket p = ''obj:'' @ bucket @ '':'' @ p"

text \<open>The prefix \<^verbatim>\<open>"version:%s:%s:"\<close> the version scans format in place.\<close>

definition versionScanPrefix :: "string \<Rightarrow> string \<Rightarrow> string" where
  "versionScanPrefix bucket key = ''version:'' @ bucket @ '':'' @ key @ '':''"

definition versionBucketPrefix :: "string \<Rightarrow> string" where
  "versionBucketPrefix bucket = ''version:'' @ bucket @ '':''"

definition multipartUploadKey :: "string \<Rightarrow> string" where
  "multipartUploadKey uploadID = ''multipart:'' @ uploadID"

definition multipartListPrefix :: "string \<Rightarrow> string" where
  "multipartListPrefix bucket = ''multipart_idx:'' @ bucket @ '':''"

definition multipartIndexKey :: "string \<Rightarrow> string \<Rightarrow> string" where
  "multipartIndexKey bucket uploadID = ''multipart_idx:'' @ bucket @ '':'' @ uploadID"

text \<open>\<^verbatim>\<open>%05d\<close>: the decimal digits of an integer, zero-padded to five places, sign included.\<close>

definition pad5 :: "int \<Rightarrow> string" where
  "pad5 n = (let d = digits (nat \<bar>n\<bar>) in
     if 0 \<le> n then replicate (5 - length d) CHR ''0'' @ d
     else CHR ''-'' # replicate (4 - length d) CHR ''0'' @ d)"

definition partKey :: "string \<Rightarrow> int \<Rightarrow> string" where
  "partKey uploadID partNumber = ''part:'' @ uploadID @ '':'' @ pad5 partNumber"

definition partListPrefix :: "string \<Rightarrow> string" where
  "partListPrefix uploadID = ''part:'' @ uploadID @ '':''"

definition tagIndexKey :: "string \<Rightarrow> string \<Rightarrow> string \<Rightarrow> string \<Rightarrow> string" where
  "tagIndexKey bucket tagKey tagValue objKey =
     ''tag_idx:'' @ bucket @ '':'' @ tagKey @ '':'' @ tagValue @ '':'' @ objKey"

definition tagIndexPrefix :: "string \<Rightarrow> string \<Rightarrow> string \<Rightarrow> string" where
  "tagIndexPrefix bucket tagKey tagValue =
     ''tag_idx:'' @ bucket @ '':'' @ tagKey @ '':'' @ tagValue @ '':''"

definition extractObjectKeyFromKey :: "string \<Rightarrow> string" where
  "extractObjectKeyFromKey key =
     (let parts = splitn_char CHR '':'' 3 key in
      if length parts < 3 then [] else parts ! 2)"

lemmas key_defs =
  bucketKey_def bucketListPrefix_def objectKey_def objectVersionKey_def objectListPrefix_def
  objectPrefixKey_def versionScanPrefix_def versionBucketPrefix_def multipartUploadKey_def
  multipartListPrefix_def multipartIndexKey_def partKey_def partListPrefix_def
  tagIndexKey_def tagIndexPrefix_def

section \<open>Filters\<close>

definition matchesTags :: "smap \<Rightarrow> smap \<Rightarrow> bool" where
  "matchesTags objectTags requiredTags \<longleftrightarrow>
     list_all (\<lambda>(reqKey, reqValue). map_of objectTags reqKey = Some reqValue) requiredTags"

definition matchesFilter :: "object_metadata \<Rightarrow> object_filter option \<Rightarrow> bool" where
  "matchesFilter obj flt = (case flt of None \<Rightarrow> True | Some f \<Rightarrow>
     if of_ContentTypes f \<noteq> [] \<and> \<not> list_ex (\<lambda>ct. HasPrefix (om_ContentType obj) ct) (of_ContentTypes f)
     then False
     else if (case of_MinSize f of None \<Rightarrow> False | Some n \<Rightarrow> om_Size obj < n) then False
     else if (case of_MaxSize f of None \<Rightarrow> False | Some n \<Rightarrow> n < om_Size obj) then False
     else if (case of_ModifiedAfter f of None \<Rightarrow> False | Some t \<Rightarrow> \<not> t < om_LastModified obj) then False
     else if (case of_ModifiedBefore f of None \<Rightarrow> False | Some t \<Rightarrow> \<not> om_LastModified obj < t) then False
     else if of_Tags f \<noteq> [] \<and> \<not> matchesTags (om_Tags obj) (of_Tags f) then False
     else True)"

definition hasPrefix :: "string \<Rightarrow> string \<Rightarrow> bool" where
  "hasPrefix s p \<longleftrightarrow> (if p = [] then True else length p \<le> length s \<and> take (length p) s = p)"

section \<open>The upper bound of a prefix scan\<close>

definition inc_byte :: "char \<Rightarrow> char" where
  "inc_byte c = char_of ((of_char c + 1) mod 256 :: nat)"

text \<open>The loop runs from the last byte towards the first, so it recurses on the reversed key.\<close>

fun prefixEnd_loop :: "string \<Rightarrow> string option" where
  "prefixEnd_loop [] = None"
| "prefixEnd_loop (c # rest) =
     (if inc_byte c \<noteq> char_of (0 :: nat) then Some (rev (inc_byte c # rest)) else prefixEnd_loop rest)"

definition prefixEnd :: "string \<Rightarrow> string option" where
  "prefixEnd p = prefixEnd_loop (rev p)"

section \<open>Injectivity and disjointness\<close>

lemma objectKey_inj:
  "no_colon b \<Longrightarrow> no_colon b' \<Longrightarrow> objectKey b k = objectKey b' k' \<longleftrightarrow> b = b' \<and> k = k'"
  by (simp add: objectKey_def no_colon_def sep_inj)

lemma bucketKey_inj:
  "no_colon t \<Longrightarrow> no_colon t' \<Longrightarrow> bucketKey t n = bucketKey t' n' \<longleftrightarrow> t = t' \<and> n = n'"
  by (simp add: bucketKey_def no_colon_def sep_inj)

lemma objectVersionKey_inj:
  assumes "no_colon b" "no_colon b'" "no_colon v" "no_colon v'"
  shows "objectVersionKey b k v = objectVersionKey b' k' v' \<longleftrightarrow> b = b' \<and> k = k' \<and> v = v'"
  using assms sep_inj [of "CHR '':''" b b' "k @ '':'' @ v" "k' @ '':'' @ v'"]
    sep_inj_end [of "CHR '':''" v v' k k']
  by (auto simp: objectVersionKey_def no_colon_def)

lemma multipartIndexKey_inj:
  "no_colon b \<Longrightarrow> no_colon b' \<Longrightarrow> multipartIndexKey b u = multipartIndexKey b' u' \<longleftrightarrow> b = b' \<and> u = u'"
  by (simp add: multipartIndexKey_def no_colon_def sep_inj)

lemma multipartUploadKey_inj [simp]: "multipartUploadKey u = multipartUploadKey u' \<longleftrightarrow> u = u'"
  by (simp add: multipartUploadKey_def)

lemma tagIndexKey_inj:
  assumes "no_colon b" "no_colon b'" "no_colon t" "no_colon t'" "no_colon v" "no_colon v'"
  shows "tagIndexKey b t v k = tagIndexKey b' t' v' k' \<longleftrightarrow> b = b' \<and> t = t' \<and> v = v' \<and> k = k'"
  using assms sep_inj [of "CHR '':''" b b' "t @ '':'' @ v @ '':'' @ k" "t' @ '':'' @ v' @ '':'' @ k'"]
    sep_inj [of "CHR '':''" t t' "v @ '':'' @ k" "v' @ '':'' @ k'"]
    sep_inj [of "CHR '':''" v v' k k']
  by (auto simp: tagIndexKey_def no_colon_def)

text \<open>Keys of different kinds never coincide.\<close>

lemma key_kinds [simp]:
  "objectKey b k \<noteq> objectVersionKey b' k' v"
  "objectKey b k \<noteq> bucketKey t n"
  "objectKey b k \<noteq> multipartUploadKey u"
  "objectKey b k \<noteq> multipartIndexKey b' u"
  "objectKey b k \<noteq> partKey u p"
  "objectKey b k \<noteq> tagIndexKey b' tk tv k'"
  "objectVersionKey b' k' v \<noteq> objectKey b k"
  "objectVersionKey b' k' v \<noteq> bucketKey t n"
  "objectVersionKey b' k' v \<noteq> multipartUploadKey u"
  "objectVersionKey b' k' v \<noteq> multipartIndexKey b u"
  "objectVersionKey b' k' v \<noteq> partKey u p"
  "objectVersionKey b' k' v \<noteq> tagIndexKey b tk tv k"
  "bucketKey t n \<noteq> objectKey b k"
  "bucketKey t n \<noteq> objectVersionKey b' k' v"
  "bucketKey t n \<noteq> multipartUploadKey u"
  "bucketKey t n \<noteq> multipartIndexKey b u"
  "bucketKey t n \<noteq> partKey u p"
  "bucketKey t n \<noteq> tagIndexKey b tk tv k"
  "multipartUploadKey u \<noteq> objectKey b k"
  "multipartUploadKey u \<noteq> objectVersionKey b' k' v"
  "multipartUploadKey u \<noteq> bucketKey t n"
  "multipartUploadKey u \<noteq> multipartIndexKey b' u'"
  "multipartUploadKey u \<noteq> partKey u' p"
  "multipartUploadKey u \<noteq> tagIndexKey b tk tv k"
  "multipartIndexKey b u \<noteq> objectKey b' k"
  "multipartIndexKey b u \<noteq> objectVersionKey b' k' v"
  "multipartIndexKey b u \<noteq> bucketKey t n"
  "multipartIndexKey b u \<noteq> multipartUploadKey u'"
  "multipartIndexKey b u \<noteq> partKey u' p"
  "multipartIndexKey b u \<noteq> tagIndexKey b' tk tv k"
  "partKey u p \<noteq> objectKey b k"
  "partKey u p \<noteq> objectVersionKey b' k' v"
  "partKey u p \<noteq> bucketKey t n"
  "partKey u p \<noteq> multipartUploadKey u'"
  "partKey u p \<noteq> multipartIndexKey b u'"
  "partKey u p \<noteq> tagIndexKey b tk tv k"
  "tagIndexKey b tk tv k \<noteq> objectKey b' k'"
  "tagIndexKey b tk tv k \<noteq> objectVersionKey b' k' v"
  "tagIndexKey b tk tv k \<noteq> bucketKey t n"
  "tagIndexKey b tk tv k \<noteq> multipartUploadKey u"
  "tagIndexKey b tk tv k \<noteq> multipartIndexKey b' u"
  "tagIndexKey b tk tv k \<noteq> partKey u p"
  by (simp_all add: key_defs)

text \<open>The object name is read back from an object key.\<close>

lemma extract_objectKey [simp]: "no_colon b \<Longrightarrow> extractObjectKeyFromKey (objectKey b k) = k"
  by (simp add: extractObjectKeyFromKey_def objectKey_def no_colon_def numeral_3_eq_3)

lemma objectKey_scan:
  "no_colon b \<Longrightarrow> HasPrefix (objectKey b' k) (objectListPrefix b) \<Longrightarrow> no_colon b' \<Longrightarrow> b' = b"
  by (auto simp: HasPrefix_iff objectKey_def objectListPrefix_def no_colon_def sep_inj)

section \<open>Part numbers\<close>

lemma pad5_inj [simp]: "pad5 m = pad5 n \<longleftrightarrow> m = n"
proof
  assume eq: "pad5 m = pad5 n"
  have sign: "0 \<le> x \<longleftrightarrow> CHR ''-'' \<notin> set (pad5 x)" for x
    using digits_no_sign [of "nat \<bar>x\<bar>"] by (auto simp: pad5_def Let_def)
  have val: "dec_value (if 0 \<le> x then pad5 x else tl (pad5 x)) = nat \<bar>x\<bar>" for x
    by (simp add: pad5_def Let_def)
  have "0 \<le> m \<longleftrightarrow> 0 \<le> n" using eq sign by simp
  with eq val [of m] val [of n] have "nat \<bar>m\<bar> = nat \<bar>n\<bar>" by metis
  with \<open>0 \<le> m \<longleftrightarrow> 0 \<le> n\<close> show "m = n" by auto
qed simp

lemma no_colon_pad5 [simp]: "no_colon (pad5 n)"
  using digits_no_sign [of "nat \<bar>n\<bar>"] by (auto simp: pad5_def Let_def no_colon_def)

lemma partKey_inj [simp]: "partKey u p = partKey u' p' \<longleftrightarrow> u = u' \<and> p = p'"
  using no_colon_pad5 [of p] no_colon_pad5 [of p']
  by (auto simp: partKey_def no_colon_def sep_inj_end)

section \<open>prefixEnd bounds exactly the keys with the prefix\<close>

lemma between_prefix:
  "(q @ x :: string) \<le> k \<Longrightarrow> k < q @ y \<Longrightarrow> \<exists>r. k = q @ r \<and> x \<le> r \<and> r < y"
proof (induction q arbitrary: k)
  case (Cons a q)
  then obtain k' where "k = a # k'" "q @ x \<le> k'" "k' < q @ y" by (cases k) auto
  with Cons.IH show ?case by auto
qed simp

lemma of_inc_byte_mod: "(of_char (inc_byte c) :: nat) = (of_char c + 1) mod 256"
  by (simp add: inc_byte_def of_char_of)

lemma inc_byte_top: "inc_byte c = char_of (0 :: nat) \<longleftrightarrow> (of_char c :: nat) = 255"
proof -
  have "inc_byte c = char_of (0 :: nat) \<longleftrightarrow> (of_char (inc_byte c) :: nat) = of_char (char_of (0 :: nat) :: char)"
    by (simp only: of_char_eq_iff)
  also have "\<dots> \<longleftrightarrow> ((of_char c :: nat) + 1) mod 256 = 0"
    by (simp only: of_inc_byte_mod of_char_of) simp
  also have "\<dots> \<longleftrightarrow> (of_char c :: nat) = 255"
  proof -
    have "(x + 1) mod 256 = 0 \<longleftrightarrow> x = 255" if "x \<le> 255" for x :: nat
      using that by (cases "x = 255") simp_all
    from this [OF of_char_bound [of c]] show ?thesis .
  qed
  finally show ?thesis .
qed

lemma of_inc_byte: "inc_byte c \<noteq> char_of (0 :: nat) \<Longrightarrow> (of_char (inc_byte c) :: nat) = of_char c + 1"
proof -
  assume "inc_byte c \<noteq> char_of (0 :: nat)"
  with of_char_bound [of c] have "(of_char c :: nat) + 1 < 256"
    unfolding inc_byte_top by linarith
  then show ?thesis unfolding of_inc_byte_mod by (rule mod_less)
qed

lemma char_le_top: "(of_char c :: nat) = 255 \<Longrightarrow> (d :: char) \<le> c"
  using of_char_bound [of d] by (simp only: less_eq_char_def)

lemma byte_interval: "inc_byte c \<noteq> char_of (0 :: nat) \<Longrightarrow> [c] \<le> r \<Longrightarrow> r < [inc_byte c] \<Longrightarrow> \<exists>s. r = c # s"
proof (cases r)
  case (Cons d s)
  assume "inc_byte c \<noteq> char_of (0 :: nat)" "[c] \<le> r" "r < [inc_byte c]"
  with Cons have "c \<le> d" "d < inc_byte c" by auto
  with of_inc_byte [OF \<open>inc_byte c \<noteq> char_of (0 :: nat)\<close>] have "(of_char d :: nat) = of_char c"
    by (simp only: less_eq_char_def less_char_def)
  with Cons show ?thesis by simp
qed simp

text \<open>
  A key has the prefix exactly when it lies between the prefix and \<open>prefixEnd\<close> of it; where
  every byte of the prefix is \<open>0xFF\<close> there is no upper bound and none is needed.
\<close>

lemma prefixEnd_bounds: "HasPrefix k p \<longleftrightarrow> p \<le> k \<and> below k (prefixEnd p)"
proof (induction p rule: rev_induct)
  case Nil
  then show ?case by (simp add: prefixEnd_def below_def)
next
  case (snoc c q)
  show ?case
  proof (cases "inc_byte c = char_of (0 :: nat)")
    case True
    then have top: "d \<le> c" for d by (simp add: inc_byte_top char_le_top)
    have "prefixEnd (q @ [c]) = prefixEnd q" using True by (simp add: prefixEnd_def)
    moreover have "HasPrefix k (q @ [c])" if "q @ [c] \<le> k" "below k (prefixEnd q)"
    proof -
      have "q \<le> q @ [c]" by (rule HasPrefix_le) simp
      with that snoc.IH obtain r where "k = q @ r" by (auto simp: HasPrefix_iff)
      moreover from this that(1) have "[c] \<le> r" by simp
      then have "\<exists>s. r = c # s" using top [of "hd r"] by (cases r) auto
      ultimately show ?thesis by (auto simp: HasPrefix_iff)
    qed
    moreover have "below k (prefixEnd q)" if "HasPrefix k (q @ [c])"
      using that snoc.IH HasPrefix_trans [of k "q @ [c]" q] by auto
    ultimately show ?thesis using HasPrefix_le [of k "q @ [c]"] by auto
  next
    case False
    then have e: "prefixEnd (q @ [c]) = Some (q @ [inc_byte c])" by (simp add: prefixEnd_def)
    have "HasPrefix k (q @ [c])" if "q @ [c] \<le> k" "k < q @ [inc_byte c]"
      using between_prefix [OF that] byte_interval [OF False] by (auto simp: HasPrefix_iff)
    moreover have "k < q @ [inc_byte c]" if "HasPrefix k (q @ [c])"
    proof -
      have "c < inc_byte c" by (simp only: less_char_def of_inc_byte [OF False])
      with that show ?thesis by (auto simp: HasPrefix_iff)
    qed
    ultimately show ?thesis using HasPrefix_le [of k "q @ [c]"] unfolding e below_def by auto
  qed
qed

end
