(* ===== verification/Pebble_Store.thy ===== *)
theory Pebble_Store
  imports Meta_Keys
begin

text \<open>
  The base of \<^verbatim>\<open>internal/metadata/pebble_store.go\<close>: the state of a \<^verbatim>\<open>PebbleStore\<close>, its read and
  write helpers, and the bucket operations. Operations take the engine \<open>E\<close> first and, where
  the code calls \<^verbatim>\<open>time.Now()\<close>, the time; they return an error or the new state. An error
  leaves the state as it was, since every operation commits at most once and does so last.
  The mutexes make each operation one atomic step, so they have no counterpart in the state.
\<close>

section \<open>State and helpers\<close>

record 'db pstore =
  ps_db :: 'db
  ps_ready :: bool
  ps_deletedBuckets :: "string set"
  ps_walDirty :: bool

text \<open>The state \<^verbatim>\<open>NewPebbleStore\<close> builds over an opened database.\<close>

definition NewPebbleStore :: "'db \<Rightarrow> 'db pstore" where
  "NewPebbleStore db = \<lparr>ps_db = db, ps_ready = True, ps_deletedBuckets = {}, ps_walDirty = False\<rparr>"

lemma NewPebbleStore_simps [simp]:
  "ps_db (NewPebbleStore db) = db"
  "ps_deletedBuckets (NewPebbleStore db) = {}"
  by (simp_all add: NewPebbleStore_def)

abbreviation sto :: "('db \<Rightarrow> contents) \<Rightarrow> 'db pstore \<Rightarrow> contents" where
  "sto cont s \<equiv> cont (ps_db s)"

definition commitNoSync :: "'db engine \<Rightarrow> batch_op list \<Rightarrow> 'db pstore \<Rightarrow> meta_error + 'db pstore" where
  "commitNoSync E batch s = (case eng_commit E (ps_db s) False batch of
       Inl e \<Rightarrow> Inl (ErrEngine e)
     | Inr db \<Rightarrow> Inr (s\<lparr>ps_db := db, ps_walDirty := True\<rparr>))"

definition setNoSync :: "'db engine \<Rightarrow> string \<Rightarrow> kv_value \<Rightarrow> 'db pstore \<Rightarrow> meta_error + 'db pstore" where
  "setNoSync E key v s = (case eng_commit E (ps_db s) False [BSet key v] of
       Inl e \<Rightarrow> Inl (ErrEngine e)
     | Inr db \<Rightarrow> Inr (s\<lparr>ps_db := db, ps_walDirty := True\<rparr>))"

text \<open>\<^verbatim>\<open>db.Set\<close>, \<^verbatim>\<open>db.Delete\<close> and \<^verbatim>\<open>batch.Commit\<close> with \<^verbatim>\<open>pebble.Sync\<close>, which leave the dirty flag alone.\<close>

definition commitSync :: "'db engine \<Rightarrow> batch_op list \<Rightarrow> 'db pstore \<Rightarrow> meta_error + 'db pstore" where
  "commitSync E batch s = (case eng_commit E (ps_db s) True batch of
       Inl e \<Rightarrow> Inl (ErrEngine e)
     | Inr db \<Rightarrow> Inr (s\<lparr>ps_db := db\<rparr>))"

text \<open>The key was not found is \<open>Inr None\<close>; any other error of the engine is \<open>Inl\<close>.\<close>

definition pebbleGet :: "'db engine \<Rightarrow> string \<Rightarrow> 'db pstore \<Rightarrow> meta_error + kv_value option" where
  "pebbleGet E key s = (case eng_get E (ps_db s) key of Inl e \<Rightarrow> Inl (ErrEngine e) | Inr r \<Rightarrow> Inr r)"

definition pebbleIter :: "'db engine \<Rightarrow> string \<Rightarrow> 'db pstore \<Rightarrow> meta_error + ((string \<times> kv_value) list \<times> string option)" where
  "pebbleIter E lower s = (case eng_iter E (ps_db s) lower (prefixEnd lower) of
       Inl e \<Rightarrow> Inl (ErrEngine e) | Inr r \<Rightarrow> Inr r)"

definition bucketPathForMutation :: "string \<Rightarrow> string \<Rightarrow> string" where
  "bucketPathForMutation tenantID name = (if tenantID = '''' then name else tenantID @ ''/'' @ name)"

definition rejectWriteToDeletedBucket :: "string \<Rightarrow> 'db pstore \<Rightarrow> meta_error option" where
  "rejectWriteToDeletedBucket bucket s =
     (if bucket \<in> ps_deletedBuckets s then Some ErrBucketNotFound else None)"

section \<open>Bucket operations\<close>

definition stamp_bucket :: "gotime \<Rightarrow> bucket_metadata \<Rightarrow> bucket_metadata" where
  "stamp_bucket now b =
     (if IsZero (bm_CreatedAt b) then b\<lparr>bm_CreatedAt := now\<rparr> else b)\<lparr>bm_UpdatedAt := now\<rparr>"

text \<open>The loop of the global uniqueness check over the entries of the scan.\<close>

definition name_in_scan :: "string \<Rightarrow> (string \<times> kv_value) list \<Rightarrow> bool" where
  "name_in_scan name kvs \<longleftrightarrow>
     list_ex (\<lambda>(k, v). case decode_bucket v of Some existing \<Rightarrow> bm_Name existing = name | None \<Rightarrow> False) kvs"

definition CreateBucket :: "'db engine \<Rightarrow> gotime \<Rightarrow> bucket_metadata option \<Rightarrow> 'db pstore \<Rightarrow> meta_error + 'db pstore" where
  "CreateBucket E now bucket s = (case bucket of
     None \<Rightarrow> Inl (ErrMsg ''bucket metadata cannot be nil'')
   | Some b \<Rightarrow> (let key = bucketKey (bm_TenantID b) (bm_Name b) in
     case pebbleGet E key s of
       Inl e \<Rightarrow> Inl e
     | Inr (Some _) \<Rightarrow> Inl ErrBucketAlreadyExists
     | Inr None \<Rightarrow> (case pebbleIter E ''bucket:'' s of
         Inl e \<Rightarrow> Inl e
       | Inr (kvs, err) \<Rightarrow>
           if name_in_scan (bm_Name b) kvs
           then Inl ErrBucketAlreadyExists
           else (case err of
             Some e \<Rightarrow> Inl (ErrEngine e)
           | None \<Rightarrow>
               (case commitSync E [BSet key (JBucket (stamp_bucket now b))] s of
                 Inl e \<Rightarrow> Inl e
               | Inr s' \<Rightarrow> Inr (s'\<lparr>ps_deletedBuckets :=
                   ps_deletedBuckets s' - {bucketPathForMutation (bm_TenantID b) (bm_Name b)}\<rparr>))))))"

definition GetBucket :: "'db engine \<Rightarrow> string \<Rightarrow> string \<Rightarrow> 'db pstore \<Rightarrow> meta_error + bucket_metadata" where
  "GetBucket E tenantID name s = (case pebbleGet E (bucketKey tenantID name) s of
       Inl e \<Rightarrow> Inl e
     | Inr None \<Rightarrow> Inl ErrBucketNotFound
     | Inr (Some v) \<Rightarrow> (case decode_bucket v of None \<Rightarrow> Inl ErrDecode | Some b \<Rightarrow> Inr b))"

text \<open>
  \<^verbatim>\<open>UpdateBucket\<close> looks for the bucket and then writes it, with no lock between the two, so other calls may come in
  between. \<open>UpdateBucket\<close> is the call when none does.
\<close>

definition update_check :: "'db engine \<Rightarrow> bucket_metadata \<Rightarrow> 'db pstore \<Rightarrow> meta_error option" where
  "update_check E b s = (case pebbleGet E (bucketKey (bm_TenantID b) (bm_Name b)) s of
     Inl e \<Rightarrow> Some e | Inr None \<Rightarrow> Some ErrBucketNotFound | Inr (Some _) \<Rightarrow> None)"

definition update_write :: "'db engine \<Rightarrow> gotime \<Rightarrow> bucket_metadata \<Rightarrow> 'db pstore \<Rightarrow> meta_error + 'db pstore" where
  "update_write E now b s = (case commitSync E [BSet (bucketKey (bm_TenantID b) (bm_Name b)) (JBucket (b\<lparr>bm_UpdatedAt := now\<rparr>))] s of
     Inl e \<Rightarrow> Inl e
   | Inr s' \<Rightarrow> Inr (s'\<lparr>ps_deletedBuckets := ps_deletedBuckets s' - {bucketPathForMutation (bm_TenantID b) (bm_Name b)}\<rparr>))"

definition UpdateBucket :: "'db engine \<Rightarrow> gotime \<Rightarrow> bucket_metadata option \<Rightarrow> 'db pstore \<Rightarrow> meta_error + 'db pstore" where
  "UpdateBucket E now bucket s = (case bucket of
     None \<Rightarrow> Inl (ErrMsg ''bucket metadata cannot be nil'')
   | Some b \<Rightarrow> (case update_check E b s of Some e \<Rightarrow> Inl e | None \<Rightarrow> update_write E now b s))"

lemmas UpdateBucket_defs = UpdateBucket_def update_check_def update_write_def

definition DeleteBucket :: "'db engine \<Rightarrow> string \<Rightarrow> string \<Rightarrow> 'db pstore \<Rightarrow> meta_error + 'db pstore" where
  "DeleteBucket E tenantID name s = (let key = bucketKey tenantID name in
     case pebbleGet E key s of
       Inl e \<Rightarrow> Inl e
     | Inr None \<Rightarrow> Inl ErrBucketNotFound
     | Inr (Some _) \<Rightarrow> (case commitSync E [BDel key] s of
         Inl e \<Rightarrow> Inl e
       | Inr s' \<Rightarrow> Inr (s'\<lparr>ps_deletedBuckets :=
           insert (bucketPathForMutation tenantID name) (ps_deletedBuckets s')\<rparr>)))"

text \<open>\<^verbatim>\<open>iter.First()\<close> is false on an empty range and on an error; the code does not ask which.\<close>

definition DeleteBucketIfEmpty :: "'db engine \<Rightarrow> string \<Rightarrow> string \<Rightarrow> 'db pstore \<Rightarrow> meta_error + 'db pstore" where
  "DeleteBucketIfEmpty E tenantID name s = (let
       key = bucketKey tenantID name; bucketPath = bucketPathForMutation tenantID name in
     case pebbleGet E key s of
       Inl e \<Rightarrow> Inl e
     | Inr None \<Rightarrow> Inl ErrBucketNotFound
     | Inr (Some _) \<Rightarrow> (case pebbleIter E (''obj:'' @ bucketPath @ '':'') s of
         Inl e \<Rightarrow> Inl e
       | Inr (objs, _) \<Rightarrow>
         if objs \<noteq> [] then Inl ErrBucketNotEmpty
         else (case pebbleIter E (''version:'' @ bucketPath @ '':'') s of
           Inl e \<Rightarrow> Inl e
         | Inr (vers, _) \<Rightarrow>
           if vers \<noteq> [] then Inl ErrBucketNotEmpty
           else (case commitSync E [BDel key] s of
             Inl e \<Rightarrow> Inl e
           | Inr s' \<Rightarrow> Inr (s'\<lparr>ps_deletedBuckets := insert bucketPath (ps_deletedBuckets s')\<rparr>)))))"

definition ListBuckets :: "'db engine \<Rightarrow> string \<Rightarrow> 'db pstore \<Rightarrow> meta_error + bucket_metadata list" where
  "ListBuckets E tenantID s = (let
       lower = (if tenantID = '''' then ''bucket:'' else bucketListPrefix tenantID) in
     case pebbleIter E lower s of
       Inl e \<Rightarrow> Inl e
     | Inr (kvs, err) \<Rightarrow> (let buckets = List.map_filter (\<lambda>(k, v). decode_bucket v) kvs in
         case err of Some e \<Rightarrow> Inl (ErrEngine e) | None \<Rightarrow> Inr buckets))"

definition GetBucketByName :: "'db engine \<Rightarrow> string \<Rightarrow> 'db pstore \<Rightarrow> meta_error + bucket_metadata" where
  "GetBucketByName E name s = (case pebbleIter E ''bucket:'' s of
       Inl e \<Rightarrow> Inl e
     | Inr (kvs, err) \<Rightarrow>
         (case find (\<lambda>b. bm_Name b = name) (List.map_filter (\<lambda>(k, v). decode_bucket v) kvs) of
            Some b \<Rightarrow> Inr b
          | None \<Rightarrow> (case err of Some e \<Rightarrow> Inl (ErrEngine e) | None \<Rightarrow> Inl ErrBucketNotFound)))"

definition BucketExists :: "'db engine \<Rightarrow> string \<Rightarrow> string \<Rightarrow> 'db pstore \<Rightarrow> meta_error + bool" where
  "BucketExists E tenantID name s = (case pebbleGet E (bucketKey tenantID name) s of
       Inl e \<Rightarrow> Inl e | Inr None \<Rightarrow> Inr False | Inr (Some _) \<Rightarrow> Inr True)"

definition clamp0 :: "int \<Rightarrow> int" where
  "clamp0 n = (if n < 0 then 0 else n)"

definition UpdateBucketMetrics :: "'db engine \<Rightarrow> gotime \<Rightarrow> string \<Rightarrow> string \<Rightarrow> int \<Rightarrow> int \<Rightarrow> 'db pstore \<Rightarrow> meta_error + 'db pstore" where
  "UpdateBucketMetrics E now tenantID bucketName objectCountDelta sizeDelta s =
     (let key = bucketKey tenantID bucketName in
      case pebbleGet E key s of
        Inl e \<Rightarrow> Inl e
      | Inr None \<Rightarrow> Inl ErrBucketNotFound
      | Inr (Some v) \<Rightarrow> (case decode_bucket v of
          None \<Rightarrow> Inl ErrDecode
        | Some b \<Rightarrow> setNoSync E key (JBucket (b\<lparr>
            bm_ObjectCount := clamp0 (add64 (bm_ObjectCount b) objectCountDelta),
            bm_TotalSize := clamp0 (add64 (bm_TotalSize b) sizeDelta),
            bm_UpdatedAt := now\<rparr>)) s))"

definition GetBucketStats :: "'db engine \<Rightarrow> string \<Rightarrow> string \<Rightarrow> 'db pstore \<Rightarrow> meta_error + (int \<times> int)" where
  "GetBucketStats E tenantID bucketName s = (case GetBucket E tenantID bucketName s of
       Inl e \<Rightarrow> Inl e | Inr b \<Rightarrow> Inr (bm_ObjectCount b, bm_TotalSize b))"

definition is_delete_marker :: "object_metadata \<Rightarrow> bool" where
  "is_delete_marker obj \<longleftrightarrow> om_ETag obj = '''' \<and> om_Size obj = 0"

fun count_objects :: "(string \<times> kv_value) list \<Rightarrow> int \<times> int \<Rightarrow> int \<times> int" where
  "count_objects [] acc = acc"
| "count_objects ((k, v) # kvs) (objectCount, totalSize) = (case decode_object v of
       None \<Rightarrow> count_objects kvs (objectCount, totalSize)
     | Some obj \<Rightarrow>
         if is_delete_marker obj then count_objects kvs (objectCount, totalSize)
         else count_objects kvs (add64 objectCount 1, add64 totalSize (om_Size obj)))"

definition RecalculateBucketStats :: "'db engine \<Rightarrow> gotime \<Rightarrow> string \<Rightarrow> string \<Rightarrow> 'db pstore \<Rightarrow> meta_error + 'db pstore" where
  "RecalculateBucketStats E now tenantID bucketName s = (let
       fullBucketPath = (if tenantID \<noteq> '''' then tenantID @ ''/'' @ bucketName else bucketName) in
     case pebbleIter E (objectListPrefix fullBucketPath) s of
       Inl e \<Rightarrow> Inl e
     | Inr (kvs, err) \<Rightarrow> (let (objectCount, totalSize) = count_objects kvs (0, 0) in
       case err of
         Some e \<Rightarrow> Inl (ErrEngine e)
       | None \<Rightarrow> (let key = bucketKey tenantID bucketName in
         case pebbleGet E key s of
           Inl e \<Rightarrow> Inl e
         | Inr None \<Rightarrow> Inl (ErrEngine ''pebble: not found'')
         | Inr (Some v) \<Rightarrow> (case decode_bucket v of
             None \<Rightarrow> Inl ErrDecode
           | Some b \<Rightarrow> setNoSync E key (JBucket (b\<lparr>
               bm_ObjectCount := objectCount, bm_TotalSize := totalSize, bm_UpdatedAt := now\<rparr>)) s))))"

definition IsReady :: "'db pstore \<Rightarrow> bool" where
  "IsReady s = ps_ready s"

section \<open>Raw key-value operations\<close>

definition GetRaw :: "'db engine \<Rightarrow> string \<Rightarrow> 'db pstore \<Rightarrow> meta_error + kv_value" where
  "GetRaw E key s = (case pebbleGet E key s of
       Inl e \<Rightarrow> Inl e | Inr None \<Rightarrow> Inl ErrNotFound | Inr (Some v) \<Rightarrow> Inr v)"

definition PutRaw :: "'db engine \<Rightarrow> string \<Rightarrow> kv_value \<Rightarrow> 'db pstore \<Rightarrow> meta_error + 'db pstore" where
  "PutRaw E key v s = setNoSync E key v s"

text \<open>Deleting an absent key succeeds in Pebble, so the \<^verbatim>\<open>ErrNotFound\<close> branch is dead code.\<close>

definition DeleteRaw :: "'db engine \<Rightarrow> string \<Rightarrow> 'db pstore \<Rightarrow> meta_error + 'db pstore" where
  "DeleteRaw E key s = commitSync E [BDel key] s"

definition RawBatch :: "'db engine \<Rightarrow> (string \<times> kv_value) list \<Rightarrow> string list \<Rightarrow> 'db pstore \<Rightarrow> meta_error + 'db pstore" where
  "RawBatch E sets deletes s =
     commitNoSync E (map (\<lambda>(k, v). BSet k v) sets @ map BDel deletes) s"

text \<open>
  The callback of a scan is a closure: it takes and returns what it captures. The loop also
  says whether it ran to the end of the iterator, where \<^verbatim>\<open>iter.Error()\<close> may report a failure;
  a scan that the callback stopped has none to report.
\<close>

fun scan_loop :: "('a \<Rightarrow> string \<Rightarrow> kv_value \<Rightarrow> 'a \<times> bool) \<Rightarrow> (string \<times> kv_value) list \<Rightarrow> 'a \<Rightarrow> 'a \<times> bool" where
  "scan_loop f [] a = (a, True)"
| "scan_loop f ((k, v) # kvs) a = (case f a k v of (a', continue) \<Rightarrow>
     if continue then scan_loop f kvs a' else (a', False))"

definition RawScan :: "'db engine \<Rightarrow> string \<Rightarrow> string \<Rightarrow> ('a \<Rightarrow> string \<Rightarrow> kv_value \<Rightarrow> 'a \<times> bool) \<Rightarrow> 'a
    \<Rightarrow> 'db pstore \<Rightarrow> 'a \<times> meta_error option" where
  "RawScan E prfx startKey f a s = (let
       seekKey = (if startKey \<noteq> '''' \<and> prfx \<le> startKey then startKey else prfx) in
     case eng_iter E (ps_db s) prfx (prefixEnd prfx) of
       Inl e \<Rightarrow> (a, Some (ErrEngine e))
     | Inr (kvs, err) \<Rightarrow>
         (case scan_loop f (dropWhile (\<lambda>(k, v). k < seekKey) kvs) a of
            (a', ended) \<Rightarrow> (a', if ended then map_option ErrEngine err else None)))"

lemmas op_splits = sum.splits option.splits if_splits prod.splits

lemmas asm_splits = sum.split_asm option.split_asm if_split_asm prod.split_asm

lemmas write_defs = commitNoSync_def setNoSync_def commitSync_def

section \<open>Key typing\<close>

text \<open>
  What the store keeps under each kind of key. The typing is the invariant that makes
  \<^verbatim>\<open>json.Unmarshal\<close> succeed: a key of a reserved kind holds a document of that kind, stored
  under the key its own fields give, and the fields that precede a colon in the key hold none,
  so that the key determines them.
\<close>

definition reserved_key :: "string \<Rightarrow> bool" where
  "reserved_key k \<longleftrightarrow>
     list_ex (HasPrefix k) [''bucket:'', ''obj:'', ''version:'', ''multipart:'', ''part:'']"

fun kv_typed :: "string \<Rightarrow> kv_value \<Rightarrow> bool" where
  "kv_typed k (JBucket b) \<longleftrightarrow>
     k = bucketKey (bm_TenantID b) (bm_Name b) \<and> no_colon (bm_TenantID b)"
| "kv_typed k (JObject ob) \<longleftrightarrow> no_colon (om_Bucket ob) \<and>
     (k = objectKey (om_Bucket ob) (om_Key ob) \<or>
      k = objectVersionKey (om_Bucket ob) (om_Key ob) (om_VersionID ob) \<and> no_colon (om_VersionID ob))"
| "kv_typed k (JUpload u) \<longleftrightarrow> k = multipartUploadKey (um_UploadID u) \<and> no_colon (um_UploadID u)"
| "kv_typed k (JPart p) \<longleftrightarrow> k = partKey (pt_UploadID p) (pt_PartNumber p) \<and> no_colon (pt_UploadID p)"
| "kv_typed k (JAcl _) \<longleftrightarrow> \<not> reserved_key k"
| "kv_typed k (Bytes _) \<longleftrightarrow> \<not> reserved_key k"

definition typed :: "contents \<Rightarrow> bool" where
  "typed m \<longleftrightarrow> (\<forall>k v. m k = Some v \<longrightarrow> kv_typed k v)"

fun typed_op :: "batch_op \<Rightarrow> bool" where
  "typed_op (BSet k v) \<longleftrightarrow> kv_typed k v"
| "typed_op (BDel k) \<longleftrightarrow> True"

lemma typedD: "typed m \<Longrightarrow> m k = Some v \<Longrightarrow> kv_typed k v"
  by (simp add: typed_def)

lemma typed_apply_op: "typed m \<Longrightarrow> typed_op b \<Longrightarrow> typed (apply_op b m)"
  by (cases b) (auto simp: typed_def)

lemma typed_batch: "typed m \<Longrightarrow> list_all typed_op ops \<Longrightarrow> typed (apply_batch ops m)"
  by (induction ops arbitrary: m) (simp_all add: typed_apply_op)

lemma typed_upd: "typed m \<Longrightarrow> kv_typed k v \<Longrightarrow> typed (m(k \<mapsto> v))"
  using typed_apply_op [of m "BSet k v"] by simp

lemma typed_del: "typed m \<Longrightarrow> typed (m(k := None))"
  using typed_apply_op [of m "BDel k"] by simp

lemma typed_empty [simp]: "typed Map.empty"
  by (simp add: typed_def)

lemma typed_map_of: "list_all (\<lambda>(k, v). kv_typed k v) kvs \<Longrightarrow> typed (map_of kvs)"
  by (auto simp: typed_def list_all_iff dest: map_of_SomeD)

lemma prefix_kinds:
  "HasPrefix k ''bucket:'' \<Longrightarrow> kv_typed k v \<Longrightarrow>
     \<exists>b. v = JBucket b \<and> k = bucketKey (bm_TenantID b) (bm_Name b) \<and> no_colon (bm_TenantID b)"
  "HasPrefix k ''obj:'' \<Longrightarrow> kv_typed k v \<Longrightarrow>
     \<exists>ob. v = JObject ob \<and> k = objectKey (om_Bucket ob) (om_Key ob) \<and> no_colon (om_Bucket ob)"
  "HasPrefix k ''version:'' \<Longrightarrow> kv_typed k v \<Longrightarrow>
     \<exists>ob. v = JObject ob \<and> k = objectVersionKey (om_Bucket ob) (om_Key ob) (om_VersionID ob) \<and>
          no_colon (om_Bucket ob) \<and> no_colon (om_VersionID ob)"
  "HasPrefix k ''multipart:'' \<Longrightarrow> kv_typed k v \<Longrightarrow> 
     \<exists>u. v = JUpload u \<and> k = multipartUploadKey (um_UploadID u) \<and> no_colon (um_UploadID u)"
  "HasPrefix k ''part:'' \<Longrightarrow> kv_typed k v \<Longrightarrow>
     \<exists>p. v = JPart p \<and> k = partKey (pt_UploadID p) (pt_PartNumber p) \<and> no_colon (pt_UploadID p)"
  by (cases v; auto simp: HasPrefix_iff reserved_key_def key_defs)+

text \<open>What a typed store holds under a key of each kind.\<close>

lemma key_prefixes [simp]:
  "HasPrefix (bucketKey t n) ''bucket:''"
  "HasPrefix (objectKey b k) ''obj:''"
  "HasPrefix (objectVersionKey b k v) ''version:''"
  "HasPrefix (multipartUploadKey u) ''multipart:''"
  "HasPrefix (partKey u p) ''part:''"
  by (simp_all add: key_defs HasPrefix_def)

lemma typed_bucket:
  "typed m \<Longrightarrow> m (bucketKey t n) = Some v \<Longrightarrow> no_colon t \<Longrightarrow>
     \<exists>b. v = JBucket b \<and> bm_TenantID b = t \<and> bm_Name b = n"
  using prefix_kinds(1) [of "bucketKey t n" v] by (auto simp: typed_def bucketKey_inj)

lemma typed_object:
  "typed m \<Longrightarrow> m (objectKey bk k) = Some v \<Longrightarrow> no_colon bk \<Longrightarrow>
     \<exists>ob. v = JObject ob \<and> om_Bucket ob = bk \<and> om_Key ob = k"
  using prefix_kinds(2) [of "objectKey bk k" v] by (auto simp: typed_def objectKey_inj)

lemma typed_version:
  "typed m \<Longrightarrow> m (objectVersionKey bk k vid) = Some v \<Longrightarrow> no_colon bk \<Longrightarrow> no_colon vid \<Longrightarrow>
     \<exists>ob. v = JObject ob \<and> om_Bucket ob = bk \<and> om_Key ob = k \<and> om_VersionID ob = vid"
  using prefix_kinds(3) [of "objectVersionKey bk k vid" v] by (auto simp: typed_def objectVersionKey_inj)

lemma typed_upload:
  "typed m \<Longrightarrow> m (multipartUploadKey u) = Some v \<Longrightarrow> \<exists>x. v = JUpload x \<and> um_UploadID x = u"
  using prefix_kinds(4) [of "multipartUploadKey u" v] by (auto simp: typed_def)

lemma typed_part:
  "typed m \<Longrightarrow> m (partKey u p) = Some v \<Longrightarrow> \<exists>x. v = JPart x \<and> pt_UploadID x = u \<and> pt_PartNumber x = p"
  using prefix_kinds(5) [of "partKey u p" v] by (auto simp: typed_def)

lemma reserved_keys [simp]:
  "reserved_key (bucketKey t n)"
  "reserved_key (objectKey b k)"
  "reserved_key (objectVersionKey b k v)"
  "reserved_key (multipartUploadKey u)"
  "reserved_key (partKey u p)"
  "\<not> reserved_key (tagIndexKey b tk tv k)"
  "\<not> reserved_key (multipartIndexKey b u)"
  by (simp_all add: reserved_key_def key_defs HasPrefix_def)

section \<open>What the helpers guarantee\<close>

context pebble_engine
begin

lemma commitNoSync_sound [sound]:
  "commitNoSync E ops s = Inr s' \<Longrightarrow>
     sto cont s' = apply_batch ops (sto cont s) \<and> ps_deletedBuckets s' = ps_deletedBuckets s"
  by (auto simp: commitNoSync_def split: sum.splits dest: commit_sound)

lemma setNoSync_sound [sound]:
  "setNoSync E k v s = Inr s' \<Longrightarrow>
     sto cont s' = (sto cont s)(k \<mapsto> v) \<and> ps_deletedBuckets s' = ps_deletedBuckets s"
  by (auto simp: setNoSync_def split: sum.splits dest: commit_sound)

lemma commitSync_sound [sound]:
  "commitSync E ops s = Inr s' \<Longrightarrow>
     sto cont s' = apply_batch ops (sto cont s) \<and> ps_deletedBuckets s' = ps_deletedBuckets s"
  by (auto simp: commitSync_def split: sum.splits dest: commit_sound)

lemma pebbleGet_sound [sound]: "pebbleGet E k s = Inr r \<Longrightarrow> sto cont s k = r"
  by (auto simp: pebbleGet_def split: sum.splits dest: get_sound)

lemma pebbleIter_member [sound]:
  "pebbleIter E p s = Inr (kvs, err) \<Longrightarrow> (k, v) \<in> set kvs \<Longrightarrow> sto cont s k = Some v \<and> HasPrefix k p"
  by (auto simp: pebbleIter_def prefixEnd_bounds split: sum.splits dest: iter_member)

lemma pebbleIter_sorted: "pebbleIter E p s = Inr (kvs, err) \<Longrightarrow> sorted_wrt (<) (map fst kvs)"
  by (auto simp: pebbleIter_def split: sum.splits dest: iter_sorted)

lemma pebbleIter_complete:
  "pebbleIter E p s = Inr (kvs, None) \<Longrightarrow> set kvs = {(k, v). sto cont s k = Some v \<and> HasPrefix k p}"
  by (auto simp: pebbleIter_def prefixEnd_bounds lists_range_def split: sum.splits dest!: iter_complete)

end

context pebble_reliable
begin

lemma pebbleGet_ok [simp]: "pebbleGet E k s = Inr (sto cont s k)"
  by (simp add: pebbleGet_def get_ok)

lemma commit_total:
  "\<exists>s'. commitNoSync E ops s = Inr s'" "\<exists>s'. commitSync E ops s = Inr s'" "\<exists>s'. setNoSync E k v s = Inr s'"
  using commit_ok [of "ps_db s" False ops] commit_ok [of "ps_db s" True ops]
    commit_ok [of "ps_db s" False "[BSet k v]"]
  by (auto simp: write_defs)

lemma pebbleIter_ok: "\<exists>kvs. pebbleIter E p s = Inr (kvs, None)"
  using iter_ok [of "ps_db s" p "prefixEnd p"] by (auto simp: pebbleIter_def)

end

end
