(* ===== verification/Meta_Buckets.thy ===== *)
theory Meta_Buckets
  imports Pebble_Store
begin

text \<open>
  Correctness of the bucket operations of \<^verbatim>\<open>internal/metadata/pebble_store.go\<close>: what each
  operation does to the stored map, global uniqueness of bucket names, deletion of empty
  buckets only, and the bucket counters.
\<close>

fun stored_name :: "kv_value option \<Rightarrow> string option" where
  "stored_name (Some (JBucket b)) = Some (bm_Name b)"
| "stored_name _ = None"

definition unique_names :: "contents \<Rightarrow> bool" where
  "unique_names m \<longleftrightarrow> (\<forall>k k' n. stored_name (m k) = Some n \<longrightarrow> stored_name (m k') = Some n \<longrightarrow> k = k')"

definition name_taken :: "string \<Rightarrow> contents \<Rightarrow> bool" where
  "name_taken n m \<longleftrightarrow> (\<exists>k. stored_name (m k) = Some n)"

fun counters_in_range :: "kv_value option \<Rightarrow> bool" where
  "counters_in_range (Some (JBucket b)) \<longleftrightarrow>
     i64 (bm_ObjectCount b) \<and> i64 (bm_TotalSize b)"
| "counters_in_range _ \<longleftrightarrow> True"

definition counters_ok :: "contents \<Rightarrow> bool" where
  "counters_ok m \<longleftrightarrow> (\<forall>k. counters_in_range (m k))"

lemma stored_name_Some: "stored_name v = Some n \<longleftrightarrow> (\<exists>b. v = Some (JBucket b) \<and> bm_Name b = n)"
  by (cases v rule: stored_name.cases) simp_all

lemma stamp_bucket_fields [simp]:
  "bm_Name (stamp_bucket now b) = bm_Name b"
  "bm_TenantID (stamp_bucket now b) = bm_TenantID b"
  "bm_ObjectCount (stamp_bucket now b) = bm_ObjectCount b"
  "bm_TotalSize (stamp_bucket now b) = bm_TotalSize b"
  by (simp_all add: stamp_bucket_def)

lemma name_in_scan_iff: "name_in_scan n kvs \<longleftrightarrow> (\<exists>(k, v)\<in>set kvs. stored_name (Some v) = Some n)"
proof -
  have "(case decode_bucket v of Some x \<Rightarrow> bm_Name x = n | None \<Rightarrow> False) \<longleftrightarrow> stored_name (Some v) = Some n" for v
    by (cases v) simp_all
  then show ?thesis by (simp add: name_in_scan_def list_ex_iff)
qed

lemma typed_name_prefix: "typed m \<Longrightarrow> stored_name (m k) = Some n \<Longrightarrow> HasPrefix k ''bucket:''"
  by (cases "m k" rule: stored_name.cases) (auto dest: typedD)

lemma clamp0_range: "i64 x \<Longrightarrow> 0 \<le> clamp0 x \<and> clamp0 x < 2 ^ 63"
  by (simp add: clamp0_def i64_def)

section \<open>Effect of each operation\<close>

context pebble_engine
begin

lemma CreateBucket_sound [sound]:
  assumes "CreateBucket E now (Some b) s = Inr s'"
  shows "sto cont s (bucketKey (bm_TenantID b) (bm_Name b)) = None"
    and "HasPrefix k ''bucket:'' \<Longrightarrow> stored_name (sto cont s k) \<noteq> Some (bm_Name b)"
    and "sto cont s' = (sto cont s)(bucketKey (bm_TenantID b) (bm_Name b) \<mapsto> JBucket (stamp_bucket now b))"
    and "ps_deletedBuckets s' = ps_deletedBuckets s - {bucketPathForMutation (bm_TenantID b) (bm_Name b)}"
proof -
  let ?key = "bucketKey (bm_TenantID b) (bm_Name b)"
  from assms obtain kvs s1 where get: "pebbleGet E ?key s = Inr None"
    and it: "pebbleIter E ''bucket:'' s = Inr (kvs, None)"
    and no: "\<not> name_in_scan (bm_Name b) kvs"
    and w: "commitSync E [BSet ?key (JBucket (stamp_bucket now b))] s = Inr s1"
    and s': "s' = s1\<lparr>ps_deletedBuckets := ps_deletedBuckets s1 - {bucketPathForMutation (bm_TenantID b) (bm_Name b)}\<rparr>"
    by (auto simp: CreateBucket_def Let_def split: asm_splits)
  show "sto cont s ?key = None" using get by (rule pebbleGet_sound)
  show "sto cont s' = (sto cont s)(?key \<mapsto> JBucket (stamp_bucket now b))"
    "ps_deletedBuckets s' = ps_deletedBuckets s - {bucketPathForMutation (bm_TenantID b) (bm_Name b)}"
    using commitSync_sound [OF w] s' by auto
  show "stored_name (sto cont s k) \<noteq> Some (bm_Name b)" if "HasPrefix k ''bucket:''"
  proof (cases "sto cont s k")
    case (Some v)
    with that pebbleIter_complete [OF it] have "(k, v) \<in> set kvs" by simp
    with no Some show ?thesis by (auto simp: name_in_scan_iff)
  qed simp
qed

lemma UpdateBucket_sound [sound]:
  assumes "UpdateBucket E now (Some b) s = Inr s'"
  shows "sto cont s (bucketKey (bm_TenantID b) (bm_Name b)) \<noteq> None"
    and "sto cont s' = (sto cont s)(bucketKey (bm_TenantID b) (bm_Name b) \<mapsto> JBucket (b\<lparr>bm_UpdatedAt := now\<rparr>))"
    and "ps_deletedBuckets s' = ps_deletedBuckets s - {bucketPathForMutation (bm_TenantID b) (bm_Name b)}"
proof -
  let ?key = "bucketKey (bm_TenantID b) (bm_Name b)"
  from assms obtain v s1 where get: "pebbleGet E ?key s = Inr (Some v)"
    and w: "commitSync E [BSet ?key (JBucket (b\<lparr>bm_UpdatedAt := now\<rparr>))] s = Inr s1"
    and s': "s' = s1\<lparr>ps_deletedBuckets := ps_deletedBuckets s1 - {bucketPathForMutation (bm_TenantID b) (bm_Name b)}\<rparr>"
    by (auto simp: UpdateBucket_defs Let_def split: asm_splits)
  show "sto cont s ?key \<noteq> None" using pebbleGet_sound [OF get] by simp
  show "sto cont s' = (sto cont s)(?key \<mapsto> JBucket (b\<lparr>bm_UpdatedAt := now\<rparr>))"
    "ps_deletedBuckets s' = ps_deletedBuckets s - {bucketPathForMutation (bm_TenantID b) (bm_Name b)}"
    using commitSync_sound [OF w] s' by simp_all
qed

lemma DeleteBucket_sound [sound]:
  assumes "DeleteBucket E t n s = Inr s'"
  shows "sto cont s (bucketKey t n) \<noteq> None"
    and "sto cont s' = (sto cont s)(bucketKey t n := None)"
    and "ps_deletedBuckets s' = insert (bucketPathForMutation t n) (ps_deletedBuckets s)"
proof -
  from assms obtain v s1 where get: "pebbleGet E (bucketKey t n) s = Inr (Some v)"
    and w: "commitSync E [BDel (bucketKey t n)] s = Inr s1"
    and s': "s' = s1\<lparr>ps_deletedBuckets := insert (bucketPathForMutation t n) (ps_deletedBuckets s1)\<rparr>"
    by (auto simp: DeleteBucket_def Let_def split: asm_splits)
  show "sto cont s (bucketKey t n) \<noteq> None" using pebbleGet_sound [OF get] by simp
  show "sto cont s' = (sto cont s)(bucketKey t n := None)"
    "ps_deletedBuckets s' = insert (bucketPathForMutation t n) (ps_deletedBuckets s)"
    using commitSync_sound [OF w] s' by simp_all
qed

lemma DeleteBucketIfEmpty_sound [sound]:
  assumes "DeleteBucketIfEmpty E t n s = Inr s'"
  shows "sto cont s (bucketKey t n) \<noteq> None"
    and "sto cont s' = (sto cont s)(bucketKey t n := None)"
    and "ps_deletedBuckets s' = insert (bucketPathForMutation t n) (ps_deletedBuckets s)"
proof -
  from assms obtain v s1 where get: "pebbleGet E (bucketKey t n) s = Inr (Some v)"
    and w: "commitSync E [BDel (bucketKey t n)] s = Inr s1"
    and s': "s' = s1\<lparr>ps_deletedBuckets := insert (bucketPathForMutation t n) (ps_deletedBuckets s1)\<rparr>"
    by (auto simp: DeleteBucketIfEmpty_def Let_def split: asm_splits)
  show "sto cont s (bucketKey t n) \<noteq> None" using pebbleGet_sound [OF get] by simp
  show "sto cont s' = (sto cont s)(bucketKey t n := None)"
    "ps_deletedBuckets s' = insert (bucketPathForMutation t n) (ps_deletedBuckets s)"
    using commitSync_sound [OF w] s' by simp_all
qed

lemma UpdateBucketMetrics_sound [sound]:
  assumes "UpdateBucketMetrics E now t n dc ds s = Inr s'"
  shows "\<exists>b. sto cont s (bucketKey t n) = Some (JBucket b) \<and>
    sto cont s' = (sto cont s)(bucketKey t n \<mapsto> JBucket (b\<lparr>
      bm_ObjectCount := clamp0 (add64 (bm_ObjectCount b) dc),
      bm_TotalSize := clamp0 (add64 (bm_TotalSize b) ds), bm_UpdatedAt := now\<rparr>)) \<and>
    ps_deletedBuckets s' = ps_deletedBuckets s"
  using assms by (auto simp: UpdateBucketMetrics_def Let_def split: asm_splits dest!: setNoSync_sound pebbleGet_sound)

lemma RecalculateBucketStats_sound [sound]:
  assumes "RecalculateBucketStats E now t n s = Inr s'"
  shows "\<exists>b kvs. sto cont s (bucketKey t n) = Some (JBucket b) \<and>
    pebbleIter E (objectListPrefix (bucketPathForMutation t n)) s = Inr (kvs, None) \<and>
    sto cont s' = (sto cont s)(bucketKey t n \<mapsto> JBucket (b\<lparr>
      bm_ObjectCount := fst (count_objects kvs (0, 0)),
      bm_TotalSize := snd (count_objects kvs (0, 0)), bm_UpdatedAt := now\<rparr>)) \<and>
    ps_deletedBuckets s' = ps_deletedBuckets s"
  using assms
  by (auto simp: RecalculateBucketStats_def Let_def bucketPathForMutation_def
      split: asm_splits dest!: setNoSync_sound pebbleGet_sound)

lemma GetBucket_sound [sound]:
  "GetBucket E t n s = Inr b \<Longrightarrow> sto cont s (bucketKey t n) = Some (JBucket b)"
  by (auto simp: GetBucket_def split: asm_splits dest!: pebbleGet_sound)

end

section \<open>Uniqueness of bucket names\<close>

lemma name_taken_key:
  "typed m \<Longrightarrow> no_colon t \<Longrightarrow> m (bucketKey t n) \<noteq> None \<Longrightarrow> stored_name (m (bucketKey t n)) = Some n"
  using typed_bucket [of m t n] by fastforce

lemma unique_names_add:
  "unique_names m \<Longrightarrow> \<not> name_taken (bm_Name b) m \<Longrightarrow> unique_names (m(k \<mapsto> JBucket b))"
  unfolding unique_names_def name_taken_def by auto

text \<open>Overwriting a document by one with the same name keeps the names unique.\<close>

lemma unique_names_replace:
  "unique_names m \<Longrightarrow> stored_name (m k) = stored_name (Some v) \<Longrightarrow> unique_names (m(k \<mapsto> v))"
  unfolding unique_names_def by (metis fun_upd_apply)

lemma unique_names_delete: "unique_names m \<Longrightarrow> unique_names (m(k := None))"
  by (simp add: unique_names_def)

context pebble_reliable
begin

lemma CreateBucket_taken:
  assumes "typed (sto cont s)" "name_taken (bm_Name b) (sto cont s)"
  shows "CreateBucket E now (Some b) s = Inl ErrBucketAlreadyExists"
proof -
  obtain kvs where it: "pebbleIter E ''bucket:'' s = Inr (kvs, None)" using pebbleIter_ok by blast
  from assms(2) obtain k where k: "stored_name (sto cont s k) = Some (bm_Name b)"
    by (auto simp: name_taken_def)
  then obtain v where "sto cont s k = Some v" by (cases "sto cont s k") auto
  with k typed_name_prefix [OF assms(1) k] have "name_in_scan (bm_Name b) kvs"
    unfolding name_in_scan_iff pebbleIter_complete [OF it] by (auto intro: bexI [of _ "(k, v)"])
  with it show ?thesis by (simp add: CreateBucket_def Let_def split: option.split)
qed

lemma CreateBucket_free:
  assumes "typed (sto cont s)" "no_colon (bm_TenantID b)" "\<not> name_taken (bm_Name b) (sto cont s)"
  shows "\<exists>s'. CreateBucket E now (Some b) s = Inr s'"
proof -
  obtain kvs where it: "pebbleIter E ''bucket:'' s = Inr (kvs, None)" using pebbleIter_ok by blast
  have "\<not> name_in_scan (bm_Name b) kvs"
    using assms(3) unfolding name_in_scan_iff pebbleIter_complete [OF it] name_taken_def by clarsimp metis
  moreover have "sto cont s (bucketKey (bm_TenantID b) (bm_Name b)) = None"
    using name_taken_key [OF assms(1,2)] assms(3) unfolding name_taken_def by blast
  moreover obtain s1 where
    "commitSync E [BSet (bucketKey (bm_TenantID b) (bm_Name b)) (JBucket (stamp_bucket now b))] s = Inr s1"
    using commit_total(2) by blast
  ultimately show ?thesis using it by (simp add: CreateBucket_def Let_def)
qed

lemma GetBucket_ok: "sto cont s (bucketKey t n) = Some (JBucket b) \<Longrightarrow> GetBucket E t n s = Inr b"
  by (simp add: GetBucket_def)

end

text \<open>
  C26. \<^verbatim>\<open>CreateBucket\<close> enforces global uniqueness: with an engine that does not fail it returns
  \<^verbatim>\<open>ErrBucketAlreadyExists\<close> exactly when some bucket of any tenant has the name, and otherwise
  stores the stamped document under its key alone, from where \<^verbatim>\<open>GetBucket\<close> reads it back.
\<close>

theorem create_bucket_outcome:
  assumes "pebble_reliable E cont" "typed (sto cont s)" "no_colon (bm_TenantID b)"
  shows "case CreateBucket E now (Some b) s of
      Inl e \<Rightarrow> e = ErrBucketAlreadyExists \<and> name_taken (bm_Name b) (sto cont s)
    | Inr s' \<Rightarrow> \<not> name_taken (bm_Name b) (sto cont s) \<and>
        sto cont s' = (sto cont s)(bucketKey (bm_TenantID b) (bm_Name b) \<mapsto> JBucket (stamp_bucket now b)) \<and>
        GetBucket E (bm_TenantID b) (bm_Name b) s' = Inr (stamp_bucket now b) \<and>
        bucketPathForMutation (bm_TenantID b) (bm_Name b) \<notin> ps_deletedBuckets s'"
proof -
  note P = assms(1)
  have PE: "pebble_engine E cont" using P by (simp add: pebble_reliable_def)
  show ?thesis
  proof (cases "name_taken (bm_Name b) (sto cont s)")
    case True
    with pebble_reliable.CreateBucket_taken [OF P assms(2)] show ?thesis by simp
  next
    case False
    then obtain s' where s': "CreateBucket E now (Some b) s = Inr s'"
      using pebble_reliable.CreateBucket_free [OF P assms(2,3)] by blast
    note snd = pebble_engine.CreateBucket_sound(3,4) [OF PE s']
    have "GetBucket E (bm_TenantID b) (bm_Name b) s' = Inr (stamp_bucket now b)"
      using snd by (intro pebble_reliable.GetBucket_ok [OF P]) simp
    with False s' snd show ?thesis by simp
  qed
qed

definition photos_bucket :: bucket_metadata where
  "photos_bucket = zero_bucket\<lparr>bm_Name := ''photos'', bm_TenantID := ''t1''\<rparr>"

definition photos_store :: "(string \<times> kv_value) list pstore" where
  "photos_store = NewPebbleStore [(bucketKey ''t1'' ''photos'', JBucket photos_bucket)]"

lemma photos_store_typed: "typed (sto map_of photos_store)"
  unfolding photos_store_def NewPebbleStore_simps
  by (rule typed_map_of) (simp add: photos_bucket_def)

lemma photos_taken: "name_taken n (sto map_of photos_store) \<longleftrightarrow> n = ''photos''"
  by (auto simp: name_taken_def photos_store_def photos_bucket_def)

theorem create_bucket_outcome_witness:
  "CreateBucket mem_engine 7 (Some (zero_bucket\<lparr>bm_Name := ''photos'', bm_TenantID := ''t2''\<rparr>)) photos_store
     = Inl ErrBucketAlreadyExists \<and>
   (\<exists>s'. CreateBucket mem_engine 7 (Some (zero_bucket\<lparr>bm_Name := ''video'', bm_TenantID := ''t2''\<rparr>)) photos_store = Inr s' \<and>
      GetBucket mem_engine ''t2'' ''video'' s' =
        Inr (stamp_bucket 7 (zero_bucket\<lparr>bm_Name := ''video'', bm_TenantID := ''t2''\<rparr>)))"
  using create_bucket_outcome [OF mem.pebble_reliable_axioms photos_store_typed,
      of "zero_bucket\<lparr>bm_Name := ''photos'', bm_TenantID := ''t2''\<rparr>" 7]
    create_bucket_outcome [OF mem.pebble_reliable_axioms photos_store_typed,
      of "zero_bucket\<lparr>bm_Name := ''video'', bm_TenantID := ''t2''\<rparr>" 7]
  by (simp add: photos_taken split: sum.split_asm)

section \<open>Deleting a bucket only when it is empty\<close>

definition bucket_empty :: "string \<Rightarrow> contents \<Rightarrow> bool" where
  "bucket_empty bp m \<longleftrightarrow> (\<forall>k. HasPrefix k (''obj:'' @ bp @ '':'') \<or> HasPrefix k (''version:'' @ bp @ '':'') \<longrightarrow> m k = None)"

context pebble_reliable
begin

lemma pebbleIter_Nil:
  assumes "pebbleIter E p s = Inr (kvs, None)"
  shows "kvs = [] \<longleftrightarrow> (\<forall>k. HasPrefix k p \<longrightarrow> sto cont s k = None)"
proof -
  have "kvs = [] \<longleftrightarrow> set kvs = {}" by simp
  also have "\<dots> \<longleftrightarrow> (\<forall>k v. HasPrefix k p \<longrightarrow> sto cont s k \<noteq> Some v)"
    unfolding pebbleIter_complete [OF assms] by auto
  also have "\<dots> \<longleftrightarrow> (\<forall>k. HasPrefix k p \<longrightarrow> sto cont s k = None)" by (metis not_None_eq)
  finally show ?thesis .
qed

lemma DeleteBucketIfEmpty_cases:
  fixes s :: "'db pstore" and t n :: string
  defines "bp \<equiv> bucketPathForMutation t n"
  shows "sto cont s (bucketKey t n) = None \<Longrightarrow> DeleteBucketIfEmpty E t n s = Inl ErrBucketNotFound"
    and "sto cont s (bucketKey t n) \<noteq> None \<Longrightarrow> \<not> bucket_empty bp (sto cont s) \<Longrightarrow>
           DeleteBucketIfEmpty E t n s = Inl ErrBucketNotEmpty"
    and "sto cont s (bucketKey t n) \<noteq> None \<Longrightarrow> bucket_empty bp (sto cont s) \<Longrightarrow>
           \<exists>s'. DeleteBucketIfEmpty E t n s = Inr s'"
proof -
  obtain os vs where os: "pebbleIter E (''obj:'' @ bp @ '':'') s = Inr (os, None)"
    and vs: "pebbleIter E (''version:'' @ bp @ '':'') s = Inr (vs, None)"
    using pebbleIter_ok by meson
  obtain s1 where s1: "commitSync E [BDel (bucketKey t n)] s = Inr s1" using commit_total(2) by blast
  have e: "bucket_empty bp (sto cont s) \<longleftrightarrow> os = [] \<and> vs = []"
    using pebbleIter_Nil [OF os] pebbleIter_Nil [OF vs] by (auto simp: bucket_empty_def)
  note d = DeleteBucketIfEmpty_def Let_def bp_def [symmetric]
  show "sto cont s (bucketKey t n) = None \<Longrightarrow> DeleteBucketIfEmpty E t n s = Inl ErrBucketNotFound"
    by (simp add: d)
  show "sto cont s (bucketKey t n) \<noteq> None \<Longrightarrow> \<not> bucket_empty bp (sto cont s) \<Longrightarrow>
      DeleteBucketIfEmpty E t n s = Inl ErrBucketNotEmpty"
    using os vs by (auto simp: d e)
  show "sto cont s (bucketKey t n) \<noteq> None \<Longrightarrow> bucket_empty bp (sto cont s) \<Longrightarrow>
      \<exists>s'. DeleteBucketIfEmpty E t n s = Inr s'"
    using os vs s1 by (auto simp: d e)
qed

end

text \<open>
  C27. \<^verbatim>\<open>DeleteBucketIfEmpty\<close> deletes exactly the empty buckets: with an engine that does not
  fail, an absent bucket gives \<^verbatim>\<open>ErrBucketNotFound\<close>, one with an object or a version left gives
  \<^verbatim>\<open>ErrBucketNotEmpty\<close>, and any other is removed, nothing else changes, and later object writes
  to it are rejected.
\<close>

theorem delete_bucket_if_empty_outcome:
  assumes "pebble_reliable E cont"
  shows "case DeleteBucketIfEmpty E t n s of
      Inl e \<Rightarrow> (if sto cont s (bucketKey t n) = None then e = ErrBucketNotFound
               else e = ErrBucketNotEmpty \<and> \<not> bucket_empty (bucketPathForMutation t n) (sto cont s))
    | Inr s' \<Rightarrow> sto cont s (bucketKey t n) \<noteq> None \<and> bucket_empty (bucketPathForMutation t n) (sto cont s) \<and>
        sto cont s' = (sto cont s)(bucketKey t n := None) \<and>
        rejectWriteToDeletedBucket (bucketPathForMutation t n) s' = Some ErrBucketNotFound"
proof -
  note P = assms
  have PE: "pebble_engine E cont" using P by (simp add: pebble_reliable_def)
  note c = pebble_reliable.DeleteBucketIfEmpty_cases [OF P, of s t n]
  consider "sto cont s (bucketKey t n) = None"
    | "sto cont s (bucketKey t n) \<noteq> None" "\<not> bucket_empty (bucketPathForMutation t n) (sto cont s)"
    | "sto cont s (bucketKey t n) \<noteq> None" "bucket_empty (bucketPathForMutation t n) (sto cont s)"
    by blast
  then show ?thesis
  proof cases
    case 3
    then obtain s' where s': "DeleteBucketIfEmpty E t n s = Inr s'" using c(3) by blast
    with pebble_engine.DeleteBucketIfEmpty_sound [OF PE s'] 3 show ?thesis
      by (simp add: rejectWriteToDeletedBucket_def)
  qed (use c in simp_all)
qed

theorem delete_bucket_if_empty_outcome_witness:
  "\<exists>s'. DeleteBucketIfEmpty mem_engine ''t1'' ''photos'' photos_store = Inr s' \<and>
     sto map_of s' (bucketKey ''t1'' ''photos'') = None"
proof -
  have "sto map_of photos_store (bucketKey ''t1'' ''photos'') \<noteq> None"
    "bucket_empty (bucketPathForMutation ''t1'' ''photos'') (sto map_of photos_store)"
    by (auto simp: photos_store_def bucket_empty_def bucketKey_def HasPrefix_iff)
  then show ?thesis
    using delete_bucket_if_empty_outcome [OF mem.pebble_reliable_axioms, of photos_store "''t1''" "''photos''"]
    by (simp split: sum.split_asm)
qed

section \<open>Counters\<close>

fun live_value :: "kv_value option \<Rightarrow> bool" where
  "live_value (Some (JObject ob)) \<longleftrightarrow> \<not> is_delete_marker ob"
| "live_value _ \<longleftrightarrow> False"

definition live_keys :: "string \<Rightarrow> contents \<Rightarrow> string set" where
  "live_keys bp m = {k. HasPrefix k (objectListPrefix bp) \<and> live_value (m k)}"

fun stored_size :: "kv_value option \<Rightarrow> int" where
  "stored_size (Some (JObject ob)) = om_Size ob"
| "stored_size _ = 0"

definition live_entries :: "(string \<times> kv_value) list \<Rightarrow> (string \<times> kv_value) list" where
  "live_entries kvs = filter (\<lambda>(k, v). live_value (Some v)) kvs"

lemma count_objects_wrap:
  "count_objects kvs (wrap64 a, wrap64 c) =
     (wrap64 (a + int (length (live_entries kvs))),
      wrap64 (c + (\<Sum>(k, v)\<leftarrow>live_entries kvs. stored_size (Some v))))"
proof (induction kvs arbitrary: a c)
  case (Cons kv kvs)
  obtain k v where "kv = (k, v)" by force
  with Cons show ?case
    by (cases v) (simp_all add: live_entries_def algebra_simps)
qed (simp add: live_entries_def)

lemma live_value_Some: "live_value v \<Longrightarrow> \<exists>x. v = Some x"
  by (cases v) auto

lemma live_entries_keys:
  "set kvs = {(k, v). m k = Some v \<and> HasPrefix k (objectListPrefix bp)} \<Longrightarrow>
     set (map fst (live_entries kvs)) = live_keys bp m"
proof -
  assume "set kvs = {(k, v). m k = Some v \<and> HasPrefix k (objectListPrefix bp)}"
  then have "set (live_entries kvs) = {(k, v). m k = Some v \<and> HasPrefix k (objectListPrefix bp) \<and> live_value (Some v)}"
    by (auto simp: live_entries_def)
  moreover have "live_keys bp m = {k. \<exists>v. m k = Some v \<and> HasPrefix k (objectListPrefix bp) \<and> live_value (Some v)}"
    unfolding live_keys_def using live_value_Some by fastforce
  ultimately show ?thesis by (auto simp: image_iff)
qed

lemma live_sums:
  assumes "sorted_wrt (<) (map fst kvs)"
    and "set kvs = {(k, v). m k = Some v \<and> HasPrefix k (objectListPrefix bp)}"
  shows "length (live_entries kvs) = card (live_keys bp m)"
    and "(\<Sum>(k, v)\<leftarrow>live_entries kvs. stored_size (Some v)) = (\<Sum>k\<in>live_keys bp m. stored_size (m k))"
proof -
  have d: "distinct (map fst (live_entries kvs))"
    using sorted_wrt_less_distinct [OF assms(1)] by (simp add: live_entries_def distinct_map_filter)
  note keys = live_entries_keys [OF assms(2)]
  show "length (live_entries kvs) = card (live_keys bp m)"
    using distinct_card [OF d] keys by simp
  have m: "m k = Some v" if "(k, v) \<in> set (live_entries kvs)" for k v
    using that assms(2) by (auto simp: live_entries_def)
  have "map (\<lambda>(k, v). stored_size (Some v)) (live_entries kvs) =
      map (\<lambda>k. stored_size (m k)) (map fst (live_entries kvs))"
    using m by (auto simp: o_def)
  then show "(\<Sum>(k, v)\<leftarrow>live_entries kvs. stored_size (Some v)) = (\<Sum>k\<in>live_keys bp m. stored_size (m k))"
    using sum_list_distinct_conv_sum_set [OF d, of "\<lambda>k. stored_size (m k)"] keys by (simp only:)
qed

text \<open>
  C28. \<^verbatim>\<open>RecalculateBucketStats\<close> is exact: when it returns, the bucket document holds the number
  and the total size, as \<^verbatim>\<open>int64\<close>, of the objects of that bucket that are not delete markers,
  and nothing else in the store has changed. No engine failure goes unnoticed.
\<close>

theorem recalculate_exact:
  assumes "pebble_engine E cont" "RecalculateBucketStats E now t n s = Inr s'"
  shows "\<exists>b. sto cont s (bucketKey t n) = Some (JBucket b) \<and>
    sto cont s' = (sto cont s)(bucketKey t n \<mapsto> JBucket (b\<lparr>
      bm_ObjectCount := wrap64 (int (card (live_keys (bucketPathForMutation t n) (sto cont s)))),
      bm_TotalSize := wrap64 (\<Sum>k\<in>live_keys (bucketPathForMutation t n) (sto cont s). stored_size (sto cont s k)),
      bm_UpdatedAt := now\<rparr>))"
proof -
  from pebble_engine.RecalculateBucketStats_sound [OF assms] obtain b kvs where
    b: "sto cont s (bucketKey t n) = Some (JBucket b)"
    and it: "pebbleIter E (objectListPrefix (bucketPathForMutation t n)) s = Inr (kvs, None)"
    and s': "sto cont s' = (sto cont s)(bucketKey t n \<mapsto> JBucket (b\<lparr>
      bm_ObjectCount := fst (count_objects kvs (0, 0)),
      bm_TotalSize := snd (count_objects kvs (0, 0)), bm_UpdatedAt := now\<rparr>))" by blast
  note live = live_sums [OF pebble_engine.pebbleIter_sorted [OF assms(1) it]
      pebble_engine.pebbleIter_complete [OF assms(1) it]]
  with count_objects_wrap [of kvs 0 0] b s' show ?thesis by simp
qed

definition album_store :: "(string \<times> kv_value) list pstore" where
  "album_store = NewPebbleStore
     [(bucketKey ''t1'' ''photos'', JBucket photos_bucket),
      (objectKey ''t1/photos'' ''a.jpg'', JObject (zero_object\<lparr>om_Bucket := ''t1/photos'', om_Key := ''a.jpg'',
         om_Size := 40, om_ETag := ''e1''\<rparr>)),
      (objectKey ''t1/photos'' ''gone'', JObject (zero_object\<lparr>om_Bucket := ''t1/photos'', om_Key := ''gone''\<rparr>))]"

lemma album_live: "live_keys (bucketPathForMutation ''t1'' ''photos'') (sto map_of album_store) = {objectKey ''t1/photos'' ''a.jpg''}"
  by (auto simp: live_keys_def album_store_def bucketPathForMutation_def objectListPrefix_def
      objectKey_def bucketKey_def HasPrefix_def is_delete_marker_def zero_object_def split: if_split_asm)

context pebble_reliable
begin

lemma RecalculateBucketStats_ok:
  assumes "sto cont s (bucketKey t n) = Some (JBucket b)"
  shows "\<exists>s'. RecalculateBucketStats E now t n s = Inr s'"
proof -
  obtain kvs where it: "pebbleIter E (objectListPrefix (bucketPathForMutation t n)) s = Inr (kvs, None)"
    using pebbleIter_ok by blast
  obtain c z where "count_objects kvs (0, 0) = (c, z)" by force
  with it assms show ?thesis
    using commit_total(3) by (cases "t = []") (simp_all add: RecalculateBucketStats_def bucketPathForMutation_def)
qed

end

theorem recalculate_exact_witness:
  "\<exists>s' b. RecalculateBucketStats mem_engine 9 ''t1'' ''photos'' album_store = Inr s' \<and>
     sto map_of s' (bucketKey ''t1'' ''photos'') = Some (JBucket b) \<and>
     bm_ObjectCount b = 1 \<and> bm_TotalSize b = 40"
proof -
  have "sto map_of album_store (bucketKey ''t1'' ''photos'') = Some (JBucket photos_bucket)"
    by (simp add: album_store_def)
  then obtain s' where s': "RecalculateBucketStats mem_engine 9 ''t1'' ''photos'' album_store = Inr s'"
    using mem.RecalculateBucketStats_ok by blast
  have size: "stored_size (sto map_of album_store (objectKey ''t1/photos'' ''a.jpg'')) = 40"
    by (simp add: album_store_def)
  obtain b where "sto map_of s' (bucketKey ''t1'' ''photos'') = Some (JBucket (b\<lparr>
      bm_ObjectCount := wrap64 1, bm_TotalSize := wrap64 40, bm_UpdatedAt := 9\<rparr>))"
    using recalculate_exact [OF mem.pebble_engine_axioms s'] unfolding album_live by (auto simp: size)
  with s' show ?thesis by (auto simp: i64_def)
qed

end
