(* ===== verification/Meta_Objects.thy ===== *)
theory Meta_Objects
  imports Meta_Buckets "HOL-Library.Product_Lexorder"
begin

text \<open>
  The object, version and tag operations of \<^verbatim>\<open>internal/metadata/pebble_objects.go\<close>, what each
  writes, and the properties of reads after writes, of the tag index and of versions.
  A variadic \<^verbatim>\<open>versionID\<close> is a string, empty where the caller gives none.
\<close>

section \<open>Objects\<close>

definition stamp_object :: "gotime \<Rightarrow> object_metadata \<Rightarrow> object_metadata" where
  "stamp_object now obj = (let
     obj = (if IsZero (om_CreatedAt obj) then obj\<lparr>om_CreatedAt := now\<rparr> else obj);
     obj = obj\<lparr>om_UpdatedAt := now\<rparr>
   in if IsZero (om_LastModified obj) \<or> Unix (om_LastModified obj) \<le> 0 then obj\<lparr>om_LastModified := now\<rparr> else obj)"

definition tag_dels :: "string \<Rightarrow> string \<Rightarrow> smap \<Rightarrow> batch_op list" where
  "tag_dels bucket key tags = map (\<lambda>(tagKey, tagValue). BDel (tagIndexKey bucket tagKey tagValue key)) tags"

definition tag_sets :: "string \<Rightarrow> string \<Rightarrow> smap \<Rightarrow> batch_op list" where
  "tag_sets bucket key tags = map (\<lambda>(tagKey, tagValue). BSet (tagIndexKey bucket tagKey tagValue key) (Bytes [])) tags"

text \<open>The index entries of the object currently stored at the key; an unreadable one has none.\<close>

definition old_tag_dels :: "string \<Rightarrow> string \<Rightarrow> kv_value option \<Rightarrow> batch_op list" where
  "old_tag_dels bucket key existingData = (case existingData of None \<Rightarrow> [] | Some v \<Rightarrow>
     (case decode_object v of None \<Rightarrow> [] | Some existing \<Rightarrow> tag_dels bucket key (om_Tags existing)))"

definition PutObject :: "'db engine \<Rightarrow> gotime \<Rightarrow> object_metadata option \<Rightarrow> 'db pstore \<Rightarrow> meta_error + 'db pstore" where
  "PutObject E now objp s = (case objp of
     None \<Rightarrow> Inl (ErrMsg ''object metadata cannot be nil'')
   | Some obj \<Rightarrow>
     if om_Bucket obj = [] \<or> om_Key obj = [] then Inl ErrInvalidKey
     else (case rejectWriteToDeletedBucket (om_Bucket obj) s of
       Some e \<Rightarrow> Inl e
     | None \<Rightarrow> (let obj = stamp_object now obj; data = JObject obj in
         case pebbleGet E (objectKey (om_Bucket obj) (om_Key obj)) s of
           Inl e \<Rightarrow> Inl e
         | Inr existingData \<Rightarrow>
             commitNoSync E
               (old_tag_dels (om_Bucket obj) (om_Key obj) existingData @
                (if om_VersionID obj \<noteq> [] then [BSet (objectVersionKey (om_Bucket obj) (om_Key obj) (om_VersionID obj)) data] else []) @
                (if om_VersionID obj = [] \<or> om_IsLatest obj then [BSet (objectKey (om_Bucket obj) (om_Key obj)) data] else []) @
                tag_sets (om_Bucket obj) (om_Key obj) (om_Tags obj)) s)))"

definition objKeyFor :: "string \<Rightarrow> string \<Rightarrow> string \<Rightarrow> string" where
  "objKeyFor bucket key versionID =
     (if versionID \<noteq> [] then objectVersionKey bucket key versionID else objectKey bucket key)"

definition fill_object :: "string \<Rightarrow> string \<Rightarrow> object_metadata \<Rightarrow> object_metadata" where
  "fill_object bucket key obj = (let
     obj = (if om_Bucket obj = [] then obj\<lparr>om_Bucket := bucket\<rparr> else obj)
   in if om_Key obj = [] then obj\<lparr>om_Key := key\<rparr> else obj)"

definition GetObject :: "'db engine \<Rightarrow> string \<Rightarrow> string \<Rightarrow> string \<Rightarrow> 'db pstore \<Rightarrow> meta_error + object_metadata" where
  "GetObject E bucket key versionID s =
     (if bucket = [] \<or> key = [] then Inl ErrInvalidKey
      else (case pebbleGet E (objKeyFor bucket key versionID) s of
          Inl e \<Rightarrow> Inl e
        | Inr None \<Rightarrow> Inl ErrObjectNotFound
        | Inr (Some v) \<Rightarrow> (case decode_object v of
            None \<Rightarrow> Inl ErrDecode
          | Some obj \<Rightarrow> Inr (fill_object bucket key obj))))"

definition DeleteObject :: "'db engine \<Rightarrow> string \<Rightarrow> string \<Rightarrow> string \<Rightarrow> 'db pstore \<Rightarrow> meta_error + 'db pstore" where
  "DeleteObject E bucket key versionID s =
     (if bucket = [] \<or> key = [] then Inl ErrInvalidKey
      else (let objKey = objKeyFor bucket key versionID in
        case pebbleGet E objKey s of
          Inl e \<Rightarrow> Inl e
        | Inr None \<Rightarrow> Inl ErrObjectNotFound
        | Inr (Some v) \<Rightarrow> (case decode_object v of
            None \<Rightarrow> Inl ErrDecode
          | Some obj \<Rightarrow> commitSync E (tag_dels bucket key (om_Tags obj) @ [BDel objKey]) s)))"

definition ObjectExists :: "'db engine \<Rightarrow> string \<Rightarrow> string \<Rightarrow> 'db pstore \<Rightarrow> meta_error + bool" where
  "ObjectExists E bucket key s =
     (if bucket = [] \<or> key = [] then Inl ErrInvalidKey
      else (case pebbleGet E (objectKey bucket key) s of
          Inl e \<Rightarrow> Inl e | Inr None \<Rightarrow> Inr False | Inr (Some _) \<Rightarrow> Inr True))"

section \<open>Versions\<close>

text \<open>The updates that take the latest mark off the versions a scan delivers.\<close>

definition unlatest :: "string \<Rightarrow> (string \<times> kv_value) list \<Rightarrow> batch_op list" where
  "unlatest key kvs = List.map_filter (\<lambda>(k, v). case decode_object v of
       None \<Rightarrow> None
     | Some existing \<Rightarrow>
         if om_Key existing \<noteq> key then None
         else if om_IsLatest existing then Some (BSet k (JObject (existing\<lparr>om_IsLatest := False\<rparr>)))
         else None) kvs"

definition PutObjectVersion :: "'db engine \<Rightarrow> object_metadata option \<Rightarrow> object_version option \<Rightarrow> 'db pstore \<Rightarrow> meta_error + 'db pstore" where
  "PutObjectVersion E objp versionp s = (case (objp, versionp) of
     (Some obj, Some version) \<Rightarrow> (case rejectWriteToDeletedBucket (om_Bucket obj) s of
         Some e \<Rightarrow> Inl e
       | None \<Rightarrow> (case
           (if ov_IsLatest version
            then (case pebbleIter E (versionScanPrefix (om_Bucket obj) (om_Key obj)) s of
                Inl e \<Rightarrow> Inl e
              | Inr (kvs, err) \<Rightarrow> (let updates = unlatest (om_Key obj) kvs in
                  case err of Some e \<Rightarrow> Inl (ErrEngine e) | None \<Rightarrow> Inr updates))
            else Inr [])
         of Inl e \<Rightarrow> Inl e
          | Inr updates \<Rightarrow> (let
              obj = obj\<lparr>om_VersionID := ov_VersionID version, om_IsLatest := ov_IsLatest version\<rparr>;
              versionData = JObject obj
            in commitNoSync E
              (updates @ [BSet (objectVersionKey (om_Bucket obj) (om_Key obj) (ov_VersionID version)) versionData] @
               (if ov_IsLatest version then [BSet (objectKey (om_Bucket obj) (om_Key obj)) versionData] else [])) s)))
   | _ \<Rightarrow> Inl (ErrMsg ''object and version metadata cannot be nil''))"

definition to_version :: "object_metadata \<Rightarrow> object_version" where
  "to_version obj = zero_version\<lparr>ov_VersionID := om_VersionID obj, ov_IsLatest := om_IsLatest obj,
     ov_Key := om_Key obj, ov_Size := om_Size obj, ov_ETag := om_ETag obj,
     ov_LastModified := om_LastModified obj, ov_StorageClass := om_StorageClass obj\<rparr>"

text \<open>
  \<^verbatim>\<open>sort.Slice\<close> leaves the order of equal elements open; a stable sort stands for it, and no
  statement below depends on the order of elements that compare equal.
\<close>

definition GetObjectVersions :: "'db engine \<Rightarrow> string \<Rightarrow> string \<Rightarrow> 'db pstore \<Rightarrow> meta_error + object_version list" where
  "GetObjectVersions E bucket key s = (case pebbleIter E (versionScanPrefix bucket key) s of
       Inl e \<Rightarrow> Inl e
     | Inr (kvs, err) \<Rightarrow> (let
         versions = map to_version (filter (\<lambda>obj. om_Key obj = key) (List.map_filter (\<lambda>(k, v). decode_object v) kvs)) in
         case err of Some e \<Rightarrow> Inl (ErrEngine e) | None \<Rightarrow> Inr (sort_key (\<lambda>v. - ov_LastModified v) versions)))"

text \<open>
  A collecting loop of \<^verbatim>\<open>ListAllObjectVersions\<close>: it appends until the limit is reached and says
  whether it ran to the end of the iterator.
\<close>

fun collect_versions :: "(object_metadata \<Rightarrow> object_version option) \<Rightarrow> int \<Rightarrow> (string \<times> kv_value) list
    \<Rightarrow> object_version list \<Rightarrow> object_version list \<times> bool" where
  "collect_versions f maxKeys [] acc = (acc, True)"
| "collect_versions f maxKeys ((k, v) # kvs) acc = (case decode_object v of
       None \<Rightarrow> collect_versions f maxKeys kvs acc
     | Some obj \<Rightarrow> (case f obj of
         None \<Rightarrow> collect_versions f maxKeys kvs acc
       | Some ver \<Rightarrow> (let acc = acc @ [ver] in
           if maxKeys > 0 \<and> int (length acc) \<ge> maxKeys then (acc, False)
           else collect_versions f maxKeys kvs acc)))"

definition version_before :: "object_version \<Rightarrow> string \<times> int" where
  "version_before v = (ov_Key v, - ov_LastModified v)"

definition ListAllObjectVersions :: "'db engine \<Rightarrow> string \<Rightarrow> string \<Rightarrow> int \<Rightarrow> 'db pstore \<Rightarrow> meta_error + object_version list" where
  "ListAllObjectVersions E bucket prfx maxKeys s = (case pebbleIter E (versionBucketPrefix bucket) s of
       Inl e \<Rightarrow> Inl e
     | Inr (vkvs, verr) \<Rightarrow>
       (case collect_versions (\<lambda>obj. if prfx \<noteq> [] \<and> \<not> HasPrefix (om_Key obj) prfx then None else Some (to_version obj)) maxKeys vkvs [] of
         (versioned, vended) \<Rightarrow>
       (case (if vended then verr else None) of
         Some e \<Rightarrow> Inl (ErrEngine e)
       | None \<Rightarrow>
         (case (if maxKeys \<le> 0 \<or> int (length versioned) < maxKeys
                then (case pebbleIter E (''obj:'' @ bucket @ '':'') s of
                    Inl e \<Rightarrow> Inl e
                  | Inr (okvs, oerr) \<Rightarrow>
                    (case collect_versions (\<lambda>obj.
                         if om_Key obj \<in> ov_Key ` set versioned then None
                         else if prfx \<noteq> [] \<and> \<not> HasPrefix (om_Key obj) prfx then None
                         else Some (zero_version\<lparr>ov_Key := om_Key obj, ov_IsLatest := True,
                                ov_LastModified := om_LastModified obj, ov_ETag := om_ETag obj,
                                ov_Size := om_Size obj\<rparr>)) maxKeys okvs versioned of
                      (allVersions, oended) \<Rightarrow>
                      (case (if oended then oerr else None) of Some e \<Rightarrow> Inl (ErrEngine e) | None \<Rightarrow> Inr allVersions)))
                else Inr versioned)
          of Inl e \<Rightarrow> Inl e
           | Inr allVersions \<Rightarrow>
               Inr (sort_key version_before allVersions)))))"

text \<open>The test both loops of \<^verbatim>\<open>HasActiveComplianceRetention\<close> make on an entry.\<close>

definition actively_held :: "gotime \<Rightarrow> object_metadata \<Rightarrow> bool" where
  "actively_held now obj \<longleftrightarrow> om_LegalHold obj \<or>
     (case om_Retention obj of None \<Rightarrow> False
      | Some r \<Rightarrow> rt_Mode r = ''COMPLIANCE'' \<and> now < rt_RetainUntilDate r)"

definition entry_held :: "gotime \<Rightarrow> kv_value \<Rightarrow> bool" where
  "entry_held now v \<longleftrightarrow> (case decode_object v of None \<Rightarrow> False | Some obj \<Rightarrow> actively_held now obj)"

definition HasActiveComplianceRetention :: "'db engine \<Rightarrow> gotime \<Rightarrow> string \<Rightarrow> 'db pstore \<Rightarrow> meta_error + bool" where
  "HasActiveComplianceRetention E now bucket s = (case pebbleIter E (''version:'' @ bucket @ '':'') s of
       Inl e \<Rightarrow> Inl e
     | Inr (vkvs, verr) \<Rightarrow>
       if list_ex (\<lambda>(k, v). entry_held now v) vkvs then Inr True
       else (case verr of
         Some e \<Rightarrow> Inl (ErrEngine e)
       | None \<Rightarrow> (case pebbleIter E (''obj:'' @ bucket @ '':'') s of
           Inl e \<Rightarrow> Inl e
         | Inr (okvs, oerr) \<Rightarrow>
           if list_ex (\<lambda>(k, v). entry_held now v) okvs then Inr True
           else (case oerr of Some e \<Rightarrow> Inl (ErrEngine e) | None \<Rightarrow> Inr False))))"

definition DeleteObjectVersion :: "'db engine \<Rightarrow> string \<Rightarrow> string \<Rightarrow> string \<Rightarrow> 'db pstore \<Rightarrow> meta_error + 'db pstore" where
  "DeleteObjectVersion E bucket key versionID s = (let versionKey = objectVersionKey bucket key versionID in
     case pebbleGet E versionKey s of
       Inl e \<Rightarrow> Inl e
     | Inr None \<Rightarrow> Inl ErrVersionNotFound
     | Inr (Some _) \<Rightarrow> commitSync E [BDel versionKey] s)"

section \<open>Tags\<close>

definition PutObjectTags :: "'db engine \<Rightarrow> gotime \<Rightarrow> string \<Rightarrow> string \<Rightarrow> smap \<Rightarrow> 'db pstore \<Rightarrow> meta_error + 'db pstore" where
  "PutObjectTags E now bucket key tags s = (let objKey = objectKey bucket key in
     case pebbleGet E objKey s of
       Inl e \<Rightarrow> Inl e
     | Inr None \<Rightarrow> Inl ErrObjectNotFound
     | Inr (Some v) \<Rightarrow> (case decode_object v of
         None \<Rightarrow> Inl ErrDecode
       | Some obj \<Rightarrow>
           commitNoSync E (tag_dels bucket key (om_Tags obj) @ tag_sets bucket key tags @
             [BSet objKey (JObject (obj\<lparr>om_Tags := tags, om_UpdatedAt := now\<rparr>))]) s))"

definition GetObjectTags :: "'db engine \<Rightarrow> string \<Rightarrow> string \<Rightarrow> 'db pstore \<Rightarrow> meta_error + smap" where
  "GetObjectTags E bucket key s = (case GetObject E bucket key [] s of
       Inl e \<Rightarrow> Inl e | Inr obj \<Rightarrow> Inr (om_Tags obj))"

definition DeleteObjectTags :: "'db engine \<Rightarrow> gotime \<Rightarrow> string \<Rightarrow> string \<Rightarrow> 'db pstore \<Rightarrow> meta_error + 'db pstore" where
  "DeleteObjectTags E now bucket key s = PutObjectTags E now bucket key [] s"

text \<open>The object keys a scan of the tag index delivers.\<close>

definition index_candidates :: "string \<Rightarrow> (string \<times> kv_value) list \<Rightarrow> string list" where
  "index_candidates idxPrefix kvs =
     List.map_filter (\<lambda>(k, v). if HasPrefix k idxPrefix then Some (TrimPrefix k idxPrefix) else None) kvs"

definition found_object :: "'db engine \<Rightarrow> string \<Rightarrow> (object_metadata \<Rightarrow> bool) \<Rightarrow> 'db pstore \<Rightarrow> string \<Rightarrow> object_metadata option" where
  "found_object E bucket good s objKey = (case GetObject E bucket objKey [] s of
       Inl _ \<Rightarrow> None | Inr obj \<Rightarrow> if good obj then Some obj else None)"

definition ListObjectsByTags :: "'db engine \<Rightarrow> string \<Rightarrow> smap \<Rightarrow> 'db pstore \<Rightarrow> meta_error + object_metadata list" where
  "ListObjectsByTags E bucket tags s = (case tags of
     [] \<Rightarrow> Inl (ErrMsg ''at least one tag is required'')
   | (firstTagKey, firstTagValue) # _ \<Rightarrow> (let idxPrefix = tagIndexPrefix bucket firstTagKey firstTagValue in
       case pebbleIter E idxPrefix s of
         Inl e \<Rightarrow> Inl e
       | Inr (kvs, err) \<Rightarrow> (let candidateKeys = index_candidates idxPrefix kvs in
           case err of
             Some e \<Rightarrow> Inl (ErrEngine e)
           | None \<Rightarrow> Inr (List.map_filter (found_object E bucket (\<lambda>obj. matchesTags (om_Tags obj) tags) s) candidateKeys))))"

section \<open>Reading the stored map\<close>

definition obj_at :: "contents \<Rightarrow> string \<Rightarrow> object_metadata option" where
  "obj_at m k = Option.bind (m k) decode_object"

definition tags_at :: "contents \<Rightarrow> string \<Rightarrow> smap" where
  "tags_at m k = (case obj_at m k of None \<Rightarrow> [] | Some ob \<Rightarrow> om_Tags ob)"

lemma obj_at_Some: "obj_at m k = Some ob \<longleftrightarrow> m k = Some (JObject ob)"
  by (cases "m k") (simp_all add: obj_at_def)

lemma obj_at_upd [simp]:
  "obj_at (m(k \<mapsto> JObject ob)) k = Some ob"
  "k' \<noteq> k \<Longrightarrow> obj_at (m(k := x)) k' = obj_at m k'"
  "obj_at (m(k := None)) k = None"
  by (simp_all add: obj_at_def)

lemma tags_at_upd [simp]:
  "tags_at (m(k \<mapsto> JObject ob)) k = om_Tags ob"
  "k' \<noteq> k \<Longrightarrow> tags_at (m(k := x)) k' = tags_at m k'"
  "tags_at (m(k := None)) k = []"
  by (simp_all add: tags_at_def)

lemma stamp_object_fields [simp]:
  "om_Bucket (stamp_object now ob) = om_Bucket ob"
  "om_Key (stamp_object now ob) = om_Key ob"
  "om_VersionID (stamp_object now ob) = om_VersionID ob"
  "om_IsLatest (stamp_object now ob) = om_IsLatest ob"
  "om_Tags (stamp_object now ob) = om_Tags ob"
  "om_Size (stamp_object now ob) = om_Size ob"
  "om_ETag (stamp_object now ob) = om_ETag ob"
  "om_Retention (stamp_object now ob) = om_Retention ob"
  "om_LegalHold (stamp_object now ob) = om_LegalHold ob"
  by (simp_all add: stamp_object_def Let_def)

lemma fill_object_id [simp]: "om_Bucket ob \<noteq> [] \<Longrightarrow> om_Key ob \<noteq> [] \<Longrightarrow> fill_object b k ob = ob"
  by (simp add: fill_object_def)

definition tag_keys :: "string \<Rightarrow> string \<Rightarrow> smap \<Rightarrow> string set" where
  "tag_keys b k tags = (\<lambda>(tk, tv). tagIndexKey b tk tv k) ` set tags"

lemma apply_tag_dels:
  "apply_batch (tag_dels b k tags) m x = (if x \<in> tag_keys b k tags then None else m x)"
  using apply_batch_dels [of "\<lambda>(tk, tv). tagIndexKey b tk tv k" tags m x]
  by (simp add: tag_dels_def tag_keys_def case_prod_unfold)

lemma apply_tag_sets:
  "apply_batch (tag_sets b k tags) m x = (if x \<in> tag_keys b k tags then Some (Bytes []) else m x)"
  using apply_batch_sets [of "\<lambda>(tk, tv). tagIndexKey b tk tv k" "Bytes []" tags m x]
  by (simp add: tag_sets_def tag_keys_def case_prod_unfold)

lemma tag_keys_kinds [simp]:
  "objectKey b' k' \<notin> tag_keys b k tags"
  "objectVersionKey b' k' v \<notin> tag_keys b k tags"
  "bucketKey t n \<notin> tag_keys b k tags"
  "multipartUploadKey u \<notin> tag_keys b k tags"
  "multipartIndexKey b' u \<notin> tag_keys b k tags"
  "partKey u p \<notin> tag_keys b k tags"
  by (auto simp: tag_keys_def)

lemma typed_tag_ops [simp]: "list_all typed_op (tag_dels b k tags)" "list_all typed_op (tag_sets b k tags)"
  by (auto simp: tag_dels_def tag_sets_def list_all_iff)

section \<open>Effect of each operation\<close>

text \<open>The map a successful \<^verbatim>\<open>PutObject\<close> leaves, as a function of the map it found.\<close>

definition put_object_map :: "object_metadata \<Rightarrow> contents \<Rightarrow> contents" where
  "put_object_map ob m =
     (let b = om_Bucket ob; k = om_Key ob;
          m1 = apply_batch (tag_dels b k (tags_at m (objectKey b k))) m;
          m2 = (if om_VersionID ob \<noteq> [] then m1(objectVersionKey b k (om_VersionID ob) \<mapsto> JObject ob) else m1);
          m3 = (if om_VersionID ob = [] \<or> om_IsLatest ob then m2(objectKey b k \<mapsto> JObject ob) else m2)
      in apply_batch (tag_sets b k (om_Tags ob)) m3)"

context pebble_engine
begin

lemma PutObject_sound [sound]:
  assumes "PutObject E now (Some ob) s = Inr s'"
  shows "om_Bucket ob \<noteq> []" "om_Key ob \<noteq> []" "om_Bucket ob \<notin> ps_deletedBuckets s"
    and "sto cont s' = put_object_map (stamp_object now ob) (sto cont s)"
    and "ps_deletedBuckets s' = ps_deletedBuckets s"
proof -
  let ?o = "stamp_object now ob"
  from assms obtain r where ok: "om_Bucket ob \<noteq> []" "om_Key ob \<noteq> []" "om_Bucket ob \<notin> ps_deletedBuckets s"
    and get: "pebbleGet E (objectKey (om_Bucket ob) (om_Key ob)) s = Inr r"
    and w: "commitNoSync E (old_tag_dels (om_Bucket ob) (om_Key ob) r @
        (if om_VersionID ob \<noteq> [] then [BSet (objectVersionKey (om_Bucket ob) (om_Key ob) (om_VersionID ob)) (JObject ?o)] else []) @
        (if om_VersionID ob = [] \<or> om_IsLatest ob then [BSet (objectKey (om_Bucket ob) (om_Key ob)) (JObject ?o)] else []) @
        tag_sets (om_Bucket ob) (om_Key ob) (om_Tags ob)) s = Inr s'"
    unfolding PutObject_def Let_def rejectWriteToDeletedBucket_def
    by (simp split: if_split_asm sum.split_asm)
  show "om_Bucket ob \<noteq> []" "om_Key ob \<noteq> []" "om_Bucket ob \<notin> ps_deletedBuckets s" by fact+
  have "old_tag_dels (om_Bucket ob) (om_Key ob) r = tag_dels (om_Bucket ob) (om_Key ob) (tags_at (sto cont s) (objectKey (om_Bucket ob) (om_Key ob)))"
    using pebbleGet_sound [OF get] by (simp add: tags_at_def obj_at_def old_tag_dels_def tag_dels_def split: option.split)
  with commitNoSync_sound [OF w] show "sto cont s' = put_object_map ?o (sto cont s)"
    by (simp add: put_object_map_def Let_def)
  show "ps_deletedBuckets s' = ps_deletedBuckets s" using commitNoSync_sound [OF w] by simp
qed

lemma DeleteObject_sound [sound]:
  assumes "DeleteObject E b k v s = Inr s'"
  shows "\<exists>ob. sto cont s (objKeyFor b k v) = Some (JObject ob) \<and>
    sto cont s' = (apply_batch (tag_dels b k (om_Tags ob)) (sto cont s))(objKeyFor b k v := None) \<and>
    ps_deletedBuckets s' = ps_deletedBuckets s"
  using assms unfolding DeleteObject_def Let_def
  by (auto split: asm_splits dest!: commitSync_sound pebbleGet_sound)

lemma PutObjectTags_sound [sound]:
  assumes "PutObjectTags E now b k tags s = Inr s'"
  shows "\<exists>ob. sto cont s (objectKey b k) = Some (JObject ob) \<and>
    sto cont s' = (apply_batch (tag_sets b k tags) (apply_batch (tag_dels b k (om_Tags ob)) (sto cont s)))
      (objectKey b k \<mapsto> JObject (ob\<lparr>om_Tags := tags, om_UpdatedAt := now\<rparr>)) \<and>
    ps_deletedBuckets s' = ps_deletedBuckets s"
  using assms unfolding PutObjectTags_def Let_def
  by (auto split: asm_splits dest!: commitNoSync_sound pebbleGet_sound)

lemma DeleteObjectVersion_sound [sound]:
  assumes "DeleteObjectVersion E b k v s = Inr s'"
  shows "sto cont s' = (sto cont s)(objectVersionKey b k v := None) \<and>
    ps_deletedBuckets s' = ps_deletedBuckets s \<and> sto cont s (objectVersionKey b k v) \<noteq> None"
  using assms unfolding DeleteObjectVersion_def Let_def
  by (auto split: asm_splits dest!: commitSync_sound pebbleGet_sound)

lemma GetObject_sound [sound]:
  assumes "GetObject E b k v s = Inr ob"
  shows "\<exists>ob'. sto cont s (objKeyFor b k v) = Some (JObject ob') \<and> ob = fill_object b k ob'"
  using assms unfolding GetObject_def by (auto split: asm_splits dest!: pebbleGet_sound)

end

end
