(* ===== verification/Meta_Object_Props.thy ===== *)
theory Meta_Object_Props
  imports Meta_Objects
begin

text \<open>
  Properties of the object operations: what a write makes readable and what it leaves alone,
  exactness of the tag index and of the search by tags, and versions.
\<close>

section \<open>Reads after writes\<close>

lemma put_object_map_other:
  "x \<noteq> objectKey (om_Bucket ob) (om_Key ob) \<Longrightarrow>
   x \<noteq> objectVersionKey (om_Bucket ob) (om_Key ob) (om_VersionID ob) \<Longrightarrow>
   put_object_map ob m x =
     (if x \<in> tag_keys (om_Bucket ob) (om_Key ob) (om_Tags ob) then Some (Bytes [])
      else if x \<in> tag_keys (om_Bucket ob) (om_Key ob) (tags_at m (objectKey (om_Bucket ob) (om_Key ob))) then None
      else m x)"
  by (simp add: put_object_map_def Let_def apply_tag_sets apply_tag_dels)

lemma put_object_map_object:
  "put_object_map ob m (objectKey (om_Bucket ob) (om_Key ob)) =
     (if om_VersionID ob = [] \<or> om_IsLatest ob then Some (JObject ob) else m (objectKey (om_Bucket ob) (om_Key ob)))"
  by (simp add: put_object_map_def Let_def apply_tag_sets apply_tag_dels)

lemma put_object_map_version:
  "put_object_map ob m (objectVersionKey (om_Bucket ob) (om_Key ob) (om_VersionID ob)) =
     (if om_VersionID ob \<noteq> [] then Some (JObject ob)
      else m (objectVersionKey (om_Bucket ob) (om_Key ob) (om_VersionID ob)))"
  by (simp add: put_object_map_def Let_def apply_tag_sets apply_tag_dels)

context pebble_reliable
begin

lemma PutObject_ok:
  assumes "om_Bucket ob \<noteq> []" "om_Key ob \<noteq> []" "om_Bucket ob \<notin> ps_deletedBuckets s"
  shows "\<exists>s'. PutObject E now (Some ob) s = Inr s'"
  using assms commit_total(1) by (simp add: PutObject_def Let_def rejectWriteToDeletedBucket_def)

lemma GetObject_ok:
  assumes "sto cont s (objKeyFor b k v) = Some (JObject ob)" "b \<noteq> []" "k \<noteq> []"
  shows "GetObject E b k v s = Inr (fill_object b k ob)"
  using assms by (simp add: GetObject_def)

end

text \<open>
  C24. A write is readable and touches nothing else. For an object with a bucket and a key,
  in a bucket not deleted by this process, \<^verbatim>\<open>PutObject\<close> succeeds; \<^verbatim>\<open>GetObject\<close> then returns the
  stamped object under its key (when it is unversioned or the latest) and under its version;
  every other stored key is unchanged but for the tag index entries of this object.
\<close>

theorem put_get_object:
  assumes "pebble_reliable E cont"
    and "om_Bucket ob \<noteq> []" "om_Key ob \<noteq> []" "om_Bucket ob \<notin> ps_deletedBuckets s"
  shows "\<exists>s'. PutObject E now (Some ob) s = Inr s' \<and>
    (om_VersionID ob = [] \<or> om_IsLatest ob \<longrightarrow>
       GetObject E (om_Bucket ob) (om_Key ob) [] s' = Inr (stamp_object now ob)) \<and>
    (om_VersionID ob \<noteq> [] \<longrightarrow>
       GetObject E (om_Bucket ob) (om_Key ob) (om_VersionID ob) s' = Inr (stamp_object now ob)) \<and>
    (\<forall>x. sto cont s' x = sto cont s x \<or>
       x \<in> {objectKey (om_Bucket ob) (om_Key ob), objectVersionKey (om_Bucket ob) (om_Key ob) (om_VersionID ob)} \<or>
       x \<in> tag_keys (om_Bucket ob) (om_Key ob) (om_Tags ob) \<or>
       x \<in> tag_keys (om_Bucket ob) (om_Key ob) (tags_at (sto cont s) (objectKey (om_Bucket ob) (om_Key ob))))"
proof -
  note P = assms(1)
  have PE: "pebble_engine E cont" using P by (simp add: pebble_reliable_def)
  obtain s' where s': "PutObject E now (Some ob) s = Inr s'"
    using pebble_reliable.PutObject_ok [OF P assms(2-4)] by blast
  let ?o = "stamp_object now ob"
  note m' = pebble_engine.PutObject_sound(4) [OF PE s']
  note main = put_object_map_object [of ?o "sto cont s", simplified]
  note vers = put_object_map_version [of ?o "sto cont s", simplified]
  have "GetObject E (om_Bucket ob) (om_Key ob) [] s' = Inr ?o" if "om_VersionID ob = [] \<or> om_IsLatest ob"
    using that main m' pebble_reliable.GetObject_ok [OF P, of s' "om_Bucket ob" "om_Key ob" "[]" ?o] assms(2,3)
    by (simp add: objKeyFor_def)
  moreover have "GetObject E (om_Bucket ob) (om_Key ob) (om_VersionID ob) s' = Inr ?o" if "om_VersionID ob \<noteq> []"
    using that vers m' pebble_reliable.GetObject_ok [OF P, of s' "om_Bucket ob" "om_Key ob" "om_VersionID ob" ?o] assms(2,3)
    by (simp add: objKeyFor_def)
  moreover have "sto cont s' x = sto cont s x"
    if "x \<noteq> objectKey (om_Bucket ob) (om_Key ob)" "x \<noteq> objectVersionKey (om_Bucket ob) (om_Key ob) (om_VersionID ob)"
      "x \<notin> tag_keys (om_Bucket ob) (om_Key ob) (om_Tags ob)"
      "x \<notin> tag_keys (om_Bucket ob) (om_Key ob) (tags_at (sto cont s) (objectKey (om_Bucket ob) (om_Key ob)))" for x
    using that put_object_map_other [of x ?o "sto cont s"] m' by simp
  ultimately show ?thesis using s' by blast
qed

definition cat_object :: object_metadata where
  "cat_object = zero_object\<lparr>om_Bucket := ''t1/photos'', om_Key := ''cat.jpg'', om_Size := 3, om_ETag := ''e'',
     om_Tags := [(''kind'', ''cat'')]\<rparr>"

theorem put_get_object_witness:
  "\<exists>s'. PutObject mem_engine 5 (Some cat_object) photos_store = Inr s' \<and>
     GetObject mem_engine ''t1/photos'' ''cat.jpg'' [] s' = Inr (stamp_object 5 cat_object) \<and>
     sto map_of s' (bucketKey ''t1'' ''photos'') = sto map_of photos_store (bucketKey ''t1'' ''photos'')"
proof -
  have h: "om_Bucket cat_object = ''t1/photos''" "om_Key cat_object = ''cat.jpg''" "om_VersionID cat_object = []"
    "ps_deletedBuckets photos_store = {}"
    by (simp_all add: cat_object_def photos_store_def zero_object_def)
  obtain s' where s': "PutObject mem_engine 5 (Some cat_object) photos_store = Inr s'"
    "GetObject mem_engine ''t1/photos'' ''cat.jpg'' [] s' = Inr (stamp_object 5 cat_object)"
    and fr: "\<forall>x. sto map_of s' x = sto map_of photos_store x \<or>
       x \<in> {objectKey ''t1/photos'' ''cat.jpg'', objectVersionKey ''t1/photos'' ''cat.jpg'' []} \<or>
       x \<in> tag_keys ''t1/photos'' ''cat.jpg'' (om_Tags cat_object) \<or>
       x \<in> tag_keys ''t1/photos'' ''cat.jpg'' (tags_at (sto map_of photos_store) (objectKey ''t1/photos'' ''cat.jpg''))"
    using put_get_object [OF mem.pebble_reliable_axioms, of cat_object photos_store 5] by (auto simp: h)
  from fr have "sto map_of s' (bucketKey ''t1'' ''photos'') = sto map_of photos_store (bucketKey ''t1'' ''photos'')"
    by (auto dest: spec [of _ "bucketKey ''t1'' ''photos''"])
  with s' show ?thesis by blast
qed

section \<open>The tag index\<close>

text \<open>
  The index is exact when an entry exists for a tag of a key precisely where the object stored
  at that key carries the tag. Tags are taken without colons: with one, entries of different
  tags can coincide.
\<close>

definition plain_tags :: "smap \<Rightarrow> bool" where
  "plain_tags tags \<longleftrightarrow> list_all (\<lambda>(tk, tv). no_colon tk \<and> no_colon tv) tags"

lemma plain_tags_Nil [simp]: "plain_tags []"
  by (simp add: plain_tags_def)

definition all_plain :: "contents \<Rightarrow> bool" where
  "all_plain m \<longleftrightarrow> (\<forall>x. plain_tags (tags_at m x))"

definition tag_index_exact :: "contents \<Rightarrow> bool" where
  "tag_index_exact m \<longleftrightarrow> (\<forall>b tk tv k. no_colon b \<longrightarrow> no_colon tk \<longrightarrow> no_colon tv \<longrightarrow>
     (m (tagIndexKey b tk tv k) \<noteq> None \<longleftrightarrow> (tk, tv) \<in> set (tags_at m (objectKey b k))))"

definition tags_inv :: "contents \<Rightarrow> bool" where
  "tags_inv m \<longleftrightarrow> typed m \<and> all_plain m \<and> tag_index_exact m"

lemma tag_keys_iff:
  assumes "no_colon b" "no_colon b'" "no_colon tk" "no_colon tv" "plain_tags tags"
  shows "tagIndexKey b' tk tv k' \<in> tag_keys b k tags \<longleftrightarrow> b' = b \<and> k' = k \<and> (tk, tv) \<in> set tags"
proof -
  have "tagIndexKey b' tk tv k' = tagIndexKey b x y k \<longleftrightarrow> b' = b \<and> tk = x \<and> tv = y \<and> k' = k"
    if "(x, y) \<in> set tags" for x y
    using that assms by (intro tagIndexKey_inj) (auto simp: plain_tags_def list_all_iff)
  then show ?thesis by (auto simp: tag_keys_def)
qed

text \<open>
  Replacing the object of a key together with its index entries keeps the index exact; this is
  the common core of every operation below.
\<close>

lemma tag_index_exact_replace:
  assumes ex: "tag_index_exact m" and pl: "all_plain m" "plain_tags new" and b: "no_colon b"
    and idx: "\<And>x. \<not> reserved_key x \<Longrightarrow> m' x =
      (if x \<in> tag_keys b k new then Some (Bytes [])
       else if x \<in> tag_keys b k (tags_at m (objectKey b k)) then None else m x)"
    and here: "tags_at m' (objectKey b k) = new"
    and there: "\<And>b' k'. no_colon b' \<Longrightarrow> (b', k') \<noteq> (b, k) \<Longrightarrow> tags_at m' (objectKey b' k') = tags_at m (objectKey b' k')"
  shows "tag_index_exact m'"
  unfolding tag_index_exact_def
proof (intro allI impI)
  fix b' tk tv k' assume nc: "no_colon b'" "no_colon tk" "no_colon tv"
  have old: "plain_tags (tags_at m (objectKey b k))" using pl(1) by (simp add: all_plain_def)
  note iff = tag_keys_iff [OF b nc]
  have e: "m (tagIndexKey b' tk tv k') \<noteq> None \<longleftrightarrow> (tk, tv) \<in> set (tags_at m (objectKey b' k'))"
    using ex nc unfolding tag_index_exact_def by blast
  show "m' (tagIndexKey b' tk tv k') \<noteq> None \<longleftrightarrow> (tk, tv) \<in> set (tags_at m' (objectKey b' k'))"
  proof (cases "(b', k') = (b, k)")
    case True
    then show ?thesis
      using idx [of "tagIndexKey b' tk tv k'"] iff [OF pl(2), of k' k] iff [OF old, of k' k] e here
      by (auto split: if_split_asm)
  next
    case False
    then show ?thesis
      using idx [of "tagIndexKey b' tk tv k'"] iff [OF pl(2), of k' k] iff [OF old, of k' k] e there [OF nc(1), of k']
      by auto
  qed
qed

lemma tags_at_cong: "m' x = m x \<Longrightarrow> tags_at m' x = tags_at m x"
  by (simp add: tags_at_def obj_at_def)

lemma plain_tags_at_tag_ops:
  "all_plain m \<Longrightarrow> plain_tags (tags_at (apply_batch (tag_dels b k t1) m) x)"
  "all_plain m \<Longrightarrow> plain_tags (tags_at (apply_batch (tag_sets b k t2) m) x)"
  by (simp_all add: all_plain_def tags_at_def obj_at_def apply_tag_dels apply_tag_sets plain_tags_def
      split: option.split)

lemma all_plain_tag_ops [simp]:
  "all_plain m \<Longrightarrow> all_plain (apply_batch (tag_dels b k t1) m)"
  "all_plain m \<Longrightarrow> all_plain (apply_batch (tag_sets b k t2) m)"
  using plain_tags_at_tag_ops by (simp_all add: all_plain_def)

lemma all_plain_upd:
  "all_plain m \<Longrightarrow> plain_tags (om_Tags ob) \<Longrightarrow> all_plain (m(k \<mapsto> JObject ob))"
  unfolding all_plain_def by (metis tags_at_upd(1,2))

lemma all_plain_del: "all_plain m \<Longrightarrow> all_plain (m(k := None))"
  unfolding all_plain_def by (metis tags_at_upd(2,3) plain_tags_Nil)

lemma tags_inv_put:
  assumes "tags_inv m" "no_colon (om_Bucket ob)" "no_colon (om_VersionID ob)" "plain_tags (om_Tags ob)"
    and "om_VersionID ob = [] \<or> om_IsLatest ob"
  shows "tags_inv (put_object_map ob m)"
proof -
  have "typed (put_object_map ob m)"
    using assms by (simp add: tags_inv_def put_object_map_def Let_def typed_batch typed_upd)
  moreover have "all_plain (put_object_map ob m)"
    using assms by (simp add: tags_inv_def put_object_map_def Let_def all_plain_upd)
  moreover have "tag_index_exact (put_object_map ob m)"
  proof (rule tag_index_exact_replace [of m "om_Tags ob" "om_Bucket ob" _ "om_Key ob"])
    show "put_object_map ob m x =
      (if x \<in> tag_keys (om_Bucket ob) (om_Key ob) (om_Tags ob) then Some (Bytes [])
       else if x \<in> tag_keys (om_Bucket ob) (om_Key ob) (tags_at m (objectKey (om_Bucket ob) (om_Key ob))) then None else m x)"
      if "\<not> reserved_key x" for x
      using that by (intro put_object_map_other) auto
    show "tags_at (put_object_map ob m) (objectKey (om_Bucket ob) (om_Key ob)) = om_Tags ob"
      using put_object_map_object [of ob m] assms(5) by (simp add: tags_at_def obj_at_def)
    show "tags_at (put_object_map ob m) (objectKey b' k') = tags_at m (objectKey b' k')"
      if "no_colon b'" "(b', k') \<noteq> (om_Bucket ob, om_Key ob)" for b' k'
      using that assms(2) put_object_map_other [of "objectKey b' k'" ob m]
      by (intro tags_at_cong) (simp add: objectKey_inj)
  qed (use assms in \<open>simp_all add: tags_inv_def\<close>)
  ultimately show ?thesis by (simp add: tags_inv_def)
qed

lemma tags_inv_delete:
  assumes "tags_inv m" "no_colon b" "m (objectKey b k) = Some (JObject ob)"
  shows "tags_inv ((apply_batch (tag_dels b k (om_Tags ob)) m)(objectKey b k := None))" (is "tags_inv ?m'")
proof -
  have t: "tags_at m (objectKey b k) = om_Tags ob" using assms(3) by (simp add: tags_at_def obj_at_def)
  have "tag_index_exact ?m'"
  proof (rule tag_index_exact_replace [of m "[]" b _ k])
    show "?m' x = (if x \<in> tag_keys b k [] then Some (Bytes []) else
        if x \<in> tag_keys b k (tags_at m (objectKey b k)) then None else m x)" if "\<not> reserved_key x" for x
      using that reserved_keys(2) [of b k] by (auto simp: t apply_tag_dels tag_keys_def)
    show "tags_at ?m' (objectKey b' k') = tags_at m (objectKey b' k')"
      if "no_colon b'" "(b', k') \<noteq> (b, k)" for b' k'
      using that assms(2) by (intro tags_at_cong) (auto simp: objectKey_inj apply_tag_dels)
  qed (use assms in \<open>simp_all add: tags_inv_def plain_tags_def\<close>)
  then show ?thesis using assms by (simp add: tags_inv_def typed_batch typed_del all_plain_del)
qed

lemma tags_inv_retag:
  assumes "tags_inv m" "no_colon b" "m (objectKey b k) = Some (JObject ob)" "plain_tags tags"
  shows "tags_inv ((apply_batch (tag_sets b k tags) (apply_batch (tag_dels b k (om_Tags ob)) m))
    (objectKey b k \<mapsto> JObject (ob\<lparr>om_Tags := tags, om_UpdatedAt := now\<rparr>)))" (is "tags_inv ?m'")
proof -
  have t: "tags_at m (objectKey b k) = om_Tags ob" using assms(3) by (simp add: tags_at_def obj_at_def)
  have "tag_index_exact ?m'"
  proof (rule tag_index_exact_replace [of m tags b _ k])
    show "?m' x = (if x \<in> tag_keys b k tags then Some (Bytes []) else
        if x \<in> tag_keys b k (tags_at m (objectKey b k)) then None else m x)" if "\<not> reserved_key x" for x
      using that reserved_keys(2) [of b k] by (auto simp: t apply_tag_dels apply_tag_sets)
    show "tags_at ?m' (objectKey b' k') = tags_at m (objectKey b' k')"
      if "no_colon b'" "(b', k') \<noteq> (b, k)" for b' k'
      using that assms(2) by (intro tags_at_cong) (auto simp: objectKey_inj apply_tag_dels apply_tag_sets)
  qed (use assms in \<open>simp_all add: tags_inv_def\<close>)
  moreover have "kv_typed (objectKey b k) (JObject ob)"
    using assms by (auto simp: tags_inv_def dest: typedD)
  ultimately show ?thesis using assms
    by (simp add: tags_inv_def typed_batch typed_upd all_plain_upd)
qed

text \<open>
  Runs of the operations that write the current object of a key: \<^verbatim>\<open>PutObject\<close> of an unversioned
  object or of a latest version, \<^verbatim>\<open>DeleteObject\<close> without a version, and the tag operations.
\<close>

inductive tag_run :: "'db engine \<Rightarrow> 'db pstore \<Rightarrow> 'db pstore \<Rightarrow> bool" for E s0 where
  init: "tag_run E s0 s0"
| put: "tag_run E s0 s \<Longrightarrow> PutObject E now (Some ob) s = Inr s' \<Longrightarrow>
    om_VersionID ob = [] \<or> om_IsLatest ob \<Longrightarrow> no_colon (om_Bucket ob) \<Longrightarrow> no_colon (om_VersionID ob) \<Longrightarrow>
    plain_tags (om_Tags ob) \<Longrightarrow> tag_run E s0 s'"
| delete: "tag_run E s0 s \<Longrightarrow> DeleteObject E b k [] s = Inr s' \<Longrightarrow> no_colon b \<Longrightarrow> tag_run E s0 s'"
| put_tags: "tag_run E s0 s \<Longrightarrow> PutObjectTags E now b k tags s = Inr s' \<Longrightarrow> no_colon b \<Longrightarrow>
    plain_tags tags \<Longrightarrow> tag_run E s0 s'"
| delete_tags: "tag_run E s0 s \<Longrightarrow> DeleteObjectTags E now b k s = Inr s' \<Longrightarrow> no_colon b \<Longrightarrow> tag_run E s0 s'"

context pebble_engine
begin

lemma tags_inv_run: "tag_run E s0 s \<Longrightarrow> tags_inv (sto cont s0) \<Longrightarrow> tags_inv (sto cont s)"
proof (induction rule: tag_run.induct)
  case (put s now ob s')
  have "tags_inv (put_object_map (stamp_object now ob) (sto cont s))"
    using put by (intro tags_inv_put) simp_all
  then show ?case using PutObject_sound(4) [OF put.hyps(2)] by simp
next
  case (delete s b k s')
  from DeleteObject_sound [OF delete.hyps(2)] obtain ob where
    "sto cont s (objectKey b k) = Some (JObject ob)"
    "sto cont s' = (apply_batch (tag_dels b k (om_Tags ob)) (sto cont s))(objectKey b k := None)"
    by (auto simp only: objKeyFor_def split: if_split_asm)
  with tags_inv_delete [OF delete.IH [OF delete.prems] delete.hyps(3), of k ob] show ?case by (simp only:)
next
  case (put_tags s now b k tags s')
  from PutObjectTags_sound [OF put_tags.hyps(2)] show ?case
    using tags_inv_retag [OF put_tags.IH [OF put_tags.prems] put_tags.hyps(3) _ put_tags.hyps(4)] by metis
next
  case (delete_tags s now b k s')
  from PutObjectTags_sound [OF delete_tags.hyps(2) [unfolded DeleteObjectTags_def]] show ?case
    using tags_inv_retag [OF delete_tags.IH [OF delete_tags.prems] delete_tags.hyps(3) _ plain_tags_Nil] by metis
qed simp

lemma index_candidates_complete:
  assumes "pebbleIter E (tagIndexPrefix b tk tv) s = Inr (kvs, None)"
  shows "set (index_candidates (tagIndexPrefix b tk tv) kvs) = {k. sto cont s (tagIndexKey b tk tv k) \<noteq> None}"
proof -
  have p: "tagIndexKey b tk tv k = tagIndexPrefix b tk tv @ k" for k
    by (simp add: tagIndexKey_def tagIndexPrefix_def)
  have "set (index_candidates (tagIndexPrefix b tk tv) kvs) =
      {TrimPrefix x (tagIndexPrefix b tk tv) |x v. sto cont s x = Some v \<and> HasPrefix x (tagIndexPrefix b tk tv)}"
    using pebbleIter_complete [OF assms]
    by (force simp: index_candidates_def List.map_filter_def)
  also have "\<dots> = {k. sto cont s (tagIndexKey b tk tv k) \<noteq> None}"
    by (auto simp: p HasPrefix_iff) (metis HasPrefix_append TrimPrefix_append HasPrefix_iff)
  finally show ?thesis .
qed

end

context pebble_reliable
begin

lemma found_object_Some:
  assumes "typed (sto cont s)" "no_colon b"
  shows "found_object E b good s k = Some ob \<longleftrightarrow>
    b \<noteq> [] \<and> k \<noteq> [] \<and> obj_at (sto cont s) (objectKey b k) = Some ob \<and> good ob"
proof (cases "b = [] \<or> k = []")
  case False
  show ?thesis
  proof (cases "sto cont s (objectKey b k)")
    case None
    with False show ?thesis by (simp add: found_object_def GetObject_def objKeyFor_def obj_at_def)
  next
    case (Some v)
    with typed_object [OF assms(1) Some assms(2)] False show ?thesis
      by (auto simp: found_object_def GetObject_def objKeyFor_def obj_at_def split: if_split_asm)
  qed
qed (auto simp: found_object_def GetObject_def)

lemma ListObjectsByTags_set:
  assumes inv: "tags_inv (sto cont s)" and b: "b \<noteq> []" "no_colon b" and tags: "tags \<noteq> []" "plain_tags tags"
  shows "\<exists>objs. ListObjectsByTags E b tags s = Inr objs \<and>
    set objs = {ob. \<exists>k. k \<noteq> [] \<and> obj_at (sto cont s) (objectKey b k) = Some ob \<and> matchesTags (om_Tags ob) tags}"
proof -
  obtain tk tv rest where t: "tags = (tk, tv) # rest" using tags(1) by (cases tags) auto
  have nc: "no_colon tk" "no_colon tv" using tags(2) by (simp_all add: t plain_tags_def)
  obtain kvs where it: "pebbleIter E (tagIndexPrefix b tk tv) s = Inr (kvs, None)" using pebbleIter_ok by blast
  let ?good = "\<lambda>obj. matchesTags (om_Tags obj) tags"
  have list: "ListObjectsByTags E b tags s = Inr (List.map_filter (found_object E b ?good s) (index_candidates (tagIndexPrefix b tk tv) kvs))"
    by (simp add: ListObjectsByTags_def t it)
  have indexed: "sto cont s (tagIndexKey b tk tv k) \<noteq> None"
    if "obj_at (sto cont s) (objectKey b k) = Some ob" "?good ob" for k ob
  proof -
    have "(tk, tv) \<in> set (tags_at (sto cont s) (objectKey b k))"
      using that by (auto simp: tags_at_def matchesTags_def t dest: map_of_SomeD)
    then show ?thesis using inv b nc unfolding tags_inv_def tag_index_exact_def by blast
  qed
  have "typed (sto cont s)" using inv by (simp add: tags_inv_def)
  note found = found_object_Some [OF this b(2), of ?good]
  have "set (List.map_filter (found_object E b ?good s) ks) = {ob. \<exists>k\<in>set ks. k \<noteq> [] \<and> obj_at (sto cont s) (objectKey b k) = Some ob \<and> ?good ob}" for ks
    using b(1) by (simp add: set_eq_iff in_map_filter found)
  from this [of "index_candidates (tagIndexPrefix b tk tv) kvs"]
  have "set (List.map_filter (found_object E b ?good s) (index_candidates (tagIndexPrefix b tk tv) kvs)) =
      {ob. \<exists>k. sto cont s (tagIndexKey b tk tv k) \<noteq> None \<and> k \<noteq> [] \<and> obj_at (sto cont s) (objectKey b k) = Some ob \<and> ?good ob}"
    unfolding index_candidates_complete [OF it] by simp
  also have "\<dots> = {ob. \<exists>k. k \<noteq> [] \<and> obj_at (sto cont s) (objectKey b k) = Some ob \<and> ?good ob}"
    using indexed by blast
  finally show ?thesis using list by blast
qed

end

text \<open>
  C18. The tag index stays exact and the search by tags is correct. Start from a store with an
  exact index and run any sequence of writes of unversioned or latest objects, deletes by key and tag changes, with bucket paths and
  tags that hold no colon: the
  index entries of the result are exactly the tags of the stored objects, and
  \<^verbatim>\<open>ListObjectsByTags\<close> returns exactly the objects of the bucket that carry all the tags asked for. A write of a
  version that is not the latest breaks the index, as the lemma after the witness shows.
\<close>

theorem tag_search_exact:
  assumes "pebble_reliable E cont" "tags_inv (sto cont s0)" "tag_run E s0 s"
    and "b \<noteq> []" "no_colon b" "tags \<noteq> []" "plain_tags tags"
  shows "tag_index_exact (sto cont s) \<and>
    (\<exists>objs. ListObjectsByTags E b tags s = Inr objs \<and>
      set objs = {ob. \<exists>k. k \<noteq> [] \<and> obj_at (sto cont s) (objectKey b k) = Some ob \<and> matchesTags (om_Tags ob) tags})"
proof -
  have PE: "pebble_engine E cont" using assms(1) by (simp add: pebble_reliable_def)
  have inv: "tags_inv (sto cont s)" by (rule pebble_engine.tags_inv_run [OF PE assms(3,2)])
  with pebble_reliable.ListObjectsByTags_set [OF assms(1) inv assms(4-7)] show ?thesis
    by (simp add: tags_inv_def)
qed

lemma photos_tags_inv: "tags_inv (sto map_of photos_store)"
proof -
  have "sto map_of photos_store x = None \<or> x = bucketKey ''t1'' ''photos''" for x
    by (simp add: photos_store_def)
  then have "tags_at (sto map_of photos_store) x = []" for x
    by (cases "x = bucketKey ''t1'' ''photos''") (simp_all add: tags_at_def obj_at_def photos_store_def)
  then show ?thesis
    using photos_store_typed by (simp add: tags_inv_def all_plain_def tag_index_exact_def photos_store_def)
qed

theorem tag_search_exact_witness:
  "\<exists>s' objs. PutObject mem_engine 5 (Some cat_object) photos_store = Inr s' \<and>
     ListObjectsByTags mem_engine ''t1/photos'' [(''kind'', ''cat'')] s' = Inr objs \<and>
     stamp_object 5 cat_object \<in> set objs"
proof -
  have f: "om_Bucket cat_object = ''t1/photos''" "om_Key cat_object = ''cat.jpg''" "om_VersionID cat_object = []"
    "om_Tags cat_object = [(''kind'', ''cat'')]"
    by (simp_all add: cat_object_def zero_object_def)
  obtain s' where s': "PutObject mem_engine 5 (Some cat_object) photos_store = Inr s'"
    using mem.PutObject_ok [of cat_object photos_store 5] by (auto simp: f photos_store_def)
  have "tag_run mem_engine photos_store s'"
    by (rule tag_run.put [OF tag_run.init s']) (simp_all add: f plain_tags_def)
  moreover have "obj_at (sto map_of s') (objectKey ''t1/photos'' ''cat.jpg'') = Some (stamp_object 5 cat_object)"
    using mem.PutObject_sound(4) [OF s'] put_object_map_object [of "stamp_object 5 cat_object" "sto map_of photos_store"]
    by (simp add: obj_at_def f)
  ultimately show ?thesis
    using tag_search_exact [OF mem.pebble_reliable_axioms photos_tags_inv, of s' "''t1/photos''" "[(''kind'', ''cat'')]"]
      s' by (force simp: plain_tags_def matchesTags_def f)
qed

text \<open>
  The index is lost when \<^verbatim>\<open>PutObject\<close> rewrites a version that is not the latest, as the retention
  and legal hold updates of old versions do: the tags of the current object, which stays in
  place, disappear from the index.
\<close>

lemma put_old_version_loses_index:
  assumes "pebble_engine E cont" "PutObject E now (Some ob) s = Inr s'"
    and "om_VersionID ob \<noteq> []" "\<not> om_IsLatest ob"
    and "no_colon (om_Bucket ob)" "plain_tags (om_Tags ob)" "all_plain (sto cont s)"
    and tag: "(tk, tv) \<in> set (tags_at (sto cont s) (objectKey (om_Bucket ob) (om_Key ob)))" "(tk, tv) \<notin> set (om_Tags ob)"
  shows "sto cont s' (objectKey (om_Bucket ob) (om_Key ob)) = sto cont s (objectKey (om_Bucket ob) (om_Key ob))"
    and "sto cont s' (tagIndexKey (om_Bucket ob) tk tv (om_Key ob)) = None"
proof -
  note m' = pebble_engine.PutObject_sound(4) [OF assms(1,2)]
  show "sto cont s' (objectKey (om_Bucket ob) (om_Key ob)) = sto cont s (objectKey (om_Bucket ob) (om_Key ob))"
    using put_object_map_object [of "stamp_object now ob" "sto cont s"] assms(3,4) m' by simp
  have old: "plain_tags (tags_at (sto cont s) (objectKey (om_Bucket ob) (om_Key ob)))"
    using assms(7) by (simp add: all_plain_def)
  then have "no_colon tk" "no_colon tv" using tag(1) by (auto simp: plain_tags_def list_all_iff)
  note iff = tag_keys_iff [OF assms(5,5) this]
  show "sto cont s' (tagIndexKey (om_Bucket ob) tk tv (om_Key ob)) = None"
    using put_object_map_other [of "tagIndexKey (om_Bucket ob) tk tv (om_Key ob)" "stamp_object now ob" "sto cont s"]
      iff [OF assms(6)] iff [OF old] tag m' by simp
qed

section \<open>Versions\<close>

fun demote :: "string \<Rightarrow> kv_value \<Rightarrow> kv_value" where
  "demote key (JObject ob) = (if om_Key ob = key then JObject (ob\<lparr>om_IsLatest := False\<rparr>) else JObject ob)"
| "demote key v = v"

lemma latest_False [simp]: "\<not> om_IsLatest ob \<Longrightarrow> ob\<lparr>om_IsLatest := False\<rparr> = ob"
  by (cases ob) simp

lemma apply_unlatest:
  assumes "distinct (map fst kvs)" "\<And>k v. (k, v) \<in> set kvs \<Longrightarrow> m k = Some v"
  shows "apply_batch (unlatest key kvs) m x = (if x \<in> fst ` set kvs then map_option (demote key) (m x) else m x)"
  using assms
proof (induction kvs arbitrary: m)
  case (Cons kv kvs)
  obtain k v where kv: "kv = (k, v)" by force
  let ?m = "case unlatest key [kv] of [] \<Rightarrow> m | op # _ \<Rightarrow> apply_op op m"
  have step: "apply_batch (unlatest key (kv # kvs)) m = apply_batch (unlatest key kvs) ?m"
    by (simp add: unlatest_def List.map_filter_def kv split: option.split)
  have "m k = Some v" using Cons.prems(2) kv by simp
  then have m: "?m y = (if y = k then Some (demote key v) else m y)" for y
    by (cases v) (auto simp: unlatest_def List.map_filter_def kv)
  have "k \<notin> fst ` set kvs" using Cons.prems(1) kv by simp
  then have "?m k' = Some v'" if "(k', v') \<in> set kvs" for k' v'
    using that Cons.prems(2) m by (auto simp: rev_image_eqI)
  then have "apply_batch (unlatest key kvs) ?m x = (if x \<in> fst ` set kvs then map_option (demote key) (?m x) else ?m x)"
    using Cons.prems(1) by (intro Cons.IH) simp_all
  with m step \<open>k \<notin> fst ` set kvs\<close> \<open>m k = Some v\<close> show ?case by (auto simp: kv)
qed (simp add: unlatest_def List.map_filter_def)

context pebble_engine
begin

lemma PutObjectVersion_latest [sound]:
  assumes "PutObjectVersion E (Some ob) (Some ver) s = Inr s'" "ov_IsLatest ver"
  defines "b \<equiv> om_Bucket ob" and "k \<equiv> om_Key ob"
    and "new \<equiv> JObject (ob\<lparr>om_VersionID := ov_VersionID ver, om_IsLatest := True\<rparr>)"
  shows "sto cont s' x =
    (if x = objectKey b k \<or> x = objectVersionKey b k (ov_VersionID ver) then Some new
     else if HasPrefix x (versionScanPrefix b k) then map_option (demote k) (sto cont s x) else sto cont s x)"
    and "ps_deletedBuckets s' = ps_deletedBuckets s" "b \<notin> ps_deletedBuckets s"
proof -
  from assms obtain kvs where "b \<notin> ps_deletedBuckets s"
    and it: "pebbleIter E (versionScanPrefix b k) s = Inr (kvs, None)"
    and w: "commitNoSync E (unlatest k kvs @ [BSet (objectVersionKey b k (ov_VersionID ver)) new, BSet (objectKey b k) new]) s = Inr s'"
    unfolding PutObjectVersion_def rejectWriteToDeletedBucket_def Let_def
    by (simp split: sum.split_asm option.split_asm if_split_asm prod.split_asm)
  show "b \<notin> ps_deletedBuckets s" by fact
  show "ps_deletedBuckets s' = ps_deletedBuckets s" using commitNoSync_sound [OF w] by simp
  note set = pebbleIter_complete [OF it]
  have "apply_batch (unlatest k kvs) (sto cont s) y =
      (if y \<in> fst ` set kvs then map_option (demote k) (sto cont s y) else sto cont s y)" for y
    using sorted_wrt_less_distinct [OF pebbleIter_sorted [OF it]] set by (intro apply_unlatest) auto
  moreover have "y \<in> fst ` set kvs \<longleftrightarrow> sto cont s y \<noteq> None \<and> HasPrefix y (versionScanPrefix b k)" for y
    unfolding set by force
  ultimately show "sto cont s' x =
    (if x = objectKey b k \<or> x = objectVersionKey b k (ov_VersionID ver) then Some new
     else if HasPrefix x (versionScanPrefix b k) then map_option (demote k) (sto cont s x) else sto cont s x)"
    using commitNoSync_sound [OF w] by (cases "sto cont s x") simp_all
qed

end

definition latest_at :: "contents \<Rightarrow> string \<Rightarrow> bool" where
  "latest_at m x \<longleftrightarrow> (case obj_at m x of None \<Rightarrow> False | Some ob \<Rightarrow> om_IsLatest ob)"

lemma version_scan_own [simp]: "HasPrefix (objectVersionKey b k w) (versionScanPrefix b k)"
  by (simp add: objectVersionKey_def versionScanPrefix_def HasPrefix_def)

lemma version_scan_bucket:
  assumes "HasPrefix (objectVersionKey b' k' w) (versionScanPrefix b k)" "no_colon b" "no_colon b'"
  shows "b' = b"
proof -
  from assms(1) obtain r where "b' @ CHR '':'' # (k' @ '':'' @ w) = b @ CHR '':'' # (k @ '':'' @ r)"
    by (auto simp: HasPrefix_iff objectVersionKey_def versionScanPrefix_def)
  then show ?thesis using assms(2,3) by (simp add: no_colon_def sep_inj)
qed

lemma demote_other:
  assumes "typed m" "no_colon b" "no_colon b'" "no_colon w" "(b', k') \<noteq> (b, k)"
    and "HasPrefix (objectVersionKey b' k' w) (versionScanPrefix b k)"
  shows "map_option (demote k) (m (objectVersionKey b' k' w)) = m (objectVersionKey b' k' w)"
proof (cases "m (objectVersionKey b' k' w)")
  case (Some v)
  have "k' \<noteq> k" using version_scan_bucket [OF assms(6,2,3)] assms(5) by simp
  with typed_version [OF assms(1) Some assms(3,4)] Some show ?thesis by auto
qed simp

lemma demote_own:
  assumes "typed m" "no_colon b" "no_colon w"
  shows "Option.bind (map_option (demote k) (m (objectVersionKey b k w))) decode_object =
     map_option (\<lambda>ob. ob\<lparr>om_IsLatest := False\<rparr>) (obj_at m (objectVersionKey b k w))"
proof (cases "m (objectVersionKey b k w)")
  case (Some v)
  with typed_version [OF assms(1) Some assms(2,3)] show ?thesis by (auto simp: obj_at_def)
qed (simp add: obj_at_def)

context pebble_engine
begin

lemma PutObjectVersion_versions:
  assumes "typed (sto cont s)" "no_colon (om_Bucket ob)" "no_colon (ov_VersionID ver)"
    and "PutObjectVersion E (Some ob) (Some ver) s = Inr s'" "ov_IsLatest ver"
  defines "b \<equiv> om_Bucket ob" and "k \<equiv> om_Key ob"
    and "new \<equiv> ob\<lparr>om_VersionID := ov_VersionID ver, om_IsLatest := True\<rparr>"
  shows "obj_at (sto cont s') (objectKey b k) = Some new"
    and "no_colon w \<Longrightarrow> obj_at (sto cont s') (objectVersionKey b k w) =
      (if w = ov_VersionID ver then Some new
       else map_option (\<lambda>old. old\<lparr>om_IsLatest := False\<rparr>) (obj_at (sto cont s) (objectVersionKey b k w)))"
    and "no_colon b' \<Longrightarrow> no_colon w \<Longrightarrow> (b', k') \<noteq> (b, k) \<Longrightarrow>
      sto cont s' (objectVersionKey b' k' w) = sto cont s (objectVersionKey b' k' w)"
proof -
  note m' = PutObjectVersion_latest(1) [OF assms(4,5), folded b_def k_def new_def]
  note nc = assms(2,3) [folded b_def]
  show "obj_at (sto cont s') (objectKey b k) = Some new" using m' by (simp add: obj_at_def)
  show "obj_at (sto cont s') (objectVersionKey b k w) = (if w = ov_VersionID ver then Some new
       else map_option (\<lambda>old. old\<lparr>om_IsLatest := False\<rparr>) (obj_at (sto cont s) (objectVersionKey b k w)))" if "no_colon w"
    using m' [of "objectVersionKey b k w"] demote_own [OF assms(1) nc(1) that, of k] nc that
    by (simp add: obj_at_def objectVersionKey_inj)
  show "sto cont s' (objectVersionKey b' k' w) = sto cont s (objectVersionKey b' k' w)"
    if a: "no_colon b'" "no_colon w" "(b', k') \<noteq> (b, k)"
  proof -
    have "objectVersionKey b' k' w \<noteq> objectVersionKey b k (ov_VersionID ver)"
      using nc a by (auto simp: objectVersionKey_inj)
    with m' [of "objectVersionKey b' k' w"] demote_other [OF assms(1) nc(1) a] show ?thesis by simp
  qed
qed

end

text \<open>
  C17. Adding a latest version leaves exactly one latest version. After \<^verbatim>\<open>PutObjectVersion\<close> of a
  version marked latest, the object's current entry and the new version entry hold the new
  document; every older version of the object is still there with only its latest mark taken
  off; and no version of any other object has changed. On an engine that does not fail, \<^verbatim>\<open>GetObject\<close> by key and by the new
  version returns the new document, and by an older version that version without its mark.
\<close>

theorem put_version_single_latest:
  assumes "pebble_engine E cont" "typed (sto cont s)" "no_colon (om_Bucket ob)" "no_colon (ov_VersionID ver)"
    and "PutObjectVersion E (Some ob) (Some ver) s = Inr s'" "ov_IsLatest ver"
  shows "obj_at (sto cont s') (objectKey (om_Bucket ob) (om_Key ob)) =
      Some (ob\<lparr>om_VersionID := ov_VersionID ver, om_IsLatest := True\<rparr>) \<and>
    (\<forall>w. no_colon w \<longrightarrow> obj_at (sto cont s') (objectVersionKey (om_Bucket ob) (om_Key ob) w) =
      (if w = ov_VersionID ver then Some (ob\<lparr>om_VersionID := ov_VersionID ver, om_IsLatest := True\<rparr>)
       else map_option (\<lambda>old. old\<lparr>om_IsLatest := False\<rparr>) (obj_at (sto cont s) (objectVersionKey (om_Bucket ob) (om_Key ob) w)))) \<and>
    (\<forall>w. no_colon w \<longrightarrow>
      (latest_at (sto cont s') (objectVersionKey (om_Bucket ob) (om_Key ob) w) \<longleftrightarrow> w = ov_VersionID ver)) \<and>
    (\<forall>b' k' w. no_colon b' \<longrightarrow> no_colon w \<longrightarrow> (b', k') \<noteq> (om_Bucket ob, om_Key ob) \<longrightarrow>
      sto cont s' (objectVersionKey b' k' w) = sto cont s (objectVersionKey b' k' w)) \<and>
    (pebble_reliable E cont \<and> om_Bucket ob \<noteq> [] \<and> om_Key ob \<noteq> [] \<longrightarrow>
      GetObject E (om_Bucket ob) (om_Key ob) [] s' = Inr (ob\<lparr>om_VersionID := ov_VersionID ver, om_IsLatest := True\<rparr>) \<and>
      (\<forall>w old. no_colon w \<longrightarrow> w \<noteq> [] \<longrightarrow> GetObject E (om_Bucket ob) (om_Key ob) w s = Inr old \<or> w = ov_VersionID ver \<longrightarrow>
        GetObject E (om_Bucket ob) (om_Key ob) w s' = Inr (if w = ov_VersionID ver
          then ob\<lparr>om_VersionID := ov_VersionID ver, om_IsLatest := True\<rparr> else old\<lparr>om_IsLatest := False\<rparr>)))"
proof -
  let ?new = "ob\<lparr>om_VersionID := ov_VersionID ver, om_IsLatest := True\<rparr>"
  note v = pebble_engine.PutObjectVersion_versions [OF assms]
  have get: "GetObject E (om_Bucket ob) (om_Key ob) w s' = Inr (fill_object (om_Bucket ob) (om_Key ob) x)"
    if "pebble_reliable E cont" "om_Bucket ob \<noteq> []" "om_Key ob \<noteq> []" "obj_at (sto cont s') (objKeyFor (om_Bucket ob) (om_Key ob) w) = Some x" for w x
    using pebble_reliable.GetObject_ok [OF that(1) _ that(2,3)] that(4) by (simp add: obj_at_Some)
  have new: "GetObject E (om_Bucket ob) (om_Key ob) w s' = Inr ?new"
    if "pebble_reliable E cont" "om_Bucket ob \<noteq> []" "om_Key ob \<noteq> []" "w = [] \<or> w = ov_VersionID ver" for w
    using get [OF that(1-3), of w ?new] v(1) v(2) [of w] assms(4) that(2-4) by (auto simp: objKeyFor_def fill_object_def)
  have old: "GetObject E (om_Bucket ob) (om_Key ob) w s' = Inr (x\<lparr>om_IsLatest := False\<rparr>)"
    if "pebble_reliable E cont" "om_Bucket ob \<noteq> []" "om_Key ob \<noteq> []" "no_colon w" "w \<noteq> []" "w \<noteq> ov_VersionID ver"
      "GetObject E (om_Bucket ob) (om_Key ob) w s = Inr x" for w x
  proof -
    note h = that
    obtain y where y: "sto cont s (objectVersionKey (om_Bucket ob) (om_Key ob) w) = Some (JObject y)" "x = fill_object (om_Bucket ob) (om_Key ob) y"
      using pebble_engine.GetObject_sound [OF assms(1) h(7)] h(5) by (auto simp: objKeyFor_def)
    have "om_Bucket y = om_Bucket ob" "om_Key y = om_Key ob" using typed_version [OF assms(2) y(1) assms(3) h(4)] by auto
    then show ?thesis
      using get [OF h(1-3), of w "y\<lparr>om_IsLatest := False\<rparr>"] v(2) [OF h(4)] h(2,3,5,6) y by (simp add: objKeyFor_def obj_at_def fill_object_def)
  qed
  have "latest_at (sto cont s') (objectVersionKey (om_Bucket ob) (om_Key ob) w) \<longleftrightarrow> w = ov_VersionID ver"
    if "no_colon w" for w
    by (cases "obj_at (sto cont s) (objectVersionKey (om_Bucket ob) (om_Key ob) w)")
      (simp_all add: latest_at_def v(2) [OF that])
  with v new old show ?thesis by (intro conjI allI impI) auto
qed

context pebble_reliable
begin

lemma PutObjectVersion_ok:
  assumes "om_Bucket ob \<notin> ps_deletedBuckets s"
  shows "\<exists>s'. PutObjectVersion E (Some ob) (Some ver) s = Inr s'"
proof -
  obtain kvs where "pebbleIter E (versionScanPrefix (om_Bucket ob) (om_Key ob)) s = Inr (kvs, None)"
    using pebbleIter_ok by blast
  with assms commit_total(1) show ?thesis
    by (simp add: PutObjectVersion_def rejectWriteToDeletedBucket_def Let_def)
qed

end

definition cat_v1 :: object_metadata where
  "cat_v1 = cat_object\<lparr>om_VersionID := ''v1'', om_IsLatest := True\<rparr>"

definition cat_store :: "(string \<times> kv_value) list pstore" where
  "cat_store = NewPebbleStore
     [(objectVersionKey ''t1/photos'' ''cat.jpg'' ''v1'', JObject cat_v1),
      (objectKey ''t1/photos'' ''cat.jpg'', JObject cat_v1)]"

lemma cat_fields [simp]:
  "om_Bucket cat_object = ''t1/photos''" "om_Key cat_object = ''cat.jpg''" "om_VersionID cat_object = []"
  "om_Bucket cat_v1 = ''t1/photos''" "om_Key cat_v1 = ''cat.jpg''" "om_VersionID cat_v1 = ''v1''" "om_IsLatest cat_v1"
  by (simp_all add: cat_v1_def cat_object_def zero_object_def)

lemma cat_store_typed: "typed (sto map_of cat_store)"
  unfolding cat_store_def NewPebbleStore_simps by (rule typed_map_of) simp

theorem put_version_single_latest_witness:
  "\<exists>s'. PutObjectVersion mem_engine (Some cat_object) (Some (zero_version\<lparr>ov_VersionID := ''v2'', ov_IsLatest := True\<rparr>)) cat_store = Inr s' \<and>
     latest_at (sto map_of s') (objectVersionKey ''t1/photos'' ''cat.jpg'' ''v2'') \<and>
     \<not> latest_at (sto map_of s') (objectVersionKey ''t1/photos'' ''cat.jpg'' ''v1'')"
proof -
  let ?v = "zero_version\<lparr>ov_VersionID := ''v2'', ov_IsLatest := True\<rparr>"
  obtain s' where s': "PutObjectVersion mem_engine (Some cat_object) (Some ?v) cat_store = Inr s'"
    using mem.PutObjectVersion_ok [of cat_object cat_store ?v] by (auto simp: cat_store_def)
  have l: "\<forall>w. no_colon w \<longrightarrow>
      (latest_at (sto map_of s') (objectVersionKey ''t1/photos'' ''cat.jpg'' w) \<longleftrightarrow> w = ''v2'')"
    using put_version_single_latest [OF mem.pebble_engine_axioms cat_store_typed _ _ s'] by simp
  from l [rule_format, of "''v1''"] l [rule_format, of "''v2''"] s' show ?thesis by simp
qed

context pebble_reliable
begin

lemma GetObjectVersions_ok:
  assumes ty: "typed (sto cont s)" and nb: "no_colon b"
  shows "\<exists>vs. GetObjectVersions E b k s = Inr vs \<and> sorted_wrt (\<lambda>v w. ov_LastModified v \<ge> ov_LastModified w) vs \<and>
    set vs = to_version ` {ob. \<exists>w. no_colon w \<and> obj_at (sto cont s) (objectVersionKey b k w) = Some ob}"
proof -
  obtain kvs where it: "pebbleIter E (versionScanPrefix b k) s = Inr (kvs, None)"
    using pebbleIter_ok by blast
  let ?obs = "filter (\<lambda>obj. om_Key obj = k) (List.map_filter (\<lambda>(k, v). decode_object v) kvs)"
  have r: "GetObjectVersions E b k s = Inr (sort_key (\<lambda>v. - ov_LastModified v) (map to_version ?obs))"
    using it by (simp add: GetObjectVersions_def)
  have "sorted (map (\<lambda>v. - ov_LastModified v) (sort_key (\<lambda>v. - ov_LastModified v) (map to_version ?obs)))"
    by (rule sorted_sort_key)
  then have srt: "sorted_wrt (\<lambda>v w. ov_LastModified v \<ge> ov_LastModified w) (sort_key (\<lambda>v. - ov_LastModified v) (map to_version ?obs))"
    by (simp add: sorted_map)
  have "(\<exists>x v. sto cont s x = Some v \<and> HasPrefix x (versionScanPrefix b k) \<and> decode_object v = Some ob \<and> om_Key ob = k) \<longleftrightarrow>
      (\<exists>w. no_colon w \<and> obj_at (sto cont s) (objectVersionKey b k w) = Some ob)" (is "?L \<longleftrightarrow> ?R") for ob
  proof
    assume ?L
    then obtain x where x: "sto cont s x = Some (JObject ob)" "HasPrefix x (versionScanPrefix b k)" "om_Key ob = k" by auto
    then have "HasPrefix x ''version:''" by (auto simp: HasPrefix_iff versionScanPrefix_def)
    from prefix_kinds(3) [OF this typedD [OF ty x(1)]] have
      xk: "x = objectVersionKey (om_Bucket ob) k (om_VersionID ob)" "no_colon (om_Bucket ob)" "no_colon (om_VersionID ob)"
      using x(3) by auto
    with version_scan_bucket [OF x(2) [unfolded xk(1)] nb] x(1) show ?R by (auto simp: obj_at_Some)
  next
    assume ?R
    then obtain w where w: "no_colon w" "sto cont s (objectVersionKey b k w) = Some (JObject ob)" by (auto simp: obj_at_Some)
    with typed_version [OF ty w(2) nb w(1)] show ?L
      by (intro exI [of _ "objectVersionKey b k w"] exI [of _ "JObject ob"]) simp
  qed
  moreover have "set ?obs = {ob. \<exists>x v. sto cont s x = Some v \<and> HasPrefix x (versionScanPrefix b k) \<and> decode_object v = Some ob \<and> om_Key ob = k}"
    using pebbleIter_complete [OF it] by (simp add: in_map_filter set_eq_iff Bex_def) blast
  ultimately have "set ?obs = {ob. \<exists>w. no_colon w \<and> obj_at (sto cont s) (objectVersionKey b k w) = Some ob}" by simp
  with r srt show ?thesis by (intro exI conjI) (assumption | simp)+
qed

end

text \<open>
  C25. \<^verbatim>\<open>GetObjectVersions\<close> returns all versions of exactly the object asked for, newest first.
  Version keys of an object whose name extends the given one with a colon share the scanned
  prefix and are left out.
\<close>

theorem get_object_versions_exact:
  assumes "pebble_reliable E cont" "typed (sto cont s)" "no_colon b"
  shows "\<exists>vs. GetObjectVersions E b k s = Inr vs \<and> sorted_wrt (\<lambda>v w. ov_LastModified v \<ge> ov_LastModified w) vs \<and>
    set vs = to_version ` {ob. \<exists>w. no_colon w \<and> obj_at (sto cont s) (objectVersionKey b k w) = Some ob}"
  using pebble_reliable.GetObjectVersions_ok [OF assms] .

theorem get_object_versions_exact_witness:
  "\<exists>vs. GetObjectVersions mem_engine ''t1/photos'' ''cat.jpg'' cat_store = Inr vs \<and> to_version cat_v1 \<in> set vs"
proof -
  have "obj_at (sto map_of cat_store) (objectVersionKey ''t1/photos'' ''cat.jpg'' ''v1'') = Some cat_v1"
    by (simp add: cat_store_def obj_at_def)
  moreover have "no_colon ''v1''" by simp
  ultimately show ?thesis
    using get_object_versions_exact [OF mem.pebble_reliable_axioms cat_store_typed, of "''t1/photos''" "''cat.jpg''"]
    by fastforce
qed

section \<open>Retention of a whole bucket\<close>

definition held_at :: "gotime \<Rightarrow> contents \<Rightarrow> string \<Rightarrow> bool" where
  "held_at now m x \<longleftrightarrow> (case obj_at m x of None \<Rightarrow> False | Some ob \<Rightarrow> actively_held now ob)"

context pebble_engine
begin

lemma entry_held_scan:
  assumes "pebbleIter E p s = Inr (kvs, err)"
  shows "list_ex (\<lambda>(k, v). entry_held now v) kvs \<Longrightarrow> \<exists>x. HasPrefix x p \<and> held_at now (sto cont s) x"
    and "err = None \<Longrightarrow> HasPrefix x p \<Longrightarrow> held_at now (sto cont s) x \<Longrightarrow> list_ex (\<lambda>(k, v). entry_held now v) kvs"
proof -
  have h: "held_at now (sto cont s) y \<longleftrightarrow> (\<exists>v. sto cont s y = Some v \<and> entry_held now v)" for y
    by (cases "sto cont s y") (simp_all add: held_at_def entry_held_def obj_at_def)
  show "list_ex (\<lambda>(k, v). entry_held now v) kvs \<Longrightarrow> \<exists>x. HasPrefix x p \<and> held_at now (sto cont s) x"
    using pebbleIter_member [OF assms] by (fastforce simp: list_ex_iff h)
  show "list_ex (\<lambda>(k, v). entry_held now v) kvs"
    if "err = None" "HasPrefix x p" "held_at now (sto cont s) x"
    using that pebbleIter_complete [of p s kvs] assms by (auto simp: list_ex_iff h)
qed

lemma HasActiveComplianceRetention_sound:
  assumes "HasActiveComplianceRetention E now b s = Inr r"
  shows "r \<longleftrightarrow> (\<exists>x. (HasPrefix x (''version:'' @ b @ '':'') \<or> HasPrefix x (''obj:'' @ b @ '':'')) \<and> held_at now (sto cont s) x)"
proof -
  let ?held = "list_ex (\<lambda>(k, v). entry_held now v)"
  from assms consider vkvs verr where "pebbleIter E (''version:'' @ b @ '':'') s = Inr (vkvs, verr)" "?held vkvs" r
    | vkvs okvs oerr where "pebbleIter E (''version:'' @ b @ '':'') s = Inr (vkvs, None)" "\<not> ?held vkvs"
        "pebbleIter E (''obj:'' @ b @ '':'') s = Inr (okvs, oerr)" "?held okvs" r
    | vkvs okvs where "pebbleIter E (''version:'' @ b @ '':'') s = Inr (vkvs, None)" "\<not> ?held vkvs"
        "pebbleIter E (''obj:'' @ b @ '':'') s = Inr (okvs, None)" "\<not> ?held okvs" "\<not> r"
    unfolding HasActiveComplianceRetention_def by (auto split: sum.split_asm option.split_asm if_split_asm)
  then show ?thesis
  proof cases
    case 1
    then show ?thesis using entry_held_scan(1) by blast
  next
    case 2
    then show ?thesis using entry_held_scan(1) by blast
  next
    case 3
    then show ?thesis using entry_held_scan(2) by blast
  qed
qed

end

text \<open>
  The compliance check of a bucket never misses a held object. Whenever
  \<^verbatim>\<open>HasActiveComplianceRetention\<close> answers, the answer is true exactly when some current object or
  some version stored for the bucket has a legal hold or a \<^verbatim>\<open>COMPLIANCE\<close> retention that has not
  expired; an engine failure that could hide one is returned as an error instead.
\<close>

theorem compliance_check_exact:
  assumes "pebble_engine E cont" "HasActiveComplianceRetention E now b s = Inr r"
  shows "r \<longleftrightarrow> (\<exists>x. (HasPrefix x (''version:'' @ b @ '':'') \<or> HasPrefix x (''obj:'' @ b @ '':'')) \<and> held_at now (sto cont s) x)"
  using pebble_engine.HasActiveComplianceRetention_sound [OF assms] .

definition hold_store :: "(string \<times> kv_value) list pstore" where
  "hold_store = NewPebbleStore [(objectKey ''photos'' ''a'', JObject (zero_object\<lparr>om_Bucket := ''photos'', om_Key := ''a'',
     om_Retention := Some \<lparr>rt_Mode = ''COMPLIANCE'', rt_RetainUntilDate = 100, rt_Days = None, rt_Years = None\<rparr>\<rparr>))]"

theorem compliance_check_exact_witness:
  "HasActiveComplianceRetention mem_engine 50 ''photos'' hold_store = Inr True \<and>
   (\<exists>x. held_at 50 (sto map_of hold_store) x) \<and>
   HasActiveComplianceRetention mem_engine 200 ''photos'' hold_store = Inr False \<and>
   \<not> held_at 200 (sto map_of hold_store) (objectKey ''photos'' ''a'')"
proof -
  have 1: "HasActiveComplianceRetention mem_engine 50 ''photos'' hold_store = Inr True"
    and 2: "HasActiveComplianceRetention mem_engine 200 ''photos'' hold_store = Inr False"
    by code_simp+
  have "HasPrefix (objectKey ''photos'' ''a'') (''obj:'' @ ''photos'' @ '':'')"
    by (simp add: objectKey_def HasPrefix_def)
  with compliance_check_exact [OF mem.pebble_engine_axioms 1] compliance_check_exact [OF mem.pebble_engine_axioms 2] 1 2
  show ?thesis by blast
qed

end
