(* ===== verification/Meta_Listing.thy ===== *)
theory Meta_Listing
  imports Meta_Object_Props
begin

text \<open>
  Listing and search, \<^verbatim>\<open>ListObjects\<close>, \<^verbatim>\<open>ListObjectsDelimited\<close> and \<^verbatim>\<open>SearchObjects\<close> of
  \<^verbatim>\<open>internal/metadata/pebble_objects.go\<close>. An iterator is the list of the entries it still has to
  deliver; \<^verbatim>\<open>SeekGE\<close> drops the entries below its target. Every loop says whether it ran to the
  end of the iterator, where \<^verbatim>\<open>iter.Error()\<close> is asked.
\<close>

section \<open>Operations\<close>

definition seekGE :: "string \<Rightarrow> (string \<times> 'v) list \<Rightarrow> (string \<times> 'v) list" where
  "seekGE target kvs = dropWhile (\<lambda>kv. fst kv < target) kvs"

definition defaultMaxKeys :: "int \<Rightarrow> int" where
  "defaultMaxKeys maxKeys = (if maxKeys \<le> 0 then 1000 else maxKeys)"

lemma defaultMaxKeys_idem [simp]: "defaultMaxKeys (defaultMaxKeys n) = defaultMaxKeys n"
  by (simp add: defaultMaxKeys_def)

definition listLower :: "string \<Rightarrow> string \<Rightarrow> string" where
  "listLower bucket prfx = (if prfx \<noteq> [] then objectPrefixKey bucket prfx else objectListPrefix bucket)"

definition seekMarker :: "string \<Rightarrow> string \<Rightarrow> (string \<times> kv_value) list \<Rightarrow> (string \<times> kv_value) list" where
  "seekMarker bucket marker kvs = (if marker \<noteq> [] then seekGE (objectKey bucket marker) kvs else kvs)"

fun list_loop :: "string \<Rightarrow> int \<Rightarrow> (string \<times> kv_value) list \<Rightarrow> bool \<Rightarrow> object_metadata list \<Rightarrow> string
    \<Rightarrow> object_metadata list \<times> string \<times> bool" where
  "list_loop marker maxKeys [] started objs lastKey = (objs, [], True)"
| "list_loop marker maxKeys ((k, v) # kvs) started objs lastKey = (let objKeyStr = extractObjectKeyFromKey k in
     if \<not> started \<and> objKeyStr = marker then list_loop marker maxKeys kvs True objs lastKey
     else if int (length objs) \<ge> maxKeys then (objs, lastKey, False)
     else (case decode_object v of
         None \<Rightarrow> list_loop marker maxKeys kvs True objs lastKey
       | Some obj \<Rightarrow> list_loop marker maxKeys kvs True (objs @ [obj]) objKeyStr))"

definition ListObjects :: "'db engine \<Rightarrow> string \<Rightarrow> string \<Rightarrow> string \<Rightarrow> int \<Rightarrow> 'db pstore
    \<Rightarrow> meta_error + (object_metadata list \<times> string)" where
  "ListObjects E bucket prfx marker maxKeys s =
     (if bucket = [] then Inl (ErrMsg ''bucket name is required'')
      else (case pebbleIter E (listLower bucket prfx) s of
          Inl e \<Rightarrow> Inl e
        | Inr (kvs, err) \<Rightarrow>
          (case list_loop marker (defaultMaxKeys maxKeys) (seekMarker bucket marker kvs) (marker = []) [] [] of
            (objects, nextMarker, ended) \<Rightarrow>
              (case (if ended then err else None) of
                 Some e \<Rightarrow> Inl (ErrEngine e) | None \<Rightarrow> Inr (objects, nextMarker)))))"

text \<open>The loop of the scan search counts the entries it visits and stops at its scan limit.\<close>

fun search_loop :: "object_filter option \<Rightarrow> nat \<Rightarrow> string \<Rightarrow> int \<Rightarrow> (string \<times> kv_value) list \<Rightarrow> nat \<Rightarrow> bool
    \<Rightarrow> object_metadata list \<Rightarrow> string \<Rightarrow> object_metadata list \<times> string \<times> bool" where
  "search_loop flt scanLimit marker maxKeys [] scanned started objs lastKey = (objs, [], True)"
| "search_loop flt scanLimit marker maxKeys ((k, v) # kvs) scanned started objs lastKey =
     (if scanned \<ge> scanLimit then (objs, lastKey, False)
      else (let scanned = Suc scanned; objKeyStr = extractObjectKeyFromKey k in
        if \<not> started \<and> objKeyStr = marker then search_loop flt scanLimit marker maxKeys kvs scanned True objs lastKey
        else if int (length objs) \<ge> maxKeys then (objs, lastKey, False)
        else (case decode_object v of
            None \<Rightarrow> search_loop flt scanLimit marker maxKeys kvs scanned True objs lastKey
          | Some obj \<Rightarrow> search_loop flt scanLimit marker maxKeys kvs scanned True
              (if matchesFilter obj flt then objs @ [obj] else objs) objKeyStr)))"

definition searchObjectsByScan :: "'db engine \<Rightarrow> string \<Rightarrow> string \<Rightarrow> string \<Rightarrow> int \<Rightarrow> object_filter option \<Rightarrow> 'db pstore
    \<Rightarrow> meta_error + (object_metadata list \<times> string)" where
  "searchObjectsByScan E bucket prfx marker maxKeys flt s =
     (case pebbleIter E (listLower bucket prfx) s of
        Inl e \<Rightarrow> Inl e
      | Inr (kvs, err) \<Rightarrow>
        (case search_loop flt 100000 marker (defaultMaxKeys maxKeys) (seekMarker bucket marker kvs) 0 (marker = []) [] [] of
          (objects, nextMarker, ended) \<Rightarrow>
            (case (if ended then err else None) of
               Some e \<Rightarrow> Inl (ErrEngine e) | None \<Rightarrow> Inr (objects, nextMarker))))"

fun tag_page_loop :: "('a \<Rightarrow> object_metadata option) \<Rightarrow> int \<Rightarrow> 'a list \<Rightarrow> object_metadata list \<Rightarrow> object_metadata list \<times> 'a option" where
  "tag_page_loop found maxKeys [] objs = (objs, None)"
| "tag_page_loop found maxKeys (objKey # ks) objs =
     (if int (length objs) \<ge> maxKeys then (objs, Some objKey)
      else (case found objKey of
          None \<Rightarrow> tag_page_loop found maxKeys ks objs
        | Some obj \<Rightarrow> tag_page_loop found maxKeys ks (objs @ [obj])))"

definition searchObjectsWithTags :: "'db engine \<Rightarrow> string \<Rightarrow> string \<Rightarrow> string \<Rightarrow> int \<Rightarrow> object_filter \<Rightarrow> 'db pstore
    \<Rightarrow> meta_error + (object_metadata list \<times> string)" where
  "searchObjectsWithTags E bucket prfx marker maxKeys flt s =
     (let (firstTagKey, firstTagValue) = (case of_Tags flt of [] \<Rightarrow> ([], []) | t # _ \<Rightarrow> t);
          idxPrefix = tagIndexPrefix bucket firstTagKey firstTagValue
      in case pebbleIter E idxPrefix s of
          Inl e \<Rightarrow> Inl e
        | Inr (kvs, err) \<Rightarrow>
          (let candidateKeys = filter (\<lambda>objKey. \<not> (prfx \<noteq> [] \<and> \<not> HasPrefix objKey prfx) \<and> \<not> (marker \<noteq> [] \<and> objKey \<le> marker))
                 (index_candidates idxPrefix kvs)
           in case err of
              Some e \<Rightarrow> Inl (ErrEngine e)
            | None \<Rightarrow> (case tag_page_loop (found_object E bucket (\<lambda>obj. matchesFilter obj (Some flt)) s) maxKeys (sort candidateKeys) [] of
                (objects, next) \<Rightarrow> Inr (objects, case next of None \<Rightarrow> [] | Some k \<Rightarrow> k))))"

definition SearchObjects :: "'db engine \<Rightarrow> string \<Rightarrow> string \<Rightarrow> string \<Rightarrow> int \<Rightarrow> object_filter option \<Rightarrow> 'db pstore
    \<Rightarrow> meta_error + (object_metadata list \<times> string)" where
  "SearchObjects E bucket prfx marker maxKeys flt s =
     (if bucket = [] then Inl (ErrMsg ''bucket name is required'')
      else (let maxKeys = defaultMaxKeys maxKeys in
        case flt of
          Some f \<Rightarrow> if of_Tags f \<noteq> [] then searchObjectsWithTags E bucket prfx marker maxKeys f s
                    else searchObjectsByScan E bucket prfx marker maxKeys flt s
        | None \<Rightarrow> searchObjectsByScan E bucket prfx marker maxKeys flt s))"

text \<open>The common prefix ("folder") a key belongs to, if the delimiter occurs after the listing prefix.\<close>

definition folder_of :: "string \<Rightarrow> string \<Rightarrow> string \<Rightarrow> string option" where
  "folder_of prfx delimiter objKeyStr =
     (if delimiter \<noteq> [] \<and> length objKeyStr > length prfx
      then (let remaining = drop (length prfx) objKeyStr in
        case str_index remaining delimiter of
          None \<Rightarrow> None
        | Some delimIdx \<Rightarrow> Some (prfx @ take (delimIdx + length delimiter) remaining))
      else None)"

text \<open>
  The loop body appears twice in the source, before and after the label \<^verbatim>\<open>processKey\<close>, which it
  reaches again after each \<^verbatim>\<open>SeekGE\<close>. The target of a \<^verbatim>\<open>SeekGE\<close> is beyond the current key, so it
  acts on the rest of the iterator. \<open>seenPrefixes\<close> holds the common prefixes of the result and
  \<open>count\<close> is the number of items in the result.
\<close>

function delim_loop :: "string \<Rightarrow> string \<Rightarrow> string \<Rightarrow> int \<Rightarrow> (string \<times> kv_value) list \<Rightarrow> delimited_list_result \<Rightarrow> string
    \<Rightarrow> delimited_list_result \<times> bool" where
  "delim_loop bucket prfx delimiter maxKeys [] result lastItem = (result, True)"
| "delim_loop bucket prfx delimiter maxKeys ((k, v) # kvs) result lastItem =
     (let objKeyStr = extractObjectKeyFromKey k;
          count = int (length (dl_Objects result) + length (dl_CommonPrefixes result));
          truncated = result\<lparr>dl_IsTruncated := True, dl_NextMarker := lastItem\<rparr>
      in case folder_of prfx delimiter objKeyStr of
        Some commonPrefix \<Rightarrow>
          if commonPrefix \<notin> set (dl_CommonPrefixes result) \<and> count \<ge> maxKeys then (truncated, False)
          else (let
              isNew = commonPrefix \<notin> set (dl_CommonPrefixes result);
              result = (if isNew then result\<lparr>dl_CommonPrefixes := dl_CommonPrefixes result @ [commonPrefix]\<rparr> else result);
              lastItem = (if isNew then commonPrefix else lastItem)
            in delim_loop bucket prfx delimiter maxKeys
                 (case prefixEnd (objectPrefixKey bucket commonPrefix) of
                    Some skipTarget \<Rightarrow> seekGE skipTarget kvs | None \<Rightarrow> kvs) result lastItem)
      | None \<Rightarrow>
          if count \<ge> maxKeys then (truncated, False)
          else (case decode_object v of
              None \<Rightarrow> delim_loop bucket prfx delimiter maxKeys kvs result lastItem
            | Some obj \<Rightarrow> delim_loop bucket prfx delimiter maxKeys kvs
                (result\<lparr>dl_Objects := dl_Objects result @ [obj]\<rparr>) objKeyStr))"
  by pat_completeness auto
termination
  by (relation "measure (\<lambda>(bucket, prfx, delimiter, maxKeys, kvs, result, lastItem). length kvs)")
    (auto simp: seekGE_def le_imp_less_Suc length_dropWhile_le split: option.split)

definition ListObjectsDelimited :: "'db engine \<Rightarrow> string \<Rightarrow> string \<Rightarrow> string \<Rightarrow> string \<Rightarrow> int \<Rightarrow> 'db pstore
    \<Rightarrow> meta_error + delimited_list_result" where
  "ListObjectsDelimited E bucket prfx delimiter marker maxKeys s =
     (if bucket = [] then Inl (ErrMsg ''bucket name is required'')
      else (case pebbleIter E (listLower bucket prfx) s of
          Inl e \<Rightarrow> Inl e
        | Inr (kvs, err) \<Rightarrow>
          (let start =
             (if marker \<noteq> [] then
                if delimiter \<noteq> [] \<and> HasSuffix marker delimiter
                then (case prefixEnd (objectPrefixKey bucket marker) of
                        Some skipTarget \<Rightarrow> seekGE skipTarget kvs | None \<Rightarrow> [])
                else (case seekGE (objectKey bucket marker) kvs of
                        [] \<Rightarrow> []
                      | (k, v) # rest \<Rightarrow> if extractObjectKeyFromKey k = marker then rest else (k, v) # rest)
              else kvs)
           in case delim_loop bucket prfx delimiter (defaultMaxKeys maxKeys) start
                \<lparr>dl_Objects = [], dl_CommonPrefixes = [], dl_NextMarker = [], dl_IsTruncated = False\<rparr> [] of
                (result, ended) \<Rightarrow>
                  (case (if ended then err else None) of Some e \<Rightarrow> Inl (ErrEngine e) | None \<Rightarrow> Inr result))))"

end
