(* ===== verification/Meta_Listing_Props.thy ===== *)
theory Meta_Listing_Props
  imports Meta_Listing
begin

text \<open>
  Correctness of listing: a page of \<^verbatim>\<open>ListObjects\<close> is the next stretch of the bucket in key
  order, following the markers delivers every object exactly once, and a delimited listing is
  the grouping of the keys by their first delimiter.
\<close>

section \<open>The entries of a bucket scan\<close>

definition lists_objects :: "contents \<Rightarrow> string \<Rightarrow> string \<Rightarrow> (string \<times> object_metadata) list \<Rightarrow> bool" where
  "lists_objects m b p xs \<longleftrightarrow> sorted_wrt (<) (map fst xs) \<and>
     (\<forall>k ob. (k, ob) \<in> set xs \<longleftrightarrow> obj_at m (objectKey b k) = Some ob \<and> HasPrefix k p)"

definition enc :: "string \<Rightarrow> string \<times> object_metadata \<Rightarrow> string \<times> kv_value" where
  "enc b x = (objectKey b (fst x), JObject (snd x))"

lemma objectKey_less [simp]: "objectKey b k < objectKey b k' \<longleftrightarrow> k < k'"
  by (simp add: objectKey_def)

lemma listLower_objectKey [simp]: "listLower b p = objectKey b p"
  by (simp add: listLower_def objectPrefixKey_def objectListPrefix_def objectKey_def)

lemma HasPrefix_objectKey [simp]: "HasPrefix (objectKey b k) (objectKey b p) \<longleftrightarrow> HasPrefix k p"
  by (simp add: objectKey_def HasPrefix_def)

lemma map_fst_enc: "map fst (map (enc b) xs) = map (objectKey b) (map fst xs)"
  by (simp add: enc_def)

lemma sorted_map_objectKey: "sorted_wrt (<) (map (objectKey b) ks) \<longleftrightarrow> sorted_wrt (<) ks"
  by (simp add: sorted_wrt_map)

context pebble_engine
begin

lemma scan_objects:
  assumes ty: "typed (sto cont s)" and b: "no_colon b" and it: "pebbleIter E (listLower b p) s = Inr (kvs, None)"
  shows "\<exists>xs. kvs = map (enc b) xs \<and> lists_objects (sto cont s) b p xs"
proof -
  let ?dec = "\<lambda>(x, v). (drop (length (objectListPrefix b)) x, the (decode_object v))"
  have key: "objectKey b k = objectListPrefix b @ k" for k by (simp add: objectKey_def objectListPrefix_def)
  note set = pebbleIter_complete [OF it]
  have entry: "enc b (?dec kv) = kv" if "kv \<in> set kvs" for kv
  proof -
    obtain x v where kv: "kv = (x, v)" by force
    with that set have x: "sto cont s x = Some v" "HasPrefix x (objectKey b p)" by auto
    then obtain r where r: "x = objectKey b (p @ r)" by (auto simp: HasPrefix_iff objectKey_def)
    with typed_object [OF ty _ b] x(1) obtain ob where "v = JObject ob" by blast
    with kv r show ?thesis by (simp add: enc_def key)
  qed
  let ?xs = "map ?dec kvs"
  have "map (enc b) ?xs = map (\<lambda>kv. kv) kvs" unfolding map_map using entry by (intro map_cong) auto
  then have kvs: "kvs = map (enc b) ?xs" by simp
  have "sorted_wrt (<) (map fst ?xs)"
    using pebbleIter_sorted [OF it] kvs map_fst_enc sorted_map_objectKey by metis
  moreover have "(k, ob) \<in> set ?xs \<longleftrightarrow> obj_at (sto cont s) (objectKey b k) = Some ob \<and> HasPrefix k p" for k ob
  proof -
    have "inj (enc b)" by (rule injI) (auto simp: enc_def objectKey_def prod_eq_iff)
    then have "(k, ob) \<in> set ?xs \<longleftrightarrow> enc b (k, ob) \<in> set (map (enc b) ?xs)"
      by (simp only: set_map inj_image_mem_iff)
    also have "\<dots> \<longleftrightarrow> enc b (k, ob) \<in> set kvs" using kvs by argo
    finally show ?thesis unfolding set by (simp add: enc_def obj_at_Some)
  qed
  ultimately have "lists_objects (sto cont s) b p ?xs" unfolding lists_objects_def by blast
  with kvs show ?thesis by blast
qed

end

section \<open>ListObjects\<close>

lemma dropWhile_less_filter:
  "sorted_wrt (<) (map fst xs) \<Longrightarrow>
     dropWhile (\<lambda>x. fst x < (t :: 'a :: linorder)) xs = filter (\<lambda>x. t \<le> fst x) xs"
proof (induction xs)
  case (Cons x xs)
  then show ?case
    by (cases "fst x < t") (auto intro!: filter_True [symmetric] intro: less_imp_le less_le_trans)
qed simp

lemma seek_enc:
  "seekGE (objectKey b t) (map (enc b) xs) = map (enc b) (dropWhile (\<lambda>x. fst x < t) xs)"
  by (simp add: seekGE_def dropWhile_map o_def enc_def)

lemma list_loop_skip:
  assumes "sorted_wrt (<) (map fst xs)" "no_colon b" "marker \<noteq> []"
  shows "list_loop marker n (map (enc b) (filter (\<lambda>x. marker \<le> fst x) xs)) False objs lastKey =
    list_loop marker n (map (enc b) (filter (\<lambda>x. marker < fst x) xs)) True objs lastKey"
  using assms(1)
proof (induction xs)
  case (Cons x xs)
  consider "fst x < marker" | "fst x = marker" | "marker < fst x" by force
  then show ?case
  proof cases
    case 1
    with Cons show ?thesis by auto
  next
    case 2
    then have "filter (\<lambda>x. marker \<le> fst x) xs = xs" "filter (\<lambda>x. marker < fst x) xs = xs"
      using Cons.prems by (auto intro!: filter_True intro: less_imp_le)
    with 2 assms(2) show ?thesis by (simp add: enc_def)
  next
    case 3
    then have "filter (\<lambda>x. marker \<le> fst x) xs = xs" "filter (\<lambda>x. marker < fst x) xs = xs"
      using Cons.prems by (auto intro!: filter_True intro: less_imp_le less_trans)
    moreover have "marker \<le> fst x" "fst x \<noteq> marker" using 3 by auto
    ultimately show ?thesis using 3 assms(2) by (simp add: enc_def Let_def)
  qed
qed simp

text \<open>What the loop returns from a stretch of entries, with room for \<open>r\<close> more objects.\<close>

lemma list_loop_page:
  assumes "no_colon b" "int (length objs + r) = n"
  shows "list_loop marker n (map (enc b) xs) True objs lastKey =
    (objs @ map snd (take r xs),
     if r < length xs then (if r = 0 then lastKey else fst (xs ! (r - 1))) else [],
     length xs \<le> r)"
  using assms(2)
proof (induction xs arbitrary: objs r lastKey)
  case (Cons x xs)
  show ?case
  proof (cases r)
    case 0
    with Cons.prems assms(1) show ?thesis by (simp add: enc_def)
  next
    case (Suc q)
    have "int (length (objs @ [snd x]) + q) = n" using Cons.prems Suc by simp
    from Cons.IH [OF this, of "fst x"] Suc Cons.prems assms(1) show ?thesis
      by (cases q) (simp_all add: enc_def)
  qed
qed simp

definition after :: "string \<Rightarrow> (string \<times> 'a) list \<Rightarrow> (string \<times> 'a) list" where
  "after marker xs = (if marker = [] then xs else filter (\<lambda>x. marker < fst x) xs)"

context pebble_reliable
begin

lemma ListObjects_page:
  fixes n :: int and marker :: string and xs :: "(string \<times> object_metadata) list"
  assumes "typed (sto cont s)" "no_colon b" "b \<noteq> []" "lists_objects (sto cont s) b p xs"
  defines "r \<equiv> nat (defaultMaxKeys n)" and "ys \<equiv> after marker xs"
  shows "ListObjects E b p marker n s = Inr (map snd (take r ys), if r < length ys then fst (ys ! (r - 1)) else [])"
proof -
  obtain kvs where it: "pebbleIter E (listLower b p) s = Inr (kvs, None)" using pebbleIter_ok by blast
  from scan_objects [OF assms(1,2) it] obtain zs where kvs: "kvs = map (enc b) zs"
    and zs: "lists_objects (sto cont s) b p zs" by blast
  have "set zs = set xs" using zs assms(4) by (auto simp: lists_objects_def)
  then have "zs = xs" using zs assms(4) sorted_wrt_less_unique by (auto simp: lists_objects_def)
  have srt: "sorted_wrt (<) (map fst xs)" using assms(4) by (simp add: lists_objects_def)
  have r: "int (length [] + r) = defaultMaxKeys n" "r \<noteq> 0" by (simp_all add: r_def defaultMaxKeys_def)
  have "list_loop marker (defaultMaxKeys n) (seekMarker b marker kvs) (marker = []) [] [] =
      list_loop marker (defaultMaxKeys n) (map (enc b) ys) True [] []"
    using list_loop_skip [OF srt assms(2)] kvs \<open>zs = xs\<close> dropWhile_less_filter [OF srt]
    by (simp add: seekMarker_def seek_enc ys_def after_def)
  also have "\<dots> = (map snd (take r ys), if r < length ys then fst (ys ! (r - 1)) else [], length ys \<le> r)"
    using list_loop_page [OF assms(2) r(1), of marker ys "[]"] r(2) by simp
  finally show ?thesis using it assms(3) by (simp add: ListObjects_def)
qed

lemma lists_objects_ex: "typed (sto cont s) \<Longrightarrow> no_colon b \<Longrightarrow> \<exists>xs. lists_objects (sto cont s) b p xs"
  using scan_objects pebbleIter_ok [of "listLower b p" s] by blast

end

section \<open>Following the markers\<close>

text \<open>The loop of a client that asks for the next page until the marker comes back empty.\<close>

fun list_pages :: "'db engine \<Rightarrow> string \<Rightarrow> string \<Rightarrow> int \<Rightarrow> nat \<Rightarrow> string \<Rightarrow> 'db pstore \<Rightarrow> object_metadata list list option" where
  "list_pages E b p n 0 marker s = None"
| "list_pages E b p n (Suc fuel) marker s = (case ListObjects E b p marker n s of
     Inl e \<Rightarrow> None
   | Inr (objs, next) \<Rightarrow> if next = [] then Some [objs] else map_option ((#) objs) (list_pages E b p n fuel next s))"

lemma filter_above_nth:
  "sorted_wrt (<) (map fst zs) \<Longrightarrow> i < length zs \<Longrightarrow>
     filter (\<lambda>x. fst (zs ! i) < (fst x :: 'a :: linorder)) zs = drop (Suc i) zs"
proof (induction zs arbitrary: i)
  case (Cons z zs)
  show ?case
  proof (cases i)
    case 0
    with Cons.prems show ?thesis by (auto intro!: filter_True)
  next
    case (Suc j)
    have "fst z < fst (zs ! j)" using Cons.prems Suc by simp
    then have "\<not> fst (zs ! j) < fst z" by simp
    with Cons Suc show ?thesis by simp
  qed
qed simp

lemma sorted_after: "sorted_wrt (<) (map fst xs) \<Longrightarrow> sorted_wrt (<) (map fst (after marker xs))"
  by (simp add: after_def sorted_wrt_map sorted_wrt_filter)

lemma after_nth:
  assumes "sorted_wrt (<) (map fst xs)" "i < length (after marker xs)" "fst (after marker xs ! i) \<noteq> []"
  shows "after (fst (after marker xs ! i)) xs = drop (Suc i) (after marker xs)"
proof -
  let ?ys = "after marker xs" and ?t = "fst (after marker xs ! i)"
  have "?ys ! i \<in> set ?ys" using assms(2) by simp
  then have "marker = [] \<or> marker < ?t" by (auto simp: after_def split: if_split_asm)
  then have "filter (\<lambda>x. ?t < fst x) xs = filter (\<lambda>x. ?t < fst x) ?ys"
    by (auto simp: after_def intro!: filter_cong)
  with filter_above_nth [OF sorted_after [OF assms(1)] assms(2)] assms(3) show ?thesis
    by (simp add: after_def [of ?t])
qed

context pebble_reliable
begin

lemma list_pages_after:
  assumes "typed (sto cont s)" "no_colon b" "b \<noteq> []" "lists_objects (sto cont s) b p xs" "[] \<notin> fst ` set xs"
  shows "length (after marker xs) < fuel \<Longrightarrow>
    \<exists>pages. list_pages E b p n fuel marker s = Some pages \<and> concat pages = map snd (after marker xs) \<and>
      (\<forall>pg\<in>set pages. int (length pg) \<le> defaultMaxKeys n)"
proof (induction fuel arbitrary: marker)
  case (Suc fuel)
  let ?ys = "after marker xs" and ?r = "nat (defaultMaxKeys n)"
  note page = ListObjects_page [OF assms(1-4), of marker n]
  have len: "int (length (map snd (take ?r ?ys))) \<le> defaultMaxKeys n" by (auto simp: defaultMaxKeys_def)
  show ?case
  proof (cases "?r < length ?ys")
    case True
    let ?next = "fst (?ys ! (?r - 1))"
    have r: "0 < ?r" by (simp add: defaultMaxKeys_def)
    then have i: "?r - 1 < length ?ys" using True by simp
    have "?ys ! (?r - 1) \<in> set xs" using nth_mem [OF i] by (auto simp: after_def split: if_split_asm)
    then have ne: "?next \<noteq> []" using assms(5) by force
    have "sorted_wrt (<) (map fst xs)" using assms(4) by (simp add: lists_objects_def)
    from after_nth [OF this i ne] r have rest: "after ?next xs = drop ?r ?ys" by simp
    have "length (after ?next xs) < fuel" unfolding rest using Suc.prems r True by simp
    from Suc.IH [OF this] obtain pages where
      "list_pages E b p n fuel ?next s = Some pages" "concat pages = map snd (drop ?r ?ys)"
      "\<forall>pg\<in>set pages. int (length pg) \<le> defaultMaxKeys n" unfolding rest by blast
    moreover have "map snd (take ?r ?ys) @ map snd (drop ?r ?ys) = map snd ?ys"
      by (simp add: map_append [symmetric] del: map_append)
    ultimately show ?thesis using page True ne len by simp
  next
    case False
    with page len show ?thesis by simp
  qed
qed simp

end

text \<open>
  Following the markers of \<^verbatim>\<open>ListObjects\<close> delivers every object of the bucket with the prefix
  exactly once and in key order, whatever the page size: the pages, of at most the requested
  size each, concatenate to the sorted listing, and the loop ends.
\<close>

theorem list_pagination_complete:
  assumes "pebble_reliable E cont" "typed (sto cont s)" "no_colon b" "b \<noteq> []"
    and "lists_objects (sto cont s) b p xs" "obj_at (sto cont s) (objectKey b []) = None"
  shows "\<exists>pages. list_pages E b p n (Suc (length xs)) [] s = Some pages \<and> concat pages = map snd xs \<and>
    (\<forall>pg\<in>set pages. int (length pg) \<le> defaultMaxKeys n)"
proof -
  have "[] \<notin> fst ` set xs" using assms(5,6) by (force simp: lists_objects_def)
  from pebble_reliable.list_pages_after [OF assms(1-5) this, of "[]" "Suc (length xs)" n]
  show ?thesis by (simp add: after_def)
qed

definition three_store :: "(string \<times> kv_value) list pstore" where
  "three_store = NewPebbleStore (map (\<lambda>k. (objectKey ''b'' k, JObject (zero_object\<lparr>om_Bucket := ''b'', om_Key := k\<rparr>)))
     [''c'', ''a'', ''b''])"

lemma three_store_typed: "typed (sto map_of three_store)"
  unfolding three_store_def NewPebbleStore_simps by (rule typed_map_of) simp

lemma three_store_lists:
  "lists_objects (sto map_of three_store) ''b'' [] (map (\<lambda>k. (k, zero_object\<lparr>om_Bucket := ''b'', om_Key := k\<rparr>)) [''a'', ''b'', ''c''])"
  by (auto simp: lists_objects_def three_store_def obj_at_def objectKey_def split: if_split_asm)

theorem list_pagination_complete_witness:
  "\<exists>pages. list_pages mem_engine ''b'' [] 2 4 [] three_store = Some pages \<and>
     map om_Key (concat pages) = [''a'', ''b'', ''c'']"
proof -
  have "obj_at (sto map_of three_store) (objectKey ''b'' []) = None"
    by (simp add: three_store_def obj_at_def objectKey_def)
  from list_pagination_complete [OF mem.pebble_reliable_axioms three_store_typed _ _ three_store_lists this, of 2]
  show ?thesis by (auto simp: eval_nat_numeral)
qed

section \<open>Search by scan\<close>

abbreviation matching :: "object_filter option \<Rightarrow> (string \<times> object_metadata) list \<Rightarrow> object_metadata list" where
  "matching flt xs \<equiv> map snd (filter (\<lambda>x. matchesFilter (snd x) flt) xs)"

text \<open>The loop consumes a stretch of the entries and returns the matching objects of that stretch.\<close>

lemma search_loop_stretch:
  assumes "no_colon b"
  shows "search_loop flt lim marker n (map (enc b) ys) scanned True objs lastKey = (objs', next, ended) \<Longrightarrow>
    \<exists>i \<le> length ys. objs' = objs @ matching flt (take i ys) \<and> ended = (i = length ys) \<and>
      (next = (if ended then [] else if i = 0 then lastKey else fst (ys ! (i - 1)))) \<and>
      (int (length objs) < n \<and> scanned < lim \<and> ys \<noteq> [] \<longrightarrow> 0 < i) \<and>
      (int (length objs) \<le> n \<longrightarrow> int (length objs') \<le> n)"
proof (induction ys arbitrary: scanned objs lastKey)
  case (Cons y ys)
  have enc: "enc b y = (objectKey b (fst y), JObject (snd y))" by (simp add: enc_def)
  show ?case
  proof (cases "scanned < lim \<and> int (length objs) < n")
    case True
    let ?objs = "if matchesFilter (snd y) flt then objs @ [snd y] else objs"
    have "search_loop flt lim marker n (map (enc b) ys) (Suc scanned) True ?objs (fst y) = (objs', next, ended)"
      using Cons.prems True assms by (simp add: enc del: if_split)
    from Cons.IH [OF this] obtain i where i: "i \<le> length ys" "objs' = ?objs @ matching flt (take i ys)"
      "ended = (i = length ys)" "next = (if ended then [] else if i = 0 then fst y else fst (ys ! (i - 1)))"
      "int (length ?objs) \<le> n \<longrightarrow> int (length objs') \<le> n" by blast
    have "int (length ?objs) \<le> n" using True by simp
    with i show ?thesis by (intro exI [of _ "Suc i"]) (auto simp: nth_Cons')
  next
    case False
    with Cons.prems assms show ?thesis
      by (intro exI [of _ 0]) (auto simp: enc_def not_less split: if_split_asm)
  qed
qed simp

lemma search_loop_skip:
  assumes "sorted_wrt (<) (map fst xs)" "no_colon b" "marker \<noteq> []" "1 < lim"
  shows "\<exists>sc \<le> 1. search_loop flt lim marker n (map (enc b) (filter (\<lambda>x. marker \<le> fst x) xs)) 0 False objs lastKey =
    search_loop flt lim marker n (map (enc b) (filter (\<lambda>x. marker < fst x) xs)) sc True objs lastKey"
  using assms(1)
proof (induction xs)
  case (Cons x xs)
  consider "fst x < marker" | "fst x = marker" | "marker < fst x" by force
  then show ?case
  proof cases
    case 1
    with Cons show ?thesis by auto
  next
    case 2
    then have "filter (\<lambda>x. marker \<le> fst x) xs = xs" "filter (\<lambda>x. marker < fst x) xs = xs"
      using Cons.prems by (auto intro!: filter_True intro: less_imp_le)
    with 2 assms(2,4) show ?thesis by (intro exI [of _ 1]) (simp add: enc_def)
  next
    case 3
    then have "filter (\<lambda>x. marker \<le> fst x) xs = xs" "filter (\<lambda>x. marker < fst x) xs = xs"
      using Cons.prems by (auto intro!: filter_True intro: less_imp_le less_trans)
    moreover have "marker \<le> fst x" "fst x \<noteq> marker" using 3 by auto
    ultimately show ?thesis using 3 assms(2,4) by (intro exI [of _ 0]) (simp add: enc_def Let_def)
  qed
qed auto

fun search_pages :: "'db engine \<Rightarrow> string \<Rightarrow> string \<Rightarrow> int \<Rightarrow> object_filter option \<Rightarrow> nat \<Rightarrow> string \<Rightarrow> 'db pstore
    \<Rightarrow> object_metadata list list option" where
  "search_pages E b p n flt 0 marker s = None"
| "search_pages E b p n flt (Suc fuel) marker s = (case SearchObjects E b p marker n flt s of
     Inl e \<Rightarrow> None
   | Inr (objs, next) \<Rightarrow> if next = [] then Some [objs] else map_option ((#) objs) (search_pages E b p n flt fuel next s))"

context pebble_reliable
begin

lemma searchObjectsByScan_page:
  fixes flt :: "object_filter option"
  assumes "typed (sto cont s)" "no_colon b" "lists_objects (sto cont s) b p xs"
  shows "\<exists>i \<le> length (after marker xs). (after marker xs \<noteq> [] \<longrightarrow> 0 < i) \<and>
    int (length (matching flt (take i (after marker xs)))) \<le> defaultMaxKeys n \<and>
    searchObjectsByScan E b p marker n flt s = Inr (matching flt (take i (after marker xs)),
      if i = length (after marker xs) then [] else fst (after marker xs ! (i - 1)))"
proof -
  obtain kvs where it: "pebbleIter E (listLower b p) s = Inr (kvs, None)" using pebbleIter_ok by blast
  from scan_objects [OF assms(1,2) it] obtain zs where kvs: "kvs = map (enc b) zs"
    and zs: "lists_objects (sto cont s) b p zs" by blast
  have "set zs = set xs" using zs assms(3) by (auto simp: lists_objects_def)
  then have "zs = xs" using zs assms(3) sorted_wrt_less_unique by (auto simp: lists_objects_def)
  have srt: "sorted_wrt (<) (map fst xs)" using assms(3) by (simp add: lists_objects_def)
  obtain sc where sc: "sc \<le> 1" "search_loop flt 100000 marker (defaultMaxKeys n) (seekMarker b marker kvs) 0 (marker = []) [] [] =
      search_loop flt 100000 marker (defaultMaxKeys n) (map (enc b) (after marker xs)) sc True [] []"
    using search_loop_skip [OF srt assms(2), of marker 100000 flt "defaultMaxKeys n" "[]" "[]"] kvs \<open>zs = xs\<close> dropWhile_less_filter [OF srt]
    by (cases "marker = []") (auto simp: seekMarker_def seek_enc after_def)
  obtain objs' nx ended where res: "search_loop flt 100000 marker (defaultMaxKeys n) (map (enc b) (after marker xs)) sc True [] [] = (objs', nx, ended)"
    by (metis prod_cases3)
  have "0 < defaultMaxKeys n" by (simp add: defaultMaxKeys_def)
  with search_loop_stretch [OF assms(2) res] sc(1) obtain i where "i \<le> length (after marker xs)"
    "objs' = matching flt (take i (after marker xs))" "ended = (i = length (after marker xs))"
    "nx = (if ended then [] else if i = 0 then [] else fst (after marker xs ! (i - 1)))"
    "after marker xs \<noteq> [] \<longrightarrow> 0 < i" "int (length objs') \<le> defaultMaxKeys n" by auto
  with it sc(2) res show ?thesis by (intro exI [of _ i]) (auto simp: searchObjectsByScan_def)
qed

lemma search_pages_after:
  assumes "typed (sto cont s)" "no_colon b" "b \<noteq> []" "lists_objects (sto cont s) b p xs" "[] \<notin> fst ` set xs"
    and flt: "case flt of None \<Rightarrow> True | Some f \<Rightarrow> of_Tags f = []"
  shows "length (after marker xs) < fuel \<Longrightarrow>
    \<exists>pages. search_pages E b p n flt fuel marker s = Some pages \<and> concat pages = matching flt (after marker xs) \<and>
      (\<forall>pg\<in>set pages. int (length pg) \<le> defaultMaxKeys n)"
proof (induction fuel arbitrary: marker)
  case (Suc fuel)
  let ?ys = "after marker xs"
  have "SearchObjects E b p marker n flt s = searchObjectsByScan E b p marker (defaultMaxKeys n) flt s"
    using assms(3) flt by (simp add: SearchObjects_def Let_def split: option.splits)
  with searchObjectsByScan_page [OF assms(1,2,4), where marker = marker and n = "defaultMaxKeys n" and flt = flt] obtain i where i: "i \<le> length ?ys" "?ys \<noteq> [] \<longrightarrow> 0 < i"
    "int (length (matching flt (take i ?ys))) \<le> defaultMaxKeys n"
    and page: "SearchObjects E b p marker n flt s = Inr (matching flt (take i ?ys), if i = length ?ys then [] else fst (?ys ! (i - 1)))"
    by (metis defaultMaxKeys_idem)
  show ?case
  proof (cases "i = length ?ys")
    case False
    let ?next = "fst (?ys ! (i - 1))"
    have i': "0 < i" "i - 1 < length ?ys" using False i by auto
    have "?ys ! (i - 1) \<in> set xs" using nth_mem [OF i'(2)] by (auto simp: after_def split: if_split_asm)
    then have ne: "?next \<noteq> []" using assms(5) by force
    have "sorted_wrt (<) (map fst xs)" using assms(4) by (simp add: lists_objects_def)
    from after_nth [OF this i'(2) ne] i' have rest: "after ?next xs = drop i ?ys" by simp
    have "length (after ?next xs) < fuel" unfolding rest using Suc.prems i' False i by simp
    from Suc.IH [OF this] obtain pages where
      "search_pages E b p n flt fuel ?next s = Some pages" "concat pages = matching flt (drop i ?ys)"
      "\<forall>pg\<in>set pages. int (length pg) \<le> defaultMaxKeys n" unfolding rest by blast
    moreover have "matching flt (take i ?ys) @ matching flt (drop i ?ys) = matching flt ?ys"
      unfolding map_append [symmetric] filter_append [symmetric] append_take_drop_id by (rule refl)
    ultimately show ?thesis using page False ne i(3) by simp
  qed (use page i in simp)
qed simp

end

text \<open>
  C16. Following the markers of a search by scan (no tag condition) delivers exactly the objects
  of the bucket that match the filter, each once and in key order, although a page may stop at
  the scan limit before it is full.
\<close>

theorem search_pagination_complete:
  assumes "pebble_reliable E cont" "typed (sto cont s)" "no_colon b" "b \<noteq> []"
    and "lists_objects (sto cont s) b p xs" "obj_at (sto cont s) (objectKey b []) = None"
    and "case flt of None \<Rightarrow> True | Some f \<Rightarrow> of_Tags f = []"
  shows "\<exists>pages. search_pages E b p n flt (Suc (length xs)) [] s = Some pages \<and>
    concat pages = map snd (filter (\<lambda>x. matchesFilter (snd x) flt) xs) \<and>
    (\<forall>pg\<in>set pages. int (length pg) \<le> defaultMaxKeys n)"
proof -
  have "[] \<notin> fst ` set xs" using assms(5,6) by (force simp: lists_objects_def)
  from pebble_reliable.search_pages_after [OF assms(1-5) this assms(7), of "[]" "Suc (length xs)" n]
  show ?thesis by (simp add: after_def)
qed

theorem search_pagination_complete_witness:
  "\<exists>pages. search_pages mem_engine ''b'' [] 1
       (Some \<lparr>of_ContentTypes = [], of_MinSize = Some 0, of_MaxSize = None, of_ModifiedAfter = None,
              of_ModifiedBefore = None, of_Tags = []\<rparr>) 4 [] three_store = Some pages \<and>
     map om_Key (concat pages) = [''a'', ''b'', ''c'']"
proof -
  have "obj_at (sto map_of three_store) (objectKey ''b'' []) = None"
    by (simp add: three_store_def obj_at_def objectKey_def)
  from search_pagination_complete [OF mem.pebble_reliable_axioms three_store_typed _ _ three_store_lists this,
      of "Some \<lparr>of_ContentTypes = [], of_MinSize = Some 0, of_MaxSize = None, of_ModifiedAfter = None,
              of_ModifiedBefore = None, of_Tags = []\<rparr>" 1]
  show ?thesis by (auto simp: eval_nat_numeral matchesFilter_def zero_object_def)
qed

text \<open>
  The search by tag does not have this property: its next marker is the first key it did not
  return, and the next call skips keys up to and including the marker. With one result per
  page the second of two matching objects is never delivered.
\<close>

definition tagged_store :: "(string \<times> kv_value) list pstore" where
  "tagged_store = NewPebbleStore (concat (map (\<lambda>k.
     [(objectKey ''b'' k, JObject (zero_object\<lparr>om_Bucket := ''b'', om_Key := k, om_Tags := [(''t'', ''1'')]\<rparr>)),
      (tagIndexKey ''b'' ''t'' ''1'' k, Bytes [])]) [''x'', ''y'']))"

definition tag_filter :: object_filter where
  "tag_filter = \<lparr>of_ContentTypes = [], of_MinSize = None, of_MaxSize = None, of_ModifiedAfter = None,
     of_ModifiedBefore = None, of_Tags = [(''t'', ''1'')]\<rparr>"

lemma tag_search_page_loses:
  "map_sum id (map_prod (map om_Key) id) (SearchObjects mem_engine ''b'' [] [] 1 (Some tag_filter) tagged_store) = Inr ([''x''], ''y'')"
  "map_sum id (map_prod (map om_Key) id) (SearchObjects mem_engine ''b'' [] ''y'' 1 (Some tag_filter) tagged_store) = Inr ([], [])"
  by code_simp+

end
