(* ===== verification/Meta_Delimited.thy ===== *)
theory Meta_Delimited
  imports Meta_Listing_Props
begin

text \<open>
  Correctness of \<^verbatim>\<open>ListObjectsDelimited\<close>: skipping whole folders with \<^verbatim>\<open>SeekGE\<close> gives the same
  result as grouping the sorted listing by the first delimiter, page by page.
\<close>

section \<open>Folders\<close>

lemma str_index_min: "str_index s d = Some i \<Longrightarrow> j < i \<Longrightarrow> \<not> HasPrefix (drop j s) d"
proof (induction s d arbitrary: i j rule: str_index.induct)
  case (2 c s p)
  then show ?case by (cases j) (auto split: if_splits)
qed (auto split: if_splits)

lemma str_indexI:
  "HasPrefix (drop i s) d \<Longrightarrow> i \<le> length s \<Longrightarrow> (\<And>j. j < i \<Longrightarrow> \<not> HasPrefix (drop j s) d) \<Longrightarrow> str_index s d = Some i"
proof (induction s d arbitrary: i rule: str_index.induct)
  case (1 p)
  then show ?case by (auto simp: HasPrefix_def)
next
  case (2 c s p)
  show ?case
  proof (cases i)
    case 0
    with 2 show ?thesis by simp
  next
    case (Suc k)
    have "\<not> HasPrefix (c # s) p" using "2.prems"(3) [of 0] Suc by simp
    moreover have "str_index s p = Some k"
    proof (rule "2.IH" [OF calculation])
      show "\<not> HasPrefix (drop j s) p" if "j < k" for j
        using "2.prems"(3) [of "Suc j"] that Suc by simp
    qed (use "2.prems" Suc in simp_all)
    ultimately show ?thesis using Suc by simp
  qed
qed

lemma folder_ofD:
  assumes "folder_of p d k = Some c" "HasPrefix k p"
  shows "HasPrefix k c" "HasPrefix c p" "HasSuffix c d" "d \<noteq> []" "c \<noteq> []"
proof -
  obtain r where k: "k = p @ r" using assms(2) by (auto simp: HasPrefix_iff)
  with assms(1) obtain i where i: "str_index r d = Some i" and c: "c = p @ take (i + length d) r" and d: "d \<noteq> []"
    by (auto simp: folder_of_def split: if_split_asm option.split_asm)
  from str_index_Some [OF i] obtain q where q: "drop i r = d @ q" "i \<le> length r" by (auto simp: HasPrefix_iff)
  have t: "take (i + length d) r = take i r @ d" using q by (simp add: take_add)
  show "d \<noteq> []" by fact
  show "HasPrefix c p" by (simp add: c)
  have "k = c @ drop (i + length d) r" by (simp add: k c)
  then show "HasPrefix k c" by (simp only: HasPrefix_append)
  show "HasSuffix c d" unfolding HasSuffix_iff c t by (metis append.assoc)
  show "c \<noteq> []" using d by (simp add: c t)
qed

text \<open>Every key below a folder belongs to that folder.\<close>

lemma folder_of_under:
  assumes "folder_of p d k = Some c" "HasPrefix k p" "HasPrefix k' c"
  shows "folder_of p d k' = Some c"
proof -
  obtain r where k: "k = p @ r" using assms(2) by (auto simp: HasPrefix_iff)
  with assms(1) obtain i where i: "str_index r d = Some i" and c: "c = p @ take (i + length d) r" and d: "d \<noteq> []"
    by (auto simp: folder_of_def split: if_split_asm option.split_asm)
  from str_index_Some [OF i] obtain q where q: "drop i r = d @ q" "i \<le> length r" by (auto simp: HasPrefix_iff)
  have len: "i + length d \<le> length r" using q by (metis add_leD1 length_append length_drop le_add_diff_inverse nat_add_left_cancel_le le_add1)
  obtain q' where k': "k' = p @ take (i + length d) r @ q'" using assms(3) by (auto simp: c HasPrefix_iff)
  let ?r = "take (i + length d) r @ q'"
  have "str_index ?r d = Some i"
  proof (rule str_indexI)
    show "HasPrefix (drop i ?r) d" using q len by (simp add: HasPrefix_iff take_add)
    show "\<not> HasPrefix (drop j ?r) d" if "j < i" for j
    proof -
      have "take (length d) (drop j ?r) = take (length d) (drop j r)"
        using that len by (simp add: take_drop min_def)
      then show ?thesis using str_index_min [OF i that] by (simp add: HasPrefix_def)
    qed
    show "i \<le> length ?r" using len by simp
  qed
  moreover have "take (i + length d) ?r = take (i + length d) r" using len by simp
  moreover have "0 < length ?r" using d len by (cases d) auto
  ultimately show ?thesis using d by (simp add: folder_of_def k' c)
qed

lemma folder_of_iff:
  assumes "folder_of p d k = Some c" "HasPrefix k p" "HasPrefix k' p"
  shows "folder_of p d k' = Some c \<longleftrightarrow> HasPrefix k' c"
  using assms folder_of_under folder_ofD(1) by blast

text \<open>A key between a prefix and a key with that prefix has the prefix too.\<close>

lemma prefix_convex: "c \<le> x \<Longrightarrow> x < y \<Longrightarrow> HasPrefix y c \<Longrightarrow> HasPrefix x c"
  using between_prefix [of c "[]" x] by (force simp: HasPrefix_iff)

section \<open>Items of a listing\<close>

type_synonym list_item = "string + (string \<times> object_metadata)"

definition item :: "string \<Rightarrow> string \<Rightarrow> string \<times> object_metadata \<Rightarrow> list_item" where
  "item p d x = (case folder_of p d (fst x) of Some c \<Rightarrow> Inl c | None \<Rightarrow> Inr x)"

definition items :: "string \<Rightarrow> string \<Rightarrow> (string \<times> object_metadata) list \<Rightarrow> list_item list" where
  "items p d xs = remdups_adj (map (item p d) xs)"

fun item_name :: "list_item \<Rightarrow> string" where
  "item_name (Inl c) = c"
| "item_name (Inr x) = fst x"

fun item_objs :: "list_item list \<Rightarrow> object_metadata list" where
  "item_objs [] = []"
| "item_objs (Inl c # its) = item_objs its"
| "item_objs (Inr x # its) = snd x # item_objs its"

fun item_prefixes :: "list_item list \<Rightarrow> string list" where
  "item_prefixes [] = []"
| "item_prefixes (Inl c # its) = c # item_prefixes its"
| "item_prefixes (Inr x # its) = item_prefixes its"

definition good_list :: "string \<Rightarrow> (string \<times> object_metadata) list \<Rightarrow> bool" where
  "good_list p xs \<longleftrightarrow> sorted_wrt (<) (map fst xs) \<and> (\<forall>x\<in>set xs. HasPrefix (fst x) p)"

lemma good_list_simps [simp]:
  "good_list p []"
  "good_list p (x # xs) \<longleftrightarrow> (\<forall>y\<in>set xs. fst x < fst y) \<and> HasPrefix (fst x) p \<and> good_list p xs"
  by (auto simp: good_list_def)

lemma good_list_dropWhile: "good_list p xs \<Longrightarrow> good_list p (dropWhile P xs)"
  by (induction xs) simp_all

lemma items_Nil [simp]: "items p d [] = []"
  by (simp add: items_def)

lemma items_object:
  assumes "good_list p (x # xs)" "folder_of p d (fst x) = None"
  shows "items p d (x # xs) = Inr x # items p d xs"
proof -
  have "map (item p d) xs = [] \<or> hd (map (item p d) xs) \<noteq> Inr x"
    using assms by (cases xs) (auto simp: item_def split: option.splits)
  then show ?thesis using assms(2)
    by (cases xs) (auto simp: items_def item_def remdups_adj_Cons split: list.splits)
qed

lemma items_folder:
  assumes "good_list p (x # xs)" "folder_of p d (fst x) = Some c"
  shows "items p d (x # xs) = Inl c # items p d (dropWhile (\<lambda>y. HasPrefix (fst y) c) xs)"
proof -
  have "item p d y = Inl c \<longleftrightarrow> folder_of p d (fst y) = Some c" for y
    by (simp add: item_def split: option.split)
  then have "item p d y = Inl c \<longleftrightarrow> HasPrefix (fst y) c" if "y \<in> set xs" for y
    using folder_of_iff [OF assms(2), of "fst y"] assms(1) that by (simp add: good_list_def)
  then have "dropWhile (\<lambda>y. y = Inl c) (map (item p d) xs) = map (item p d) (dropWhile (\<lambda>y. HasPrefix (fst y) c) xs)"
    unfolding dropWhile_map by (intro arg_cong [where f = "map (item p d)"] dropWhile_cong) (auto simp: o_def)
  then show ?thesis using assms(2) by (simp add: items_def item_def remdups_adj_Cons')
qed

text \<open>After a folder has been skipped, none of its keys is left.\<close>

lemma folder_skipped:
  assumes "good_list p xs" "\<forall>y\<in>set xs. c \<le> fst y" "y \<in> set (dropWhile (\<lambda>y. HasPrefix (fst y) c) xs)"
  shows "\<not> HasPrefix (fst y) c"
  using assms
proof (induction xs)
  case (Cons x xs)
  show ?case
  proof (cases "HasPrefix (fst x) c")
    case False
    with Cons.prems consider "y = x" | "y \<in> set xs" by auto
    then show ?thesis
    proof cases
      case 2
      with Cons.prems have "c \<le> fst x" "fst x < fst y" by auto
      with False prefix_convex show ?thesis by blast
    qed (use False in simp)
  qed (use Cons in auto)
qed simp

section \<open>The loop\<close>

lemma prefixEnd_objectPrefixKey: "\<exists>t. prefixEnd (objectPrefixKey b c) = Some t"
proof -
  have none: "prefixEnd_loop xs = None \<Longrightarrow> x \<in> set xs \<Longrightarrow> inc_byte x = char_of (0 :: nat)" for xs x
    by (induction xs) (auto split: if_split_asm)
  have "inc_byte (CHR ''o'') \<noteq> char_of (0 :: nat)" by code_simp
  moreover have "CHR ''o'' \<in> set (rev (objectPrefixKey b c))" by (simp add: objectPrefixKey_def)
  ultimately show ?thesis using none unfolding prefixEnd_def by (metis not_None_eq)
qed

lemma skip_key:
  assumes "prefixEnd (objectPrefixKey b c) = Some t"
  shows "c \<le> k \<Longrightarrow> objectKey b k < t \<longleftrightarrow> HasPrefix k c"
    and "t \<le> objectKey b k \<longleftrightarrow> c \<le> k \<and> \<not> HasPrefix k c"
proof -
  have o: "objectPrefixKey b c = objectKey b c" by (simp add: objectPrefixKey_def objectKey_def)
  have le: "objectKey b c \<le> objectKey b k \<longleftrightarrow> c \<le> k" for k by (simp add: objectKey_def)
  have b: "HasPrefix k c \<longleftrightarrow> c \<le> k \<and> objectKey b k < t" for k
    using prefixEnd_bounds [of "objectKey b k" "objectKey b c"] assms by (simp add: o below_def le)
  show "c \<le> k \<Longrightarrow> objectKey b k < t \<longleftrightarrow> HasPrefix k c" using b by blast
  have "objectKey b c < t" using b [of c] by (simp add: HasPrefix_def)
  then show "t \<le> objectKey b k \<longleftrightarrow> c \<le> k \<and> \<not> HasPrefix k c" using b [of k] le
    by (meson le_less_trans less_imp_le not_le order_trans)
qed

lemma seek_folder:
  assumes "prefixEnd (objectPrefixKey b c) = Some t" "\<forall>y\<in>set xs. c \<le> fst y"
  shows "seekGE t (map (enc b) xs) = map (enc b) (dropWhile (\<lambda>y. HasPrefix (fst y) c) xs)"
  unfolding seekGE_def dropWhile_map
  by (intro arg_cong [where f = "map (enc b)"] dropWhile_cong) (use assms skip_key(1) in \<open>auto simp: enc_def\<close>)

definition add_items :: "list_item list \<Rightarrow> delimited_list_result \<Rightarrow> delimited_list_result" where
  "add_items its res = res\<lparr>dl_Objects := dl_Objects res @ item_objs its,
     dl_CommonPrefixes := dl_CommonPrefixes res @ item_prefixes its\<rparr>"

definition page_result :: "nat \<Rightarrow> list_item list \<Rightarrow> delimited_list_result \<Rightarrow> string \<Rightarrow> delimited_list_result \<times> bool" where
  "page_result r its res lastItem =
     (if r < length its
      then ((add_items (take r its) res)\<lparr>dl_IsTruncated := True,
              dl_NextMarker := (if r = 0 then lastItem else item_name (its ! (r - 1)))\<rparr>, False)
      else (add_items its res, True))"

lemma add_items_simps [simp]:
  "add_items [] res = res"
  "add_items (Inl c # its) res = add_items its (res\<lparr>dl_CommonPrefixes := dl_CommonPrefixes res @ [c]\<rparr>)"
  "add_items (Inr x # its) res = add_items its (res\<lparr>dl_Objects := dl_Objects res @ [snd x]\<rparr>)"
  by (simp_all add: add_items_def)

lemma page_result_Nil [simp]: "page_result r [] res lastItem = (res, True)"
  by (simp add: page_result_def)

lemma page_result_0 [simp]:
  "page_result 0 (i # its) res lastItem = (res\<lparr>dl_IsTruncated := True, dl_NextMarker := lastItem\<rparr>, False)"
  by (simp add: page_result_def)

lemma page_result_Suc:
  "page_result (Suc r) (i # its) res lastItem = page_result r its (add_items [i] res) (item_name i)"
  by (cases i; cases r) (simp_all add: page_result_def)

lemma folders_of_rest:
  assumes "good_list p (x # xs)" "folder_of p d (fst x) = Some c"
  defines "ys \<equiv> dropWhile (\<lambda>y. HasPrefix (fst y) c) xs"
  shows "good_list p ys" "length ys \<le> length xs" "set ys \<subseteq> set xs"
    and "y \<in> set ys \<Longrightarrow> folder_of p d (fst y) \<noteq> Some c"
    and "\<forall>y\<in>set xs. c \<le> fst y"
proof -
  have px: "HasPrefix (fst x) p" using assms(1) by simp
  note c = folder_ofD(1) [OF assms(2) px]
  show le: "\<forall>y\<in>set xs. c \<le> fst y"
    using assms(1) HasPrefix_le [OF c] by (fastforce intro: order.strict_implies_order le_less_trans)
  show gl: "good_list p ys" using assms(1) by (simp add: ys_def good_list_dropWhile)
  show "length ys \<le> length xs" "set ys \<subseteq> set xs"
    by (auto simp: ys_def length_dropWhile_le dest: set_dropWhileD)
  show "folder_of p d (fst y) \<noteq> Some c" if y: "y \<in> set ys"
  proof -
    have "\<not> HasPrefix (fst y) c"
      using folder_skipped [of p xs c y] assms(1) le y by (simp add: ys_def)
    moreover have "HasPrefix (fst y) p" using gl y by (simp add: good_list_def)
    ultimately show ?thesis using folder_of_iff [OF assms(2) px] by blast
  qed
qed

text \<open>The loop adds the items of the listing that fit, whichever keys \<^verbatim>\<open>SeekGE\<close> skipped.\<close>

lemma delim_loop_items:
  assumes "no_colon b" "good_list p xs"
    and "int (length (dl_Objects res) + length (dl_CommonPrefixes res) + r) = n"
    and "\<forall>x\<in>set xs. \<forall>c\<in>set (dl_CommonPrefixes res). folder_of p d (fst x) \<noteq> Some c"
  shows "delim_loop b p d n (map (enc b) xs) res lastItem = page_result r (items p d xs) res lastItem"
  using assms(2-)
proof (induction "length xs" arbitrary: xs res r lastItem rule: less_induct)
  case less
  show ?case
  proof (cases xs)
    case (Cons x ys)
    have enc: "enc b x = (objectKey b (fst x), JObject (snd x))" by (simp add: enc_def)
    note loop = delim_loop.simps(2) [of b p d n "objectKey b (fst x)" "JObject (snd x)" "map (enc b) ys" res lastItem]
    have cnt: "n \<le> int (length (dl_Objects res) + length (dl_CommonPrefixes res)) \<longleftrightarrow> r = 0"
      using less.prems(2) by auto
    show ?thesis
    proof (cases "folder_of p d (fst x)")
      case None
      note its = items_object [OF less.prems(1) [unfolded Cons] None]
      show ?thesis
      proof (cases r)
        case 0
        then show ?thesis using cnt assms(1) None by (simp add: enc loop Let_def its Cons)
      next
        case (Suc q)
        have "delim_loop b p d n (map (enc b) ys) (add_items [Inr x] res) (fst x) =
            page_result q (items p d ys) (add_items [Inr x] res) (fst x)"
          using less.prems Suc by (intro less.hyps) (simp_all add: Cons)
        then show ?thesis using cnt assms(1) None Suc by (simp add: enc loop Let_def its Cons page_result_Suc)
      qed
    next
      case (Some c)
      note gl = less.prems(1) [unfolded Cons]
      note rest = folders_of_rest [OF gl Some]
      let ?zs = "dropWhile (\<lambda>y. HasPrefix (fst y) c) ys"
      note its = items_folder [OF gl Some]
      have new: "c \<notin> set (dl_CommonPrefixes res)" using less.prems(3) Some by (auto simp: Cons)
      obtain t where t: "prefixEnd (objectPrefixKey b c) = Some t" using prefixEnd_objectPrefixKey by blast
      note seek = seek_folder [OF t rest(5)]
      show ?thesis
      proof (cases r)
        case 0
        then show ?thesis using cnt assms(1) Some new by (simp add: enc loop Let_def its Cons)
      next
        case (Suc q)
        have "delim_loop b p d n (map (enc b) ?zs) (add_items [Inl c] res) c =
            page_result q (items p d ?zs) (add_items [Inl c] res) c"
          using less.prems rest Suc by (intro less.hyps) (auto simp: Cons less_Suc_eq_le)
        then show ?thesis using cnt assms(1) Some new Suc t seek
          by (simp add: enc loop Let_def its Cons page_result_Suc)
      qed
    qed
  qed simp
qed

section \<open>Starting after a marker\<close>

text \<open>The keys left after an item: beyond the folder, or beyond the object.\<close>

definition beyond :: "string \<Rightarrow> string \<Rightarrow> string \<Rightarrow> bool" where
  "beyond d marker k \<longleftrightarrow>
     (if marker = [] then True
      else if d \<noteq> [] \<and> HasSuffix marker d then marker \<le> k \<and> \<not> HasPrefix k marker
      else marker < k)"

lemma skip_equal:
  assumes "sorted_wrt (<) (map fst xs)" "no_colon b"
  shows "(case map (enc b) (filter (\<lambda>x. marker \<le> fst x) xs) of [] \<Rightarrow> []
      | (k, v) # rest \<Rightarrow> if extractObjectKeyFromKey k = marker then rest else (k, v) # rest) =
    map (enc b) (filter (\<lambda>x. marker < fst x) xs)"
  using assms(1)
proof (induction xs)
  case (Cons x xs)
  consider "fst x < marker" | "fst x = marker" | "marker < fst x" by force
  then show ?case
  proof cases
    case 1
    with Cons show ?thesis by auto
  next
    case 2
    then have "filter (\<lambda>x. marker \<le> fst x) xs = xs" "filter (\<lambda>x. marker < fst x) xs = xs"
      using Cons.prems by (auto intro!: filter_True intro: less_imp_le)
    with 2 assms(2) show ?thesis by (simp add: enc_def)
  next
    case 3
    then have "filter (\<lambda>x. marker \<le> fst x) xs = xs" "filter (\<lambda>x. marker < fst x) xs = xs"
      using Cons.prems by (auto intro!: filter_True intro: less_imp_le less_trans)
    moreover have "marker \<le> fst x" "fst x \<noteq> marker" using 3 by auto
    ultimately show ?thesis using 3 assms(2) by (simp add: enc_def)
  qed
qed simp

definition empty_result :: delimited_list_result where
  "empty_result = \<lparr>dl_Objects = [], dl_CommonPrefixes = [], dl_NextMarker = [], dl_IsTruncated = False\<rparr>"

lemma lists_objects_good: "lists_objects m b p xs \<Longrightarrow> good_list p xs"
  by (auto simp: lists_objects_def good_list_def)

lemma good_list_filter: "good_list p xs \<Longrightarrow> good_list p (filter P xs)"
  by (induction xs) auto

context pebble_reliable
begin

lemma ListObjectsDelimited_page:
  assumes "typed (sto cont s)" "no_colon b" "b \<noteq> []" "lists_objects (sto cont s) b p xs"
  shows "ListObjectsDelimited E b p d marker n s =
    Inr (fst (page_result (nat (defaultMaxKeys n)) (items p d (filter (\<lambda>x. beyond d marker (fst x)) xs)) empty_result []))"
proof -
  obtain kvs where it: "pebbleIter E (listLower b p) s = Inr (kvs, None)" using pebbleIter_ok by blast
  from scan_objects [OF assms(1,2) it] obtain zs where kvs: "kvs = map (enc b) zs"
    and zs: "lists_objects (sto cont s) b p zs" by blast
  have "set zs = set xs" using zs assms(4) by (auto simp: lists_objects_def)
  then have "zs = xs" using zs assms(4) sorted_wrt_less_unique by (auto simp: lists_objects_def)
  have srt: "sorted_wrt (<) (map fst xs)" using assms(4) by (simp add: lists_objects_def)
  let ?start = "filter (\<lambda>x. beyond d marker (fst x)) xs"
  have folder: "seekGE t (map (enc b) xs) = map (enc b) ?start"
    if "marker \<noteq> []" "d \<noteq> []" "HasSuffix marker d" "prefixEnd (objectPrefixKey b marker) = Some t" for t
  proof -
    have "sorted_wrt (<) (map fst (map (enc b) xs))" using srt by (simp only: map_fst_enc sorted_map_objectKey)
    from dropWhile_less_filter [OF this, of t] show ?thesis
      unfolding seekGE_def using that skip_key(2) [OF that(4)]
      by (simp add: filter_map o_def enc_def beyond_def)
  qed
  have object: "(case seekGE (objectKey b marker) (map (enc b) xs) of [] \<Rightarrow> []
      | (k, v) # rest \<Rightarrow> if extractObjectKeyFromKey k = marker then rest else (k, v) # rest) = map (enc b) ?start"
    if "marker \<noteq> []" "\<not> (d \<noteq> [] \<and> HasSuffix marker d)"
    unfolding seek_enc dropWhile_less_filter [OF srt] skip_equal [OF srt assms(2)]
    using that by (auto simp: beyond_def)
  have nil: "marker = [] \<Longrightarrow> ?start = xs" by (simp add: beyond_def)
  obtain t where "prefixEnd (objectPrefixKey b marker) = Some t" using prefixEnd_objectPrefixKey by blast
  note loop = delim_loop_items [OF assms(2) good_list_filter [OF lists_objects_good [OF assms(4)]],
      of empty_result "nat (defaultMaxKeys n)" "defaultMaxKeys n" "\<lambda>x. beyond d marker (fst x)" d "[]"]
  have "ListObjectsDelimited E b p d marker n s =
      Inr (fst (delim_loop b p d (defaultMaxKeys n) (map (enc b) ?start) empty_result []))"
    using it assms(3) kvs \<open>zs = xs\<close> folder object nil \<open>prefixEnd (objectPrefixKey b marker) = Some t\<close>
    by (cases "marker = []"; cases "d \<noteq> [] \<and> HasSuffix marker d")
      (auto simp: ListObjectsDelimited_def empty_result_def split: prod.split)
  moreover have "int (nat (defaultMaxKeys n)) = defaultMaxKeys n" by (simp add: defaultMaxKeys_def)
  ultimately show ?thesis using loop by (simp add: empty_result_def)
qed

end

text \<open>
  C13. The folder-skipping listing equals its reference. A page of \<^verbatim>\<open>ListObjectsDelimited\<close> is the
  first \<open>maxKeys\<close> items, objects and common prefixes counted together, of the sorted bucket
  listing after the marker with each run of keys of one folder collapsed into its prefix; the
  truncation flag says whether items remain and the next marker is the last item returned.
\<close>

theorem list_delimited_refines:
  assumes "pebble_reliable E cont" "typed (sto cont s)" "no_colon b" "b \<noteq> []" "lists_objects (sto cont s) b p xs"
  shows "\<exists>res. ListObjectsDelimited E b p d marker n s = Inr res \<and>
    (let its = items p d (filter (\<lambda>x. beyond d marker (fst x)) xs); r = nat (defaultMaxKeys n) in
       dl_Objects res = item_objs (take r its) \<and>
       dl_CommonPrefixes res = item_prefixes (take r its) \<and>
       dl_IsTruncated res = (r < length its) \<and>
       dl_NextMarker res = (if r < length its then item_name (its ! (r - 1)) else []))"
  using pebble_reliable.ListObjectsDelimited_page [OF assms]
  by (simp add: Let_def page_result_def add_items_def empty_result_def defaultMaxKeys_def)

theorem list_delimited_refines_witness:
  "\<exists>res. ListObjectsDelimited mem_engine ''b'' [] ''/'' [] 2 three_store = Inr res \<and>
     map om_Key (dl_Objects res) = [''a'', ''b''] \<and> dl_IsTruncated res \<and> dl_NextMarker res = ''b''"
proof -
  let ?o = "\<lambda>k. zero_object\<lparr>om_Bucket := ''b'', om_Key := k\<rparr>"
  have "items [] ''/'' (filter (\<lambda>x. beyond ''/'' [] (fst x)) (map (\<lambda>k. (k, ?o k)) [''a'', ''b'', ''c''])) =
      map Inr (map (\<lambda>k. (k, ?o k)) [''a'', ''b'', ''c''])"
    by (simp add: items_def item_def folder_of_def beyond_def HasPrefix_def)
  with list_delimited_refines [OF mem.pebble_reliable_axioms three_store_typed _ _ three_store_lists, of "''/''" "[]" 2]
  show ?thesis by (auto simp: Let_def defaultMaxKeys_def eval_nat_numeral)
qed

section \<open>Following the markers of a delimited listing\<close>

lemma set_items: "set (items p d zs) = item p d ` set zs"
  by (simp add: items_def)

lemma items_name:
  assumes "good_list p zs" "it \<in> set (items p d zs)"
  shows "\<exists>x\<in>set zs. it = item p d x \<and> HasPrefix (fst x) (item_name it)"
proof -
  from assms(2) obtain x where x: "x \<in> set zs" "it = item p d x" by (auto simp: set_items)
  with assms(1) have "HasPrefix (fst x) p" by (simp add: good_list_def)
  then have "HasPrefix (fst x) (item_name it)"
    using folder_ofD(1) by (auto simp: x(2) item_def HasPrefix_def split: option.split)
  with x show ?thesis by blast
qed

definition plain_item :: "string \<Rightarrow> list_item \<Rightarrow> bool" where
  "plain_item d it \<longleftrightarrow> (case it of Inl c \<Rightarrow> True | Inr x \<Rightarrow> d = [] \<or> \<not> HasSuffix (fst x) d)"

text \<open>A key below all keys of a list is not beyond any of its items.\<close>

lemma not_beyond:
  assumes "good_list p zs" "it \<in> set (items p d zs)" "plain_item d it" "item_name it \<noteq> []"
    and "\<forall>z\<in>set zs. y < fst z"
  shows "\<not> beyond d (item_name it) y"
proof -
  from items_name [OF assms(1,2)] obtain x where x: "x \<in> set zs" "it = item p d x" "HasPrefix (fst x) (item_name it)"
    by blast
  have px: "HasPrefix (fst x) p" using assms(1) x(1) by (simp add: good_list_def)
  show ?thesis
  proof (cases it)
    case (Inl c)
    then have "folder_of p d (fst x) = Some c" using x(2) by (auto simp: item_def split: option.splits)
    with folder_ofD [OF this px] prefix_convex [of c y "fst x"] assms(5) x(1) Inl show ?thesis
      by (auto simp: beyond_def)
  next
    case (Inr z)
    then have "z = x" using x(2) by (auto simp: item_def split: option.splits)
    with Inr assms(3,4,5) x(1) show ?thesis by (auto simp: beyond_def plain_item_def)
  qed
qed

lemma filter_beyond_append:
  assumes "good_list p (ys @ zs)" "it \<in> set (items p d zs)" "plain_item d it" "item_name it \<noteq> []"
  shows "filter (\<lambda>x. beyond d (item_name it) (fst x)) (ys @ zs) = filter (\<lambda>x. beyond d (item_name it) (fst x)) zs"
proof -
  have gz: "good_list p zs" and lt: "\<forall>y\<in>set ys. \<forall>z\<in>set zs. fst y < fst z"
    using assms(1) by (auto simp: good_list_def sorted_wrt_append)
  have "\<not> beyond d (item_name it) (fst y)" if "y \<in> set ys" for y
    using not_beyond [OF gz assms(2-4)] lt that by blast
  then have "filter (\<lambda>x. beyond d (item_name it) (fst x)) ys = []" by (simp add: filter_empty_conv)
  then show ?thesis by simp
qed

lemma beyond_first_folder:
  assumes "good_list p (x # xs)" "folder_of p d (fst x) = Some c"
  shows "filter (\<lambda>x. beyond d c (fst x)) (x # xs) = dropWhile (\<lambda>y. HasPrefix (fst y) c) xs"
proof -
  have px: "HasPrefix (fst x) p" using assms(1) by simp
  note c = folder_ofD [OF assms(2) px]
  have b: "beyond d c k \<longleftrightarrow> c \<le> k \<and> \<not> HasPrefix k c" for k using c(3-5) by (simp add: beyond_def)
  have y: "\<not> HasPrefix (fst y) c \<and> c \<le> fst y" if "y \<in> set (dropWhile (\<lambda>y. HasPrefix (fst y) c) xs)" for y
  proof
    show "\<not> HasPrefix (fst y) c"
      using assms(1) folders_of_rest(5) [OF assms] that by (intro folder_skipped [of p xs c y]) auto
    have "y \<in> set xs" using folders_of_rest(3) [OF assms] that by blast
    then show "c \<le> fst y" using folders_of_rest(5) [OF assms] by blast
  qed
  have dr: "filter (\<lambda>x. beyond d c (fst x)) (dropWhile (\<lambda>y. HasPrefix (fst y) c) xs) = dropWhile (\<lambda>y. HasPrefix (fst y) c) xs"
    by (intro filter_True ballI) (use y b in blast)
  have tk: "filter (\<lambda>x. beyond d c (fst x)) (takeWhile (\<lambda>y. HasPrefix (fst y) c) xs) = []"
    unfolding filter_empty_conv b using set_takeWhileD by fast
  have "filter (\<lambda>x. beyond d c (fst x)) xs = dropWhile (\<lambda>y. HasPrefix (fst y) c) xs"
    using filter_append [of "\<lambda>x. beyond d c (fst x)" "takeWhile (\<lambda>y. HasPrefix (fst y) c) xs" "dropWhile (\<lambda>y. HasPrefix (fst y) c) xs"]
    unfolding tk dr takeWhile_dropWhile_id by simp
  then show ?thesis using c(1) by (simp add: b)
qed

text \<open>Starting after an item gives exactly the items that follow it.\<close>

lemma items_after:
  "good_list p zs \<Longrightarrow> i < length (items p d zs) \<Longrightarrow> plain_item d (items p d zs ! i) \<Longrightarrow>
     item_name (items p d zs ! i) \<noteq> [] \<Longrightarrow>
     items p d (filter (\<lambda>x. beyond d (item_name (items p d zs ! i)) (fst x)) zs) = drop (Suc i) (items p d zs)"
proof (induction "length zs" arbitrary: zs i rule: less_induct)
  case less
  show ?case
  proof (cases zs)
    case (Cons x xs)
    note gl = less.prems(1) [unfolded Cons]
    show ?thesis
    proof (cases "folder_of p d (fst x)")
      case None
      note its = items_object [OF gl None]
      show ?thesis
      proof (cases i)
        case 0
        have "filter (\<lambda>y. beyond d (fst x) (fst y)) zs = xs"
          using less.prems(3,4) gl 0 by (auto simp: Cons its beyond_def plain_item_def intro!: filter_True)
        then show ?thesis by (simp add: Cons its 0)
      next
        case (Suc j)
        have j: "j < length (items p d xs)" using less.prems(2) Suc by (simp add: Cons its)
        have IH: "items p d (filter (\<lambda>x. beyond d (item_name (items p d xs ! j)) (fst x)) xs) = drop (Suc j) (items p d xs)"
          using less.prems j Suc gl by (intro less.hyps) (simp_all add: Cons its)
        with filter_beyond_append [of p "[x]" xs "items p d xs ! j" d] less.prems Suc gl j show ?thesis
          by (simp add: Cons its)
      qed
    next
      case (Some c)
      let ?ws = "dropWhile (\<lambda>y. HasPrefix (fst y) c) xs" and ?us = "x # takeWhile (\<lambda>y. HasPrefix (fst y) c) xs"
      note its = items_folder [OF gl Some] and rest = folders_of_rest [OF gl Some]
      have split: "x # xs = ?us @ ?ws" by simp
      show ?thesis
      proof (cases i)
        case 0
        with beyond_first_folder [OF gl Some] show ?thesis by (simp add: Cons its)
      next
        case (Suc j)
        have j: "j < length (items p d ?ws)" using less.prems(2) Suc by (simp add: Cons its)
        have IH: "items p d (filter (\<lambda>x. beyond d (item_name (items p d ?ws ! j)) (fst x)) ?ws) = drop (Suc j) (items p d ?ws)"
          using less.prems j Suc rest(1,2) by (intro less.hyps) (simp_all add: Cons its less_Suc_eq_le)
        have "filter (\<lambda>x. beyond d (item_name (items p d ?ws ! j)) (fst x)) (x # xs) =
            filter (\<lambda>x. beyond d (item_name (items p d ?ws ! j)) (fst x)) ?ws"
          unfolding split using filter_beyond_append [of p ?us ?ws "items p d ?ws ! j" d] less.prems Suc gl j
          by (simp add: Cons its)
        with IH show ?thesis by (simp add: Cons its Suc)
      qed
    qed
  qed (use less in simp)
qed

lemma beyond_upward: "marker \<noteq> [] \<Longrightarrow> beyond d marker k \<Longrightarrow> k < k' \<Longrightarrow> beyond d marker k'"
  using prefix_convex [of marker k k'] by (auto simp: beyond_def split: if_split_asm)

lemma filter_upward:
  assumes "sorted_wrt (<) (map fst zs)" "\<And>k k'. P k \<Longrightarrow> k < k' \<Longrightarrow> P k'"
  shows "\<exists>ys. zs = ys @ filter (\<lambda>x. P (fst x)) zs"
  using assms(1)
proof (induction zs)
  case (Cons z zs)
  show ?case
  proof (cases "P (fst z)")
    case True
    have "P (fst x)" if "x \<in> set zs" for x using assms(2) [OF True] Cons.prems that by simp
    then show ?thesis using True by (auto intro: exI [of _ "[]"])
  next
    case False
    from Cons obtain ys where "zs = ys @ filter (\<lambda>x. P (fst x)) zs" by auto
    with False show ?thesis by (intro exI [of _ "z # ys"]) simp
  qed
qed simp

text \<open>
  An object whose name ends with the delimiter and that is not inside a folder can only be the
  one named like the listing prefix, which is the first key of the listing.
\<close>

lemma delimiter_object:
  assumes "length d = 1" "HasPrefix k p" "folder_of p d k = None" "HasSuffix k d"
  shows "k = p"
proof (rule ccontr)
  assume "k \<noteq> p"
  with assms(2) obtain r where r: "k = p @ r" "r \<noteq> []" by (auto simp: HasPrefix_iff)
  obtain ch where ch: "d = [ch]" using assms(1) by (auto simp: length_Suc_conv)
  have "last r = ch" using assms(4) r ch by (auto simp: HasSuffix_iff) (metis last_appendR last_snoc)
  then have "HasPrefix (drop (length r - 1) r) d" using r(2) ch
    by (metis HasPrefix_append append_butlast_last_id append_eq_conv_conj append_self_conv length_butlast)
  moreover have "str_index r d = None"
    using assms(3) r ch by (simp add: folder_of_def split: option.split_asm)
  ultimately show False using str_index_None by blast
qed

lemma plain_item_at:
  assumes gl: "good_list p zs" and r: "0 < r" "r < length (items p d zs)" and d: "length d \<le> 1"
    and ok: "2 \<le> r \<or> d = [] \<or> \<not> HasSuffix p d \<or> p \<notin> fst ` set zs"
  shows "plain_item d (items p d zs ! (r - 1))"
proof (rule ccontr)
  assume "\<not> plain_item d (items p d zs ! (r - 1))"
  then obtain x where x: "items p d zs ! (r - 1) = Inr x" "d \<noteq> []" "HasSuffix (fst x) d"
    by (auto simp: plain_item_def split: sum.splits)
  have "Inr x \<in> set (items p d zs)" using x(1) r nth_mem [of "r - 1" "items p d zs"] by simp
  then have xz: "x \<in> set zs" "folder_of p d (fst x) = None" by (auto simp: set_items item_def split: option.splits)
  moreover have "length d = 1" using d x(2) by (cases d) auto
  moreover have "HasPrefix (fst x) p" using gl xz(1) by (simp add: good_list_def)
  ultimately have xp: "fst x = p" using delimiter_object x(3) by blast
  then have r2: "2 \<le> r" using ok x(2,3) xz(1) by force
  from xz(1) obtain z ws where zs: "zs = z # ws" by (cases zs) auto
  have "p \<le> fst z" using gl zs by (simp add: HasPrefix_le)
  with gl xz(1) xp have "x = z" by (auto simp: zs)
  with xz(2) gl have "items p d zs = Inr x # items p d ws" by (simp add: zs items_object)
  moreover obtain j where "r = Suc (Suc j)" using r2 by (metis add_2_eq_Suc le_Suc_ex)
  ultimately have "items p d ws ! j = Inr x" "j < length (items p d ws)" using x(1) r(2) by simp_all
  then have "Inr x \<in> set (items p d ws)" by (metis nth_mem)
  then have "x \<in> set ws" by (auto simp: set_items item_def split: option.splits)
  with gl \<open>x = z\<close> show False by (auto simp: zs)
qed

fun delim_pages :: "'db engine \<Rightarrow> string \<Rightarrow> string \<Rightarrow> string \<Rightarrow> int \<Rightarrow> nat \<Rightarrow> string \<Rightarrow> 'db pstore \<Rightarrow> delimited_list_result list option" where
  "delim_pages E b p d n 0 marker s = None"
| "delim_pages E b p d n (Suc fuel) marker s = (case ListObjectsDelimited E b p d marker n s of
     Inl e \<Rightarrow> None
   | Inr res \<Rightarrow> if dl_IsTruncated res then map_option ((#) res) (delim_pages E b p d n fuel (dl_NextMarker res) s)
               else Some [res])"

lemma item_append [simp]:
  "item_objs (is @ js) = item_objs is @ item_objs js"
  "item_prefixes (is @ js) = item_prefixes is @ item_prefixes js"
  by (induction "is" rule: item_objs.induct) simp_all

lemma items_name_nonempty:
  assumes "good_list p zs" "it \<in> set (items p d zs)" "[] \<notin> fst ` set zs"
  shows "item_name it \<noteq> []"
proof -
  from items_name [OF assms(1,2)] obtain x where x: "x \<in> set zs" "it = item p d x" by blast
  have px: "HasPrefix (fst x) p" using assms(1) x(1) by (simp add: good_list_def)
  show ?thesis
  proof (cases "folder_of p d (fst x)")
    case None
    moreover have "fst x \<noteq> []" using assms(3) x(1) by force
    ultimately show ?thesis using x(2) by (simp add: item_def)
  next
    case (Some c)
    with folder_ofD(5) [OF Some px] x(2) show ?thesis by (simp add: item_def)
  qed
qed

context pebble_reliable
begin

lemma delim_pages_items:
  fixes n :: int and d :: string
  assumes "typed (sto cont s)" "no_colon b" "b \<noteq> []" and xs: "lists_objects (sto cont s) b p xs" "[] \<notin> fst ` set xs"
    and d: "length d \<le> 1" "2 \<le> defaultMaxKeys n \<or> d = [] \<or> \<not> HasSuffix p d \<or> p \<notin> fst ` set xs"
  shows "filter (\<lambda>x. beyond d marker (fst x)) xs = zs \<Longrightarrow> xs = ys @ zs \<Longrightarrow> length (items p d zs) < fuel \<Longrightarrow>
    \<exists>pages. delim_pages E b p d n fuel marker s = Some pages \<and>
      concat (map dl_Objects pages) = item_objs (items p d zs) \<and>
      concat (map dl_CommonPrefixes pages) = item_prefixes (items p d zs)"
proof (induction fuel arbitrary: marker zs ys)
  case (Suc fuel)
  let ?its = "items p d zs" and ?r = "nat (defaultMaxKeys n)"
  have gx: "good_list p xs" using xs(1) by (rule lists_objects_good)
  then have gz: "good_list p zs" using Suc.prems(2) by (simp add: good_list_def sorted_wrt_append)
  have r: "0 < ?r" by (simp add: defaultMaxKeys_def)
  note page = ListObjectsDelimited_page [OF assms(1-3) xs(1), of d marker n, unfolded Suc.prems(1)]
  show ?case
  proof (cases "?r < length ?its")
    case True
    let ?it = "?its ! (?r - 1)"
    have mem: "?it \<in> set ?its" using True r by (intro nth_mem) simp
    have "2 \<le> ?r \<or> d = [] \<or> \<not> HasSuffix p d \<or> p \<notin> fst ` set zs" using d(2) Suc.prems(2) by auto
    note plain = plain_item_at [OF gz r True d(1) this]
    have ne: "item_name ?it \<noteq> []"
      using xs(2) Suc.prems(2) by (intro items_name_nonempty [OF gz mem]) auto
    let ?zs = "filter (\<lambda>x. beyond d (item_name ?it) (fst x)) zs"
    have its: "items p d ?zs = drop ?r ?its"
      using items_after [OF gz _ plain ne] True r by simp
    have nxt: "filter (\<lambda>x. beyond d (item_name ?it) (fst x)) xs = ?zs"
      using filter_beyond_append [OF gx [unfolded Suc.prems(2)] mem plain ne] Suc.prems(2) by simp
    obtain us where "zs = us @ ?zs"
      using filter_upward [of zs "beyond d (item_name ?it)"] beyond_upward [OF ne] gz unfolding good_list_def by blast
    then have "xs = (ys @ us) @ ?zs" using Suc.prems(2) by simp
    moreover have "length (items p d ?zs) < fuel" unfolding its using Suc.prems(3) True r by simp
    ultimately obtain pages where pages: "delim_pages E b p d n fuel (item_name ?it) s = Some pages"
      "concat (map dl_Objects pages) = item_objs (drop ?r ?its)"
      "concat (map dl_CommonPrefixes pages) = item_prefixes (drop ?r ?its)"
      using Suc.IH [OF nxt] unfolding its by blast
    have "item_objs (take ?r ?its) @ item_objs (drop ?r ?its) = item_objs ?its"
      "item_prefixes (take ?r ?its) @ item_prefixes (drop ?r ?its) = item_prefixes ?its"
      by (metis append_take_drop_id item_append)+
    with pages page True r show ?thesis by (simp add: page_result_def add_items_def empty_result_def)
  next
    case False
    with page show ?thesis by (simp add: page_result_def add_items_def empty_result_def)
  qed
qed simp

end

section \<open>What the items are\<close>

lemma item_objs_items:
  "good_list p xs \<Longrightarrow> item_objs (items p d xs) = map snd (filter (\<lambda>x. folder_of p d (fst x) = None) xs)"
proof (induction "length xs" arbitrary: xs rule: less_induct)
  case less
  show ?case
  proof (cases xs)
    case (Cons x ys)
    note gl = less.prems [unfolded Cons]
    show ?thesis
    proof (cases "folder_of p d (fst x)")
      case None
      with less gl show ?thesis by (simp add: Cons items_object)
    next
      case (Some c)
      let ?P = "\<lambda>y. HasPrefix (fst y) c" and ?Q = "\<lambda>x. folder_of p d (fst x) = None"
      have "HasPrefix (fst x) p" using gl by simp
      from folder_of_under [OF Some this] have "filter ?Q (takeWhile ?P ys) = []"
        unfolding filter_empty_conv by (metis option.discI set_takeWhileD)
      moreover have "filter ?Q (takeWhile ?P ys @ dropWhile ?P ys) = filter ?Q ys" by (simp only: takeWhile_dropWhile_id)
      ultimately have "filter ?Q ys = filter ?Q (dropWhile ?P ys)" unfolding filter_append by simp
      moreover have "item_objs (items p d (dropWhile ?P ys)) = map snd (filter ?Q (dropWhile ?P ys))"
        using folders_of_rest(1,2) [OF gl Some] by (intro less.hyps) (simp_all add: Cons less_Suc_eq_le)
      ultimately show ?thesis using Some items_folder [OF gl Some] by (simp add: Cons)
    qed
  qed simp
qed

lemma set_item_prefixes: "set (item_prefixes its) = {c. Inl c \<in> set its}"
  by (induction its rule: item_prefixes.induct) auto

lemma distinct_item_prefixes: "good_list p xs \<Longrightarrow> distinct (item_prefixes (items p d xs))"
proof (induction "length xs" arbitrary: xs rule: less_induct)
  case less
  show ?case
  proof (cases xs)
    case (Cons x ys)
    note gl = less.prems [unfolded Cons]
    show ?thesis
    proof (cases "folder_of p d (fst x)")
      case None
      with less gl show ?thesis by (simp add: Cons items_object)
    next
      case (Some c)
      note rest = folders_of_rest [OF gl Some]
      have "Inl c \<notin> item p d ` set (dropWhile (\<lambda>y. HasPrefix (fst y) c) ys)"
        using rest(4) by (auto simp: item_def split: option.splits)
      moreover have "distinct (item_prefixes (items p d (dropWhile (\<lambda>y. HasPrefix (fst y) c) ys)))"
        using rest(1,2) by (intro less.hyps) (simp_all add: Cons less_Suc_eq_le)
      ultimately show ?thesis using items_folder [OF gl Some]
        by (simp add: Cons set_item_prefixes set_items)
    qed
  qed simp
qed

text \<open>
  C14. Following the markers of a delimited listing delivers every object outside a folder
  exactly once and in order, and every folder exactly once. This holds for delimiters of at
  most one byte, with pages of at least two items or no object named like a prefix that ends
  with the delimiter; the engine does not fail. With pages of one item and an object named like such a prefix the folder's
  contents are never listed: see \<open>delimited_page_of_one_loses\<close>.
\<close>

theorem delimited_pagination_complete:
  assumes "pebble_reliable E cont" "typed (sto cont s)" "no_colon b" "b \<noteq> []"
    and "lists_objects (sto cont s) b p xs" "obj_at (sto cont s) (objectKey b []) = None"
    and "length d \<le> 1" "2 \<le> defaultMaxKeys n \<or> d = [] \<or> \<not> HasSuffix p d \<or> p \<notin> fst ` set xs"
  shows "\<exists>fuel pages. delim_pages E b p d n fuel [] s = Some pages \<and>
    concat (map dl_Objects pages) = map snd (filter (\<lambda>x. folder_of p d (fst x) = None) xs) \<and>
    distinct (concat (map dl_CommonPrefixes pages)) \<and>
    set (concat (map dl_CommonPrefixes pages)) = {c. \<exists>x\<in>set xs. folder_of p d (fst x) = Some c}"
proof -
  have gl: "good_list p xs" using assms(5) by (rule lists_objects_good)
  have "[] \<notin> fst ` set xs" using assms(5,6) by (force simp: lists_objects_def)
  from pebble_reliable.delim_pages_items [OF assms(1-5) this assms(7,8), of "[]" xs "[]" "Suc (length (items p d xs))"]
  obtain pages where "delim_pages E b p d n (Suc (length (items p d xs))) [] s = Some pages"
    "concat (map dl_Objects pages) = item_objs (items p d xs)"
    "concat (map dl_CommonPrefixes pages) = item_prefixes (items p d xs)"
    by (auto simp: beyond_def)
  moreover have "set (item_prefixes (items p d xs)) = {c. \<exists>x\<in>set xs. folder_of p d (fst x) = Some c}"
    unfolding set_item_prefixes set_items by (auto simp: item_def image_iff split: option.splits)
  ultimately show ?thesis using item_objs_items [OF gl] distinct_item_prefixes [OF gl] by metis
qed

definition folder_store :: "(string \<times> kv_value) list pstore" where
  "folder_store = NewPebbleStore (map (\<lambda>k. (objectKey ''b'' k, JObject (zero_object\<lparr>om_Bucket := ''b'', om_Key := k\<rparr>)))
     [''f/'', ''f/a'', ''g''])"

lemma folder_store_typed: "typed (sto map_of folder_store)"
  unfolding folder_store_def NewPebbleStore_simps by (rule typed_map_of) simp

lemma folder_store_lists:
  "lists_objects (sto map_of folder_store) ''b'' [] (map (\<lambda>k. (k, zero_object\<lparr>om_Bucket := ''b'', om_Key := k\<rparr>)) [''f/'', ''f/a'', ''g''])"
  by (auto simp: lists_objects_def folder_store_def obj_at_def objectKey_def split: if_split_asm)

lemma folder_store_folders:
  "folder_of [] ''/'' ''f/'' = Some ''f/''" "folder_of [] ''/'' ''f/a'' = Some ''f/''" "folder_of [] ''/'' ''g'' = None"
  by (simp_all add: folder_of_def HasPrefix_def)

theorem delimited_pagination_complete_witness:
  "\<exists>fuel pages. delim_pages mem_engine ''b'' [] ''/'' 1 fuel [] folder_store = Some pages \<and>
     map om_Key (concat (map dl_Objects pages)) = [''g''] \<and> set (concat (map dl_CommonPrefixes pages)) = {''f/''}"
proof -
  let ?xs = "map (\<lambda>k. (k, zero_object\<lparr>om_Bucket := ''b'', om_Key := k\<rparr>)) [''f/'', ''f/a'', ''g'']"
  have none: "obj_at (sto map_of folder_store) (objectKey ''b'' []) = None"
    by (simp add: folder_store_def obj_at_def objectKey_def)
  have b: "no_colon ''b''" "''b'' \<noteq> []" and d: "length ''/'' \<le> 1" by simp_all
  have c: "2 \<le> defaultMaxKeys 1 \<or> ''/'' = [] \<or> \<not> HasSuffix [] ''/'' \<or> [] \<notin> fst ` set ?xs"
    by (simp add: HasSuffix_def HasPrefix_def)
  from delimited_pagination_complete [where E = mem_engine and cont = map_of and s = folder_store and b = "''b''"
      and p = "[]" and xs = ?xs and d = "''/''" and n = 1,
      OF mem.pebble_reliable_axioms folder_store_typed b folder_store_lists none d c]
  obtain fuel pages where pages: "delim_pages mem_engine ''b'' [] ''/'' 1 fuel [] folder_store = Some pages"
    "concat (map dl_Objects pages) = map snd (filter (\<lambda>x. folder_of [] ''/'' (fst x) = None) ?xs)"
    "set (concat (map dl_CommonPrefixes pages)) = {c. \<exists>x\<in>set ?xs. folder_of [] ''/'' (fst x) = Some c}"
    by (elim exE conjE) (rule that)
  have "map om_Key (concat (map dl_Objects pages)) = [''g'']"
    unfolding pages(2) list.map filter.simps fst_conv folder_store_folders by simp
  moreover have "set (concat (map dl_CommonPrefixes pages)) = {''f/''}"
    unfolding pages(3) by (auto simp: folder_store_folders)
  ultimately show ?thesis using pages(1) by (intro exI conjI)
qed

text \<open>
  The condition on pages of one item is needed: listing the folder itself one item at a time,
  the first page ends with the folder's own object, whose name the next call takes for a
  common prefix, and everything in the folder is skipped.
\<close>

lemma delimited_page_of_one_loses:
  "map_sum id (\<lambda>res. (map om_Key (dl_Objects res), dl_NextMarker res, dl_IsTruncated res))
     (ListObjectsDelimited mem_engine ''b'' ''f/'' ''/'' [] 1 folder_store) = Inr ([''f/''], ''f/'', True)"
  "map_sum id (\<lambda>res. (map om_Key (dl_Objects res), dl_NextMarker res, dl_IsTruncated res))
     (ListObjectsDelimited mem_engine ''b'' ''f/'' ''/'' ''f/'' 1 folder_store) = Inr ([], [], False)"
  by code_simp+

end
