(* ===== verification/Meta_Multipart.thy ===== *)
theory Meta_Multipart
  imports Meta_Object_Props
begin

text \<open>
  Multipart uploads, \<^verbatim>\<open>internal/metadata/pebble_multipart.go\<close>: the lifecycle of an upload and its
  parts, and the hourly cleanup of uploads older than seven days.
\<close>

section \<open>Operations\<close>

definition CreateMultipartUpload :: "'db engine \<Rightarrow> gotime \<Rightarrow> upload_metadata option \<Rightarrow> 'db pstore \<Rightarrow> meta_error + 'db pstore" where
  "CreateMultipartUpload E now uploadp s = (case uploadp of
     None \<Rightarrow> Inl (ErrMsg ''multipart upload metadata cannot be nil'')
   | Some upload \<Rightarrow>
     if um_UploadID upload = [] then Inl (ErrMsg ''upload ID is required'')
     else (let upload = (if IsZero (um_Initiated upload) then upload\<lparr>um_Initiated := now\<rparr> else upload) in
       commitNoSync E [BSet (multipartUploadKey (um_UploadID upload)) (JUpload upload),
                       BSet (multipartIndexKey (um_Bucket upload) (um_UploadID upload)) (Bytes [])] s))"

definition GetMultipartUpload :: "'db engine \<Rightarrow> string \<Rightarrow> 'db pstore \<Rightarrow> meta_error + upload_metadata" where
  "GetMultipartUpload E uploadID s = (case pebbleGet E (multipartUploadKey uploadID) s of
       Inl e \<Rightarrow> Inl e
     | Inr None \<Rightarrow> Inl ErrUploadNotFound
     | Inr (Some v) \<Rightarrow> (case decode_upload v of None \<Rightarrow> Inl ErrDecode | Some u \<Rightarrow> Inr u))"

fun list_uploads_loop :: "(string \<Rightarrow> meta_error + upload_metadata) \<Rightarrow> nat \<Rightarrow> string \<Rightarrow> int \<Rightarrow> (string \<times> kv_value) list
    \<Rightarrow> upload_metadata list \<Rightarrow> upload_metadata list \<times> bool" where
  "list_uploads_loop get n prfx maxUploads [] uploads = (uploads, True)"
| "list_uploads_loop get n prfx maxUploads ((k, v) # kvs) uploads =
     (if int (length uploads) < maxUploads
      then (case get (drop n k) of
          Inl e \<Rightarrow> list_uploads_loop get n prfx maxUploads kvs uploads
        | Inr upload \<Rightarrow>
            if prfx \<noteq> [] \<and> \<not> hasPrefix (um_Key upload) prfx
            then list_uploads_loop get n prfx maxUploads kvs uploads
            else list_uploads_loop get n prfx maxUploads kvs (uploads @ [upload]))
      else (uploads, False))"

definition ListMultipartUploads :: "'db engine \<Rightarrow> string \<Rightarrow> string \<Rightarrow> int \<Rightarrow> 'db pstore \<Rightarrow> meta_error + upload_metadata list" where
  "ListMultipartUploads E bucket prfx maxUploads s = (let
       maxUploads = (if maxUploads \<le> 0 then 1000 else maxUploads); lower = multipartListPrefix bucket in
     case pebbleIter E lower s of
       Inl e \<Rightarrow> Inl e
     | Inr (kvs, err) \<Rightarrow>
       (case list_uploads_loop (\<lambda>u. GetMultipartUpload E u s) (length lower) prfx maxUploads kvs [] of
         (uploads, ended) \<Rightarrow>
           (case (if ended then err else None) of
              Some e \<Rightarrow> Inl (ErrEngine e) | None \<Rightarrow> Inr (sort_key (\<lambda>u. - um_Initiated u) uploads))))"

text \<open>The part keys of an upload, collected before they are deleted.\<close>

definition collectParts :: "'db engine \<Rightarrow> string \<Rightarrow> 'db pstore \<Rightarrow> meta_error + string list" where
  "collectParts E uploadID s = (case pebbleIter E (partListPrefix uploadID) s of
       Inl e \<Rightarrow> Inl e
     | Inr (kvs, err) \<Rightarrow> (case err of Some e \<Rightarrow> Inl (ErrEngine e) | None \<Rightarrow> Inr (map fst kvs)))"

definition AbortMultipartUpload :: "'db engine \<Rightarrow> string \<Rightarrow> 'db pstore \<Rightarrow> meta_error + 'db pstore" where
  "AbortMultipartUpload E uploadID s = (case GetMultipartUpload E uploadID s of
       Inl e \<Rightarrow> Inl e
     | Inr upload \<Rightarrow> (case collectParts E uploadID s of
         Inl e \<Rightarrow> Inl e
       | Inr partKeys \<Rightarrow>
           commitSync E (map BDel partKeys @
             [BDel (multipartIndexKey (um_Bucket upload) uploadID), BDel (multipartUploadKey uploadID)]) s))"

definition stamp_completed :: "gotime \<Rightarrow> object_metadata \<Rightarrow> object_metadata" where
  "stamp_completed now obj =
     (if IsZero (om_CreatedAt obj) then obj\<lparr>om_CreatedAt := now\<rparr> else obj)\<lparr>om_UpdatedAt := now, om_LastModified := now\<rparr>"

definition CompleteMultipartUpload :: "'db engine \<Rightarrow> gotime \<Rightarrow> string \<Rightarrow> object_metadata \<Rightarrow> 'db pstore \<Rightarrow> meta_error + 'db pstore" where
  "CompleteMultipartUpload E now uploadID obj s = (case GetMultipartUpload E uploadID s of
       Inl e \<Rightarrow> Inl e
     | Inr upload \<Rightarrow> (case rejectWriteToDeletedBucket (om_Bucket obj) s of
         Some e \<Rightarrow> Inl e
       | None \<Rightarrow> (case collectParts E uploadID s of
           Inl e \<Rightarrow> Inl e
         | Inr partKeys \<Rightarrow>
             commitSync E (BSet (objectKey (om_Bucket obj) (om_Key obj)) (JObject (stamp_completed now obj)) #
               map BDel partKeys @
               [BDel (multipartIndexKey (um_Bucket upload) uploadID), BDel (multipartUploadKey uploadID)]) s)))"

definition PutPart :: "'db engine \<Rightarrow> gotime \<Rightarrow> part_metadata option \<Rightarrow> 'db pstore \<Rightarrow> meta_error + 'db pstore" where
  "PutPart E now partp s = (case partp of
     None \<Rightarrow> Inl (ErrMsg ''part metadata cannot be nil'')
   | Some part \<Rightarrow>
     if pt_UploadID part = [] \<or> pt_PartNumber part \<le> 0 then Inl (ErrMsg ''invalid part metadata'')
     else (case pebbleGet E (multipartUploadKey (pt_UploadID part)) s of
         Inl e \<Rightarrow> Inl e
       | Inr None \<Rightarrow> Inl ErrUploadNotFound
       | Inr (Some _) \<Rightarrow>
           setNoSync E (partKey (pt_UploadID part) (pt_PartNumber part))
             (JPart (if IsZero (pt_LastModified part) then part\<lparr>pt_LastModified := now\<rparr> else part)) s))"

definition GetPart :: "'db engine \<Rightarrow> string \<Rightarrow> int \<Rightarrow> 'db pstore \<Rightarrow> meta_error + part_metadata" where
  "GetPart E uploadID partNumber s = (case pebbleGet E (partKey uploadID partNumber) s of
       Inl e \<Rightarrow> Inl e
     | Inr None \<Rightarrow> Inl ErrPartNotFound
     | Inr (Some v) \<Rightarrow> (case decode_part v of None \<Rightarrow> Inl ErrDecode | Some p \<Rightarrow> Inr p))"

definition ListParts :: "'db engine \<Rightarrow> string \<Rightarrow> 'db pstore \<Rightarrow> meta_error + part_metadata list" where
  "ListParts E uploadID s = (case pebbleIter E (partListPrefix uploadID) s of
       Inl e \<Rightarrow> Inl e
     | Inr (kvs, err) \<Rightarrow> (let parts = List.map_filter (\<lambda>(k, v). decode_part v) kvs in
         case err of Some e \<Rightarrow> Inl (ErrEngine e) | None \<Rightarrow> Inr (sort_key pt_PartNumber parts)))"

text \<open>The text after the last colon of an index key, if there is one.\<close>

definition after_last_colon :: "string \<Rightarrow> string option" where
  "after_last_colon keySuffix =
     (if CHR '':'' \<in> set keySuffix then Some (rev (takeWhile (\<lambda>c. c \<noteq> CHR '':'') (rev keySuffix))) else None)"

definition stale_id :: "'db engine \<Rightarrow> gotime \<Rightarrow> 'db pstore \<Rightarrow> string \<Rightarrow> string option" where
  "stale_id E cutoff s k = (case after_last_colon (drop (length ''multipart_idx:'') k) of
       None \<Rightarrow> None
     | Some uploadID \<Rightarrow> (case GetMultipartUpload E uploadID s of
         Inl _ \<Rightarrow> None
       | Inr upload \<Rightarrow> if um_Initiated upload < cutoff then Some uploadID else None))"

definition abort_or_skip :: "'db engine \<Rightarrow> string \<Rightarrow> 'db pstore \<Rightarrow> 'db pstore" where
  "abort_or_skip E uploadID s = (case AbortMultipartUpload E uploadID s of Inl _ \<Rightarrow> s | Inr s' \<Rightarrow> s')"

text \<open>\<^verbatim>\<open>now.Add(-7 * 24 * time.Hour)\<close>\<close>

definition sevenDaysBefore :: "gotime \<Rightarrow> gotime" where
  "sevenDaysBefore now = now - seconds (7 * 24 * 3600)"

definition cleanupStaleMultipartUploads :: "'db engine \<Rightarrow> gotime \<Rightarrow> 'db pstore \<Rightarrow> 'db pstore" where
  "cleanupStaleMultipartUploads E now s = (let cutoff = sevenDaysBefore now in
     case pebbleIter E ''multipart_idx:'' s of
       Inl _ \<Rightarrow> s
     | Inr (kvs, _) \<Rightarrow>
         fold (abort_or_skip E) (List.map_filter (\<lambda>(k, v). stale_id E cutoff s k) kvs) s)"

section \<open>Effect of each operation\<close>

definition upload_at :: "contents \<Rightarrow> string \<Rightarrow> upload_metadata option" where
  "upload_at m u = Option.bind (m (multipartUploadKey u)) decode_upload"

text \<open>The keys that belong to an upload: its document, its index entry and its parts.\<close>

definition owned :: "contents \<Rightarrow> string \<Rightarrow> string \<Rightarrow> bool" where
  "owned m u k \<longleftrightarrow> k = multipartUploadKey u \<or> HasPrefix k (partListPrefix u) \<or>
     (case upload_at m u of None \<Rightarrow> False | Some up \<Rightarrow> k = multipartIndexKey (um_Bucket up) u)"

definition drop_upload :: "string \<Rightarrow> contents \<Rightarrow> contents" where
  "drop_upload u m = (\<lambda>k. if owned m u k then None else m k)"

lemma apply_BDels: "apply_batch (map BDel ks) m k = (if k \<in> set ks then None else m k)"
  using apply_batch_dels [of "\<lambda>x. x" ks m k] by simp

lemma partListPrefix_kinds [simp]:
  "\<not> HasPrefix (multipartUploadKey u) (partListPrefix u')"
  "\<not> HasPrefix (multipartIndexKey b u) (partListPrefix u')"
  "\<not> HasPrefix (objectKey b k) (partListPrefix u')"
  "\<not> HasPrefix (objectVersionKey b k v) (partListPrefix u')"
  "\<not> HasPrefix (bucketKey b k) (partListPrefix u')"
  by (simp_all add: key_defs HasPrefix_def)

lemma part_prefix_iff: "no_colon u \<Longrightarrow> no_colon u' \<Longrightarrow> HasPrefix (partKey u' n) (partListPrefix u) \<longleftrightarrow> u' = u"
  by (auto simp: HasPrefix_iff partKey_def partListPrefix_def no_colon_def sep_inj)

lemma part_prefix_own [simp]: "HasPrefix (partKey u n) (partListPrefix u)"
  by (simp add: partKey_def partListPrefix_def HasPrefix_def)

lemma part_prefix_disjoint:
  "HasPrefix k (partListPrefix u) \<Longrightarrow> HasPrefix k (partListPrefix u') \<Longrightarrow> no_colon u \<Longrightarrow> no_colon u' \<Longrightarrow> u' = u"
  by (auto simp: HasPrefix_iff partListPrefix_def no_colon_def sep_inj)

context pebble_engine
begin

lemma GetMultipartUpload_sound [sound]: "GetMultipartUpload E u s = Inr up \<Longrightarrow> upload_at (sto cont s) u = Some up"
  by (auto simp: GetMultipartUpload_def upload_at_def split: asm_splits dest!: pebbleGet_sound)

lemma collectParts_sound [sound]:
  "collectParts E u s = Inr ks \<Longrightarrow> set ks = {k. sto cont s k \<noteq> None \<and> HasPrefix k (partListPrefix u)}"
  unfolding collectParts_def by (auto split: asm_splits dest!: pebbleIter_complete simp: image_iff)

lemma AbortMultipartUpload_sound [sound]:
  assumes "AbortMultipartUpload E u s = Inr s'"
  shows "upload_at (sto cont s) u \<noteq> None" "sto cont s' = drop_upload u (sto cont s)"
    and "ps_deletedBuckets s' = ps_deletedBuckets s"
proof -
  from assms obtain up ks where up: "GetMultipartUpload E u s = Inr up" and ks: "collectParts E u s = Inr ks"
    and w: "commitSync E (map BDel ks @ [BDel (multipartIndexKey (um_Bucket up) u), BDel (multipartUploadKey u)]) s = Inr s'"
    unfolding AbortMultipartUpload_def by (simp split: sum.split_asm)
  note u = GetMultipartUpload_sound [OF up]
  then show "upload_at (sto cont s) u \<noteq> None" by simp
  have "sto cont s' k = drop_upload u (sto cont s) k" for k
    using commitSync_sound [OF w] collectParts_sound [OF ks] u
    by (cases "sto cont s k") (simp_all add: apply_BDels drop_upload_def owned_def)
  then show "sto cont s' = drop_upload u (sto cont s)" by blast
  show "ps_deletedBuckets s' = ps_deletedBuckets s" using commitSync_sound [OF w] by simp
qed

lemma CompleteMultipartUpload_sound [sound]:
  assumes "CompleteMultipartUpload E now u ob s = Inr s'"
  shows "upload_at (sto cont s) u \<noteq> None" "om_Bucket ob \<notin> ps_deletedBuckets s"
    and "sto cont s' = (drop_upload u (sto cont s))(objectKey (om_Bucket ob) (om_Key ob) \<mapsto> JObject (stamp_completed now ob))"
    and "ps_deletedBuckets s' = ps_deletedBuckets s"
proof -
  let ?set = "BSet (objectKey (om_Bucket ob) (om_Key ob)) (JObject (stamp_completed now ob))"
  from assms obtain up ks where up: "GetMultipartUpload E u s = Inr up" and ks: "collectParts E u s = Inr ks"
    and nd: "om_Bucket ob \<notin> ps_deletedBuckets s"
    and w: "commitSync E (?set # map BDel ks @ [BDel (multipartIndexKey (um_Bucket up) u), BDel (multipartUploadKey u)]) s = Inr s'"
    unfolding CompleteMultipartUpload_def rejectWriteToDeletedBucket_def by (simp split: sum.split_asm if_split_asm)
  note u = GetMultipartUpload_sound [OF up] and ks' = collectParts_sound [OF ks]
  then show "upload_at (sto cont s) u \<noteq> None" by simp
  show "om_Bucket ob \<notin> ps_deletedBuckets s" by fact
  have "objectKey (om_Bucket ob) (om_Key ob) \<notin> set ks" using ks' by simp
  then have "sto cont s' k = ((drop_upload u (sto cont s))(objectKey (om_Bucket ob) (om_Key ob) \<mapsto> JObject (stamp_completed now ob))) k" for k
    using commitSync_sound [OF w] ks' u
    by (cases "k = objectKey (om_Bucket ob) (om_Key ob)"; cases "sto cont s k")
      (simp_all add: apply_BDels drop_upload_def owned_def)
  then show "sto cont s' = (drop_upload u (sto cont s))(objectKey (om_Bucket ob) (om_Key ob) \<mapsto> JObject (stamp_completed now ob))"
    by blast
  show "ps_deletedBuckets s' = ps_deletedBuckets s" using commitSync_sound [OF w] by simp
qed

lemma CreateMultipartUpload_sound [sound]:
  assumes "CreateMultipartUpload E now (Some up) s = Inr s'"
  shows "\<exists>t. sto cont s' = (sto cont s)(multipartUploadKey (um_UploadID up) \<mapsto> JUpload (up\<lparr>um_Initiated := t\<rparr>),
      multipartIndexKey (um_Bucket up) (um_UploadID up) \<mapsto> Bytes []) \<and> ps_deletedBuckets s' = ps_deletedBuckets s"
  using assms unfolding CreateMultipartUpload_def Let_def
  by (auto split: if_split_asm dest!: commitNoSync_sound intro: exI [of _ now] exI [of _ "um_Initiated up"])

lemma PutPart_sound [sound]:
  assumes "PutPart E now (Some pt) s = Inr s'"
  shows "sto cont s (multipartUploadKey (pt_UploadID pt)) \<noteq> None" "0 < pt_PartNumber pt"
    and "sto cont s' = (sto cont s)(partKey (pt_UploadID pt) (pt_PartNumber pt) \<mapsto>
      JPart (if IsZero (pt_LastModified pt) then pt\<lparr>pt_LastModified := now\<rparr> else pt))"
    and "ps_deletedBuckets s' = ps_deletedBuckets s"
proof -
  let ?p = "JPart (if IsZero (pt_LastModified pt) then pt\<lparr>pt_LastModified := now\<rparr> else pt)"
  from assms obtain v where v: "pebbleGet E (multipartUploadKey (pt_UploadID pt)) s = Inr (Some v)"
    and n: "0 < pt_PartNumber pt" and w: "setNoSync E (partKey (pt_UploadID pt) (pt_PartNumber pt)) ?p s = Inr s'"
    unfolding PutPart_def by (simp split: if_split_asm sum.split_asm option.split_asm del: if_split)
  show "0 < pt_PartNumber pt" by fact
  show "sto cont s (multipartUploadKey (pt_UploadID pt)) \<noteq> None" using pebbleGet_sound [OF v] by simp
  show "sto cont s' = (sto cont s)(partKey (pt_UploadID pt) (pt_PartNumber pt) \<mapsto> ?p)"
    "ps_deletedBuckets s' = ps_deletedBuckets s" using setNoSync_sound [OF w] by blast+
qed

end

section \<open>Finishing an upload\<close>

lemma stamp_completed_fields [simp]:
  "om_Bucket (stamp_completed now ob) = om_Bucket ob" "om_Key (stamp_completed now ob) = om_Key ob"
  "om_VersionID (stamp_completed now ob) = om_VersionID ob" "om_Tags (stamp_completed now ob) = om_Tags ob"
  by (simp_all add: stamp_completed_def)

context pebble_reliable
begin

lemma collectParts_ok: "\<exists>ks. collectParts E u s = Inr ks"
  using pebbleIter_ok [of "partListPrefix u" s] by (auto simp: collectParts_def)

lemma GetMultipartUpload_ok:
  "GetMultipartUpload E u s = (case sto cont s (multipartUploadKey u) of
     None \<Rightarrow> Inl ErrUploadNotFound
   | Some v \<Rightarrow> (case decode_upload v of None \<Rightarrow> Inl ErrDecode | Some up \<Rightarrow> Inr up))"
  by (simp add: GetMultipartUpload_def)

lemma AbortMultipartUpload_ok: "upload_at (sto cont s) u \<noteq> None \<Longrightarrow> \<exists>s'. AbortMultipartUpload E u s = Inr s'"
  using collectParts_ok [of u s] commit_total(2)
  by (auto simp: AbortMultipartUpload_def GetMultipartUpload_ok upload_at_def bind_eq_Some_conv)

lemma CompleteMultipartUpload_ok:
  "upload_at (sto cont s) u \<noteq> None \<Longrightarrow> om_Bucket ob \<notin> ps_deletedBuckets s \<Longrightarrow>
     \<exists>s'. CompleteMultipartUpload E now u ob s = Inr s'"
  using collectParts_ok [of u s] commit_total(2)
  by (auto simp: CompleteMultipartUpload_def rejectWriteToDeletedBucket_def GetMultipartUpload_ok upload_at_def bind_eq_Some_conv)

end

text \<open>
  C29. Completing an upload publishes the object and leaves nothing of the upload behind, in
  one step. For an upload that exists, into a bucket that was not deleted,
  \<^verbatim>\<open>CompleteMultipartUpload\<close> succeeds; \<^verbatim>\<open>GetObject\<close> then returns the completed object, the upload, its
  index entry and all its parts are gone, and every key that does not belong to the upload or
  to the object is as it was.
\<close>

theorem complete_upload_clean:
  assumes "pebble_reliable E cont" "upload_at (sto cont s) u \<noteq> None" "om_Bucket ob \<notin> ps_deletedBuckets s"
    and "om_Bucket ob \<noteq> []" "om_Key ob \<noteq> []"
  shows "\<exists>s'. CompleteMultipartUpload E now u ob s = Inr s' \<and>
    GetObject E (om_Bucket ob) (om_Key ob) [] s' = Inr (stamp_completed now ob) \<and>
    GetMultipartUpload E u s' = Inl ErrUploadNotFound \<and> (\<forall>n. GetPart E u n s' = Inl ErrPartNotFound) \<and>
    (\<forall>k. sto cont s' k = (if k = objectKey (om_Bucket ob) (om_Key ob) then Some (JObject (stamp_completed now ob))
                          else if owned (sto cont s) u k then None else sto cont s k))"
proof -
  note P = assms(1)
  have PE: "pebble_engine E cont" using P by (simp add: pebble_reliable_def)
  obtain s' where s': "CompleteMultipartUpload E now u ob s = Inr s'"
    using pebble_reliable.CompleteMultipartUpload_ok [OF P assms(2,3)] by blast
  note m' = pebble_engine.CompleteMultipartUpload_sound(3) [OF PE s']
  have "GetObject E (om_Bucket ob) (om_Key ob) [] s' = Inr (stamp_completed now ob)"
    using pebble_reliable.GetObject_ok [OF P, of s' "om_Bucket ob" "om_Key ob" "[]" "stamp_completed now ob"] assms(4,5) m'
    by (simp add: objKeyFor_def)
  moreover have "GetMultipartUpload E u s' = Inl ErrUploadNotFound"
    by (simp add: pebble_reliable.GetMultipartUpload_ok [OF P] m' drop_upload_def owned_def)
  moreover have "GetPart E u n s' = Inl ErrPartNotFound" for n
    by (simp add: GetPart_def pebble_reliable.pebbleGet_ok [OF P] m' drop_upload_def owned_def)
  ultimately show ?thesis using s' m' by (simp add: drop_upload_def)
qed

definition big_upload :: upload_metadata where
  "big_upload = \<lparr>um_UploadID = ''u1'', um_Bucket = ''b'', um_Key = ''big'', um_Initiated = 1000, um_StorageClass = [],
     um_Metadata = [], um_ContentType = [], um_TenantID = [], um_OwnerID = []\<rparr>"

definition part_of :: "string \<Rightarrow> int \<Rightarrow> part_metadata" where
  "part_of u n = \<lparr>pt_UploadID = u, pt_PartNumber = n, pt_Size = 5, pt_ETag = ''p'', pt_LastModified = 3\<rparr>"

definition upload_store :: "(string \<times> kv_value) list pstore" where
  "upload_store = NewPebbleStore
     [(multipartUploadKey ''u1'', JUpload big_upload), (multipartIndexKey ''b'' ''u1'', Bytes []),
      (partKey ''u1'' 2, JPart (part_of ''u1'' 2)), (partKey ''u1'' 1, JPart (part_of ''u1'' 1))]"

lemma upload_store_at: "upload_at (sto map_of upload_store) u = (if u = ''u1'' then Some big_upload else None)"
  by (simp add: upload_at_def upload_store_def)

lemma upload_store_typed: "typed (sto map_of upload_store)"
  unfolding upload_store_def NewPebbleStore_simps by (rule typed_map_of) (simp add: big_upload_def part_of_def)

theorem complete_upload_clean_witness:
  "\<exists>s'. CompleteMultipartUpload mem_engine 9 ''u1'' (zero_object\<lparr>om_Bucket := ''b'', om_Key := ''big''\<rparr>) upload_store = Inr s' \<and>
     GetObject mem_engine ''b'' ''big'' [] s' = Inr (stamp_completed 9 (zero_object\<lparr>om_Bucket := ''b'', om_Key := ''big''\<rparr>)) \<and>
     GetPart mem_engine ''u1'' 1 s' = Inl ErrPartNotFound"
proof -
  let ?o = "zero_object\<lparr>om_Bucket := ''b'', om_Key := ''big''\<rparr>"
  have "upload_at (sto map_of upload_store) ''u1'' \<noteq> None" "om_Bucket ?o \<notin> ps_deletedBuckets upload_store"
    by (simp add: upload_store_at) (simp add: upload_store_def)
  from complete_upload_clean [OF mem.pebble_reliable_axioms this, of 9] show ?thesis by auto
qed

section \<open>Parts\<close>

context pebble_reliable
begin

lemma ListParts_ok:
  assumes ty: "typed (sto cont s)" and u: "no_colon u"
  shows "\<exists>ps. ListParts E u s = Inr ps \<and> sorted_wrt (<) (map pt_PartNumber ps) \<and>
    set ps = {p. \<exists>n. sto cont s (partKey u n) = Some (JPart p)}"
proof -
  obtain kvs where it: "pebbleIter E (partListPrefix u) s = Inr (kvs, None)" using pebbleIter_ok by blast
  note set = pebbleIter_complete [OF it]
  let ?ps = "List.map_filter (\<lambda>(k, v). decode_part v) kvs"
  have entry: "\<exists>p. v = JPart p \<and> k = partKey u (pt_PartNumber p)" if "(k, v) \<in> set kvs" for k v
  proof -
    from that set have k: "sto cont s k = Some v" "HasPrefix k (partListPrefix u)" by auto
    then have "HasPrefix k ''part:''" by (auto simp: HasPrefix_iff partListPrefix_def)
    from prefix_kinds(5) [OF this typedD [OF ty k(1)]] obtain p where
      p: "v = JPart p" "k = partKey (pt_UploadID p) (pt_PartNumber p)" "no_colon (pt_UploadID p)" by blast
    with k(2) u have "pt_UploadID p = u" by (simp add: part_prefix_iff)
    with p show ?thesis by blast
  qed
  have mem: "p \<in> set ?ps \<longleftrightarrow> (\<exists>n. sto cont s (partKey u n) = Some (JPart p))" for p
  proof
    assume "p \<in> set ?ps"
    then obtain k where "(k, JPart p) \<in> set kvs" by (auto simp: in_map_filter)
    with entry set show "\<exists>n. sto cont s (partKey u n) = Some (JPart p)" by fastforce
  next
    assume "\<exists>n. sto cont s (partKey u n) = Some (JPart p)"
    then obtain n where "(partKey u n, JPart p) \<in> set kvs" using set by auto
    then show "p \<in> set ?ps" unfolding in_map_filter by (intro bexI [of _ "(partKey u n, JPart p)"]) simp_all
  qed
  have "map (\<lambda>p. partKey u (pt_PartNumber p)) ?ps = map fst kvs" using entry
  proof (induction kvs)
    case (Cons kv kvs)
    then obtain k v where kv: "kv = (k, v)" by force
    with Cons.prems obtain p where "v = JPart p" "k = partKey u (pt_PartNumber p)" by force
    with Cons kv show ?case by (simp add: map_filter_simps)
  qed (simp add: map_filter_simps)
  with sorted_wrt_less_distinct [OF pebbleIter_sorted [OF it]] have "distinct (map (\<lambda>p. partKey u (pt_PartNumber p)) ?ps)" by simp
  then have "distinct (map pt_PartNumber ?ps)" by (simp add: distinct_map inj_on_def)
  then have "distinct (map pt_PartNumber (sort_key pt_PartNumber ?ps))" by (simp add: distinct_map)
  then have "sorted_wrt (<) (map pt_PartNumber (sort_key pt_PartNumber ?ps))" by (simp add: strict_sorted_iff)
  moreover have "ListParts E u s = Inr (sort_key pt_PartNumber ?ps)" by (simp add: ListParts_def it)
  ultimately show ?thesis using mem by (intro exI [of _ "sort_key pt_PartNumber ?ps"]) (simp add: set_eq_iff)
qed

end

text \<open>
  \<^verbatim>\<open>ListParts\<close> returns exactly the parts stored for the upload, in strictly ascending order of
  their part numbers (no part number appears twice).
\<close>

theorem list_parts_exact:
  assumes "pebble_reliable E cont" "typed (sto cont s)" "no_colon u"
  shows "\<exists>ps. ListParts E u s = Inr ps \<and> sorted_wrt (<) (map pt_PartNumber ps) \<and>
    set ps = {p. \<exists>n. sto cont s (partKey u n) = Some (JPart p)}"
  using pebble_reliable.ListParts_ok [OF assms] .

theorem list_parts_exact_witness:
  "\<exists>ps. ListParts mem_engine ''u1'' upload_store = Inr ps \<and> part_of ''u1'' 1 \<in> set ps \<and> part_of ''u1'' 2 \<in> set ps"
proof -
  have "sto map_of upload_store (partKey ''u1'' 1) = Some (JPart (part_of ''u1'' 1))"
    "sto map_of upload_store (partKey ''u1'' 2) = Some (JPart (part_of ''u1'' 2))"
    by (simp_all add: upload_store_def)
  then show ?thesis
    using list_parts_exact [OF mem.pebble_reliable_axioms upload_store_typed, of "''u1''"] by fastforce
qed

section \<open>Cleanup of stale uploads\<close>

definition uploads_indexed :: "contents \<Rightarrow> bool" where
  "uploads_indexed m \<longleftrightarrow> (\<forall>u. case upload_at m u of None \<Rightarrow> True
     | Some up \<Rightarrow> no_colon u \<and> m (multipartIndexKey (um_Bucket up) u) \<noteq> None)"

definition stale :: "gotime \<Rightarrow> contents \<Rightarrow> string \<Rightarrow> bool" where
  "stale now m u \<longleftrightarrow> (case upload_at m u of None \<Rightarrow> False
     | Some up \<Rightarrow> um_Initiated up < sevenDaysBefore now)"

lemma after_last_colon_index:
  "no_colon u \<Longrightarrow> after_last_colon (drop (length ''multipart_idx:'') (multipartIndexKey b u)) = Some u"
proof -
  assume "no_colon u"
  then have "takeWhile (\<lambda>c. c \<noteq> CHR '':'') (rev u @ CHR '':'' # rev b) = rev u"
    by (intro takeWhile_sep) (simp add: no_colon_def)
  then show ?thesis by (simp add: after_last_colon_def multipartIndexKey_def)
qed

lemma upload_at_drop:
  "upload_at (drop_upload u m) u' = (if u' = u then None else upload_at m u')"
  by (auto simp: upload_at_def drop_upload_def owned_def split: option.splits)

lemma owned_drop:
  "u' \<noteq> u \<Longrightarrow> owned (drop_upload u m) u' k \<longleftrightarrow> owned m u' k"
  by (simp add: owned_def upload_at_drop)

context pebble_reliable
begin

lemma abort_or_skip_map:
  "sto cont (abort_or_skip E u s) = (if upload_at (sto cont s) u = None then sto cont s else drop_upload u (sto cont s))"
proof (cases "upload_at (sto cont s) u")
  case None
  then have "\<nexists>s'. AbortMultipartUpload E u s = Inr s'" using AbortMultipartUpload_sound(1) by blast
  with None show ?thesis by (cases "AbortMultipartUpload E u s") (auto simp: abort_or_skip_def)
next
  case (Some up)
  then obtain s' where "AbortMultipartUpload E u s = Inr s'" using AbortMultipartUpload_ok by blast
  with Some AbortMultipartUpload_sound(2) [OF this] show ?thesis by (simp add: abort_or_skip_def)
qed

lemma fold_abort:
  "sto cont (fold (abort_or_skip E) us s) k =
     (if \<exists>u\<in>set us. upload_at (sto cont s) u \<noteq> None \<and> owned (sto cont s) u k then None else sto cont s k)"
proof (induction us arbitrary: s)
  case (Cons u us)
  show ?case
  proof (cases "upload_at (sto cont s) u")
    case None
    with Cons abort_or_skip_map [of u s] show ?thesis by auto
  next
    case (Some up)
    then have m: "sto cont (abort_or_skip E u s) = drop_upload u (sto cont s)" by (simp add: abort_or_skip_map)
    have "(\<exists>v\<in>set us. upload_at (drop_upload u (sto cont s)) v \<noteq> None \<and> owned (drop_upload u (sto cont s)) v k) \<longleftrightarrow>
        (\<exists>v\<in>set us. v \<noteq> u \<and> upload_at (sto cont s) v \<noteq> None \<and> owned (sto cont s) v k)"
      by (simp add: upload_at_drop) (use owned_drop in blast)
    then show ?thesis using Cons.IH [of "abort_or_skip E u s"] Some m by (auto simp: drop_upload_def)
  qed
qed simp

lemma stale_id_Some:
  "stale_id E (sevenDaysBefore now) s k = Some u \<longleftrightarrow>
     after_last_colon (drop (length ''multipart_idx:'') k) = Some u \<and> stale now (sto cont s) u"
  unfolding stale_id_def stale_def GetMultipartUpload_ok upload_at_def
  by (auto split: option.splits sum.splits if_split_asm)

lemma cleanup_map:
  assumes "uploads_indexed (sto cont s)"
  shows "sto cont (cleanupStaleMultipartUploads E now s) k =
    (if \<exists>u. stale now (sto cont s) u \<and> owned (sto cont s) u k then None else sto cont s k)"
proof -
  obtain kvs where it: "pebbleIter E ''multipart_idx:'' s = Inr (kvs, None)" using pebbleIter_ok by blast
  let ?us = "List.map_filter (\<lambda>(k, v). stale_id E (sevenDaysBefore now) s k) kvs"
  have up: "upload_at (sto cont s) u \<noteq> None" if "stale now (sto cont s) u" for u
    using that by (auto simp: stale_def split: option.splits)
  have "u \<in> set ?us \<longleftrightarrow> stale now (sto cont s) u" for u
  proof
    assume "u \<in> set ?us"
    then show "stale now (sto cont s) u" by (auto simp: in_map_filter stale_id_Some)
  next
    assume st: "stale now (sto cont s) u"
    then obtain up where up: "upload_at (sto cont s) u = Some up" by (auto simp: stale_def split: option.splits)
    with assms [unfolded uploads_indexed_def, rule_format, of u]
    have u: "no_colon u" and "sto cont s (multipartIndexKey (um_Bucket up) u) \<noteq> None" by simp_all
    then obtain v where "sto cont s (multipartIndexKey (um_Bucket up) u) = Some v" by blast
    then have "(multipartIndexKey (um_Bucket up) u, v) \<in> set kvs"
      using pebbleIter_complete [OF it] by (simp add: multipartIndexKey_def HasPrefix_def)
    moreover have "stale_id E (sevenDaysBefore now) s (multipartIndexKey (um_Bucket up) u) = Some u"
      using after_last_colon_index [OF u] st by (simp add: stale_id_Some)
    ultimately show "u \<in> set ?us" unfolding in_map_filter by force
  qed
  then show ?thesis using fold_abort [of ?us s k] up it
    by (auto simp: cleanupStaleMultipartUploads_def Let_def)
qed

end

text \<open>
  C30. The cleanup removes exactly the uploads that were initiated more than seven days ago,
  each with its parts and its index entry, and touches no other key. It relies on every upload
  being indexed, which the operations keep.
\<close>

theorem cleanup_exact:
  assumes "pebble_reliable E cont" "uploads_indexed (sto cont s)"
  shows "\<forall>k. sto cont (cleanupStaleMultipartUploads E now s) k =
    (if \<exists>u. stale now (sto cont s) u \<and> owned (sto cont s) u k then None else sto cont s k)"
  using pebble_reliable.cleanup_map [OF assms] by blast

theorem cleanup_exact_witness:
  "sto map_of (cleanupStaleMultipartUploads mem_engine (seconds 700000) upload_store) (partKey ''u1'' 2) = None \<and>
   sto map_of (cleanupStaleMultipartUploads mem_engine (seconds 1000) upload_store) (partKey ''u1'' 2) \<noteq> None"
proof -
  have "uploads_indexed (sto map_of upload_store)"
    unfolding uploads_indexed_def upload_store_at by (simp add: upload_store_def big_upload_def)
  note c = cleanup_exact [OF mem.pebble_reliable_axioms this]
  have old: "stale (seconds 700000) (sto map_of upload_store) ''u1''"
    and new: "\<not> stale (seconds 1000) (sto map_of upload_store) u" for u
    unfolding stale_def upload_store_at by (simp_all add: big_upload_def seconds_def sevenDaysBefore_def)
  have "owned (sto map_of upload_store) ''u1'' (partKey ''u1'' 2)" by (simp add: owned_def)
  with c [of "seconds 700000"] old have "sto map_of (cleanupStaleMultipartUploads mem_engine (seconds 700000) upload_store) (partKey ''u1'' 2) = None"
    by auto
  moreover have "sto map_of upload_store (partKey ''u1'' 2) \<noteq> None" by (simp add: upload_store_def)
  ultimately show ?thesis using c [of "seconds 1000"] new by auto
qed

end
