(* ===== verification/Meta_Invariant.thy ===== *)
theory Meta_Invariant
  imports Meta_Multipart
begin

text \<open>
  The metadata store as a state machine: one step per mutating operation of \<^verbatim>\<open>PebbleStore\<close>, with
  the conditions its callers meet (names used in keys hold no colon, raw keys lie outside the
  reserved kinds), and the invariants of every reachable state. The operations run one after another;
  what \<^verbatim>\<open>UpdateBucket\<close> does when another operation comes between its check and its write is at the end of the first part.
\<close>

section \<open>Steps\<close>

text \<open>The counters of a document that a caller hands over are \<^verbatim>\<open>int64\<close> values.\<close>

definition counters_given :: "bucket_metadata \<Rightarrow> bool" where
  "counters_given b \<longleftrightarrow> counters_in_range (Some (JBucket b))"

definition raw_ok :: "string \<Rightarrow> bool" where
  "raw_ok k \<longleftrightarrow> \<not> reserved_key k \<and> \<not> HasPrefix k ''multipart_idx:''"

fun raw_value :: "kv_value \<Rightarrow> bool" where
  "raw_value (JAcl _) \<longleftrightarrow> True"
| "raw_value (Bytes _) \<longleftrightarrow> True"
| "raw_value _ \<longleftrightarrow> False"

inductive store_step :: "'db engine \<Rightarrow> 'db pstore \<Rightarrow> 'db pstore \<Rightarrow> bool" for E where
  create_bucket: "CreateBucket E now (Some b) s = Inr s' \<Longrightarrow> no_colon (bm_TenantID b) \<Longrightarrow> counters_given b \<Longrightarrow> store_step E s s'"
| update_bucket: "UpdateBucket E now (Some b) s = Inr s' \<Longrightarrow> no_colon (bm_TenantID b) \<Longrightarrow> counters_given b \<Longrightarrow> store_step E s s'"
| delete_bucket: "DeleteBucket E t n s = Inr s' \<Longrightarrow> store_step E s s'"
| delete_bucket_if_empty: "DeleteBucketIfEmpty E t n s = Inr s' \<Longrightarrow> store_step E s s'"
| update_metrics: "UpdateBucketMetrics E now t n dc ds s = Inr s' \<Longrightarrow> store_step E s s'"
| recalculate: "RecalculateBucketStats E now t n s = Inr s' \<Longrightarrow> store_step E s s'"
| put_object: "PutObject E now (Some ob) s = Inr s' \<Longrightarrow> no_colon (om_Bucket ob) \<Longrightarrow> no_colon (om_VersionID ob) \<Longrightarrow> store_step E s s'"
| delete_object: "DeleteObject E b k v s = Inr s' \<Longrightarrow> store_step E s s'"
| put_version: "PutObjectVersion E (Some ob) (Some ver) s = Inr s' \<Longrightarrow> no_colon (om_Bucket ob) \<Longrightarrow>
    no_colon (ov_VersionID ver) \<Longrightarrow> store_step E s s'"
| delete_version: "DeleteObjectVersion E b k v s = Inr s' \<Longrightarrow> store_step E s s'"
| put_tags: "PutObjectTags E now b k tags s = Inr s' \<Longrightarrow> no_colon b \<Longrightarrow> store_step E s s'"
| create_upload: "CreateMultipartUpload E now (Some up) s = Inr s' \<Longrightarrow> no_colon (um_UploadID up) \<Longrightarrow> store_step E s s'"
| abort_upload: "AbortMultipartUpload E u s = Inr s' \<Longrightarrow> no_colon u \<Longrightarrow> store_step E s s'"
| complete_upload: "CompleteMultipartUpload E now u ob s = Inr s' \<Longrightarrow> no_colon u \<Longrightarrow> no_colon (om_Bucket ob) \<Longrightarrow> store_step E s s'"
| put_part: "PutPart E now (Some pt) s = Inr s' \<Longrightarrow> no_colon (pt_UploadID pt) \<Longrightarrow> store_step E s s'"
| cleanup: "store_step E s (cleanupStaleMultipartUploads E now s)"
| put_raw: "PutRaw E k v s = Inr s' \<Longrightarrow> raw_ok k \<Longrightarrow> raw_value v \<Longrightarrow> store_step E s s'"
| delete_raw: "DeleteRaw E k s = Inr s' \<Longrightarrow> raw_ok k \<Longrightarrow> store_step E s s'"
| raw_batch: "RawBatch E sets dels s = Inr s' \<Longrightarrow> list_all (\<lambda>(k, v). raw_ok k \<and> raw_value v) sets \<Longrightarrow>
    list_all raw_ok dels \<Longrightarrow> store_step E s s'"

definition store_inv :: "contents \<Rightarrow> bool" where
  "store_inv m \<longleftrightarrow> typed m \<and> unique_names m \<and> counters_ok m \<and> uploads_indexed m"

section \<open>Writes that keep the invariant\<close>

text \<open>
  A benign operation of a batch writes no bucket and no upload document, and removes no upload
  index entry.
\<close>

fun benign :: "batch_op \<Rightarrow> bool" where
  "benign (BSet k v) \<longleftrightarrow> kv_typed k v \<and> (case v of JBucket _ \<Rightarrow> False | JUpload _ \<Rightarrow> False | _ \<Rightarrow> True)"
| "benign (BDel k) \<longleftrightarrow> \<not> HasPrefix k ''multipart_idx:''"

lemma index_prefix [simp]:
  "HasPrefix (multipartIndexKey b u) ''multipart_idx:''"
  "\<not> HasPrefix (objectKey b k) ''multipart_idx:''"
  "\<not> HasPrefix (objectVersionKey b k v) ''multipart_idx:''"
  "\<not> HasPrefix (bucketKey t n) ''multipart_idx:''"
  "\<not> HasPrefix (partKey u p) ''multipart_idx:''"
  "\<not> HasPrefix (multipartUploadKey u) ''multipart_idx:''"
  "\<not> HasPrefix (tagIndexKey b tk tv k) ''multipart_idx:''"
  by (simp_all add: key_defs HasPrefix_def)

lemma unique_names_mono:
  "unique_names m \<Longrightarrow> (\<And>k n. stored_name (m' k) = Some n \<Longrightarrow> stored_name (m k) = Some n) \<Longrightarrow> unique_names m'"
  unfolding unique_names_def by blast

lemma uploads_indexed_mono:
  assumes "uploads_indexed m" "\<And>u up. upload_at m' u = Some up \<Longrightarrow> upload_at m u = Some up"
    and "\<And>u up. upload_at m' u = Some up \<Longrightarrow> m (multipartIndexKey (um_Bucket up) u) \<noteq> None \<Longrightarrow>
      m' (multipartIndexKey (um_Bucket up) u) \<noteq> None"
  shows "uploads_indexed m'"
  unfolding uploads_indexed_def
proof
  fix u
  show "case upload_at m' u of None \<Rightarrow> True | Some up \<Rightarrow> no_colon u \<and> m' (multipartIndexKey (um_Bucket up) u) \<noteq> None"
  proof (cases "upload_at m' u")
    case (Some up)
    from assms(1) [unfolded uploads_indexed_def, rule_format, of u] assms(2,3) [OF Some] Some show ?thesis by simp
  qed simp
qed

lemma stored_name_benign: "benign (BSet k v) \<Longrightarrow> stored_name (Some v) = None"
  by (cases v) simp_all

lemma inv_benign: "store_inv m \<Longrightarrow> benign op \<Longrightarrow> store_inv (apply_op op m)"
proof (cases op)
  case (BSet k v)
  assume inv: "store_inv m" and b: "benign op"
  have "typed (m(k \<mapsto> v))" using inv b BSet by (simp add: store_inv_def typed_upd)
  moreover have "unique_names (m(k \<mapsto> v))"
    using inv stored_name_benign b BSet unfolding store_inv_def
    by (auto intro!: unique_names_mono [of m] split: if_split_asm)
  moreover have "counters_ok (m(k \<mapsto> v))"
    using inv b BSet by (cases v) (simp_all add: store_inv_def counters_ok_def)
  moreover have "uploads_indexed (m(k \<mapsto> v))"
  proof (rule uploads_indexed_mono [of m])
    show "upload_at m u = Some up" if "upload_at (m(k \<mapsto> v)) u = Some up" for u up
      using that b BSet by (cases v) (auto simp: upload_at_def split: if_split_asm)
  qed (use inv in \<open>simp_all add: store_inv_def\<close>)
  ultimately show ?thesis using BSet by (simp add: store_inv_def)
next
  case (BDel k)
  assume inv: "store_inv m" and b: "benign op"
  have "uploads_indexed (m(k := None))"
  proof (rule uploads_indexed_mono [of m])
    show "upload_at m u = Some up" if "upload_at (m(k := None)) u = Some up" for u up
      using that by (auto simp: upload_at_def split: if_split_asm)
    show "(m(k := None)) (multipartIndexKey (um_Bucket up) u) \<noteq> None"
      if "m (multipartIndexKey (um_Bucket up) u) \<noteq> None" for u up
      using that b BDel index_prefix(1) [of "um_Bucket up" u] by auto
  qed (use inv in \<open>simp add: store_inv_def\<close>)
  with inv BDel show ?thesis
    by (simp add: store_inv_def typed_del unique_names_delete counters_ok_def)
qed

lemma inv_batch: "store_inv m \<Longrightarrow> list_all benign ops \<Longrightarrow> store_inv (apply_batch ops m)"
  by (induction ops arbitrary: m) (simp_all add: inv_benign)

lemma inv_upd: "store_inv m \<Longrightarrow> benign (BSet k v) \<Longrightarrow> store_inv (m(k \<mapsto> v))"
  using inv_benign [of m "BSet k v"] by simp

lemma inv_del: "store_inv m \<Longrightarrow> \<not> HasPrefix k ''multipart_idx:'' \<Longrightarrow> store_inv (m(k := None))"
  using inv_benign [of m "BDel k"] by simp

lemma benign_tag_ops [simp]: "list_all benign (tag_dels b k tags)" "list_all benign (tag_sets b k tags)"
  by (auto simp: tag_dels_def tag_sets_def list_all_iff)

lemma inv_put_object_map:
  "store_inv m \<Longrightarrow> no_colon (om_Bucket ob) \<Longrightarrow> no_colon (om_VersionID ob) \<Longrightarrow> store_inv (put_object_map ob m)"
  by (simp add: put_object_map_def Let_def inv_batch inv_upd)

text \<open>Bucket documents and uploads.\<close>

lemma inv_bucket_upd:
  assumes "store_inv m" "k = bucketKey (bm_TenantID b) (bm_Name b)" "no_colon (bm_TenantID b)" "counters_given b"
    and "unique_names (m(k \<mapsto> JBucket b))"
  shows "store_inv (m(k \<mapsto> JBucket b))"
proof -
  have "uploads_indexed (m(k \<mapsto> JBucket b))"
  proof (rule uploads_indexed_mono [of m])
    show "upload_at m u = Some up" if "upload_at (m(k \<mapsto> JBucket b)) u = Some up" for u up
      using that assms(2) by (simp add: upload_at_def)
  qed (use assms in \<open>simp_all add: store_inv_def\<close>)
  then show ?thesis
    using assms by (simp add: store_inv_def typed_upd counters_ok_def counters_given_def)
qed

lemma inv_drop_upload:
  assumes "store_inv m" "no_colon u"
  shows "store_inv (drop_upload u m)"
proof -
  have "typed (drop_upload u m)" using assms(1) by (auto simp: store_inv_def typed_def drop_upload_def)
  moreover have "unique_names (drop_upload u m)"
    using assms(1) unfolding store_inv_def by (auto intro!: unique_names_mono [of m] simp: drop_upload_def split: if_split_asm)
  moreover have "counters_ok (drop_upload u m)" using assms(1) by (simp add: store_inv_def counters_ok_def drop_upload_def)
  moreover have "uploads_indexed (drop_upload u m)"
  proof (rule uploads_indexed_mono [of m])
    show "upload_at m u' = Some up" if "upload_at (drop_upload u m) u' = Some up" for u' up
      using that by (simp add: upload_at_drop split: if_split_asm)
    show "drop_upload u m (multipartIndexKey (um_Bucket up) u') \<noteq> None"
      if up: "upload_at (drop_upload u m) u' = Some up" and i: "m (multipartIndexKey (um_Bucket up) u') \<noteq> None" for u' up
    proof -
      have ne: "u' \<noteq> u" "upload_at m u' = Some up" using up by (auto simp: upload_at_drop split: if_split_asm)
      then have "no_colon u'" using assms(1) [unfolded store_inv_def uploads_indexed_def] by (metis option.simps(5))
      then have "multipartIndexKey (um_Bucket up) u' \<noteq> multipartIndexKey b u" for b
        using assms(2) ne(1) by (auto simp: multipartIndexKey_def no_colon_def sep_inj_end)
      then show ?thesis using i by (auto simp: drop_upload_def owned_def split: option.split)
    qed
  qed (use assms in \<open>simp add: store_inv_def\<close>)
  ultimately show ?thesis by (simp add: store_inv_def)
qed

lemma inv_create_upload:
  assumes "store_inv m" "no_colon (um_UploadID up)"
  shows "store_inv (m(multipartUploadKey (um_UploadID up) \<mapsto> JUpload up,
    multipartIndexKey (um_Bucket up) (um_UploadID up) \<mapsto> Bytes []))" (is "store_inv ?m'")
proof -
  let ?k = "multipartUploadKey (um_UploadID up)" and ?i = "multipartIndexKey (um_Bucket up) (um_UploadID up)"
  have "unique_names ?m'"
    using assms(1) unfolding store_inv_def by (auto intro!: unique_names_mono [of m] split: if_split_asm)
  moreover have "uploads_indexed ?m'"
    unfolding uploads_indexed_def
  proof
    fix u
    from assms(1) have "case upload_at m u of None \<Rightarrow> True | Some x \<Rightarrow> no_colon u \<and> m (multipartIndexKey (um_Bucket x) u) \<noteq> None"
      by (simp add: store_inv_def uploads_indexed_def)
    then show "case upload_at ?m' u of None \<Rightarrow> True | Some x \<Rightarrow> no_colon u \<and> ?m' (multipartIndexKey (um_Bucket x) u) \<noteq> None"
      using assms(2) by (cases "u = um_UploadID up") (simp_all add: upload_at_def split: option.splits)
  qed
  ultimately show ?thesis using assms by (simp add: store_inv_def typed_upd counters_ok_def)
qed

section \<open>Every step keeps the invariant\<close>

lemma count_objects_i64: "count_objects kvs (0, 0) = (c, z) \<Longrightarrow> i64 c \<and> i64 z"
  using count_objects_wrap [of kvs 0 0] by auto

lemma unlatest_benign:
  assumes "\<And>k v. (k, v) \<in> set kvs \<Longrightarrow> kv_typed k v"
  shows "list_all benign (unlatest key kvs)"
  using assms
proof (induction kvs)
  case (Cons kv kvs)
  obtain k v where kv: "kv = (k, v)" by force
  have "kv_typed k v" using Cons.prems kv by simp
  then show ?case using Cons by (cases v) (auto simp: unlatest_def List.map_filter_def kv)
qed (simp add: unlatest_def List.map_filter_def)

lemma raw_benign: "raw_ok k \<Longrightarrow> raw_value v \<Longrightarrow> benign (BSet k v)"
  by (cases v) (simp_all add: raw_ok_def)

lemma no_colon_after_last: "after_last_colon x = Some u \<Longrightarrow> no_colon u"
  by (auto simp: after_last_colon_def no_colon_def split: if_split_asm dest: set_takeWhileD)

context pebble_engine
begin

lemma inv_CreateBucket:
  assumes "store_inv (sto cont s)" "CreateBucket E now (Some b) s = Inr s'" "no_colon (bm_TenantID b)" "counters_given b"
  shows "store_inv (sto cont s')"
proof -
  note c = CreateBucket_sound [OF assms(2)]
  have "\<not> name_taken (bm_Name b) (sto cont s)"
    using c(2) typed_name_prefix assms(1) unfolding name_taken_def store_inv_def by blast
  then have "unique_names ((sto cont s)(bucketKey (bm_TenantID b) (bm_Name b) \<mapsto> JBucket (stamp_bucket now b)))"
    using assms(1) unique_names_add [of "sto cont s" "stamp_bucket now b"] by (simp add: store_inv_def)
  with assms c(3) show ?thesis
    using inv_bucket_upd [of "sto cont s" "bucketKey (bm_TenantID b) (bm_Name b)" "stamp_bucket now b"]
    by (simp add: counters_given_def)
qed

lemma inv_bucket_replace:
  assumes "store_inv (sto cont s)" "sto cont s (bucketKey (bm_TenantID b) (bm_Name b)) \<noteq> None"
    and "no_colon (bm_TenantID b)" "counters_given b"
  shows "store_inv ((sto cont s)(bucketKey (bm_TenantID b) (bm_Name b) \<mapsto> JBucket b))"
proof (rule inv_bucket_upd)
  have "stored_name (sto cont s (bucketKey (bm_TenantID b) (bm_Name b))) = Some (bm_Name b)"
    using name_taken_key [of "sto cont s" "bm_TenantID b" "bm_Name b"] assms by (simp add: store_inv_def)
  then show "unique_names ((sto cont s)(bucketKey (bm_TenantID b) (bm_Name b) \<mapsto> JBucket b))"
    using assms(1) by (intro unique_names_replace) (simp_all add: store_inv_def)
qed (use assms in simp_all)

text \<open>Updating only the counters of a stored document.\<close>

lemma inv_counters:
  assumes "store_inv (sto cont s)" "sto cont s k = Some (JBucket b)" "i64 c" "i64 z"
  shows "store_inv ((sto cont s)(k \<mapsto> JBucket (b\<lparr>bm_ObjectCount := c, bm_TotalSize := z, bm_UpdatedAt := now\<rparr>)))"
proof -
  have k: "k = bucketKey (bm_TenantID b) (bm_Name b)" "no_colon (bm_TenantID b)"
    using assms(1) typedD [of "sto cont s" k "JBucket b"] assms(2) by (simp_all add: store_inv_def)
  show ?thesis
    using inv_bucket_replace [of s "b\<lparr>bm_ObjectCount := c, bm_TotalSize := z, bm_UpdatedAt := now\<rparr>"] assms k
    by (simp add: counters_given_def)
qed

lemma inv_UpdateBucketMetrics:
  assumes "store_inv (sto cont s)" "UpdateBucketMetrics E now t n dc ds s = Inr s'"
  shows "store_inv (sto cont s')"
proof -
  from UpdateBucketMetrics_sound [OF assms(2)] obtain b where b: "sto cont s (bucketKey t n) = Some (JBucket b)"
    "sto cont s' = (sto cont s)(bucketKey t n \<mapsto> JBucket (b\<lparr>
      bm_ObjectCount := clamp0 (add64 (bm_ObjectCount b) dc),
      bm_TotalSize := clamp0 (add64 (bm_TotalSize b) ds), bm_UpdatedAt := now\<rparr>))" by blast
  have "0 \<le> clamp0 (add64 x y) \<and> clamp0 (add64 x y) < 2 ^ 63" for x y
    by (rule clamp0_range) (simp add: add64_def)
  then have "i64 (clamp0 (add64 x y))" for x y unfolding i64_def by (meson order_trans neg_le_0_iff_le zero_le_numeral zero_le_power)
  then show ?thesis unfolding b(2) by (intro inv_counters [OF assms(1) b(1)]) simp_all
qed

lemma inv_Recalculate:
  assumes "store_inv (sto cont s)" "RecalculateBucketStats E now t n s = Inr s'"
  shows "store_inv (sto cont s')"
proof -
  from RecalculateBucketStats_sound [OF assms(2)] obtain b kvs where b: "sto cont s (bucketKey t n) = Some (JBucket b)"
    and m': "sto cont s' = (sto cont s)(bucketKey t n \<mapsto> JBucket (b\<lparr>
      bm_ObjectCount := fst (count_objects kvs (0, 0)),
      bm_TotalSize := snd (count_objects kvs (0, 0)), bm_UpdatedAt := now\<rparr>))" by blast
  obtain c z where cz: "count_objects kvs (0, 0) = (c, z)" by fastforce
  from count_objects_i64 [OF cz] have "i64 c" "i64 z" by simp_all
  then show ?thesis unfolding m' cz by (intro inv_counters [OF assms(1) b]) simp_all
qed

lemma inv_PutObjectVersion:
  assumes "store_inv (sto cont s)" "PutObjectVersion E (Some ob) (Some ver) s = Inr s'"
    and "no_colon (om_Bucket ob)" "no_colon (ov_VersionID ver)"
  shows "store_inv (sto cont s')"
proof -
  let ?new = "JObject (ob\<lparr>om_VersionID := ov_VersionID ver, om_IsLatest := ov_IsLatest ver\<rparr>)"
  from assms(2) obtain updates where up: "list_all benign updates"
    and w: "commitNoSync E (updates @ [BSet (objectVersionKey (om_Bucket ob) (om_Key ob) (ov_VersionID ver)) ?new] @
        (if ov_IsLatest ver then [BSet (objectKey (om_Bucket ob) (om_Key ob)) ?new] else [])) s = Inr s'"
  proof (cases "ov_IsLatest ver")
    case True
    with assms(2) obtain kvs where it: "pebbleIter E (versionScanPrefix (om_Bucket ob) (om_Key ob)) s = Inr (kvs, None)"
      and w: "commitNoSync E (unlatest (om_Key ob) kvs @ [BSet (objectVersionKey (om_Bucket ob) (om_Key ob) (ov_VersionID ver)) ?new,
         BSet (objectKey (om_Bucket ob) (om_Key ob)) ?new]) s = Inr s'"
      unfolding PutObjectVersion_def rejectWriteToDeletedBucket_def Let_def
      by (simp split: sum.split_asm option.split_asm if_split_asm prod.split_asm)
    have "list_all benign (unlatest (om_Key ob) kvs)"
      using pebbleIter_member [OF it] assms(1) typedD unfolding store_inv_def by (intro unlatest_benign) blast
    with that [of "unlatest (om_Key ob) kvs"] w True show thesis by simp
  next
    case False
    with assms(2) that [of "[]"] show thesis
      unfolding PutObjectVersion_def rejectWriteToDeletedBucket_def Let_def
      by (simp split: option.split_asm if_split_asm)
  qed
  have "store_inv (apply_batch (updates @ [BSet (objectVersionKey (om_Bucket ob) (om_Key ob) (ov_VersionID ver)) ?new] @
        (if ov_IsLatest ver then [BSet (objectKey (om_Bucket ob) (om_Key ob)) ?new] else [])) (sto cont s))"
    using assms(1,3,4) up by (intro inv_batch) simp_all
  then show ?thesis using commitNoSync_sound [OF w] by (simp only:)
qed

lemma inv_abort_or_skip: "store_inv (sto cont s) \<Longrightarrow> no_colon u \<Longrightarrow> store_inv (sto cont (abort_or_skip E u s))"
  using inv_drop_upload [of "sto cont s" u] AbortMultipartUpload_sound(2) [of u s]
  by (cases "AbortMultipartUpload E u s") (simp_all add: abort_or_skip_def)

lemma inv_fold_abort:
  "store_inv (sto cont s) \<Longrightarrow> \<forall>u\<in>set us. no_colon u \<Longrightarrow> store_inv (sto cont (fold (abort_or_skip E) us s))"
  by (induction us arbitrary: s) (simp_all add: inv_abort_or_skip)

lemma inv_cleanup: "store_inv (sto cont s) \<Longrightarrow> store_inv (sto cont (cleanupStaleMultipartUploads E now s))"
proof -
  assume inv: "store_inv (sto cont s)"
  have "no_colon u" if "stale_id E c s k = Some u" for c k u
    using that no_colon_after_last by (auto simp: stale_id_def split: option.splits sum.splits if_split_asm)
  then show ?thesis using inv
    by (auto simp: cleanupStaleMultipartUploads_def Let_def in_map_filter intro!: inv_fold_abort split: sum.split)
qed

lemma store_inv_step: "store_step E s s' \<Longrightarrow> store_inv (sto cont s) \<Longrightarrow> store_inv (sto cont s')"
proof (induction rule: store_step.induct)
  case (update_bucket now b s s')
  note u = UpdateBucket_sound [OF update_bucket.hyps(1)]
  show ?case
    unfolding u(2) using inv_bucket_replace [of s "b\<lparr>bm_UpdatedAt := now\<rparr>"] update_bucket u(1)
    by (simp add: counters_given_def del: fun_upd_apply)
next
  case (put_object now ob s s')
  then show ?case using PutObject_sound(4) [OF put_object.hyps(1)] by (simp add: inv_put_object_map)
next
  case (delete_object b k v s s')
  from DeleteObject_sound [OF delete_object.hyps] obtain ob :: object_metadata where
    m': "sto cont s' = (apply_batch (tag_dels b k (om_Tags ob)) (sto cont s))(objKeyFor b k v := None)" by blast
  show ?case unfolding m' using delete_object.prems by (intro inv_del inv_batch) (simp_all add: objKeyFor_def)
next
  case (put_tags now b k tags s s')
  from PutObjectTags_sound [OF put_tags.hyps(1)] obtain ob where ob: "sto cont s (objectKey b k) = Some (JObject ob)"
    and m': "sto cont s' = (apply_batch (tag_sets b k tags) (apply_batch (tag_dels b k (om_Tags ob)) (sto cont s)))
      (objectKey b k \<mapsto> JObject (ob\<lparr>om_Tags := tags, om_UpdatedAt := now\<rparr>))" by blast
  have "kv_typed (objectKey b k) (JObject ob)" 
    using put_tags.prems ob typedD [of "sto cont s" "objectKey b k" "JObject ob"] by (simp add: store_inv_def)
  then show ?case unfolding m' using put_tags.prems by (intro inv_upd inv_batch) simp_all
next
  case (create_upload now up s s')
  from CreateMultipartUpload_sound [OF create_upload.hyps(1)] obtain t where
    "sto cont s' = (sto cont s)(multipartUploadKey (um_UploadID up) \<mapsto> JUpload (up\<lparr>um_Initiated := t\<rparr>),
      multipartIndexKey (um_Bucket up) (um_UploadID up) \<mapsto> Bytes [])" by blast
  with inv_create_upload [of "sto cont s" "up\<lparr>um_Initiated := t\<rparr>"] create_upload show ?case
    by (simp del: fun_upd_apply)
next
  case (complete_upload now u ob s s')
  note m' = CompleteMultipartUpload_sound(3) [OF complete_upload.hyps(1)]
  show ?case unfolding m' using complete_upload by (intro inv_upd inv_drop_upload) simp_all
next
  case (put_part now pt s s')
  note m' = PutPart_sound(3) [OF put_part.hyps(1)]
  show ?case unfolding m' using put_part by (intro inv_upd) simp_all
next
  case (raw_batch sets dels s s')
  have "list_all benign (map (\<lambda>(k, v). BSet k v) sets @ map BDel dels)"
    using raw_batch.hyps(2,3) raw_benign by (auto simp: list_all_iff raw_ok_def)
  then show ?case using commitNoSync_sound [OF raw_batch.hyps(1) [unfolded RawBatch_def]] inv_batch [OF raw_batch.prems]
    by (simp only:)
next
  case (delete_bucket t n s s')
  then show ?case using DeleteBucket_sound(2) [OF delete_bucket.hyps] by (simp add: inv_del del: fun_upd_apply)
next
  case (delete_bucket_if_empty t n s s')
  then show ?case using DeleteBucketIfEmpty_sound(2) [OF delete_bucket_if_empty.hyps] by (simp add: inv_del del: fun_upd_apply)
next
  case (delete_version b k v s s')
  then show ?case using DeleteObjectVersion_sound [OF delete_version.hyps] by (simp add: inv_del del: fun_upd_apply)
next
  case (put_raw k v s s')
  then show ?case using setNoSync_sound [OF put_raw.hyps(1) [unfolded PutRaw_def]] raw_benign
    by (simp add: inv_upd del: fun_upd_apply)
next
  case (delete_raw k s s')
  then show ?case using commitSync_sound [OF delete_raw.hyps(1) [unfolded DeleteRaw_def]]
    by (simp add: inv_del raw_ok_def del: fun_upd_apply)
next
  case (create_bucket now b s s')
  then show ?case by (intro inv_CreateBucket [of s now b s'])
next
  case (update_metrics now t n dc ds s s')
  then show ?case by (intro inv_UpdateBucketMetrics [of s now t n dc ds s'])
next
  case (recalculate now t n s s')
  then show ?case by (intro inv_Recalculate [of s now t n s'])
next
  case (put_version ob ver s s')
  then show ?case by (intro inv_PutObjectVersion [of s ob ver s'])
next
  case (abort_upload u s s')
  then show ?case using AbortMultipartUpload_sound(2) [OF abort_upload.hyps(1)] by (simp add: inv_drop_upload)
next
  case (cleanup s now)
  then show ?case by (rule inv_cleanup)
qed

end

text \<open>
  C5. The invariant of the metadata store. From an empty database, every state reachable by any
  sequence of bucket, object, version, tag, upload, part, raw and cleanup operations, one after another, keeps each
  document under the key its own fields give (so no stored document is misread), has no bucket
  name twice among all tenants, has bucket counters that are \<^verbatim>\<open>int64\<close> values, and has every
  multipart upload in the index that the cleanup scans. The tenant, bucket, version and upload identifiers that the calls write hold no
  colon, and raw keys lie outside the store's own prefixes. The engine may fail at any call.
\<close>

theorem store_invariant:
  assumes "pebble_engine E cont" "sto cont s0 = Map.empty" "(store_step E)\<^sup>*\<^sup>* s0 s"
  shows "typed (sto cont s) \<and> unique_names (sto cont s) \<and> counters_ok (sto cont s) \<and> uploads_indexed (sto cont s)"
proof -
  have "store_inv (sto cont s0)"
    by (simp add: assms(2) store_inv_def unique_names_def counters_ok_def uploads_indexed_def upload_at_def)
  with assms(3) have "store_inv (sto cont s)"
    by (induction rule: rtranclp_induct) (auto intro: pebble_engine.store_inv_step [OF assms(1)])
  then show ?thesis by (simp add: store_inv_def)
qed

theorem store_invariant_witness:
  "\<exists>s. (store_step mem_engine)\<^sup>*\<^sup>* (NewPebbleStore []) s \<and>
     sto map_of s (bucketKey ''t1'' ''photos'') \<noteq> None \<and> typed (sto map_of s) \<and> unique_names (sto map_of s)"
proof -
  have free: "\<not> name_taken (bm_Name photos_bucket) (sto map_of (NewPebbleStore []))"
    by (simp add: name_taken_def)
  have nc: "no_colon (bm_TenantID photos_bucket)" by (simp add: photos_bucket_def)
  obtain s where s: "CreateBucket mem_engine 5 (Some photos_bucket) (NewPebbleStore []) = Inr s"
    using mem.CreateBucket_free [OF _ nc free] by auto
  have "counters_given photos_bucket" by (simp add: counters_given_def i64_def photos_bucket_def zero_bucket_def)
  with s nc have run: "(store_step mem_engine)\<^sup>*\<^sup>* (NewPebbleStore []) s"
    by (blast intro: store_step.create_bucket)
  have "sto map_of s (bucketKey ''t1'' ''photos'') \<noteq> None"
    using mem.CreateBucket_sound(3) [OF s] by (simp add: photos_bucket_def)
  with run store_invariant [OF mem.pebble_engine_axioms _ run] show ?thesis by auto
qed

text \<open>
  The order matters for \<^verbatim>\<open>UpdateBucket\<close>: between its check and its write the bucket may be deleted and its
  name given to another tenant. The write then brings the old document back, and the name is there twice.
\<close>

lemma update_race_duplicates_name:
  "\<exists>s0 s1 s2 s3. CreateBucket mem_engine 5 (Some photos_bucket) (NewPebbleStore []) = Inr s0 \<and>
     update_check mem_engine photos_bucket s0 = None \<and>
     DeleteBucketIfEmpty mem_engine ''t1'' ''photos'' s0 = Inr s1 \<and>
     CreateBucket mem_engine 6 (Some (photos_bucket\<lparr>bm_TenantID := ''t2''\<rparr>)) s1 = Inr s2 \<and>
     update_write mem_engine 7 photos_bucket s2 = Inr s3 \<and> \<not> unique_names (sto map_of s3)"
proof -
  let ?k1 = "bucketKey ''t1'' ''photos''" and ?k2 = "bucketKey ''t2'' ''photos''"
  define s0 where "s0 = projr (CreateBucket mem_engine 5 (Some photos_bucket) (NewPebbleStore []))"
  define s1 where "s1 = projr (DeleteBucketIfEmpty mem_engine ''t1'' ''photos'' s0)"
  define s2 where "s2 = projr (CreateBucket mem_engine 6 (Some (photos_bucket\<lparr>bm_TenantID := ''t2''\<rparr>)) s1)"
  define s3 where "s3 = projr (update_write mem_engine 7 photos_bucket s2)"
  note defs = s0_def s1_def s2_def s3_def
  have "CreateBucket mem_engine 5 (Some photos_bucket) (NewPebbleStore []) = Inr s0" unfolding defs by code_simp
  moreover have "update_check mem_engine photos_bucket s0 = None" unfolding defs by code_simp
  moreover have "DeleteBucketIfEmpty mem_engine ''t1'' ''photos'' s0 = Inr s1" unfolding defs by code_simp
  moreover have "CreateBucket mem_engine 6 (Some (photos_bucket\<lparr>bm_TenantID := ''t2''\<rparr>)) s1 = Inr s2" unfolding defs by code_simp
  moreover have "update_write mem_engine 7 photos_bucket s2 = Inr s3" unfolding defs by code_simp
  moreover have "stored_name (sto map_of s3 ?k1) = Some ''photos''" "stored_name (sto map_of s3 ?k2) = Some ''photos''" "?k1 \<noteq> ?k2"
    unfolding defs by code_simp+
  ultimately show ?thesis unfolding unique_names_def by blast
qed

section \<open>Nothing appears in a deleted bucket\<close>

lemma obj_prefix_iff:
  "no_colon bp \<Longrightarrow> no_colon b \<Longrightarrow> HasPrefix (objectKey b k) (''obj:'' @ bp @ '':'') \<longleftrightarrow> b = bp"
  by (auto simp: objectKey_def HasPrefix_iff no_colon_def sep_inj)

lemma version_prefix_iff:
  "no_colon bp \<Longrightarrow> no_colon b \<Longrightarrow> HasPrefix (objectVersionKey b k v) (''version:'' @ bp @ '':'') \<longleftrightarrow> b = bp"
  by (auto simp: objectVersionKey_def HasPrefix_iff no_colon_def sep_inj)

definition content_key :: "string \<Rightarrow> string \<Rightarrow> bool" where
  "content_key bp k \<longleftrightarrow> HasPrefix k (''obj:'' @ bp @ '':'') \<or> HasPrefix k (''version:'' @ bp @ '':'')"

lemma bucket_empty_iff: "bucket_empty bp m \<longleftrightarrow> (\<forall>k. content_key bp k \<longrightarrow> m k = None)"
  by (auto simp: bucket_empty_def content_key_def)

lemma content_key_kinds [simp]:
  "\<not> content_key bp (bucketKey t n)" "\<not> content_key bp (tagIndexKey b tk tv k)"
  "\<not> content_key bp (multipartUploadKey u)" "\<not> content_key bp (multipartIndexKey b u)" "\<not> content_key bp (partKey u p)"
  by (simp_all add: content_key_def key_defs HasPrefix_def)

lemma other_kind:
  "\<not> HasPrefix (objectKey b k) (''version:'' @ x)" "\<not> HasPrefix (objectVersionKey b k v) (''obj:'' @ x)"
  by (simp_all add: key_defs HasPrefix_def)

lemma content_key_object:
  "no_colon bp \<Longrightarrow> no_colon b \<Longrightarrow> content_key bp (objectKey b k) \<longleftrightarrow> b = bp"
  "no_colon bp \<Longrightarrow> no_colon b \<Longrightarrow> content_key bp (objectVersionKey b k v) \<longleftrightarrow> b = bp"
  by (simp_all only: content_key_def obj_prefix_iff version_prefix_iff other_kind simp_thms)

lemma content_key_raw: "raw_ok k \<Longrightarrow> \<not> content_key bp k"
  by (auto simp: content_key_def raw_ok_def reserved_key_def HasPrefix_iff)

lemma content_key_tags: "x \<in> tag_keys b k tags \<Longrightarrow> \<not> content_key bp x"
  by (auto simp: tag_keys_def)

text \<open>A map that only loses content keys, or changes keys of other kinds, stays empty.\<close>

lemma bucket_empty_mono:
  "bucket_empty bp m \<Longrightarrow> (\<And>k. content_key bp k \<Longrightarrow> m k = None \<Longrightarrow> m' k = None) \<Longrightarrow> bucket_empty bp m'"
  by (simp add: bucket_empty_iff)

context pebble_engine
begin

lemma empty_PutObject:
  assumes "bucket_empty bp (sto cont s)" "no_colon bp" "bp \<in> ps_deletedBuckets s"
    and "PutObject E now (Some ob) s = Inr s'" "no_colon (om_Bucket ob)"
  shows "bucket_empty bp (sto cont s')"
proof (rule bucket_empty_mono [OF assms(1)])
  fix k assume k: "content_key bp k" "sto cont s k = None"
  note m' = PutObject_sound(3,4) [OF assms(4)]
  have "om_Bucket ob \<noteq> bp" using m'(1) assms(3) by auto
  then have "k \<noteq> objectKey (om_Bucket ob) (om_Key ob)" "k \<noteq> objectVersionKey (om_Bucket ob) (om_Key ob) (om_VersionID ob)"
    using k(1) assms(2,5) by (auto simp: content_key_object)
  then show "sto cont s' k = None"
    using put_object_map_other [of k "stamp_object now ob" "sto cont s"] m'(2) content_key_tags k by auto
qed

lemma empty_PutObjectVersion:
  assumes "bucket_empty bp (sto cont s)" "no_colon bp" "bp \<in> ps_deletedBuckets s"
    and "PutObjectVersion E (Some ob) (Some ver) s = Inr s'" "no_colon (om_Bucket ob)"
  shows "bucket_empty bp (sto cont s')"
proof (cases "ov_IsLatest ver")
  case True
  note m' = PutObjectVersion_latest(1,3) [OF assms(4) True]
  have "om_Bucket ob \<noteq> bp" using m'(2) assms(3) by auto
  show ?thesis
  proof (rule bucket_empty_mono [OF assms(1)])
    fix k assume k: "content_key bp k" "sto cont s k = None"
    have "k \<noteq> objectKey (om_Bucket ob) (om_Key ob)" "k \<noteq> objectVersionKey (om_Bucket ob) (om_Key ob) (ov_VersionID ver)"
      using k(1) assms(2,5) \<open>om_Bucket ob \<noteq> bp\<close> by (auto simp: content_key_object)
    then show "sto cont s' k = None" using m'(1) [of k] k(2) by simp
  qed
next
  case False
  let ?new = "JObject (ob\<lparr>om_VersionID := ov_VersionID ver, om_IsLatest := False\<rparr>)"
  from assms(4) False have nd: "om_Bucket ob \<notin> ps_deletedBuckets s"
    and w: "commitNoSync E [BSet (objectVersionKey (om_Bucket ob) (om_Key ob) (ov_VersionID ver)) ?new] s = Inr s'"
    unfolding PutObjectVersion_def rejectWriteToDeletedBucket_def Let_def by (simp_all split: if_split_asm)
  have "om_Bucket ob \<noteq> bp" using nd assms(3) by auto
  then show ?thesis using commitNoSync_sound [OF w] assms(1,2,5)
    by (intro bucket_empty_mono [OF assms(1)]) (auto simp: content_key_object)
qed

lemma drop_upload_none: "m k = None \<Longrightarrow> drop_upload u m k = None"
  by (simp add: drop_upload_def)

lemma empty_cleanup: "bucket_empty bp (sto cont s) \<Longrightarrow> bucket_empty bp (sto cont (cleanupStaleMultipartUploads E now s))"
proof -
  have one: "bucket_empty bp (sto cont (abort_or_skip E u s))" if "bucket_empty bp (sto cont s)" for u s
    using that AbortMultipartUpload_sound(2) [of u s] bucket_empty_mono [OF that] drop_upload_none
    by (cases "AbortMultipartUpload E u s") (auto simp: abort_or_skip_def)
  have "bucket_empty bp (sto cont (fold (abort_or_skip E) us s))" if "bucket_empty bp (sto cont s)" for us s
    using that by (induction us arbitrary: s) (simp_all add: one)
  then show "bucket_empty bp (sto cont s) \<Longrightarrow> ?thesis"
    by (auto simp: cleanupStaleMultipartUploads_def Let_def split: sum.split)
qed

lemma empty_step:
  assumes "store_step E s s'" "bucket_empty bp (sto cont s)" "no_colon bp" "bp \<in> ps_deletedBuckets s"
  shows "bucket_empty bp (sto cont s')"
  using assms
proof (induction rule: store_step.induct)
  case (put_object now ob s s')
  then show ?case by (intro empty_PutObject [of bp s now ob s'])
next
  case (put_version ob ver s s')
  then show ?case by (intro empty_PutObjectVersion [of bp s ob ver s'])
next
  case (cleanup s now)
  then show ?case by (intro empty_cleanup)
next
  case (delete_object b k v s s')
  from DeleteObject_sound [OF delete_object.hyps] obtain ob :: object_metadata where
    m': "sto cont s' = (apply_batch (tag_dels b k (om_Tags ob)) (sto cont s))(objKeyFor b k v := None)" by blast
  show ?case unfolding m' by (rule bucket_empty_mono [OF delete_object.prems(1)]) (simp add: apply_tag_dels)
next
  case (put_tags now b k tags s s')
  from PutObjectTags_sound [OF put_tags.hyps(1)] obtain ob where ob: "sto cont s (objectKey b k) = Some (JObject ob)"
    and m': "sto cont s' = (apply_batch (tag_sets b k tags) (apply_batch (tag_dels b k (om_Tags ob)) (sto cont s)))
      (objectKey b k \<mapsto> JObject (ob\<lparr>om_Tags := tags, om_UpdatedAt := now\<rparr>))" by blast
  show ?case unfolding m'
    by (rule bucket_empty_mono [OF put_tags.prems(1)]) (use ob content_key_tags in \<open>auto simp: apply_tag_dels apply_tag_sets\<close>)
next
  case (complete_upload now u ob s s')
  note m' = CompleteMultipartUpload_sound(2,3) [OF complete_upload.hyps(1)]
  have "om_Bucket ob \<noteq> bp" using m'(1) complete_upload.prems(3) by auto
  then show ?case unfolding m'(2) using complete_upload
    by (intro bucket_empty_mono [OF complete_upload.prems(1)]) (auto simp: content_key_object drop_upload_none)
next
  case (abort_upload u s s')
  show ?case unfolding AbortMultipartUpload_sound(2) [OF abort_upload.hyps(1)]
    by (rule bucket_empty_mono [OF abort_upload.prems(1)]) (simp add: drop_upload_none)
next
  case (create_upload now up s s')
  from CreateMultipartUpload_sound [OF create_upload.hyps(1)] show ?case
    using bucket_empty_mono [OF create_upload.prems(1)] by fastforce
next
  case (put_part now pt s s')
  show ?case unfolding PutPart_sound(3) [OF put_part.hyps(1)]
    by (rule bucket_empty_mono [OF put_part.prems(1)]) auto
next
  case (create_bucket now b s s')
  show ?case unfolding CreateBucket_sound(3) [OF create_bucket.hyps(1)]
    by (rule bucket_empty_mono [OF create_bucket.prems(1)]) auto
next
  case (update_bucket now b s s')
  show ?case unfolding UpdateBucket_sound(2) [OF update_bucket.hyps(1)]
    by (rule bucket_empty_mono [OF update_bucket.prems(1)]) auto
next
  case (delete_bucket t n s s')
  show ?case unfolding DeleteBucket_sound(2) [OF delete_bucket.hyps(1)]
    by (rule bucket_empty_mono [OF delete_bucket.prems(1)]) auto
next
  case (delete_bucket_if_empty t n s s')
  show ?case unfolding DeleteBucketIfEmpty_sound(2) [OF delete_bucket_if_empty.hyps(1)]
    by (rule bucket_empty_mono [OF delete_bucket_if_empty.prems(1)]) auto
next
  case (update_metrics now t n dc ds s s')
  from UpdateBucketMetrics_sound [OF update_metrics.hyps(1)] show ?case
    using bucket_empty_mono [OF update_metrics.prems(1)] by fastforce
next
  case (recalculate now t n s s')
  from RecalculateBucketStats_sound [OF recalculate.hyps(1)] show ?case
    using bucket_empty_mono [OF recalculate.prems(1)] by fastforce
next
  case (delete_version b k v s s')
  from DeleteObjectVersion_sound [OF delete_version.hyps(1)] show ?case
    using bucket_empty_mono [OF delete_version.prems(1)] by auto
next
  case (put_raw k v s s')
  with setNoSync_sound [OF put_raw.hyps(1) [unfolded PutRaw_def]] content_key_raw show ?case
    by (intro bucket_empty_mono [OF put_raw.prems(1)]) auto
next
  case (delete_raw k s s')
  with commitSync_sound [OF delete_raw.hyps(1) [unfolded DeleteRaw_def]] show ?case
    by (intro bucket_empty_mono [OF delete_raw.prems(1)]) auto
next
  case (raw_batch sets dels s s')
  let ?ops = "map (\<lambda>(k, v). BSet k v) sets @ map BDel dels"
  have "k \<notin> op_key ` set ?ops" if "content_key bp k" for k
    using that content_key_raw raw_batch.hyps(2,3) by (fastforce simp: list_all_iff)
  with commitNoSync_sound [OF raw_batch.hyps(1) [unfolded RawBatch_def]] show ?case
    using apply_batch_other [of _ ?ops "sto cont s"] by (intro bucket_empty_mono [OF raw_batch.prems(1)]) auto
qed

end

text \<open>
  C6. Once a bucket has been deleted as empty, it stays empty: as long as the bucket has not
  been created or updated again, no sequence of operations, however interleaved, stores an
  object or a version in it. (The check that an upload or a write reaches a live bucket and the
  write itself are one step under the bucket's mutex.)
\<close>

theorem deleted_bucket_stays_empty:
  assumes "pebble_reliable E cont" "DeleteBucketIfEmpty E t n s = Inr s1"
    and "no_colon (bucketPathForMutation t n)"
    and "(\<lambda>a b. store_step E a b \<and> bucketPathForMutation t n \<in> ps_deletedBuckets a)\<^sup>*\<^sup>* s1 s2"
  shows "bucket_empty (bucketPathForMutation t n) (sto cont s2)"
proof -
  have PE: "pebble_engine E cont" using assms(1) by (simp add: pebble_reliable_def)
  have "bucket_empty (bucketPathForMutation t n) (sto cont s)"
  proof (rule ccontr)
    assume "\<not> ?thesis"
    with pebble_reliable.DeleteBucketIfEmpty_cases(1,2) [OF assms(1), where s = s and t = t and n = n] assms(2)
    show False by (cases "sto cont s (bucketKey t n)") auto
  qed
  then have "bucket_empty (bucketPathForMutation t n) (sto cont s1)"
    unfolding pebble_engine.DeleteBucketIfEmpty_sound(2) [OF PE assms(2)]
    by (rule bucket_empty_mono) auto
  with assms(4) show ?thesis
    by (induction rule: rtranclp_induct) (auto intro: pebble_engine.empty_step [OF PE _ _ assms(3)])
qed

theorem deleted_bucket_stays_empty_witness:
  "\<exists>s1. DeleteBucketIfEmpty mem_engine ''t1'' ''photos'' photos_store = Inr s1 \<and>
     bucket_empty ''t1/photos'' (sto map_of (cleanupStaleMultipartUploads mem_engine 5 s1))"
proof -
  have "sto map_of photos_store (bucketKey ''t1'' ''photos'') \<noteq> None"
    "bucket_empty (bucketPathForMutation ''t1'' ''photos'') (sto map_of photos_store)"
    by (auto simp: photos_store_def bucket_empty_def bucketKey_def HasPrefix_iff)
  then obtain s1 where s1: "DeleteBucketIfEmpty mem_engine ''t1'' ''photos'' photos_store = Inr s1"
    using mem.DeleteBucketIfEmpty_cases(3) by blast
  have "bucketPathForMutation ''t1'' ''photos'' \<in> ps_deletedBuckets s1"
    using mem.DeleteBucketIfEmpty_sound(3) [OF s1] by simp
  then have "(\<lambda>a b. store_step mem_engine a b \<and> bucketPathForMutation ''t1'' ''photos'' \<in> ps_deletedBuckets a)\<^sup>*\<^sup>*
      s1 (cleanupStaleMultipartUploads mem_engine 5 s1)"
    by (intro r_into_rtranclp conjI store_step.cleanup)
  from deleted_bucket_stays_empty [OF mem.pebble_reliable_axioms s1 _ this] s1
  show ?thesis by (auto simp: bucketPathForMutation_def)
qed

end
