(* ===== verification/Acl.thy ===== *)
theory Acl
  imports Meta_Invariant
begin

text \<open>
  Access control lists (\<^verbatim>\<open>internal/acl\<close>): canned lists, permission checks, the conversion to and
  from the S3 format, and the manager that keeps the lists in a raw key-value store. The manager
  is written against the interface \<^verbatim>\<open>metadata.RawKVStore\<close>; the locale states what it relies on,
  and the metadata store provides it.
\<close>

section \<open>The raw key-value interface\<close>

record 's raw_kv =
  kv_get :: "string \<Rightarrow> 's \<Rightarrow> meta_error + kv_value"
  kv_put :: "string \<Rightarrow> kv_value \<Rightarrow> 's \<Rightarrow> meta_error + 's"
  kv_delete :: "string \<Rightarrow> 's \<Rightarrow> meta_error + 's"

locale raw_kv_store =
  fixes kv :: "'s raw_kv" and view :: "'s \<Rightarrow> contents"
  assumes kv_get: "kv_get kv k s = (case view s k of None \<Rightarrow> Inl ErrNotFound | Some v \<Rightarrow> Inr v)"
    and kv_put: "\<exists>s'. kv_put kv k v s = Inr s' \<and> view s' = (view s)(k \<mapsto> v)"
    and kv_delete: "\<exists>s'. kv_delete kv k s = Inr s' \<and> view s' = (view s)(k := None)"

definition pebble_kv :: "'db engine \<Rightarrow> 'db pstore raw_kv" where
  "pebble_kv E = \<lparr>kv_get = GetRaw E, kv_put = PutRaw E, kv_delete = DeleteRaw E\<rparr>"

section \<open>Constants and canned lists\<close>

definition PermissionRead :: string where "PermissionRead = ''READ''"
definition PermissionWrite :: string where "PermissionWrite = ''WRITE''"
definition PermissionReadACP :: string where "PermissionReadACP = ''READ_ACP''"
definition PermissionFullControl :: string where "PermissionFullControl = ''FULL_CONTROL''"

definition GroupAllUsers :: string where
  "GroupAllUsers = ''http://acs.amazonaws.com/groups/global/AllUsers''"
definition GroupAuthenticatedUsers :: string where
  "GroupAuthenticatedUsers = ''http://acs.amazonaws.com/groups/global/AuthenticatedUsers''"
definition GroupLogDelivery :: string where
  "GroupLogDelivery = ''http://acs.amazonaws.com/groups/s3/LogDelivery''"

definition IsValidCannedACL :: "string \<Rightarrow> bool" where
  "IsValidCannedACL c \<longleftrightarrow> c \<in> set [''private'', ''public-read'', ''public-read-write'', ''authenticated-read'',
     ''bucket-owner-read'', ''bucket-owner-full-control'', ''log-delivery-write'']"

definition owner_grant :: "string \<Rightarrow> string \<Rightarrow> acl_grant" where
  "owner_grant ownerID ownerDisplayName =
    \<lparr>gr_Grantee = \<lparr>ge_Type = ''CanonicalUser'', ge_ID = ownerID, ge_DisplayName = ownerDisplayName,
       ge_EmailAddress = [], ge_URI = []\<rparr>, gr_Permission = PermissionFullControl\<rparr>"

definition group_grant :: "string \<Rightarrow> string \<Rightarrow> acl_grant" where
  "group_grant uri permission =
    \<lparr>gr_Grantee = \<lparr>ge_Type = ''Group'', ge_ID = [], ge_DisplayName = [], ge_EmailAddress = [], ge_URI = uri\<rparr>,
     gr_Permission = permission\<rparr>"

text \<open>A \<^verbatim>\<open>nil\<close> slice of grants is \<^const>\<open>None\<close>.\<close>

definition GetCannedACLGrants :: "string \<Rightarrow> string \<Rightarrow> string \<Rightarrow> acl_grant list option" where
  "GetCannedACLGrants c ownerID ownerDisplayName =
    (let own = owner_grant ownerID ownerDisplayName in
     if c = ''private'' then Some [own]
     else if c = ''public-read'' then Some [own, group_grant GroupAllUsers PermissionRead]
     else if c = ''public-read-write'' then
       Some [own, group_grant GroupAllUsers PermissionRead, group_grant GroupAllUsers PermissionWrite]
     else if c = ''authenticated-read'' then Some [own, group_grant GroupAuthenticatedUsers PermissionRead]
     else if c = ''bucket-owner-read'' then Some [own]
     else if c = ''bucket-owner-full-control'' then Some [own]
     else if c = ''log-delivery-write'' then
       Some [own, group_grant GroupLogDelivery PermissionWrite, group_grant GroupLogDelivery PermissionReadACP]
     else None)"

definition CreateDefaultACL :: "string \<Rightarrow> string \<Rightarrow> acl" where
  "CreateDefaultACL ownerID ownerDisplayName =
    \<lparr>acl_Owner = \<lparr>ow_ID = ownerID, ow_DisplayName = ownerDisplayName\<rparr>,
     acl_Grants = [owner_grant ownerID ownerDisplayName], acl_CannedACL = ''private''\<rparr>"

section \<open>The manager\<close>

datatype acl_error = ErrInvalidACL | ErrInvalidCannedACL | AclStore meta_error | AclDecode

definition bucketACLKey :: "string \<Rightarrow> string \<Rightarrow> string" where
  "bucketACLKey tenantID bucketName =
    (if tenantID = '''' then ''acl:bucket:'' @ bucketName else ''acl:bucket:'' @ tenantID @ '':'' @ bucketName)"

definition objectACLKey :: "string \<Rightarrow> string \<Rightarrow> string \<Rightarrow> string" where
  "objectACLKey tenantID bucketName key =
    (if tenantID = '''' then ''acl:object:'' @ bucketName @ '':'' @ key
     else ''acl:object:'' @ tenantID @ '':'' @ bucketName @ '':'' @ key)"

definition GetBucketACL :: "'s raw_kv \<Rightarrow> string \<Rightarrow> string \<Rightarrow> 's \<Rightarrow> acl_error + acl" where
  "GetBucketACL kv tenantID bucketName s =
    (case kv_get kv (bucketACLKey tenantID bucketName) s of
       Inl e \<Rightarrow> if e = ErrNotFound then Inr (CreateDefaultACL ''maxiofs'' ''MaxIOFS'') else Inl (AclStore e)
     | Inr v \<Rightarrow> (case decode_acl v of None \<Rightarrow> Inl AclDecode | Some a \<Rightarrow> Inr a))"

definition SetBucketACL :: "'s raw_kv \<Rightarrow> string \<Rightarrow> string \<Rightarrow> acl option \<Rightarrow> 's \<Rightarrow> acl_error + 's" where
  "SetBucketACL kv tenantID bucketName a s =
    (case a of
       None \<Rightarrow> Inl ErrInvalidACL
     | Some a \<Rightarrow> (case kv_put kv (bucketACLKey tenantID bucketName) (JAcl a) s of Inl e \<Rightarrow> Inl (AclStore e) | Inr s' \<Rightarrow> Inr s'))"

definition GetObjectACL :: "'s raw_kv \<Rightarrow> string \<Rightarrow> string \<Rightarrow> string \<Rightarrow> 's \<Rightarrow> acl_error + acl" where
  "GetObjectACL kv tenantID bucketName key s =
    (case kv_get kv (objectACLKey tenantID bucketName key) s of
       Inl e \<Rightarrow> if e = ErrNotFound then Inr (CreateDefaultACL ''maxiofs'' ''MaxIOFS'') else Inl (AclStore e)
     | Inr v \<Rightarrow> (case decode_acl v of None \<Rightarrow> Inl AclDecode | Some a \<Rightarrow> Inr a))"

definition SetObjectACL :: "'s raw_kv \<Rightarrow> string \<Rightarrow> string \<Rightarrow> string \<Rightarrow> acl option \<Rightarrow> 's \<Rightarrow> acl_error + 's" where
  "SetObjectACL kv tenantID bucketName key a s =
    (case a of
       None \<Rightarrow> Inl ErrInvalidACL
     | Some a \<Rightarrow> (case kv_put kv (objectACLKey tenantID bucketName key) (JAcl a) s of Inl e \<Rightarrow> Inl (AclStore e) | Inr s' \<Rightarrow> Inr s'))"

definition DeleteBucketACL :: "'s raw_kv \<Rightarrow> string \<Rightarrow> string \<Rightarrow> 's \<Rightarrow> acl_error + 's" where
  "DeleteBucketACL kv tenantID bucketName s =
    (case kv_delete kv (bucketACLKey tenantID bucketName) s of
       Inl e \<Rightarrow> if e = ErrNotFound then Inr s else Inl (AclStore e)
     | Inr s' \<Rightarrow> Inr s')"

definition GetCannedACL :: "string \<Rightarrow> string \<Rightarrow> string \<Rightarrow> acl_error + acl" where
  "GetCannedACL c ownerID ownerDisplayName =
    (if \<not> IsValidCannedACL c then Inl ErrInvalidCannedACL
     else case GetCannedACLGrants c ownerID ownerDisplayName of
         None \<Rightarrow> Inl ErrInvalidCannedACL
       | Some grants \<Rightarrow> Inr \<lparr>acl_Owner = \<lparr>ow_ID = ownerID, ow_DisplayName = ownerDisplayName\<rparr>,
           acl_Grants = grants, acl_CannedACL = c\<rparr>)"

definition grantMatchesUser :: "acl_grant \<Rightarrow> string \<Rightarrow> bool" where
  "grantMatchesUser g userID \<longleftrightarrow> ge_Type (gr_Grantee g) = ''CanonicalUser'' \<and> ge_ID (gr_Grantee g) = userID"

definition permissionSatisfies :: "string \<Rightarrow> string \<Rightarrow> bool" where
  "permissionSatisfies granted required \<longleftrightarrow> granted = PermissionFullControl \<or> granted = required"

definition CheckPermission :: "acl option \<Rightarrow> string \<Rightarrow> string \<Rightarrow> bool" where
  "CheckPermission a userID permission =
    (case a of
       None \<Rightarrow> False
     | Some a \<Rightarrow> ow_ID (acl_Owner a) = userID \<or>
         list_ex (\<lambda>g. grantMatchesUser g userID \<and> permissionSatisfies (gr_Permission g) permission) (acl_Grants a))"

definition group_access :: "string \<Rightarrow> acl option \<Rightarrow> string \<Rightarrow> bool" where
  "group_access uri a permission =
    (case a of
       None \<Rightarrow> False
     | Some a \<Rightarrow> list_ex (\<lambda>g. ge_Type (gr_Grantee g) = ''Group'' \<and> ge_URI (gr_Grantee g) = uri \<and>
         permissionSatisfies (gr_Permission g) permission) (acl_Grants a))"

definition CheckPublicAccess :: "acl option \<Rightarrow> string \<Rightarrow> bool" where
  "CheckPublicAccess a permission = group_access GroupAllUsers a permission"

definition CheckAuthenticatedAccess :: "acl option \<Rightarrow> string \<Rightarrow> bool" where
  "CheckAuthenticatedAccess a permission = group_access GroupAuthenticatedUsers a permission"

section \<open>The S3 format\<close>

record s3_grantee =
  sg_Type :: string
  sg_ID :: string
  sg_DisplayName :: string
  sg_EmailAddress :: string
  sg_URI :: string

record s3_grant =
  sr_Grantee :: s3_grantee
  sr_Permission :: string

record s3_access_control_policy =
  sp_OwnerID :: string
  sp_OwnerDisplayName :: string
  sp_Grants :: "s3_grant list"

definition grant_to_s3 :: "acl_grant \<Rightarrow> s3_grant" where
  "grant_to_s3 g = \<lparr>sr_Grantee = \<lparr>sg_Type = ge_Type (gr_Grantee g), sg_ID = ge_ID (gr_Grantee g),
     sg_DisplayName = ge_DisplayName (gr_Grantee g), sg_EmailAddress = ge_EmailAddress (gr_Grantee g),
     sg_URI = ge_URI (gr_Grantee g)\<rparr>, sr_Permission = gr_Permission g\<rparr>"

definition ToS3Format :: "acl \<Rightarrow> s3_access_control_policy" where
  "ToS3Format a = \<lparr>sp_OwnerID = ow_ID (acl_Owner a), sp_OwnerDisplayName = ow_DisplayName (acl_Owner a),
     sp_Grants = map grant_to_s3 (acl_Grants a)\<rparr>"

definition grant_from_s3 :: "s3_grant \<Rightarrow> acl_grant" where
  "grant_from_s3 g = \<lparr>gr_Grantee = \<lparr>ge_Type = sg_Type (sr_Grantee g), ge_ID = sg_ID (sr_Grantee g),
     ge_DisplayName = sg_DisplayName (sr_Grantee g), ge_EmailAddress = sg_EmailAddress (sr_Grantee g),
     ge_URI = sg_URI (sr_Grantee g)\<rparr>, gr_Permission = sr_Permission g\<rparr>"

definition FromS3Format :: "s3_access_control_policy \<Rightarrow> acl" where
  "FromS3Format p = \<lparr>acl_Owner = \<lparr>ow_ID = sp_OwnerID p, ow_DisplayName = sp_OwnerDisplayName p\<rparr>,
     acl_Grants = map grant_from_s3 (sp_Grants p), acl_CannedACL = []\<rparr>"

lemma grant_roundtrip: "grant_from_s3 \<circ> grant_to_s3 = id"
proof
  fix g :: acl_grant
  obtain ge p where "g = \<lparr>gr_Grantee = ge, gr_Permission = p\<rparr>" by (cases g)
  then show "(grant_from_s3 \<circ> grant_to_s3) g = id g"
    by (cases ge) (simp add: grant_from_s3_def grant_to_s3_def)
qed

lemma FromS3_ToS3: "FromS3Format (ToS3Format a) = a\<lparr>acl_CannedACL := []\<rparr>"
proof -
  obtain ow gs c where "a = \<lparr>acl_Owner = ow, acl_Grants = gs, acl_CannedACL = c\<rparr>" by (cases a)
  then show ?thesis by (cases ow) (simp add: FromS3Format_def ToS3Format_def grant_roundtrip)
qed

lemma CheckPermission_roundtrip:
  "CheckPermission (Some (FromS3Format (ToS3Format a))) u p = CheckPermission (Some a) u p"
  by (simp add: FromS3_ToS3 CheckPermission_def)

section \<open>Keys of access control lists\<close>

lemmas acl_key_defs = bucketACLKey_def objectACLKey_def

lemma acl_raw_ok [simp]: "raw_ok (bucketACLKey t b)" "raw_ok (objectACLKey t b k)"
  by (simp_all add: raw_ok_def reserved_key_def acl_key_defs HasPrefix_def)

lemma bucket_object_key [simp]: "bucketACLKey t b \<noteq> objectACLKey t' b' k"
  by (simp add: acl_key_defs)

lemma bucketACLKey_inj:
  assumes "no_colon t" "no_colon t'" "no_colon b" "no_colon b'"
  shows "bucketACLKey t b = bucketACLKey t' b' \<longleftrightarrow> t = t' \<and> b = b'"
proof -
  have "x \<noteq> y @ CHR '':'' # z" if "no_colon x" for x y z using that by (auto simp: no_colon_def)
  then show ?thesis using assms by (auto simp: bucketACLKey_def no_colon_def sep_inj)
qed

lemma objectACLKey_inj:
  assumes "no_colon t" "no_colon t'" "no_colon b" "no_colon b'" "t = [] \<longleftrightarrow> t' = []"
  shows "objectACLKey t b k = objectACLKey t' b' k' \<longleftrightarrow> t = t' \<and> b = b' \<and> k = k'"
  using assms by (auto simp: objectACLKey_def no_colon_def sep_inj)

text \<open>Between a global bucket and a tenant's bucket the keys are ambiguous.\<close>

lemma objectACLKey_ambiguous: "t \<noteq> [] \<Longrightarrow> objectACLKey [] t (b @ '':'' @ k) = objectACLKey t b k"
  by (simp add: objectACLKey_def)

section \<open>What the manager guarantees of any raw store\<close>

context raw_kv_store
begin

lemma set_object_acl:
  "\<exists>s'. SetObjectACL kv t b k (Some a) s = Inr s' \<and> view s' = (view s)(objectACLKey t b k \<mapsto> JAcl a) \<and>
     kv_put kv (objectACLKey t b k) (JAcl a) s = Inr s'"
  using kv_put [of "objectACLKey t b k" "JAcl a" s] by (auto simp: SetObjectACL_def)

lemma set_bucket_acl:
  "\<exists>s'. SetBucketACL kv t b (Some a) s = Inr s' \<and> view s' = (view s)(bucketACLKey t b \<mapsto> JAcl a) \<and>
     kv_put kv (bucketACLKey t b) (JAcl a) s = Inr s'"
  using kv_put [of "bucketACLKey t b" "JAcl a" s] by (auto simp: SetBucketACL_def)

lemma get_object_acl:
  "GetObjectACL kv t b k s = (case view s (objectACLKey t b k) of
     None \<Rightarrow> Inr (CreateDefaultACL ''maxiofs'' ''MaxIOFS'')
   | Some v \<Rightarrow> (case decode_acl v of None \<Rightarrow> Inl AclDecode | Some a \<Rightarrow> Inr a))"
  by (simp add: GetObjectACL_def kv_get split: option.split)

lemma get_bucket_acl:
  "GetBucketACL kv t b s = (case view s (bucketACLKey t b) of
     None \<Rightarrow> Inr (CreateDefaultACL ''maxiofs'' ''MaxIOFS'')
   | Some v \<Rightarrow> (case decode_acl v of None \<Rightarrow> Inl AclDecode | Some a \<Rightarrow> Inr a))"
  by (simp add: GetBucketACL_def kv_get split: option.split)

lemma object_acl_isolated:
  assumes "no_colon t" "no_colon b"
  obtains s' where "SetObjectACL kv t b k (Some a) s = Inr s'" "kv_put kv (objectACLKey t b k) (JAcl a) s = Inr s'"
    "GetObjectACL kv t b k s' = Inr a"
    "\<And>t' b' k'. no_colon t' \<Longrightarrow> no_colon b' \<Longrightarrow> (t' = [] \<longleftrightarrow> t = []) \<Longrightarrow> (t', b', k') \<noteq> (t, b, k) \<Longrightarrow>
       GetObjectACL kv t' b' k' s' = GetObjectACL kv t' b' k' s"
    "\<And>t' b'. GetBucketACL kv t' b' s' = GetBucketACL kv t' b' s"
proof -
  obtain s' where s': "SetObjectACL kv t b k (Some a) s = Inr s'" "view s' = (view s)(objectACLKey t b k \<mapsto> JAcl a)"
    "kv_put kv (objectACLKey t b k) (JAcl a) s = Inr s'"
    using set_object_acl by blast
  show thesis
  proof (rule that [OF s'(1,3)])
    show "GetObjectACL kv t b k s' = Inr a" by (simp add: get_object_acl s'(2))
    show "GetBucketACL kv t' b' s' = GetBucketACL kv t' b' s" for t' b'
      by (simp add: get_bucket_acl s'(2))
    fix t' b' k' assume "no_colon t'" "no_colon b'" "t' = [] \<longleftrightarrow> t = []" "(t', b', k') \<noteq> (t, b, k)"
    then have "objectACLKey t' b' k' \<noteq> objectACLKey t b k"
      using assms objectACLKey_inj [of t' t b' b k' k] by blast
    then show "GetObjectACL kv t' b' k' s' = GetObjectACL kv t' b' k' s"
      by (simp add: get_object_acl s'(2))
  qed
qed

end

section \<open>The metadata store provides the interface\<close>

context pebble_reliable
begin

lemma raw_kv_pebble: "raw_kv_store (pebble_kv E) (\<lambda>s. sto cont s)"
proof
  show "kv_get (pebble_kv E) k s = (case sto cont s k of None \<Rightarrow> Inl ErrNotFound | Some v \<Rightarrow> Inr v)" for k s
    by (simp add: pebble_kv_def GetRaw_def split: option.split)
  show "\<exists>s'. kv_put (pebble_kv E) k v s = Inr s' \<and> sto cont s' = (sto cont s)(k \<mapsto> v)" for k v s
  proof -
    obtain s' where "setNoSync E k v s = Inr s'" using commit_total by metis
    then show ?thesis using setNoSync_sound by (simp add: pebble_kv_def PutRaw_def)
  qed
  show "\<exists>s'. kv_delete (pebble_kv E) k s = Inr s' \<and> sto cont s' = (sto cont s)(k := None)" for k s
  proof -
    obtain s' where s': "commitSync E [BDel k] s = Inr s'" using commit_total by metis
    then show ?thesis using commitSync_sound [OF s'] by (simp add: pebble_kv_def DeleteRaw_def)
  qed
qed

end

sublocale pebble_reliable \<subseteq> raw: raw_kv_store "pebble_kv E" "\<lambda>s. sto cont s"
  by (rule raw_kv_pebble)

section \<open>Properties\<close>

text \<open>
  C37. Setting an object's access control list on the metadata store succeeds and is read back as it
  was set. No other list changes: neither of another object of a bucket of the same kind (global
  or of a tenant) whose tenant and bucket have no colon, nor of any bucket. A list of the other kind may be the same entry: see
  \<open>objectACLKey_ambiguous\<close>. The engine does not fail. The write is a step of the store's state machine, so all
  its invariants hold afterwards.
\<close>

theorem object_acl_set_get:
  assumes "pebble_reliable E cont" "no_colon t" "no_colon b"
  shows "\<exists>s'. SetObjectACL (pebble_kv E) t b k (Some a) s = Inr s' \<and> store_step E s s' \<and>
    GetObjectACL (pebble_kv E) t b k s' = Inr a \<and>
    (\<forall>t' b' k'. no_colon t' \<and> no_colon b' \<and> (t' = [] \<longleftrightarrow> t = []) \<and> (t', b', k') \<noteq> (t, b, k) \<longrightarrow>
      GetObjectACL (pebble_kv E) t' b' k' s' = GetObjectACL (pebble_kv E) t' b' k' s) \<and>
    (\<forall>t' b'. GetBucketACL (pebble_kv E) t' b' s' = GetBucketACL (pebble_kv E) t' b' s)"
proof -
  have kv: "raw_kv_store (pebble_kv E) (\<lambda>s. sto cont s)" by (rule pebble_reliable.raw_kv_pebble [OF assms(1)])
  obtain s' where s': "SetObjectACL (pebble_kv E) t b k (Some a) s = Inr s'"
    "kv_put (pebble_kv E) (objectACLKey t b k) (JAcl a) s = Inr s'" "GetObjectACL (pebble_kv E) t b k s' = Inr a"
    "\<And>t' b' k'. no_colon t' \<Longrightarrow> no_colon b' \<Longrightarrow> (t' = [] \<longleftrightarrow> t = []) \<Longrightarrow> (t', b', k') \<noteq> (t, b, k) \<Longrightarrow>
       GetObjectACL (pebble_kv E) t' b' k' s' = GetObjectACL (pebble_kv E) t' b' k' s"
    "\<And>t' b'. GetBucketACL (pebble_kv E) t' b' s' = GetBucketACL (pebble_kv E) t' b' s"
    using raw_kv_store.object_acl_isolated [OF kv assms(2,3), of k a s] by metis
  from s'(2) have "store_step E s s'"
    by (intro store_step.put_raw [of E "objectACLKey t b k" "JAcl a"]) (simp_all add: pebble_kv_def)
  with s' show ?thesis by blast
qed

theorem object_acl_set_get_witness:
  "\<exists>s'. SetObjectACL (pebble_kv mem_engine) ''t1'' ''photos'' ''a:b'' (Some (CreateDefaultACL ''u1'' ''Ann'')) (NewPebbleStore []) = Inr s' \<and>
     GetObjectACL (pebble_kv mem_engine) ''t1'' ''photos'' ''a:b'' s' = Inr (CreateDefaultACL ''u1'' ''Ann'') \<and>
     GetObjectACL (pebble_kv mem_engine) ''t1'' ''photos'' ''b'' s' = GetObjectACL (pebble_kv mem_engine) ''t1'' ''photos'' ''b'' (NewPebbleStore [])"
proof -
  have "no_colon ''t1''" "no_colon ''photos''" by (simp_all add: no_colon_def)
  from object_acl_set_get [OF mem.pebble_reliable_axioms this, of "''a:b''" "CreateDefaultACL ''u1'' ''Ann''" "NewPebbleStore []"] this
  show ?thesis by fastforce
qed

lemma acl_constants [simp]:
  "GroupAllUsers \<noteq> GroupAuthenticatedUsers" "GroupLogDelivery \<noteq> GroupAllUsers" "GroupLogDelivery \<noteq> GroupAuthenticatedUsers"
  "PermissionRead \<noteq> PermissionFullControl" "PermissionWrite \<noteq> PermissionFullControl" "PermissionReadACP \<noteq> PermissionFullControl"
  "PermissionRead \<noteq> PermissionWrite" "GroupAuthenticatedUsers \<noteq> GroupAllUsers"
  by (simp_all add: GroupAllUsers_def GroupAuthenticatedUsers_def GroupLogDelivery_def PermissionRead_def PermissionWrite_def
    PermissionReadACP_def PermissionFullControl_def)

text \<open>What the three checks say of a list of the owner's grant and group grants.\<close>

lemma canned_checks:
  "CheckPublicAccess (Some \<lparr>acl_Owner = w, acl_Grants = owner_grant i n # gs, acl_CannedACL = c\<rparr>) p \<longleftrightarrow>
     group_access GroupAllUsers (Some \<lparr>acl_Owner = w, acl_Grants = gs, acl_CannedACL = c\<rparr>) p"
  "CheckAuthenticatedAccess (Some \<lparr>acl_Owner = w, acl_Grants = owner_grant i n # gs, acl_CannedACL = c\<rparr>) p \<longleftrightarrow>
     group_access GroupAuthenticatedUsers (Some \<lparr>acl_Owner = w, acl_Grants = gs, acl_CannedACL = c\<rparr>) p"
  "group_access uri (Some \<lparr>acl_Owner = w, acl_Grants = [], acl_CannedACL = c\<rparr>) p \<longleftrightarrow> False"
  "group_access uri (Some \<lparr>acl_Owner = w, acl_Grants = group_grant u q # gs, acl_CannedACL = c\<rparr>) p \<longleftrightarrow>
     u = uri \<and> permissionSatisfies q p \<or> group_access uri (Some \<lparr>acl_Owner = w, acl_Grants = gs, acl_CannedACL = c\<rparr>) p"
  "CheckPermission (Some \<lparr>acl_Owner = \<lparr>ow_ID = i, ow_DisplayName = n\<rparr>, acl_Grants = owner_grant i n # gs, acl_CannedACL = c\<rparr>) u p \<longleftrightarrow>
     i = u \<or> CheckPermission (Some \<lparr>acl_Owner = \<lparr>ow_ID = i, ow_DisplayName = n\<rparr>, acl_Grants = gs, acl_CannedACL = c\<rparr>) u p"
  "CheckPermission (Some \<lparr>acl_Owner = w, acl_Grants = group_grant uri q # gs, acl_CannedACL = c\<rparr>) u p \<longleftrightarrow>
     CheckPermission (Some \<lparr>acl_Owner = w, acl_Grants = gs, acl_CannedACL = c\<rparr>) u p"
  "CheckPermission (Some \<lparr>acl_Owner = w, acl_Grants = [], acl_CannedACL = c\<rparr>) u p \<longleftrightarrow> ow_ID w = u"
  by (auto simp: CheckPublicAccess_def CheckAuthenticatedAccess_def group_access_def CheckPermission_def owner_grant_def
    group_grant_def grantMatchesUser_def)

text \<open>
  C36. A canned access control list gives exactly this access: everyone may read under
  \<^verbatim>\<open>public-read\<close> and read and write under \<^verbatim>\<open>public-read-write\<close>, authenticated users may read under
  \<^verbatim>\<open>authenticated-read\<close>, no canned list gives the public anything else, and among single users only
  the owner passes a permission check. Any other name is refused.
\<close>

theorem canned_acl_exact:
  "case GetCannedACL c ow dn of
     Inl e \<Rightarrow> e = ErrInvalidCannedACL \<and> \<not> IsValidCannedACL c
   | Inr a \<Rightarrow> IsValidCannedACL c \<and>
       (CheckPublicAccess (Some a) p \<longleftrightarrow>
          c \<in> {''public-read'', ''public-read-write''} \<and> p = PermissionRead \<or> c = ''public-read-write'' \<and> p = PermissionWrite) \<and>
       (CheckAuthenticatedAccess (Some a) p \<longleftrightarrow> c = ''authenticated-read'' \<and> p = PermissionRead) \<and>
       (CheckPermission (Some a) u p \<longleftrightarrow> u = ow)"
proof (cases "IsValidCannedACL c")
  case True
  then have "c = ''private'' \<or> c = ''public-read'' \<or> c = ''public-read-write'' \<or> c = ''authenticated-read'' \<or>
      c = ''bucket-owner-read'' \<or> c = ''bucket-owner-full-control'' \<or> c = ''log-delivery-write''"
    by (simp only: IsValidCannedACL_def list.set insert_iff empty_iff simp_thms)
  then show ?thesis using True
    by (elim disjE)
      (simp_all add: GetCannedACL_def GetCannedACLGrants_def Let_def canned_checks permissionSatisfies_def, auto)
qed (simp add: GetCannedACL_def)

end
