(* ===== verification/Go_Net.thy ===== *)
theory Go_Net
  imports Prelude
begin

text \<open>
  The part of Go's \<^verbatim>\<open>net\<close> and \<^verbatim>\<open>net/netip\<close> packages the sources call to read client addresses
  and networks: \<^verbatim>\<open>ParseIP\<close>, \<^verbatim>\<open>ParseCIDR\<close>, \<^verbatim>\<open>IP.To4\<close>, \<^verbatim>\<open>IP.Equal\<close> and \<^verbatim>\<open>IPNet.Contains\<close>.
  An address is its list of bytes, four for IPv4 and sixteen for IPv6.
\<close>

unbundle bit_operations_syntax

type_synonym byte = "8 word"

section \<open>Parsing\<close>

text \<open>A decimal field of an IPv4 address: no leading zero, at most 255.\<close>

definition parse_octet :: "string \<Rightarrow> byte option" where
  "parse_octet f = (if f \<noteq> [] \<and> list_all is_digit f \<and> (1 < length f \<longrightarrow> hd f \<noteq> CHR ''0'') \<and> dec_value f \<le> 255
     then Some (word_of_nat (dec_value f)) else None)"

fun parse_octets :: "string list \<Rightarrow> byte list option" where
  "parse_octets [] = Some []"
| "parse_octets (f # fs) = (case parse_octet f of None \<Rightarrow> None | Some b \<Rightarrow> map_option ((#) b) (parse_octets fs))"

definition parseIPv4 :: "string \<Rightarrow> byte list option" where
  "parseIPv4 s = (let fs = split_char CHR ''.'' s in if length fs = 4 then parse_octets fs else None)"

definition hex_value :: "char \<Rightarrow> nat option" where
  "hex_value c = (let n = of_char c in
     if 48 \<le> n \<and> n \<le> 57 then Some (n - 48)
     else if 97 \<le> n \<and> n \<le> 102 then Some (n - 87)
     else if 65 \<le> n \<and> n \<le> 70 then Some (n - 55) else None)"

definition is_hex :: "char \<Rightarrow> bool" where
  "is_hex c \<longleftrightarrow> hex_value c \<noteq> None"

definition hextet :: "string \<Rightarrow> byte list" where
  "hextet h = (let n = foldl (\<lambda>a c. 16 * a + the (hex_value c)) 0 h in [word_of_nat (n div 256), word_of_nat (n mod 256)])"

text \<open>
  One round of the IPv6 loop per two bytes still missing: \<open>bs\<close> are the bytes read so far and \<open>e\<close>
  the position of the ellipsis. The result is the unread rest, the bytes and the ellipsis.
\<close>

primrec v6_loop :: "nat \<Rightarrow> string \<Rightarrow> byte list \<Rightarrow> nat option \<Rightarrow> (string \<times> byte list \<times> nat option) option" where
  "v6_loop 0 s bs e = Some (s, bs, e)"
| "v6_loop (Suc k) s bs e =
    (let h = takeWhile is_hex s; r = dropWhile is_hex s; bs' = bs @ hextet h in
     if h = [] \<or> 4 < length h then None
     else if r \<noteq> [] \<and> hd r = CHR ''.'' then
       (if e = None \<and> length bs \<noteq> 12 then None else if 16 < length bs + 4 then None
        else map_option (\<lambda>q. ([], bs @ q, e)) (parseIPv4 s))
     else if r = [] then Some ([], bs', e)
     else if hd r \<noteq> CHR '':'' \<or> length r = 1 then None
     else if hd (tl r) = CHR '':'' then
       (if e \<noteq> None then None
        else if tl (tl r) = [] then Some ([], bs', Some (length bs'))
        else v6_loop k (tl (tl r)) bs' (Some (length bs')))
     else v6_loop k (tl r) bs' e)"

definition expand_ellipsis :: "string \<times> byte list \<times> nat option \<Rightarrow> byte list option" where
  "expand_ellipsis res = (case res of (s, bs, e) \<Rightarrow>
     if s \<noteq> [] then None
     else if length bs < 16 then map_option (\<lambda>p. take p bs @ replicate (16 - length bs) 0 @ drop p bs) e
     else if e \<noteq> None then None else Some bs)"

definition parseIPv6 :: "string \<Rightarrow> byte list option" where
  "parseIPv6 s =
    (if s = ''::'' then Some (replicate 16 0)
     else if HasPrefix s ''::'' then Option.bind (v6_loop 8 (drop 2 s) [] (Some 0)) expand_ellipsis
     else Option.bind (v6_loop 8 s [] None) expand_ellipsis)"

text \<open>
  \<^verbatim>\<open>netip.ParseAddr\<close> with no zone (the callers reject a zone, and a \<^verbatim>\<open>%\<close> is otherwise an error);
  the first dot or colon decides the family.
\<close>

definition ParseAddr :: "string \<Rightarrow> byte list option" where
  "ParseAddr s =
    (if CHR ''%'' \<in> set s then None
     else case dropWhile (\<lambda>c. c \<noteq> CHR ''.'' \<and> c \<noteq> CHR '':'') s of
       [] \<Rightarrow> None
     | c # _ \<Rightarrow> if c = CHR ''.'' then parseIPv4 s else parseIPv6 s)"

definition v4InV6Prefix :: "byte list" where
  "v4InV6Prefix = replicate 10 0 @ [255, 255]"

definition As16 :: "byte list \<Rightarrow> byte list" where
  "As16 a = (if length a = 4 then v4InV6Prefix @ a else a)"

definition ParseIP :: "string \<Rightarrow> byte list option" where
  "ParseIP s = map_option As16 (ParseAddr s)"

definition To4 :: "byte list \<Rightarrow> byte list option" where
  "To4 ip = (if length ip = 4 then Some ip
     else if length ip = 16 \<and> take 12 ip = v4InV6Prefix then Some (drop 12 ip) else None)"

definition ip_Equal :: "byte list \<Rightarrow> byte list \<Rightarrow> bool" where
  "ip_Equal a b \<longleftrightarrow> (if length a = length b then a = b else As16 a = As16 b)"

section \<open>Networks\<close>

record ipnet =
  net_IP :: "byte list"
  net_Mask :: "byte list"

text \<open>\<^verbatim>\<open>CIDRMask\<close>: \<open>n\<close> leading one bits in \<open>l\<close> bytes.\<close>

primrec CIDRMask :: "nat \<Rightarrow> nat \<Rightarrow> byte list" where
  "CIDRMask n 0 = []"
| "CIDRMask n (Suc l) = (if 8 \<le> n then 255 # CIDRMask (n - 8) l else NOT (drop_bit n 255) # CIDRMask 0 l)"

definition ip_Mask :: "byte list \<Rightarrow> byte list \<Rightarrow> byte list" where
  "ip_Mask ip m = map2 (AND) (if length m = 4 \<and> length ip = 16 \<and> take 12 ip = v4InV6Prefix then drop 12 ip else ip) m"

definition ParseCIDR :: "string \<Rightarrow> ipnet option" where
  "ParseCIDR s =
    (if CHR ''/'' \<notin> set s then None
     else let addr = takeWhile (\<lambda>c. c \<noteq> CHR ''/'') s; mask = tl (dropWhile (\<lambda>c. c \<noteq> CHR ''/'') s) in
       case ParseAddr addr of
         None \<Rightarrow> None
       | Some a \<Rightarrow>
           if mask = [] \<or> \<not> list_all is_digit mask \<or> 8 * length a < dec_value mask then None
           else let m = CIDRMask (dec_value mask) (length a) in Some \<lparr>net_IP = ip_Mask (As16 a) m, net_Mask = m\<rparr>)"

definition Contains :: "ipnet \<Rightarrow> byte list \<Rightarrow> bool" where
  "Contains n ip \<longleftrightarrow>
    (let nn = (case To4 (net_IP n) of Some x \<Rightarrow> x | None \<Rightarrow> net_IP n);
         m = (if length (net_Mask n) = 16 \<and> length nn = 4 then drop 12 (net_Mask n) else net_Mask n);
         x = (case To4 ip of Some x \<Rightarrow> x | None \<Rightarrow> ip)
     in length m = length nn \<and> length x = length nn \<and> map2 (AND) nn m = map2 (AND) x m)"

section \<open>Printing, and reading back\<close>

definition show_ipv4 :: "byte list \<Rightarrow> string" where
  "show_ipv4 q = concat (map (\<lambda>b. digits (unat b) @ ''.'') (butlast q)) @ digits (unat (last q))"

lemma parse_octet_digits [simp]: "parse_octet (digits (unat b)) = Some b" for b :: byte
proof -
  have "unat b \<le> 255" using unsigned_less [of b, where 'a = nat] by simp
  moreover have "hd (digits (unat b)) \<noteq> CHR ''0''" if "1 < length (digits (unat b))"
    using that hd_digits [of "unat b"] by (cases "unat b") (simp_all add: digits.simps [of 0])
  ultimately show ?thesis by (simp add: parse_octet_def)
qed

lemma split_char_append: "c \<notin> set p \<Longrightarrow> split_char c (p @ c # s) = p # split_char c s"
  by (induction p) auto

lemma digits_no_dot [simp]: "CHR ''.'' \<notin> set (digits n)" "CHR '':'' \<notin> set (digits n)" "CHR ''/'' \<notin> set (digits n)"
  "CHR ''%'' \<notin> set (digits n)"
  using digits_range [of "CHR ''.''" n] digits_range [of "CHR '':''" n]
    digits_range [of "CHR ''/''" n] digits_range [of "CHR ''%''" n] by auto

lemma parseIPv4_show: "length q = 4 \<Longrightarrow> parseIPv4 (show_ipv4 q) = Some q"
  by (auto simp: parseIPv4_def show_ipv4_def split_char_append split_char_none length_Suc_conv numeral_eq_Suc)

lemma ParseAddr_show [simp]: "length q = 4 \<Longrightarrow> ParseAddr (show_ipv4 q) = Some q"
proof -
  assume q: "length q = 4"
  then obtain a b c d where abcd: "q = [a, b, c, d]" by (auto simp: length_Suc_conv numeral_eq_Suc)
  have dw: "dropWhile (\<lambda>c. c \<noteq> CHR ''.'' \<and> c \<noteq> CHR '':'') (digits n @ CHR ''.'' # r) = CHR ''.'' # r" for n r
    using digits_no_dot [of n] by (subst dropWhile_append2) auto
  have "CHR ''%'' \<notin> set (show_ipv4 q)" by (simp add: abcd show_ipv4_def)
  moreover have "dropWhile (\<lambda>c. c \<noteq> CHR ''.'' \<and> c \<noteq> CHR '':'') (show_ipv4 q) =
      CHR ''.'' # show_ipv4 [b, c, d]"
    by (simp add: abcd show_ipv4_def dw)
  ultimately show ?thesis using parseIPv4_show [OF q] by (simp add: ParseAddr_def)
qed

lemma show_no_slash: "length q = 4 \<Longrightarrow> CHR ''/'' \<notin> set (show_ipv4 q)"
  by (auto simp: show_ipv4_def length_Suc_conv numeral_eq_Suc)

section \<open>Membership is agreement on the leading bits\<close>

definition byte_bits :: "byte \<Rightarrow> bool list" where
  "byte_bits b = map (\<lambda>i. bit b (7 - i)) [0..<8]"

definition ip_bits :: "byte list \<Rightarrow> bool list" where
  "ip_bits bs = concat (map byte_bits bs)"

lemma length_byte_bits [simp]: "length (byte_bits b) = 8"
  by (simp add: byte_bits_def)

lemma byte_bits_inj: "byte_bits a = byte_bits b \<longleftrightarrow> a = b"
proof
  assume "byte_bits a = byte_bits b"
  then have eq: "bit a (7 - i) = bit b (7 - i)" if "i < 8" for i using that by (simp add: byte_bits_def)
  show "a = b"
  proof (rule bit_word_eqI)
    fix n assume "n < LENGTH(8)"
    then show "bit a n = bit b n" using eq [of "7 - n"] by simp
  qed
qed simp

lemma masked_byte:
  fixes a b :: byte
  assumes "n < 8"
  shows "a AND NOT (drop_bit n 255) = b AND NOT (drop_bit n 255) \<longleftrightarrow> take n (byte_bits a) = take n (byte_bits b)"
proof -
  have top: "bit (drop_bit n 255 :: byte) k \<longleftrightarrow> k + n < 8" for k
  proof -
    have "(255 :: byte) = - 1" by simp
    then have "bit (drop_bit n 255 :: byte) k \<longleftrightarrow> bit (- 1 :: byte) (n + k)" by (simp only: bit_drop_bit_eq o_apply)
    also have "\<dots> \<longleftrightarrow> n + k < LENGTH(8)" by (simp only: bit_minus_1_iff possible_bit_word)
    finally show ?thesis by (simp add: add.commute numeral_eq_Suc)
  qed
  have "a AND NOT (drop_bit n 255) = b AND NOT (drop_bit n 255) \<longleftrightarrow>
      (\<forall>k < 8. \<not> k + n < 8 \<longrightarrow> bit a k = bit b k)"
    by (auto simp: bit_eq_iff bit_and_iff bit_not_iff top dest: bit_imp_le_length)
  also have "\<dots> \<longleftrightarrow> (\<forall>i < n. bit a (7 - i) = bit b (7 - i))"
  proof (rule iffI; intro allI impI)
    fix i assume "\<forall>k < 8. \<not> k + n < 8 \<longrightarrow> bit a k = bit b k" "i < n"
    with assms show "bit a (7 - i) = bit b (7 - i)" by simp
  next
    fix k assume h: "\<forall>i < n. bit a (7 - i) = bit b (7 - i)" "k < 8" "\<not> k + n < 8"
    have "7 - (7 - k) = k" using h(2) by simp
    with h(1) [rule_format, of "7 - k"] h(2,3) show "bit a k = bit b k" by simp
  qed
  also have "\<dots> \<longleftrightarrow> take n (byte_bits a) = take n (byte_bits b)"
    using assms by (simp add: byte_bits_def take_map list_eq_iff_nth_eq)
  finally show ?thesis .
qed

lemma masked_agree:
  "length a = l \<Longrightarrow> length b = l \<Longrightarrow> n \<le> 8 * l \<Longrightarrow>
   map2 (AND) a (CIDRMask n l) = map2 (AND) b (CIDRMask n l) \<longleftrightarrow> take n (ip_bits a) = take n (ip_bits b)"
proof (induction l arbitrary: a b n)
  case 0
  then show ?case by simp
next
  case (Suc l)
  then obtain x a' y b' where xy: "a = x # a'" "b = y # b'" "length a' = l" "length b' = l"
    by (auto simp: length_Suc_conv)
  show ?case
  proof (cases "8 \<le> n")
    case True
    have "(255 :: byte) = - 1" by simp
    then have "z AND 255 = z" for z :: byte by (simp only: and.right_neutral)
    with Suc.IH [of a' b' "n - 8"] True Suc.prems xy show ?thesis
      by (simp add: ip_bits_def byte_bits_inj)
  next
    case False
    with Suc.IH [of a' b' 0] masked_byte [of n x y] xy show ?thesis by (simp add: ip_bits_def)
  qed
qed

end
