(* ===== verification/Bucket_Policy.thy ===== *)
theory Bucket_Policy
  imports Go_Net Meta_Types "HOL-Library.While_Combinator"
begin

text \<open>
  Evaluation of bucket policies (\<^verbatim>\<open>internal/bucket/policy_evaluation.go\<close>): statements match a
  request by principal, action, resource and conditions, and the decision combines the effects
  of the matching statements. A Go map of the policy or of the request context is an association
  list with its entries in the order of one iteration; the theorems hold for every such list.
\<close>

section \<open>Requests, statements and decisions\<close>

record policy_request =
  rq_Principal :: string
  rq_Action :: string
  rq_Resource :: string
  rq_Bucket :: string
  rq_SourceIP :: string
  rq_SecureTransport :: bool
  rq_RequestContext :: smap

record statement =
  st_Sid :: string
  st_Effect :: string
  st_Principal :: iface
  st_Action :: iface
  st_Resource :: iface
  st_Condition :: "(string \<times> iface) list"

record policy =
  pol_Version :: string
  pol_Statement :: "statement list"

datatype policy_decision = DecisionDeny | DecisionAllow | DecisionExplicitDeny

text \<open>The decisions in the order of their Go constants.\<close>

fun decision_rank :: "policy_decision \<Rightarrow> nat" where
  "decision_rank DecisionDeny = 0"
| "decision_rank DecisionAllow = 1"
| "decision_rank DecisionExplicitDeny = 2"

lemma decision_rank_inj: "decision_rank a = decision_rank b \<Longrightarrow> a = b"
  by (cases a; cases b) simp_all

instantiation policy_decision :: linorder
begin

definition less_eq_policy_decision :: "policy_decision \<Rightarrow> policy_decision \<Rightarrow> bool" where
  "a \<le> b \<longleftrightarrow> decision_rank a \<le> decision_rank b"

definition less_policy_decision :: "policy_decision \<Rightarrow> policy_decision \<Rightarrow> bool" where
  "a < b \<longleftrightarrow> decision_rank a < decision_rank b"

instance
  by standard (auto simp: less_eq_policy_decision_def less_policy_decision_def intro: decision_rank_inj)

end

section \<open>Principals, actions and resources\<close>

fun is_str :: "(string \<Rightarrow> bool) \<Rightarrow> iface \<Rightarrow> bool" where
  "is_str f (IStr s) \<longleftrightarrow> f s"
| "is_str f _ \<longleftrightarrow> False"

fun matchesPrincipalValue :: "iface \<Rightarrow> string \<Rightarrow> bool" where
  "matchesPrincipalValue (IStr v) r \<longleftrightarrow> v = ''*'' \<or> v = r"
| "matchesPrincipalValue (IArr vs) r \<longleftrightarrow> list_ex (is_str (\<lambda>v. v = ''*'' \<or> v = r)) vs"
| "matchesPrincipalValue (IStrs vs) r \<longleftrightarrow> list_ex (\<lambda>v. v = ''*'' \<or> v = r) vs"
| "matchesPrincipalValue _ r \<longleftrightarrow> False"

fun principalMatches :: "iface \<Rightarrow> string \<Rightarrow> bool" where
  "principalMatches (IStr p) r \<longleftrightarrow> p = ''*'' \<or> p = r"
| "principalMatches (IMap m) r \<longleftrightarrow>
    (case map_of m ''AWS'' of
       Some v \<Rightarrow> matchesPrincipalValue v r
     | None \<Rightarrow> (case map_of m ''CanonicalUser'' of Some v \<Rightarrow> matchesPrincipalValue v r | None \<Rightarrow> False))"
| "principalMatches _ r \<longleftrightarrow> False"

definition matchAction :: "string \<Rightarrow> string \<Rightarrow> bool" where
  "matchAction policyAction requestAction \<longleftrightarrow>
    policyAction = requestAction \<or> policyAction = ''*'' \<or> policyAction = ''s3:*'' \<or>
    HasSuffix policyAction ''*'' \<and> HasPrefix requestAction (TrimSuffix policyAction ''*'')"

fun actionMatches :: "iface \<Rightarrow> string \<Rightarrow> bool" where
  "actionMatches (IStr a) r \<longleftrightarrow> matchAction a r"
| "actionMatches (IArr as) r \<longleftrightarrow> list_ex (is_str (\<lambda>a. matchAction a r)) as"
| "actionMatches (IStrs as) r \<longleftrightarrow> list_ex (\<lambda>a. matchAction a r) as"
| "actionMatches _ r \<longleftrightarrow> False"

definition arn_prefix :: string where
  "arn_prefix = ''arn:aws:s3:::''"

definition normalizeResourceARN :: "string \<Rightarrow> string \<Rightarrow> string" where
  "normalizeResourceARN resource bucketName =
    (if HasPrefix resource arn_prefix then resource
     else if resource = bucketName then arn_prefix @ bucketName
     else if HasPrefix resource (bucketName @ ''/'') then arn_prefix @ resource
     else if HasPrefix resource bucketName then arn_prefix @ resource
     else resource)"

definition matchResource :: "string \<Rightarrow> string \<Rightarrow> string \<Rightarrow> bool" where
  "matchResource policyResource requestResource bucketName =
    (if policyResource = requestResource then True
     else if policyResource = ''*'' then True
     else let np = normalizeResourceARN policyResource bucketName;
              nr = normalizeResourceARN requestResource bucketName in
       if np = nr then True
       else if HasSuffix np ''/*'' \<and> HasPrefix nr (TrimSuffix np ''/*'' @ ''/'') then True
       else if HasSuffix np ''*'' \<and> \<not> HasSuffix np ''/*'' \<and> HasPrefix nr (TrimSuffix np ''*'') then True
       else False)"

fun resourceMatches :: "iface \<Rightarrow> string \<Rightarrow> string \<Rightarrow> bool" where
  "resourceMatches (IStr p) r b \<longleftrightarrow> matchResource p r b"
| "resourceMatches (IArr ps) r b \<longleftrightarrow> list_ex (is_str (\<lambda>p. matchResource p r b)) ps"
| "resourceMatches (IStrs ps) r b \<longleftrightarrow> list_ex (\<lambda>p. matchResource p r b) ps"
| "resourceMatches _ r b \<longleftrightarrow> False"

section \<open>Conditions\<close>

text \<open>
  The matcher of \<^verbatim>\<open>StringLike\<close>. The loop keeps the indices \<^verbatim>\<open>pi\<close> and \<^verbatim>\<open>si\<close>, the position of the
  last star (\<^verbatim>\<open>-1\<close> is \<^const>\<open>None\<close>) and the text position up to which that star has been stretched;
  \<open>wm_fail\<close> is the early \<^verbatim>\<open>return false\<close>.
\<close>

record wm_state =
  wm_pi :: nat
  wm_si :: nat
  wm_star :: "nat option"
  wm_match :: nat
  wm_fail :: bool

definition wm_step :: "string \<Rightarrow> string \<Rightarrow> wm_state \<Rightarrow> wm_state" where
  "wm_step p s st =
    (let pi = wm_pi st; si = wm_si st in
     if pi < length p \<and> (p ! pi = CHR ''?'' \<or> p ! pi = s ! si)
     then st\<lparr>wm_pi := pi + 1, wm_si := si + 1\<rparr>
     else if pi < length p \<and> p ! pi = CHR ''*''
     then st\<lparr>wm_star := Some pi, wm_match := si, wm_pi := pi + 1\<rparr>
     else (case wm_star st of
         Some k \<Rightarrow> st\<lparr>wm_pi := k + 1, wm_match := wm_match st + 1, wm_si := wm_match st + 1\<rparr>
       | None \<Rightarrow> st\<lparr>wm_fail := True\<rparr>))"

definition wildcard_loop :: "string \<Rightarrow> string \<Rightarrow> wm_state option" where
  "wildcard_loop p s = while_option (\<lambda>st. wm_si st < length s \<and> \<not> wm_fail st) (wm_step p s)
     \<lparr>wm_pi = 0, wm_si = 0, wm_star = None, wm_match = 0, wm_fail = False\<rparr>"

definition wildcardMatch :: "string \<Rightarrow> string \<Rightarrow> bool" where
  "wildcardMatch p s =
    (if p = ''*'' then True
     else if p = s then True
     else let st = the (wildcard_loop p s) in
       if wm_fail st then False
       else dropWhile (\<lambda>c. c = CHR ''*'') (drop (wm_pi st) p) = [])"

definition ipMatchesCIDR :: "byte list \<Rightarrow> string \<Rightarrow> bool" where
  "ipMatchesCIDR ip cidr =
    (case ParseCIDR cidr of
       Some network \<Rightarrow> Contains network ip
     | None \<Rightarrow> (case ParseIP cidr of Some other \<Rightarrow> ip_Equal ip other | None \<Rightarrow> False))"

fun str_of :: "iface \<Rightarrow> string option" where
  "str_of (IStr s) = Some s"
| "str_of _ = None"

fun toStringSlice :: "iface \<Rightarrow> string list" where
  "toStringSlice (IStr s) = [s]"
| "toStringSlice (IArr vs) = List.map_filter str_of vs"
| "toStringSlice (IStrs vs) = vs"
| "toStringSlice _ = []"

definition evaluateOperator :: "string \<Rightarrow> string \<Rightarrow> iface \<Rightarrow> bool" where
  "evaluateOperator operator v expected =
    (let es = toStringSlice expected; op = ToLower operator in
     if es = [] then False
     else if op = ''stringequals'' then list_ex (\<lambda>e. v = e) es
     else if op = ''stringnotequals'' then \<not> list_ex (\<lambda>e. v = e) es
     else if op = ''stringequalsignorecase'' then list_ex (EqualFold v) es
     else if op = ''stringnotequalsignorecase'' then \<not> list_ex (EqualFold v) es
     else if op = ''stringlike'' then list_ex (\<lambda>e. wildcardMatch e v) es
     else if op = ''stringnotlike'' then \<not> list_ex (\<lambda>e. wildcardMatch e v) es
     else if op = ''bool'' then list_ex (EqualFold v) es
     else if op = ''ipaddress'' then
       (case ParseIP v of None \<Rightarrow> False | Some ip \<Rightarrow> list_ex (ipMatchesCIDR ip) es)
     else if op = ''notipaddress'' then
       (case ParseIP v of None \<Rightarrow> False | Some ip \<Rightarrow> \<not> list_ex (ipMatchesCIDR ip) es)
     else if op = ''arnequals'' \<or> op = ''arnlike'' then list_ex (\<lambda>e. wildcardMatch e v) es
     else if op = ''arnnotequals'' \<or> op = ''arnnotlike'' then \<not> list_ex (\<lambda>e. wildcardMatch e v) es
     else if op = ''numericequals'' then list_ex (\<lambda>e. v = e) es
     else if op = ''numericnotequals'' then \<not> list_ex (\<lambda>e. v = e) es
     else False)"

definition resolveConditionKey :: "string \<Rightarrow> policy_request \<Rightarrow> string" where
  "resolveConditionKey key req =
    (if ToLower key = ''aws:sourceip'' then rq_SourceIP req
     else if ToLower key = ''aws:securetransport'' then (if rq_SecureTransport req then ''true'' else ''false'')
     else case map_of (rq_RequestContext req) key of
         Some v \<Rightarrow> v
       | None \<Rightarrow> (case find (\<lambda>(k, v). ToLower k = ToLower key) (rq_RequestContext req) of
             Some (k, v) \<Rightarrow> v | None \<Rightarrow> []))"

fun operatorBlock :: "policy_request \<Rightarrow> string \<times> iface \<Rightarrow> bool" where
  "operatorBlock req (operator, IMap kvs) \<longleftrightarrow>
     list_all (\<lambda>(k, expected). evaluateOperator operator (resolveConditionKey k req) expected) kvs"
| "operatorBlock req (operator, _) \<longleftrightarrow> False"

definition conditionMatches :: "(string \<times> iface) list \<Rightarrow> policy_request \<Rightarrow> bool" where
  "conditionMatches condition req \<longleftrightarrow> list_all (operatorBlock req) condition"

section \<open>The decision\<close>

definition statementMatches :: "statement \<Rightarrow> policy_request \<Rightarrow> bool" where
  "statementMatches st req \<longleftrightarrow>
    principalMatches (st_Principal st) (rq_Principal req) \<and>
    actionMatches (st_Action st) (rq_Action req) \<and>
    resourceMatches (st_Resource st) (rq_Resource req) (rq_Bucket req) \<and>
    conditionMatches (st_Condition st) req"

fun evaluate_loop :: "policy_request \<Rightarrow> statement list \<Rightarrow> bool \<Rightarrow> bool \<times> bool" where
  "evaluate_loop req [] hasAllow = (hasAllow, False)"
| "evaluate_loop req (st # sts) hasAllow =
    (if \<not> statementMatches st req then evaluate_loop req sts hasAllow
     else if st_Effect st = ''Allow'' then evaluate_loop req sts True
     else if st_Effect st = ''Deny'' then (hasAllow, True)
     else evaluate_loop req sts hasAllow)"

definition EvaluatePolicy :: "policy option \<Rightarrow> policy_request \<Rightarrow> policy_decision" where
  "EvaluatePolicy p req =
    (case p of
       None \<Rightarrow> DecisionDeny
     | Some pol \<Rightarrow>
         (case evaluate_loop req (pol_Statement pol) False of (hasAllow, hasDeny) \<Rightarrow>
            if hasDeny then DecisionExplicitDeny else if hasAllow then DecisionAllow else DecisionDeny))"

definition IsActionAllowed :: "policy option \<Rightarrow> policy_request \<Rightarrow> bool" where
  "IsActionAllowed p req \<longleftrightarrow> EvaluatePolicy p req = DecisionAllow"

section \<open>Deny overrides allow, in any order\<close>

definition effect_of :: "statement \<Rightarrow> policy_decision" where
  "effect_of st = (if st_Effect st = ''Deny'' then DecisionExplicitDeny
     else if st_Effect st = ''Allow'' then DecisionAllow else DecisionDeny)"

definition matching :: "policy_request \<Rightarrow> statement list \<Rightarrow> statement set" where
  "matching req sts = {st \<in> set sts. statementMatches st req}"

lemma matching_simps:
  "matching req [] = {}"
  "matching req (st # sts) = (if statementMatches st req then insert st (matching req sts) else matching req sts)"
  by (auto simp: matching_def)

lemma evaluate_loop_eq:
  "evaluate_loop req sts a = (a', d) \<Longrightarrow>
     (d \<longleftrightarrow> (\<exists>st \<in> matching req sts. st_Effect st = ''Deny'')) \<and>
     (\<not> d \<longrightarrow> a' = (a \<or> (\<exists>st \<in> matching req sts. st_Effect st = ''Allow'')))"
proof (induction sts arbitrary: a)
  case (Cons st sts)
  from Cons.prems Cons.IH [of a] Cons.IH [of True] show ?case
    by (auto simp: matching_simps split: if_split_asm)
qed (simp add: matching_simps)

lemma finite_matching [simp]: "finite (matching req sts)"
  by (simp add: matching_def)

lemma max_decision:
  "finite A \<Longrightarrow> Max (insert DecisionDeny A) =
     (if DecisionExplicitDeny \<in> A then DecisionExplicitDeny else if DecisionAllow \<in> A then DecisionAllow else DecisionDeny)"
proof (rule Max_eqI)
  fix d assume "d \<in> insert DecisionDeny A"
  then show "d \<le> (if DecisionExplicitDeny \<in> A then DecisionExplicitDeny else if DecisionAllow \<in> A then DecisionAllow else DecisionDeny)"
    by (cases d) (auto simp: less_eq_policy_decision_def)
qed auto

lemma effect_mem:
  "DecisionExplicitDeny \<in> effect_of ` S \<longleftrightarrow> (\<exists>st \<in> S. st_Effect st = ''Deny'')"
  "DecisionAllow \<in> effect_of ` S \<longleftrightarrow> (\<exists>st \<in> S. st_Effect st = ''Allow'')"
  by (auto simp: effect_of_def image_iff split: if_splits)

text \<open>
  C19. The decision of a bucket policy is the strongest effect among the statements that match the
  request: a matching deny decides, whatever allows there are and wherever they stand, an allow
  decides otherwise, and with no matching statement the request is denied. In particular the
  early exit at the first deny and the order of the statements never change the decision.
\<close>

theorem evaluate_policy_strongest:
  "EvaluatePolicy (Some pol) req = Max (insert DecisionDeny (effect_of ` matching req (pol_Statement pol)))"
proof -
  obtain a d where ad: "evaluate_loop req (pol_Statement pol) False = (a, d)" by force
  show ?thesis
    using evaluate_loop_eq [OF ad] by (auto simp: EvaluatePolicy_def ad max_decision effect_mem)
qed

end
