(* ===== verification/Bucket_Wildcard.thy ===== *)
theory Bucket_Wildcard
  imports Bucket_Policy
begin

text \<open>
  The greedy wildcard matcher of policy conditions against the declarative meaning of patterns:
  \<^verbatim>\<open>*\<close> stands for any text and \<^verbatim>\<open>?\<close> for any one character.
\<close>

section \<open>Patterns\<close>

fun glob :: "string \<Rightarrow> string \<Rightarrow> bool" where
  "glob [] s \<longleftrightarrow> s = []"
| "glob (c # p) s \<longleftrightarrow>
     (if c = CHR ''*'' then list_ex (glob p) (map (\<lambda>i. drop i s) [0..<Suc (length s)])
      else s \<noteq> [] \<and> (c = CHR ''?'' \<or> c = hd s) \<and> glob p (tl s))"

lemma glob_star: "glob (CHR ''*'' # p) s \<longleftrightarrow> (\<exists>i \<le> length s. glob p (drop i s))"
  by (auto simp: list_ex_iff less_Suc_eq_le glob.simps simp del: upt_Suc)

declare glob.simps(2) [simp del]

lemma glob_char:
  "c \<noteq> CHR ''*'' \<Longrightarrow> glob (c # p) s \<longleftrightarrow> s \<noteq> [] \<and> (c = CHR ''?'' \<or> c = hd s) \<and> glob p (tl s)"
  by (simp add: glob.simps)

lemma glob_star_later:
  "glob (CHR ''*'' # p) (drop j s) \<Longrightarrow> i \<le> j \<Longrightarrow> j \<le> length s \<Longrightarrow> glob (CHR ''*'' # p) (drop i s)"
  unfolding glob_star
proof (elim exE conjE)
  fix k assume k: "i \<le> j" "j \<le> length s" "k \<le> length (drop j s)" "glob p (drop k (drop j s))"
  then have "j - i + k \<le> length (drop i s)" "glob p (drop (j - i + k) (drop i s))"
    by (simp_all add: algebra_simps)
  then show "\<exists>k \<le> length (drop i s). glob p (drop k (drop i s))" by blast
qed

text \<open>A segment without stars consumes one character of text for each of its own.\<close>

lemma glob_segment:
  "glob (seg @ rest) t \<Longrightarrow> CHR ''*'' \<notin> set seg \<Longrightarrow> length seg \<le> length t \<and> glob rest (drop (length seg) t)"
proof (induction seg arbitrary: t)
  case (Cons c seg)
  then obtain a t' where "t = a # t'" "glob (seg @ rest) t'" by (cases t) (auto simp: glob_char)
  with Cons.IH [of t'] Cons.prems show ?case by simp
qed simp

lemma glob_Nil_text: "glob p [] \<longleftrightarrow> dropWhile (\<lambda>c. c = CHR ''*'') p = []"
proof (induction p)
  case (Cons c p)
  then show ?case by (cases "c = CHR ''*''") (simp_all add: glob_star glob_char)
qed simp

lemma glob_self: "glob s s"
proof (induction s)
  case (Cons c s)
  then show ?case by (cases "c = CHR ''*''") (auto simp: glob_star glob_char intro!: exI [of _ "Suc 0"])
qed simp

section \<open>The loop invariant\<close>

text \<open>
  At every turn the pattern matches the text if and only if what is left matches, or the last
  star can be stretched further. Since the last star the pattern had no star and has consumed
  one character of text per character.
\<close>

definition later :: "string \<Rightarrow> string \<Rightarrow> wm_state \<Rightarrow> bool" where
  "later p s st \<longleftrightarrow> (\<exists>k j. wm_star st = Some k \<and> wm_match st < j \<and> j \<le> length s \<and> glob (drop (Suc k) p) (drop j s))"

definition star_ok :: "string \<Rightarrow> string \<Rightarrow> wm_state \<Rightarrow> bool" where
  "star_ok p s st \<longleftrightarrow> (case wm_star st of None \<Rightarrow> True
     | Some k \<Rightarrow> k < wm_pi st \<and> p ! k = CHR ''*'' \<and> wm_pi st + wm_match st = wm_si st + Suc k \<and>
         (CHR ''*'' \<notin> set s \<longrightarrow> (\<forall>i. k < i \<longrightarrow> i < wm_pi st \<longrightarrow> p ! i \<noteq> CHR ''*'')))"

definition wm_inv :: "string \<Rightarrow> string \<Rightarrow> wm_state \<Rightarrow> bool" where
  "wm_inv p s st \<longleftrightarrow>
     wm_pi st \<le> length p \<and> wm_si st \<le> length s \<and> wm_match st \<le> wm_si st \<and> star_ok p s st \<and>
     (CHR ''*'' \<notin> set s \<longrightarrow>
       (if wm_fail st then \<not> glob p s
        else glob p s \<longleftrightarrow> glob (drop (wm_pi st) p) (drop (wm_si st) s) \<or> later p s st))"

definition wm_rank :: "nat \<Rightarrow> nat \<Rightarrow> nat \<Rightarrow> nat \<Rightarrow> nat \<Rightarrow> nat" where
  "wm_rank l n m i j = (n - m) * Suc (l + n) + (l - i) + (n - j)"

definition wm_measure :: "string \<Rightarrow> string \<Rightarrow> wm_state \<Rightarrow> nat" where
  "wm_measure p s st = (if wm_fail st then 0 else Suc (wm_rank (length p) (length s) (wm_match st) (wm_pi st) (wm_si st)))"

text \<open>
  A further stretch of the last star moves what is left of the pattern further down the text, so
  a star that comes next absorbs it, and at the end of the text there is none.
\<close>

lemma later_segment:
  assumes "later p s st" "star_ok p s st" "wm_pi st \<le> length p" "CHR ''*'' \<notin> set s"
  obtains j where "wm_si st < j" "j \<le> length s" "glob (drop (wm_pi st) p) (drop j s)"
proof -
  from assms(1) obtain k j where k: "wm_star st = Some k" "wm_match st < j" "j \<le> length s"
    "glob (drop (Suc k) p) (drop j s)" by (auto simp: later_def)
  let ?n = "wm_pi st - Suc k"
  let ?seg = "take ?n (drop (Suc k) p)"
  have kp: "k < wm_pi st" "wm_pi st + wm_match st = wm_si st + Suc k"
    "\<And>i. k < i \<Longrightarrow> i < wm_pi st \<Longrightarrow> p ! i \<noteq> CHR ''*''"
    using assms(2,4) k(1) by (simp_all add: star_ok_def)
  have split: "drop (Suc k) p = ?seg @ drop (wm_pi st) p"
    using kp(1) append_take_drop_id [of ?n "drop (Suc k) p"] by simp
  have len: "length ?seg = ?n" using assms(3) by simp
  have "CHR ''*'' \<notin> set ?seg"
  proof
    assume "CHR ''*'' \<in> set ?seg"
    then obtain i where "i < length ?seg" "?seg ! i = CHR ''*''" by (meson in_set_conv_nth)
    then have "i < ?n" "p ! (Suc k + i) = CHR ''*''" using len kp(1) assms(3) by simp_all
    with kp(3) [of "Suc k + i"] show False by simp
  qed
  moreover have "glob (?seg @ drop (wm_pi st) p) (drop j s)" by (subst split [symmetric]) (rule k(4))
  ultimately have "length ?seg \<le> length (drop j s) \<and> glob (drop (wm_pi st) p) (drop (length ?seg) (drop j s))"
    by (intro glob_segment)
  then have g: "?n \<le> length s - j" "glob (drop (wm_pi st) p) (drop (?n + j) s)" unfolding len by simp_all
  have "wm_si st < ?n + j" "?n + j \<le> length s" using g(1) k(2,3) kp(1,2) by linarith+
  with g(2) that show thesis by blast
qed

lemma later_absorbed:
  assumes "later p s st" "star_ok p s st" "wm_pi st < length p" "p ! wm_pi st = CHR ''*''" "CHR ''*'' \<notin> set s"
  shows "glob (drop (wm_pi st) p) (drop (wm_si st) s)"
proof -
  obtain j where j: "wm_si st < j" "j \<le> length s" "glob (drop (wm_pi st) p) (drop j s)"
    using later_segment [OF assms(1,2) _ assms(5)] assms(3) by auto
  have st: "drop (wm_pi st) p = CHR ''*'' # drop (Suc (wm_pi st)) p"
    using Cons_nth_drop_Suc [OF assms(3)] assms(4) by (simp only:)
  from glob_star_later [OF j(3) [unfolded st] less_imp_le [OF j(1)] j(2)] show ?thesis unfolding st .
qed

lemma star_split:
  assumes "i \<le> length s"
  shows "glob (CHR ''*'' # q) (drop i s) \<longleftrightarrow> glob q (drop i s) \<or> (\<exists>j. i < j \<and> j \<le> length s \<and> glob q (drop j s))"
proof -
  have "glob (CHR ''*'' # q) (drop i s) \<longleftrightarrow> (\<exists>m \<le> length s - i. glob q (drop (m + i) s))"
    by (simp add: glob_star)
  also have "\<dots> \<longleftrightarrow> (\<exists>j. i \<le> j \<and> j \<le> length s \<and> glob q (drop j s))"
  proof
    assume "\<exists>j. i \<le> j \<and> j \<le> length s \<and> glob q (drop j s)"
    then obtain j where "i \<le> j" "j \<le> length s" "glob q (drop j s)" by blast
    then have "j - i \<le> length s - i" "glob q (drop (j - i + i) s)" by simp_all
    then show "\<exists>m \<le> length s - i. glob q (drop (m + i) s)" by blast
  next
    assume "\<exists>m \<le> length s - i. glob q (drop (m + i) s)"
    then obtain m where "m \<le> length s - i" "glob q (drop (m + i) s)" by blast
    then have "i \<le> m + i" "m + i \<le> length s" "glob q (drop (m + i) s)" using assms by simp_all
    then show "\<exists>j. i \<le> j \<and> j \<le> length s \<and> glob q (drop j s)" by blast
  qed
  also have "\<dots> \<longleftrightarrow> glob q (drop i s) \<or> (\<exists>j. i < j \<and> j \<le> length s \<and> glob q (drop j s))"
    using assms le_eq_less_or_eq by blast
  finally show ?thesis .
qed

section \<open>Every turn of the loop\<close>

lemma step_match:
  assumes "wm_inv p s st" "wm_si st < length s" "\<not> wm_fail st" "wm_pi st < length p"
    and m: "p ! wm_pi st = CHR ''?'' \<or> p ! wm_pi st = s ! wm_si st"
  defines "st' \<equiv> st\<lparr>wm_pi := wm_pi st + 1, wm_si := wm_si st + 1\<rparr>"
  shows "wm_inv p s st'"
proof -
  have ns: "p ! wm_pi st \<noteq> CHR ''*''" if "CHR ''*'' \<notin> set s"
  proof -
    have "s ! wm_si st \<noteq> CHR ''*''" using that nth_mem [OF assms(2)] by metis
    with m show ?thesis by auto
  qed
  have "drop (wm_pi st) p = p ! wm_pi st # drop (Suc (wm_pi st)) p" "drop (wm_si st) s = s ! wm_si st # drop (Suc (wm_si st)) s"
    using Cons_nth_drop_Suc [OF assms(4)] Cons_nth_drop_Suc [OF assms(2)] by simp_all
  then have "glob (drop (wm_pi st) p) (drop (wm_si st) s) \<longleftrightarrow> glob (drop (wm_pi st') p) (drop (wm_si st') s)"
    if "CHR ''*'' \<notin> set s" using ns [OF that] m by (simp add: glob_char st'_def)
  moreover have "later p s st' \<longleftrightarrow> later p s st" by (simp add: later_def st'_def)
  moreover have "star_ok p s st'"
  proof (cases "wm_star st")
    case (Some k)
    then show ?thesis using assms(1) ns by (auto simp: wm_inv_def star_ok_def st'_def less_Suc_eq)
  qed (simp add: star_ok_def st'_def)
  ultimately show ?thesis using assms(1-4) by (simp add: wm_inv_def) (simp add: st'_def)
qed

lemma step_star:
  assumes "wm_inv p s st" "wm_si st < length s" "\<not> wm_fail st" "wm_pi st < length p" "p ! wm_pi st = CHR ''*''"
  defines "st' \<equiv> st\<lparr>wm_star := Some (wm_pi st), wm_match := wm_si st, wm_pi := wm_pi st + 1\<rparr>"
  shows "wm_inv p s st'"
proof -
  have "drop (wm_pi st) p = CHR ''*'' # drop (Suc (wm_pi st)) p"
    using Cons_nth_drop_Suc [OF assms(4)] assms(5) by simp
  with star_split [of "wm_si st" s "drop (Suc (wm_pi st)) p"] assms(2)
  have new: "glob (drop (wm_pi st) p) (drop (wm_si st) s) \<longleftrightarrow> glob (drop (wm_pi st') p) (drop (wm_si st') s) \<or> later p s st'"
    by (simp add: later_def st'_def)
  have "later p s st \<Longrightarrow> glob (drop (wm_pi st) p) (drop (wm_si st) s)" if "CHR ''*'' \<notin> set s"
    using later_absorbed [of p s st] assms(1,4,5) that by (simp add: wm_inv_def)
  with new assms(1,3) have "CHR ''*'' \<notin> set s \<Longrightarrow>
      glob p s \<longleftrightarrow> glob (drop (wm_pi st') p) (drop (wm_si st') s) \<or> later p s st'"
    unfolding wm_inv_def by argo
  moreover have "star_ok p s st'" using assms(5) by (simp add: star_ok_def st'_def)
  ultimately show ?thesis using assms(1-4) by (simp add: wm_inv_def) (simp add: st'_def)
qed

lemma mismatch:
  assumes "wm_si st < length s" "wm_pi st \<le> length p"
    and "\<not> (wm_pi st < length p \<and> (p ! wm_pi st = CHR ''?'' \<or> p ! wm_pi st = s ! wm_si st))"
    and "\<not> (wm_pi st < length p \<and> p ! wm_pi st = CHR ''*'')"
  shows "\<not> glob (drop (wm_pi st) p) (drop (wm_si st) s)"
proof (cases "wm_pi st < length p")
  case True
  then have "drop (wm_pi st) p = p ! wm_pi st # drop (Suc (wm_pi st)) p" "drop (wm_si st) s = s ! wm_si st # drop (Suc (wm_si st)) s"
    using Cons_nth_drop_Suc [of "wm_pi st" p] Cons_nth_drop_Suc [OF assms(1)] by simp_all
  with True assms(3,4) show ?thesis by (simp add: glob_char)
qed (use assms in simp)

lemma ex_split:
  assumes "Suc m \<le> n"
  shows "(\<exists>j. m < j \<and> j \<le> n \<and> P j) \<longleftrightarrow> P (Suc m) \<or> (\<exists>j. Suc m < j \<and> j \<le> n \<and> P j)"
proof -
  have "m < j \<longleftrightarrow> j = Suc m \<or> Suc m < j" for j by auto
  then show ?thesis using assms by auto
qed

lemma step_back:
  assumes "wm_inv p s st" "wm_si st < length s" "\<not> wm_fail st" "wm_star st = Some k"
    and "\<not> glob (drop (wm_pi st) p) (drop (wm_si st) s)"
  defines "st' \<equiv> st\<lparr>wm_pi := k + 1, wm_match := wm_match st + 1, wm_si := wm_match st + 1\<rparr>"
  shows "wm_inv p s st'"
proof -
  have m: "Suc (wm_match st) \<le> length s" using assms(1,2) by (simp add: wm_inv_def)
  have "later p s st \<longleftrightarrow> glob (drop (Suc k) p) (drop (Suc (wm_match st)) s) \<or> later p s st'"
    using ex_split [OF m, of "\<lambda>j. glob (drop (Suc k) p) (drop j s)"] assms(4) by (simp add: later_def st'_def)
  moreover have "star_ok p s st'" using assms(1,4) by (simp add: star_ok_def wm_inv_def st'_def)
  moreover have "k < length p" using assms(1,4) by (simp add: star_ok_def wm_inv_def)
  ultimately show ?thesis using assms(1,3,5) m by (simp add: wm_inv_def) (simp add: st'_def)
qed

lemma wm_step_inv:
  assumes "wm_inv p s st" "wm_si st < length s" "\<not> wm_fail st"
  shows "wm_inv p s (wm_step p s st)"
proof -
  consider "wm_pi st < length p" "p ! wm_pi st = CHR ''?'' \<or> p ! wm_pi st = s ! wm_si st"
    | "\<not> (wm_pi st < length p \<and> (p ! wm_pi st = CHR ''?'' \<or> p ! wm_pi st = s ! wm_si st))"
      "wm_pi st < length p" "p ! wm_pi st = CHR ''*''"
    | "\<not> (wm_pi st < length p \<and> (p ! wm_pi st = CHR ''?'' \<or> p ! wm_pi st = s ! wm_si st))"
      "\<not> (wm_pi st < length p \<and> p ! wm_pi st = CHR ''*'')" by blast
  then show ?thesis
  proof cases
    case 1
    with step_match [OF assms 1] show ?thesis by (simp add: wm_step_def Let_def)
  next
    case 2
    with step_star [OF assms 2(2,3)] show ?thesis by (simp add: wm_step_def Let_def)
  next
    case 3
    have no: "\<not> glob (drop (wm_pi st) p) (drop (wm_si st) s)"
      using mismatch [of st s p] assms 3 by (simp add: wm_inv_def)
    show ?thesis
    proof (cases "wm_star st")
      case None
      have "\<not> later p s st" using None by (simp add: later_def)
      with assms(1,3) no have "CHR ''*'' \<notin> set s \<longrightarrow> \<not> glob p s" by (simp add: wm_inv_def)
      moreover have "wm_step p s st = st\<lparr>wm_fail := True\<rparr>" using None 3 by (simp only: wm_step_def Let_def if_False option.case)
      ultimately show ?thesis using assms(1) None by (simp add: wm_inv_def star_ok_def)
    next
      case (Some k)
      have "wm_step p s st = st\<lparr>wm_pi := k + 1, wm_match := wm_match st + 1, wm_si := wm_match st + 1\<rparr>"
        using Some 3 by (simp only: wm_step_def Let_def if_False option.case)
      with step_back [OF assms Some no] show ?thesis by simp
    qed
  qed
qed

lemma wm_rank_match: "i < l \<Longrightarrow> wm_rank l n m (Suc i) (Suc j) < wm_rank l n m i j"
  by (simp add: wm_rank_def)

lemma wm_rank_star: "m \<le> j \<Longrightarrow> i < l \<Longrightarrow> wm_rank l n j (Suc i) j < wm_rank l n m i j"
  using mult_le_mono1 [OF diff_le_mono2, of m j n "Suc (l + n)"] unfolding wm_rank_def by linarith

lemma wm_rank_back:
  assumes "m < n"
  shows "wm_rank l n (Suc m) k (Suc m) < wm_rank l n m i j"
proof -
  have "(n - m) * Suc (l + n) = (n - Suc m) * Suc (l + n) + Suc (l + n)"
    using assms by (metis Suc_diff_Suc add.commute mult_Suc)
  then show ?thesis using assms unfolding wm_rank_def by linarith
qed

lemma wm_step_measure:
  assumes "wm_inv p s st" "wm_si st < length s" "\<not> wm_fail st"
  shows "wm_measure p s (wm_step p s st) < wm_measure p s st"
proof -
  have m: "wm_match st \<le> wm_si st" "wm_match st < length s" using assms(1,2) by (simp_all add: wm_inv_def)
  show ?thesis
    using assms(3) wm_rank_match [of "wm_pi st" "length p"] wm_rank_star [OF m(1), of "wm_pi st" "length p"]
      wm_rank_back [OF m(2)]
    by (cases "wm_star st") (simp_all add: wm_step_def wm_measure_def Let_def)
qed

lemma wm_inv_start: "wm_inv p s \<lparr>wm_pi = 0, wm_si = 0, wm_star = None, wm_match = 0, wm_fail = False\<rparr>"
  by (simp add: wm_inv_def star_ok_def later_def)

lemma wildcard_loop_Some: "\<exists>st. wildcard_loop p s = Some st"
  unfolding wildcard_loop_def
  by (rule measure_while_option_Some [where P = "wm_inv p s" and f = "wm_measure p s"])
    (use wm_step_inv wm_step_measure wm_inv_start in auto)

lemma wildcard_loop_exact:
  assumes "wildcard_loop p s = Some st" "CHR ''*'' \<notin> set s"
  shows "glob p s \<longleftrightarrow> \<not> wm_fail st \<and> dropWhile (\<lambda>c. c = CHR ''*'') (drop (wm_pi st) p) = []"
proof -
  have inv: "wm_inv p s st"
    by (rule while_option_rule [where P = "wm_inv p s", OF _ assms(1) [unfolded wildcard_loop_def] wm_inv_start])
      (simp add: wm_step_inv)
  have stop: "wm_fail st \<or> length s \<le> wm_si st"
    using while_option_stop [OF assms(1) [unfolded wildcard_loop_def]] by auto
  have "\<not> later p s st" if "length s \<le> wm_si st"
  proof
    assume "later p s st"
    then obtain j where "wm_si st < j" "j \<le> length s"
      using later_segment [of p s st] inv assms(2) by (auto simp: wm_inv_def)
    with that show False by simp
  qed
  then have nl: "\<not> wm_fail st \<Longrightarrow> \<not> later p s st" and nil: "\<not> wm_fail st \<Longrightarrow> drop (wm_si st) s = []"
    using stop by auto
  show ?thesis
  proof (cases "wm_fail st")
    case False
    then have "glob p s \<longleftrightarrow> glob (drop (wm_pi st) p) []"
      using inv assms(2) nl nil unfolding wm_inv_def by (simp only: if_False simp_thms)
    with False show ?thesis by (simp add: glob_Nil_text)
  next
    case True
    with inv assms(2) show ?thesis by (simp add: wm_inv_def)
  qed
qed

text \<open>
  C31. The matcher of \<^verbatim>\<open>StringLike\<close>, \<^verbatim>\<open>ArnLike\<close> and their negations returns on every pattern and text:
  the loop ends, at the end of the text or with the early failure.
\<close>

theorem wildcard_match_terminates:
  "\<exists>st. wildcard_loop p s = Some st \<and> \<not> (wm_si st < length s \<and> \<not> wm_fail st)"
proof -
  obtain st where st: "wildcard_loop p s = Some st" using wildcard_loop_Some by blast
  with while_option_stop [OF st [unfolded wildcard_loop_def]] show ?thesis by blast
qed

lemma wildcard_exact:
  assumes "CHR ''*'' \<notin> set s"
  shows "wildcardMatch p s \<longleftrightarrow> glob p s"
proof -
  obtain st where st: "wildcard_loop p s = Some st" using wildcard_loop_Some by blast
  have "glob ''*'' s" unfolding glob_star by (rule exI [of _ "length s"]) simp
  with wildcard_loop_exact [OF st assms] glob_self show ?thesis
    by (auto simp: wildcardMatch_def st)
qed

text \<open>
  C32. The greedy matcher with one backtracking point computes the meaning of the pattern: on a
  text that holds no star of its own, \<^const>\<open>wildcardMatch\<close> is true exactly when the text is an
  instance of the pattern, with \<^verbatim>\<open>*\<close> any text and \<^verbatim>\<open>?\<close> any character.
\<close>

theorem wildcard_match_exact:
  assumes "CHR ''*'' \<notin> set s"
  shows "wildcardMatch p s \<longleftrightarrow> glob p s"
  by (rule wildcard_exact [OF assms])

theorem wildcard_match_exact_witness:
  "wildcardMatch ''logs/*/2?.txt'' ''logs/a/b/24.txt'' \<and> \<not> wildcardMatch ''logs/*/2?.txt'' ''logs/24.txt''"
proof -
  have "glob ''logs/*/2?.txt'' ''logs/a/b/24.txt''" "\<not> glob ''logs/*/2?.txt'' ''logs/24.txt''" by code_simp+
  then show ?thesis
    using wildcard_match_exact [of "''logs/a/b/24.txt''"] wildcard_match_exact [of "''logs/24.txt''"] by simp
qed

text \<open>
  A star in the text is compared before the star of the pattern is taken for a wildcard. On a pattern that ends in its first star
  the loop then walks over both in step and comes to the end of the pattern with no star to stretch.
\<close>

lemma star_in_text_fails:
  assumes "CHR ''*'' \<notin> set p" "r \<noteq> []" "wildcard_loop (p @ ''*'') (p @ CHR ''*'' # r) = Some st"
  shows "wm_fail st"
proof -
  let ?s = "p @ CHR ''*'' # r"
  let ?P = "\<lambda>st. wm_star st = None \<and> (wm_fail st \<or> wm_pi st = wm_si st \<and> wm_si st \<le> Suc (length p))"
  have "?P (wm_step (p @ ''*'') ?s st)" if "?P st" "wm_si st < length ?s \<and> \<not> wm_fail st" for st
  proof (cases "wm_si st \<le> length p")
    case True
    then have "(p @ ''*'') ! wm_si st = ?s ! wm_si st" by (auto simp: nth_append)
    then show ?thesis using that True by (auto simp: wm_step_def Let_def)
  next
    case False
    then show ?thesis using that by (auto simp: wm_step_def Let_def)
  qed
  then have "?P st"
    by (intro while_option_rule [where P = ?P, OF _ assms(3) [unfolded wildcard_loop_def]]) auto
  moreover have "\<not> (wm_si st < length ?s \<and> \<not> wm_fail st)" by (rule while_option_stop [OF assms(3) [unfolded wildcard_loop_def]])
  ultimately show ?thesis using assms(2) by (cases r) auto
qed

lemma star_in_text_unmatched:
  assumes "p \<noteq> []" "CHR ''*'' \<notin> set p" "r \<noteq> []"
  shows "\<not> wildcardMatch (p @ ''*'') (p @ CHR ''*'' # r)"
proof -
  obtain st where st: "wildcard_loop (p @ ''*'') (p @ CHR ''*'' # r) = Some st" using wildcard_loop_Some by blast
  with star_in_text_fails [OF assms(2,3) st] assms show ?thesis by (cases p) (auto simp: wildcardMatch_def)
qed

lemma glob_prefix_star: "CHR ''*'' \<notin> set p \<Longrightarrow> glob (p @ ''*'') (p @ r)"
proof (induction p)
  case Nil
  show ?case by (auto simp: glob_star intro!: exI [of _ "length r"])
qed (auto simp: glob_char)

text \<open>Listings are allowed except of prefixes that begin with \<open>p\<close>.\<close>

definition deny_prefix :: "string \<Rightarrow> policy" where
  "deny_prefix p = \<lparr>pol_Version = ''2012-10-17'', pol_Statement =
    [\<lparr>st_Sid = ''allow'', st_Effect = ''Allow'', st_Principal = IStr ''*'', st_Action = IStr ''s3:ListBucket'',
       st_Resource = IStr ''*'', st_Condition = []\<rparr>,
     \<lparr>st_Sid = ''deny'', st_Effect = ''Deny'', st_Principal = IStr ''*'', st_Action = IStr ''s3:*'',
       st_Resource = IStr ''*'', st_Condition = [(''StringLike'', IMap [(''s3:prefix'', IStr (p @ ''*''))])]\<rparr>]\<rparr>"

definition list_request :: "string \<Rightarrow> policy_request" where
  "list_request prefix = \<lparr>rq_Principal = ''alice'', rq_Action = ''s3:ListBucket'', rq_Resource = ''arn:aws:s3:::b'',
    rq_Bucket = ''b'', rq_SourceIP = ''10.0.0.1'', rq_SecureTransport = True, rq_RequestContext = [(''s3:prefix'', prefix)]\<rparr>"

lemma deny_prefix_decision:
  "EvaluatePolicy (Some (deny_prefix p)) (list_request t) = (if wildcardMatch (p @ ''*'') t then DecisionExplicitDeny else DecisionAllow)"
proof -
  have "principalMatches (IStr ''*'') ''alice''" "actionMatches (IStr ''s3:ListBucket'') ''s3:ListBucket''"
    "actionMatches (IStr ''s3:*'') ''s3:ListBucket''" "resourceMatches (IStr ''*'') ''arn:aws:s3:::b'' ''b''" by code_simp+
  moreover have "ToLower ''s3:prefix'' \<noteq> ''aws:sourceip''" "ToLower ''s3:prefix'' \<noteq> ''aws:securetransport''" "ToLower ''StringLike'' = ''stringlike''"
    by code_simp+
  ultimately show ?thesis
    by (simp add: EvaluatePolicy_def deny_prefix_def list_request_def statementMatches_def conditionMatches_def evaluateOperator_def
        resolveConditionKey_def Let_def)
qed

text \<open>
  C33. A star lets a request value past a deny. For every nonempty star-free \<open>p\<close>, a statement that denies the values of the pattern \<open>p*\<close>
  catches \<open>p\<close> followed by any star-free text, but not \<open>p\<close> followed by a star and any further text, although the pattern covers that value:
  the request is allowed.
\<close>

theorem wildcard_star_in_text:
  assumes "p \<noteq> []" "CHR ''*'' \<notin> set p" "r \<noteq> []"
  shows "glob (p @ ''*'') (p @ CHR ''*'' # r) \<and> \<not> wildcardMatch (p @ ''*'') (p @ CHR ''*'' # r) \<and>
    EvaluatePolicy (Some (deny_prefix p)) (list_request (p @ CHR ''*'' # r)) = DecisionAllow \<and>
    (CHR ''*'' \<notin> set r \<longrightarrow> EvaluatePolicy (Some (deny_prefix p)) (list_request (p @ r)) = DecisionExplicitDeny)"
proof -
  have "wildcardMatch (p @ ''*'') (p @ r)" if "CHR ''*'' \<notin> set r"
    using wildcard_exact [of "p @ r" "p @ ''*''"] glob_prefix_star assms(2) that by simp
  then show ?thesis
    using star_in_text_unmatched [OF assms] glob_prefix_star [OF assms(2)] by (simp add: deny_prefix_decision)
qed

theorem wildcard_star_in_text_witness:
  "EvaluatePolicy (Some (deny_prefix ''secret'')) (list_request ''secret*/a'') = DecisionAllow \<and>
   EvaluatePolicy (Some (deny_prefix ''secret'')) (list_request ''secret/a'') = DecisionExplicitDeny"
  using wildcard_star_in_text [of "''secret''" "''/a''"] by simp

end
