(* ===== verification/Bucket_Policy_Props.thy ===== *)
theory Bucket_Policy_Props
  imports Bucket_Policy
begin

text \<open>
  Properties of policy conditions and resources: source-address conditions compare leading bits,
  and an object pattern of one bucket never matches an object of another.
\<close>

section \<open>Address conditions\<close>

lemma length_map2_and [simp]: "length (map2 (AND) a m) = min (length a) (length m)" for a m :: "byte list"
  by simp

lemma length_CIDRMask [simp]: "length (CIDRMask n l) = l"
  by (induction l arbitrary: n) simp_all

lemma map2_and_idem: "map2 (AND) (map2 (AND) a m) m = map2 (AND) a m" for a m :: "byte list"
  by (induction a m rule: list_induct2') (simp_all add: and.assoc)

lemma v4_length [simp]: "length v4InV6Prefix = 12"
  by (simp add: v4InV6Prefix_def)

lemma ParseCIDR_show:
  assumes "length q = 4" "n \<le> 32"
  shows "ParseCIDR (show_ipv4 q @ CHR ''/'' # digits n) = Some \<lparr>net_IP = map2 (AND) q (CIDRMask n 4), net_Mask = CIDRMask n 4\<rparr>"
proof -
  have "takeWhile (\<lambda>c. c \<noteq> CHR ''/'') (show_ipv4 q @ CHR ''/'' # digits n) = show_ipv4 q"
    "dropWhile (\<lambda>c. c \<noteq> CHR ''/'') (show_ipv4 q @ CHR ''/'' # digits n) = CHR ''/'' # digits n"
    using show_no_slash [OF assms(1)] by simp_all
  then show ?thesis
    using assms by (simp add: ParseCIDR_def ip_Mask_def As16_def Let_def)
qed

lemma ipMatchesCIDR_bits:
  assumes "length a = 4" "length q = 4" "n \<le> 32" "ParseIP (show_ipv4 a) = Some ip"
  shows "ipMatchesCIDR ip (show_ipv4 q @ CHR ''/'' # digits n) \<longleftrightarrow> take n (ip_bits a) = take n (ip_bits q)"
proof -
  have ip: "ip = v4InV6Prefix @ a" using assms by (simp add: ParseIP_def As16_def)
  have "To4 ip = Some a" using assms(1) by (simp add: ip To4_def)
  moreover have "To4 (map2 (AND) q (CIDRMask n 4)) = Some (map2 (AND) q (CIDRMask n 4))"
    using assms(2) by (simp add: To4_def)
  ultimately have "ipMatchesCIDR ip (show_ipv4 q @ CHR ''/'' # digits n) \<longleftrightarrow>
      map2 (AND) q (CIDRMask n 4) = map2 (AND) a (CIDRMask n 4)"
    using assms by (simp add: ipMatchesCIDR_def ParseCIDR_show Contains_def Let_def map2_and_idem)
  also have "\<dots> \<longleftrightarrow> take n (ip_bits q) = take n (ip_bits a)"
    using assms by (intro masked_agree) simp_all
  finally show ?thesis by metis
qed

text \<open>
  C34. A source-address condition on a network in CIDR notation, \<^verbatim>\<open>a.b.c.d/n\<close>, holds for a client
  address exactly when the two addresses agree in their first \<^verbatim>\<open>n\<close> bits, and \<^verbatim>\<open>NotIpAddress\<close> holds
  exactly when they do not.
\<close>

theorem ip_condition_prefix:
  assumes "length a = 4" "length q = 4" "n \<le> 32"
  shows "(evaluateOperator ''IpAddress'' (show_ipv4 a) (IStr (show_ipv4 q @ CHR ''/'' # digits n)) \<longleftrightarrow>
           take n (ip_bits a) = take n (ip_bits q)) \<and>
         (evaluateOperator ''NotIpAddress'' (show_ipv4 a) (IStr (show_ipv4 q @ CHR ''/'' # digits n)) \<longleftrightarrow>
           take n (ip_bits a) \<noteq> take n (ip_bits q))"
proof -
  have ip: "ParseIP (show_ipv4 a) = Some (As16 a)" using assms(1) by (simp add: ParseIP_def)
  have low: "ToLower ''IpAddress'' = ''ipaddress''" "ToLower ''NotIpAddress'' = ''notipaddress''" by code_simp+
  show ?thesis
    using ipMatchesCIDR_bits [OF assms ip] by (simp add: evaluateOperator_def low ip Let_def)
qed

theorem ip_condition_prefix_witness:
  "evaluateOperator ''IpAddress'' ''192.168.77.3'' (IStr ''192.168.64.0/20'') \<and>
   \<not> evaluateOperator ''IpAddress'' ''192.168.80.3'' (IStr ''192.168.64.0/20'')"
proof -
  let ?a = "[192, 168, 77, 3] :: byte list" and ?b = "[192, 168, 80, 3] :: byte list" and ?q = "[192, 168, 64, 0] :: byte list"
  have s: "show_ipv4 ?a = ''192.168.77.3''" "show_ipv4 ?b = ''192.168.80.3''"
    "show_ipv4 ?q @ CHR ''/'' # digits 20 = ''192.168.64.0/20''" by code_simp+
  have "take 20 (ip_bits ?a) = take 20 (ip_bits ?q)" "take 20 (ip_bits ?b) \<noteq> take 20 (ip_bits ?q)" by code_simp+
  then show ?thesis
    using ip_condition_prefix [of ?a ?q 20] ip_condition_prefix [of ?b ?q 20] unfolding s by simp
qed

section \<open>Resources stay inside their bucket\<close>

text \<open>A bucket name as it stands in a resource: no slash, no colon.\<close>

definition plain_name :: "string \<Rightarrow> bool" where
  "plain_name b \<longleftrightarrow> CHR ''/'' \<notin> set b \<and> CHR '':'' \<notin> set b"

lemma prefix_slash:
  assumes "plain_name b" "plain_name b'"
  shows "HasPrefix (b' @ CHR ''/'' # k) (b @ ''/'') \<longleftrightarrow> b = b'"
  using assms by (auto simp: HasPrefix_iff plain_name_def sep_inj)

lemma arn_not_prefix: "CHR '':'' \<notin> set y \<Longrightarrow> CHR ''/'' \<in> set y \<Longrightarrow> \<not> HasPrefix (arn_prefix @ x) y"
proof
  assume y: "CHR '':'' \<notin> set y" "CHR ''/'' \<in> set y" and "HasPrefix (arn_prefix @ x) y"
  then obtain r where "''arn'' @ CHR '':'' # (''aws:s3:::'' @ x) = y @ r" by (auto simp: HasPrefix_iff arn_prefix_def)
  then have "takeWhile (\<lambda>c. c \<noteq> CHR '':'') (''arn'' @ CHR '':'' # (''aws:s3:::'' @ x)) = takeWhile (\<lambda>c. c \<noteq> CHR '':'') (y @ r)"
    by (simp only:)
  also have "\<dots> = y @ takeWhile (\<lambda>c. c \<noteq> CHR '':'') r"
    using y(1) by (intro takeWhile_append2) auto
  finally have "set y \<subseteq> set ''arn''" by (auto dest: arg_cong [of _ _ set])
  with y(2) show False by auto
qed

lemma plain_not_arn: "CHR '':'' \<notin> set y \<Longrightarrow> \<not> HasPrefix y arn_prefix"
  by (auto simp: HasPrefix_iff arn_prefix_def)

lemma slash_star_suffix [simp]: "HasSuffix (x @ ''/*'') ''/*''" "TrimSuffix (x @ ''/*'') ''/*'' = x"
  by (simp_all add: HasSuffix_def TrimSuffix_def HasPrefix_def)

lemma match_object_arn:
  assumes "plain_name b" "plain_name b'"
  shows "matchResource (arn_prefix @ b @ ''/*'') (arn_prefix @ b' @ CHR ''/'' # k) bn \<longleftrightarrow> b = b'"
proof -
  have "arn_prefix @ b @ ''/*'' = arn_prefix @ b' @ CHR ''/'' # k \<Longrightarrow> b = b'"
    using assms by (simp add: plain_name_def sep_inj)
  moreover have "arn_prefix @ b @ ''/*'' \<noteq> ''*''" by (simp add: arn_prefix_def)
  moreover have "HasSuffix (arn_prefix @ b @ ''/*'') ''/*''" "TrimSuffix (arn_prefix @ b @ ''/*'') ''/*'' = arn_prefix @ b"
    using slash_star_suffix [of "arn_prefix @ b"] by simp_all
  moreover have "HasPrefix (arn_prefix @ b' @ CHR ''/'' # k) ((arn_prefix @ b) @ ''/'') \<longleftrightarrow> b = b'"
    using prefix_slash [OF assms] by simp
  ultimately show ?thesis unfolding matchResource_def normalizeResourceARN_def Let_def by simp
qed

text \<open>
  C35. An object pattern \<^verbatim>\<open>b/*\<close> in a policy, written as a full resource name or in the short form,
  matches an object of bucket \<^verbatim>\<open>b'\<close> exactly when \<^verbatim>\<open>b\<close> and \<^verbatim>\<open>b'\<close> are the same bucket, whatever the
  object's key: also when one name begins with the other.
\<close>

theorem object_resource_scoped:
  assumes "plain_name b" "plain_name b'"
  shows "(matchResource (arn_prefix @ b @ ''/*'') (arn_prefix @ b' @ CHR ''/'' # k) b' \<longleftrightarrow> b = b') \<and>
         (matchResource (b @ ''/*'') (arn_prefix @ b' @ CHR ''/'' # k) b' \<longleftrightarrow> b = b')"
proof -
  let ?p = "b @ ''/*''" and ?r = "arn_prefix @ b' @ CHR ''/'' # k"
  have p: "CHR '':'' \<notin> set ?p" "CHR ''/'' \<in> set ?p" using assms(1) by (auto simp: plain_name_def)
  have r: "normalizeResourceARN ?r b' = ?r" by (simp add: normalizeResourceARN_def)
  have "CHR '':'' \<in> set ?r" by (simp add: arn_prefix_def)
  with p(1) have ne: "?p \<noteq> ?r" by metis
  have ne': "?p \<noteq> ''*''" "?p \<noteq> b'" "arn_prefix @ ?p \<noteq> ''*''"
    using p assms(2) by (auto simp: arn_prefix_def plain_name_def)
  have out: "\<not> HasPrefix ?r (b @ ''/'')" using arn_not_prefix [of "b @ ''/''"] p by auto
  have "matchResource ?p ?r b' \<longleftrightarrow> b = b'"
  proof (cases "HasPrefix ?p b'")
    case True
    then have "normalizeResourceARN ?p b' = arn_prefix @ ?p" "normalizeResourceARN (arn_prefix @ ?p) b' = arn_prefix @ ?p"
      using plain_not_arn [OF p(1)] ne' by (simp_all add: normalizeResourceARN_def)
    then have "matchResource ?p ?r b' \<longleftrightarrow> matchResource (arn_prefix @ ?p) ?r b'"
      using ne ne' r by (simp only: matchResource_def Let_def if_False if_cancel) auto
    then show ?thesis using match_object_arn [OF assms] by simp
  next
    case False
    then have "normalizeResourceARN ?p b' = ?p" "b \<noteq> b'"
      using plain_not_arn [OF p(1)] ne' HasPrefix_trans [of ?p "b' @ ''/''" b'] by (auto simp: normalizeResourceARN_def)
    then show ?thesis using ne ne' r out slash_star_suffix [of b] by (simp add: matchResource_def Let_def)
  qed
  then show ?thesis using match_object_arn [OF assms, of k b'] by blast
qed

theorem object_resource_scoped_witness:
  "\<not> matchResource ''photos/*'' ''arn:aws:s3:::photos-private/cat.jpg'' ''photos-private'' \<and>
   matchResource ''photos/*'' ''arn:aws:s3:::photos/2024/cat.jpg'' ''photos''"
  using object_resource_scoped [of "''photos''" "''photos-private''" "''cat.jpg''"]
    object_resource_scoped [of "''photos''" "''photos''" "''2024/cat.jpg''"]
  by (simp add: plain_name_def arn_prefix_def)

end
