(* ===== verification/Wal_Durability.thy ===== *)
theory Wal_Durability
  imports Main
begin

text \<open>
  Durability of the metadata store across crashes (\<^verbatim>\<open>internal/metadata/pebble_store.go\<close>): writers
  that commit without a sync, the background loop that syncs the write-ahead log, the shutdown
  sequence and the two sentinel files, as interleaved steps over the life of several
  processes on one data directory. The background loop is on, as it is outside tests.

  The log holds the committed writes in order, of which a prefix is on disk. The engine is used
  as documented: a synced commit or a synced \<^verbatim>\<open>LogData\<close> puts everything committed before it on
  disk, a crash keeps some prefix of the log that contains what was synced, opening the database
  replays that prefix onto disk, and \<^verbatim>\<open>db.Close\<close> does not run beside another call of the engine. Nothing is assumed of
  what \<^verbatim>\<open>db.Close\<close> puts on disk.

  The code ignores or only logs several errors, and \<^verbatim>\<open>Close\<close> does not wait for writers. Each of these is a fault
  that the step relation has as an option, so a theorem says which it tolerates.
\<close>

section \<open>State and atomic actions\<close>

text \<open>
  The loop waits for a tick, is between the \<^verbatim>\<open>Swap\<close> of the flag and the end of \<^verbatim>\<open>LogData\<close>, or has
  returned. A process serves, has closed \<^verbatim>\<open>stopCh\<close>, has done the final sync, or is gone. \<open>w_format\<close> and \<open>w_clean\<close> say
  whether the sentinel files \<^verbatim>\<open>PEBBLE_FORMAT_V2\<close> and \<^verbatim>\<open>CLEAN_SHUTDOWN\<close> exist; nothing syncs their directory, so
  what is on disk, \<open>w_formatDisk\<close> and \<open>w_cleanDisk\<close>, may lag behind.
\<close>

datatype loop_pc = Waiting | Syncing | Returned

datatype phase = Serving | Stopping | Flushed | Down

record 'w wal_state =
  w_log :: "'w list"
  w_synced :: nat
  w_dirty :: bool
  w_inflight :: nat
  w_loop :: loop_pc
  w_phase :: phase
  w_format :: bool
  w_formatDisk :: bool
  w_clean :: bool
  w_cleanDisk :: bool
  w_wasClean :: bool
  w_lost :: bool
  w_lastLost :: bool

text \<open>
  \<^verbatim>\<open>setNoSync\<close> and \<^verbatim>\<open>commitNoSync\<close>: the write lands in the log, and afterwards the writer raises the
  dirty flag; other steps may come between the two.
\<close>

definition write_lands :: "'w \<Rightarrow> 'w wal_state \<Rightarrow> 'w wal_state" where
  "write_lands x s = s\<lparr>w_log := w_log s @ [x], w_inflight := Suc (w_inflight s)\<rparr>"

definition write_flags :: "'w wal_state \<Rightarrow> 'w wal_state" where
  "write_flags s = s\<lparr>w_inflight := w_inflight s - 1, w_dirty := True\<rparr>"

text \<open>A commit with \<^verbatim>\<open>pebble.Sync\<close>.\<close>

definition write_synced :: "'w \<Rightarrow> 'w wal_state \<Rightarrow> 'w wal_state" where
  "write_synced x s = s\<lparr>w_log := w_log s @ [x], w_synced := Suc (length (w_log s))\<rparr>"

text \<open>A tick of \<^verbatim>\<open>runWALSyncLoop\<close>: \<^verbatim>\<open>Swap(false)\<close>, and \<^verbatim>\<open>LogData\<close> if the flag was up; on an error it is raised again.\<close>

definition tick :: "'w wal_state \<Rightarrow> 'w wal_state" where
  "tick s = (if w_dirty s then s\<lparr>w_dirty := False, w_loop := Syncing\<rparr> else s)"

definition log_data :: "bool \<Rightarrow> 'w wal_state \<Rightarrow> 'w wal_state" where
  "log_data ok s = (if ok then s\<lparr>w_synced := length (w_log s), w_loop := Waiting\<rparr>
     else s\<lparr>w_dirty := True, w_loop := Waiting\<rparr>)"

text \<open>
  \<^verbatim>\<open>Close\<close>: \<^verbatim>\<open>stopCh\<close> is closed, the loop is waited for, the flag is swapped with a final sync if it
  was up (a failure is only logged), the database is closed, and if that succeeded the sentinel
  is written (\<open>made\<close>: whether the file exists afterwards, which a failed \<^verbatim>\<open>WriteFile\<close> leaves open).
\<close>

definition close_begin :: "'w wal_state \<Rightarrow> 'w wal_state" where
  "close_begin s = s\<lparr>w_phase := Stopping\<rparr>"

definition close_flush :: "bool \<Rightarrow> 'w wal_state \<Rightarrow> 'w wal_state" where
  "close_flush ok s = s\<lparr>w_synced := (if w_dirty s \<and> ok then length (w_log s) else w_synced s),
     w_dirty := False, w_phase := Flushed\<rparr>"

definition close_db :: "bool \<Rightarrow> bool \<Rightarrow> 'w wal_state \<Rightarrow> 'w wal_state" where
  "close_db ok made s = s\<lparr>w_phase := Down, w_clean := (ok \<and> made \<or> w_clean s)\<rparr>"

text \<open>
  \<^verbatim>\<open>NewPebbleStore\<close>: the two sentinel files decide whether the last shutdown was clean, the
  shutdown sentinel is removed, the database opened, the format sentinel written if it is missing, and the loop started.
  \<open>seen\<close> says whether \<^verbatim>\<open>Stat\<close> finds a format sentinel that exists (every error counts as a missing file), \<open>removed\<close> whether the
  removal worked, \<open>opened\<close> whether the database opened, \<open>made\<close> whether a missing format sentinel exists afterwards; the
  errors of the removal and of the write are ignored.
\<close>

definition open_store :: "bool \<Rightarrow> bool \<Rightarrow> bool \<Rightarrow> bool \<Rightarrow> 'w wal_state \<Rightarrow> 'w wal_state" where
  "open_store seen removed opened made s = (let
     storeExisted = (w_format s \<and> seen);
     wasClean = (\<not> storeExisted \<or> w_clean s);
     s = s\<lparr>w_clean := (w_clean s \<and> \<not> removed)\<rparr>
   in if \<not> opened then s
      else s\<lparr>w_wasClean := wasClean, w_format := (w_format s \<or> made),
        w_synced := length (w_log s), w_dirty := False, w_inflight := 0, w_loop := Waiting, w_phase := Serving,
        w_lastLost := w_lost s, w_lost := False\<rparr>)"

text \<open>The system writes directory entries back when it likes.\<close>

definition write_back :: "'w wal_state \<Rightarrow> 'w wal_state" where
  "write_back s = s\<lparr>w_formatDisk := w_format s, w_cleanDisk := w_clean s\<rparr>"

text \<open>
  A crash keeps \<open>n\<close> writes. When the power fails the directory is what is on disk. For the theorems, \<open>w_lost\<close> records
  whether a write was lost since the store was last opened, and \<open>w_lastLost\<close> the same of the
  lifetime before.
\<close>

definition crash :: "bool \<Rightarrow> nat \<Rightarrow> 'w wal_state \<Rightarrow> 'w wal_state" where
  "crash outage n s = s\<lparr>w_log := take n (w_log s), w_synced := min n (length (w_log s)), w_phase := Down,
     w_lost := (w_lost s \<or> n < length (w_log s)),
     w_format := (if outage then w_formatDisk s else w_format s), w_clean := (if outage then w_cleanDisk s else w_clean s)\<rparr>"

section \<open>Interleavings\<close>

text \<open>
  The faults: \<^verbatim>\<open>Stat\<close> fails on the format sentinel, the removal of the shutdown sentinel fails, the format sentinel is
  not written, the power fails before the directory entries are on disk, the final sync of a shutdown fails, and a writer is
  active after \<^verbatim>\<open>Close\<close> began.
\<close>

datatype wal_fault = StatFails | RemoveFails | FormatFails | PowerEarly | FinalSyncFails | LateWriter

definition writable :: "wal_fault set \<Rightarrow> 'w wal_state \<Rightarrow> bool" where
  "writable F s \<longleftrightarrow> w_phase s = Serving \<or> LateWriter \<in> F \<and> w_phase s \<noteq> Down"

text \<open>One step of any thread, with the faults \<open>F\<close> possible.\<close>

inductive wal_step :: "wal_fault set \<Rightarrow> 'w wal_state \<Rightarrow> 'w wal_state \<Rightarrow> bool" for F where
  lands: "writable F s \<Longrightarrow> wal_step F s (write_lands x s)"
| flags: "0 < w_inflight s \<Longrightarrow> w_phase s \<noteq> Down \<Longrightarrow> wal_step F s (write_flags s)"
| synced: "writable F s \<Longrightarrow> wal_step F s (write_synced x s)"
| ticks: "w_loop s = Waiting \<Longrightarrow> w_phase s \<in> {Serving, Stopping} \<Longrightarrow> wal_step F s (tick s)"
| logs: "w_loop s = Syncing \<Longrightarrow> w_phase s \<noteq> Down \<Longrightarrow> wal_step F s (log_data ok s)"
| stops: "w_loop s = Waiting \<Longrightarrow> w_phase s = Stopping \<Longrightarrow> wal_step F s (s\<lparr>w_loop := Returned\<rparr>)"
| close1: "w_phase s = Serving \<Longrightarrow> w_inflight s = 0 \<or> LateWriter \<in> F \<Longrightarrow> wal_step F s (close_begin s)"
| close2: "w_phase s = Stopping \<Longrightarrow> w_loop s = Returned \<Longrightarrow> ok \<or> FinalSyncFails \<in> F \<Longrightarrow> wal_step F s (close_flush ok s)"
| close3: "w_phase s = Flushed \<Longrightarrow> wal_step F s (close_db ok made s)"
| opens: "w_phase s = Down \<Longrightarrow> seen \<or> StatFails \<in> F \<Longrightarrow> removed \<or> RemoveFails \<in> F \<Longrightarrow> made \<or> FormatFails \<in> F \<Longrightarrow>
    wal_step F s (open_store seen removed opened made s)"
| entries: "wal_step F s (write_back s)"
| crashes: "w_synced s \<le> n \<Longrightarrow> outage \<longrightarrow> PowerEarly \<in> F \<or> w_formatDisk s = w_format s \<and> w_cleanDisk s = w_clean s \<Longrightarrow>
    wal_step F s (crash outage n s)"

definition fresh_dir :: "'w wal_state" where
  "fresh_dir = \<lparr>w_log = [], w_synced = 0, w_dirty = False, w_inflight = 0, w_loop = Returned, w_phase = Down,
     w_format = False, w_formatDisk = False, w_clean = False, w_cleanDisk = False, w_wasClean = False, w_lost = False, w_lastLost = False\<rparr>"

section \<open>The invariants\<close>

text \<open>Whatever the faults, every write that is not on disk is accounted for until \<^verbatim>\<open>Close\<close> takes the flag.\<close>

definition covered :: "'w wal_state \<Rightarrow> bool" where
  "covered s \<longleftrightarrow> w_synced s \<le> length (w_log s) \<and>
     (w_phase s \<in> {Serving, Stopping} \<longrightarrow> w_synced s < length (w_log s) \<longrightarrow>
        w_dirty s \<or> 0 < w_inflight s \<or> w_loop s = Syncing) \<and>
     (w_phase s = Serving \<longrightarrow> w_loop s \<noteq> Returned) \<and> (w_phase s = Flushed \<longrightarrow> w_loop s = Returned)"

text \<open>Without faults, the shutdown sentinel exists only while everything is on disk.\<close>

definition honest :: "'w wal_state \<Rightarrow> bool" where
  "honest s \<longleftrightarrow>
     (\<not> w_format s \<longrightarrow> w_phase s = Down \<and> \<not> w_lost s \<and> w_log s = []) \<and>
     (w_clean s \<longrightarrow> w_phase s = Down \<and> \<not> w_lost s \<and> w_synced s = length (w_log s)) \<and>
     (w_phase s \<noteq> Down \<longrightarrow> \<not> w_lost s \<and> (w_wasClean s \<longrightarrow> \<not> w_lastLost s)) \<and>
     (w_phase s \<in> {Stopping, Flushed} \<longrightarrow> w_inflight s = 0) \<and>
     (w_phase s = Flushed \<longrightarrow> w_synced s = length (w_log s))"

lemmas wal_defs = write_lands_def write_flags_def write_synced_def tick_def log_data_def close_begin_def
  close_flush_def close_db_def open_store_def write_back_def crash_def writable_def Let_def

lemma covered_step: "wal_step F s t \<Longrightarrow> covered s \<Longrightarrow> covered t"
proof (induction rule: wal_step.induct)
  case (flags s)
  then show ?case by (cases "w_phase s") (simp_all add: covered_def wal_defs)
next
  case (logs s ok)
  then show ?case by (cases "w_phase s") (simp_all add: covered_def wal_defs)
next
  case (ticks s)
  then show ?case by (auto simp: covered_def wal_defs)
next
  case (stops s)
  then show ?case by (auto simp: covered_def)
next
  case (crashes s n outage)
  then show ?case by (simp add: covered_def wal_defs min.commute)
qed (auto simp: covered_def wal_defs)

lemma honest_step: "wal_step {} s t \<Longrightarrow> covered s \<Longrightarrow> honest s \<Longrightarrow> honest t"
proof (induction rule: wal_step.induct)
  case (crashes s n outage)
  then have "w_clean (crash outage n s) = w_clean s" "w_format (crash outage n s) = w_format s" by (auto simp: crash_def)
  with crashes show ?case by (cases "w_clean s"; cases "w_format s") (simp_all add: honest_def crash_def)
next
  case (close2 s ok)
  then show ?case by (auto simp: honest_def covered_def wal_defs)
next
  case (opens s seen removed made opened)
  then show ?case by (cases opened; cases "w_format s"; cases "w_clean s") (simp_all add: honest_def wal_defs)
next
  case (flags s)
  then show ?case by (cases "w_phase s") (simp_all add: honest_def wal_defs)
next
  case (logs s ok)
  then show ?case by (cases "w_phase s"; cases ok; cases "w_clean s") (simp_all add: honest_def covered_def wal_defs)
next
  case (stops s)
  then show ?case by (auto simp: honest_def)
qed (auto simp: honest_def wal_defs)

lemma wal_fresh: "covered fresh_dir" "honest fresh_dir"
  by (simp_all add: covered_def honest_def fresh_dir_def)

lemma covered_run: "(wal_step F)\<^sup>*\<^sup>* fresh_dir s \<Longrightarrow> covered s"
  by (induction rule: rtranclp_induct) (auto intro: covered_step wal_fresh)

lemma honest_run: "(wal_step {})\<^sup>*\<^sup>* fresh_dir s \<Longrightarrow> honest s"
  by (induction rule: rtranclp_induct) (auto intro: honest_step wal_fresh covered_run)

text \<open>
  C11. The sync loop never misses a write. In every state of a store before \<^verbatim>\<open>Close\<close> takes the flag for its final sync, reached by any
  interleaving of writers, ticks, failed syncs, shutdowns, crashes and restarts, with every fault possible, a committed
  write that is not yet on disk is accounted for: the dirty flag is up, its writer has yet to
  raise it, or a sync is under way. So when no writer is between its write
  and the flag, one tick of a waiting loop, or the final sync once the loop has returned, puts everything on disk if it succeeds.
  After the final sync nothing covers a write whose sync failed, or one that a late writer adds.
\<close>

theorem wal_never_misses:
  assumes "(wal_step F)\<^sup>*\<^sup>* fresh_dir s" "w_phase s \<in> {Serving, Stopping}"
  shows "(w_synced s < length (w_log s) \<longrightarrow> w_dirty s \<or> 0 < w_inflight s \<or> w_loop s = Syncing) \<and>
    (w_loop s = Waiting \<and> w_inflight s = 0 \<longrightarrow>
      (let t = tick s; u = (if w_loop t = Syncing then log_data True t else t)
       in w_synced u = length (w_log s) \<and> w_log u = w_log s)) \<and>
    (w_loop s = Returned \<and> w_inflight s = 0 \<longrightarrow> w_synced (close_flush True s) = length (w_log s))"
proof -
  have inv: "covered s" by (rule covered_run [OF assms(1)])
  show ?thesis
  proof (cases "w_dirty s")
    case True
    then show ?thesis by (simp add: tick_def log_data_def close_flush_def)
  next
    case False
    with inv assms(2) show ?thesis by (auto simp: covered_def tick_def close_flush_def)
  qed
qed

text \<open>
  C12. A shutdown reported as clean lost nothing, when none of the faults happens: the sentinel files can be examined,
  removed and written, the power fails only once their directory entries are on disk, no final sync fails and no writer is active after \<^verbatim>\<open>Close\<close>
  began. Then whenever a store is open and reports that the process before it closed cleanly, no write
  committed in that process's lifetime is missing, whatever kills, power failures, failed periodic syncs and failed opens there were.
\<close>

theorem clean_shutdown_nothing_lost:
  assumes "(wal_step {})\<^sup>*\<^sup>* fresh_dir s" "w_phase s \<noteq> Down" "w_wasClean s"
  shows "\<not> w_lastLost s"
  using honest_run [OF assms(1)] assms(2,3) by (simp add: honest_def)

section \<open>Runs\<close>

lemmas run_steps = rtranclp.rtrancl_into_rtrancl [where r = "wal_step F" for F]

abbreviation started :: "string wal_state" where
  "started \<equiv> open_store True True True True fresh_dir"

abbreviation written :: "string wal_state" where
  "written \<equiv> write_flags (write_lands ''put'' started)"

lemma started_run: "(wal_step F)\<^sup>*\<^sup>* fresh_dir started"
  by (intro run_steps [OF rtranclp.rtrancl_refl] wal_step.opens) (simp_all add: fresh_dir_def)

lemma written_run: "(wal_step F)\<^sup>*\<^sup>* fresh_dir written"
proof -
  have "wal_step F started (write_lands ''put'' started)" by (intro wal_step.lands) (simp add: wal_defs)
  moreover have "wal_step F (write_lands ''put'' started) written" by (intro wal_step.flags) (simp_all add: wal_defs)
  ultimately show ?thesis using run_steps [OF run_steps [OF started_run]] by blast
qed

text \<open>The rest of a shutdown from a serving state whose writers are done.\<close>

definition shut :: "bool \<Rightarrow> 'w wal_state \<Rightarrow> 'w wal_state" where
  "shut ok s = close_db True True (close_flush ok ((close_begin s)\<lparr>w_loop := Returned\<rparr>))"

lemma shut_run:
  assumes "(wal_step F)\<^sup>*\<^sup>* fresh_dir s" "w_phase s = Serving" "w_inflight s = 0" "w_loop s = Waiting" "ok \<or> FinalSyncFails \<in> F"
  shows "(wal_step F)\<^sup>*\<^sup>* fresh_dir (shut ok s)"
proof -
  let ?r = "(close_begin s)\<lparr>w_loop := Returned\<rparr>"
  have "wal_step F s (close_begin s)" using assms(2,3) by (intro wal_step.close1) simp_all
  moreover have "wal_step F (close_begin s) ?r" using assms(4) by (intro wal_step.stops) (simp_all add: close_begin_def)
  moreover have "wal_step F ?r (close_flush ok ?r)" using assms(5) by (intro wal_step.close2) (simp_all add: close_begin_def)
  moreover have "wal_step F (close_flush ok ?r) (shut ok s)" unfolding shut_def by (intro wal_step.close3) (simp add: close_flush_def)
  ultimately show ?thesis using assms(1) by (meson rtranclp.rtrancl_into_rtrancl)
qed

theorem wal_never_misses_witness:
  "\<exists>s :: string wal_state. (wal_step {LateWriter, FinalSyncFails})\<^sup>*\<^sup>* fresh_dir s \<and> w_phase s = Serving \<and> w_log s = [''put''] \<and>
     w_synced s = 0 \<and> w_dirty s \<and> w_synced (log_data True (tick s)) = 1"
proof -
  have "w_phase written \<in> {Serving, Stopping}" by (simp add: wal_defs)
  from wal_never_misses [OF written_run [of "{LateWriter, FinalSyncFails}"] this] written_run [of "{LateWriter, FinalSyncFails}"] show ?thesis
    by (intro exI [of _ written]) (simp add: wal_defs fresh_dir_def)
qed

theorem clean_shutdown_nothing_lost_witness:
  "w_wasClean (open_store True True True True (shut True written)) \<and> \<not> w_lastLost (open_store True True True True (shut True written))"
proof -
  let ?o = "open_store True True True True (shut True written)"
  have "(wal_step {})\<^sup>*\<^sup>* fresh_dir (shut True written)"
    by (rule shut_run [OF written_run]) (simp_all add: wal_defs)
  moreover have "wal_step {} (shut True written) ?o" by (intro wal_step.opens) (simp_all add: shut_def close_db_def)
  ultimately have "(wal_step {})\<^sup>*\<^sup>* fresh_dir ?o" by (rule run_steps)
  moreover have "w_wasClean ?o" "w_phase ?o \<noteq> Down" by (simp_all add: shut_def wal_defs)
  ultimately show ?thesis using clean_shutdown_nothing_lost by blast
qed

section \<open>Each fault alone makes a lossy shutdown look clean\<close>

definition misreported :: "wal_fault set \<Rightarrow> bool" where
  "misreported F \<longleftrightarrow> (\<exists>s :: string wal_state. (wal_step F)\<^sup>*\<^sup>* fresh_dir s \<and> w_phase s = Serving \<and> w_wasClean s \<and> w_lastLost s)"

text \<open>It is enough to reach a crash after which a write is lost and the sentinels say clean.\<close>

lemma misreportedI:
  assumes "(wal_step F)\<^sup>*\<^sup>* fresh_dir (s :: string wal_state)" "w_phase s = Down" "w_lost s"
    and "seen \<or> StatFails \<in> F" "\<not> w_format s \<or> \<not> seen \<or> w_clean s"
  shows "misreported F"
proof -
  have "wal_step F s (open_store seen True True True s)" using assms(2,4) by (intro wal_step.opens) simp_all
  then have "(wal_step F)\<^sup>*\<^sup>* fresh_dir (open_store seen True True True s)" using assms(1) by (rule run_steps [rotated])
  moreover have "w_phase (open_store seen True True True s) = Serving" "w_wasClean (open_store seen True True True s)"
    "w_lastLost (open_store seen True True True s)" using assms(3,5) by (auto simp: open_store_def Let_def)
  ultimately show ?thesis unfolding misreported_def by blast
qed

lemma crash_run:
  "(wal_step F)\<^sup>*\<^sup>* fresh_dir s \<Longrightarrow> w_synced s \<le> n \<Longrightarrow> outage \<longrightarrow> PowerEarly \<in> F \<Longrightarrow> (wal_step F)\<^sup>*\<^sup>* fresh_dir (crash outage n s)"
  by (rule run_steps, assumption, rule wal_step.crashes) auto

text \<open>\<^verbatim>\<open>Close\<close> only logs the failure of its final sync and still writes the sentinel.\<close>

lemma failed_final_sync_reported_clean: "misreported {FinalSyncFails}"
proof (rule misreportedI)
  show "(wal_step {FinalSyncFails})\<^sup>*\<^sup>* fresh_dir (crash False 0 (shut False written))"
    by (rule crash_run [OF shut_run [OF written_run]]) (simp_all add: shut_def wal_defs fresh_dir_def)
qed (simp_all add: shut_def wal_defs fresh_dir_def)

text \<open>A write that lands after the final sync, before the database is closed.\<close>

lemma late_write_reported_clean: "misreported {LateWriter}"
proof (rule misreportedI)
  let ?F = "{LateWriter}" and ?b = "close_begin started"
  let ?f = "close_flush True (?b\<lparr>w_loop := Returned\<rparr>)"
  let ?w = "write_flags (write_lands ''put'' ?f)"
  have "wal_step ?F started ?b" by (intro wal_step.close1) (simp_all add: wal_defs)
  moreover have "wal_step ?F ?b (?b\<lparr>w_loop := Returned\<rparr>)" by (intro wal_step.stops) (simp_all add: wal_defs)
  moreover have "wal_step ?F (?b\<lparr>w_loop := Returned\<rparr>) ?f" by (intro wal_step.close2) (simp_all add: wal_defs)
  moreover have "wal_step ?F ?f (write_lands ''put'' ?f)" by (intro wal_step.lands) (simp add: wal_defs)
  moreover have "wal_step ?F (write_lands ''put'' ?f) ?w" by (intro wal_step.flags) (simp_all add: wal_defs)
  moreover have "wal_step ?F ?w (close_db True True ?w)" by (intro wal_step.close3) (simp add: wal_defs)
  ultimately have "(wal_step ?F)\<^sup>*\<^sup>* fresh_dir (close_db True True ?w)"
    using started_run [of ?F] by (meson rtranclp.rtrancl_into_rtrancl)
  then show "(wal_step ?F)\<^sup>*\<^sup>* fresh_dir (crash False 0 (close_db True True ?w))"
    by (rule crash_run) (simp_all add: wal_defs fresh_dir_def)
qed (simp_all add: wal_defs fresh_dir_def)

text \<open>A shutdown sentinel that could not be removed, or whose removal the power failure undid, outlives its store.\<close>

abbreviation reopened :: "bool \<Rightarrow> string wal_state" where
  "reopened removed \<equiv> write_flags (write_lands ''put'' (open_store True removed True True (write_back (shut True started))))"

lemma reopened_run: "removed \<or> RemoveFails \<in> F \<Longrightarrow> (wal_step F)\<^sup>*\<^sup>* fresh_dir (reopened removed)"
proof -
  assume r: "removed \<or> RemoveFails \<in> F"
  let ?b = "write_back (shut True started)"
  let ?o = "open_store True removed True True ?b"
  have "(wal_step F)\<^sup>*\<^sup>* fresh_dir (shut True started)" by (rule shut_run [OF started_run]) (simp_all add: wal_defs)
  moreover have "wal_step F (shut True started) ?b" by (rule wal_step.entries)
  moreover have "wal_step F ?b ?o" using r by (intro wal_step.opens) (simp_all add: shut_def wal_defs)
  moreover have "wal_step F ?o (write_lands ''put'' ?o)" by (intro wal_step.lands) (simp add: wal_defs)
  moreover have "wal_step F (write_lands ''put'' ?o) (reopened removed)" by (intro wal_step.flags) (simp_all add: wal_defs)
  ultimately show ?thesis by (meson rtranclp.rtrancl_into_rtrancl)
qed

lemma stale_sentinel_reported_clean: "misreported {RemoveFails}"
proof (rule misreportedI)
  show "(wal_step {RemoveFails})\<^sup>*\<^sup>* fresh_dir (crash False 0 (reopened False))"
    by (rule crash_run [OF reopened_run]) (simp_all add: shut_def wal_defs fresh_dir_def)
qed (simp_all add: shut_def wal_defs fresh_dir_def)

lemma undone_removal_reported_clean: "misreported {PowerEarly}"
proof (rule misreportedI)
  show "(wal_step {PowerEarly})\<^sup>*\<^sup>* fresh_dir (crash True 0 (reopened True))"
    by (rule crash_run [OF reopened_run]) (simp_all add: shut_def wal_defs fresh_dir_def)
qed (simp_all add: shut_def wal_defs fresh_dir_def)

text \<open>A store whose format sentinel is missing or cannot be examined counts as new.\<close>

lemma missing_format_reported_clean: "misreported {FormatFails}"
proof (rule misreportedI)
  let ?F = "{FormatFails}" and ?o = "open_store True True True False fresh_dir :: string wal_state"
  have "wal_step ?F fresh_dir ?o" by (intro wal_step.opens) (simp_all add: fresh_dir_def)
  moreover have "wal_step ?F ?o (write_lands ''put'' ?o)" by (intro wal_step.lands) (simp add: wal_defs)
  moreover have "wal_step ?F (write_lands ''put'' ?o) (write_flags (write_lands ''put'' ?o))" by (intro wal_step.flags) (simp_all add: wal_defs)
  ultimately have "(wal_step ?F)\<^sup>*\<^sup>* fresh_dir (write_flags (write_lands ''put'' ?o))"
    by (meson rtranclp.rtrancl_into_rtrancl rtranclp.rtrancl_refl)
  then show "(wal_step ?F)\<^sup>*\<^sup>* fresh_dir (crash False 0 (write_flags (write_lands ''put'' ?o)))"
    by (rule crash_run) (simp_all add: wal_defs fresh_dir_def)
qed (simp_all add: wal_defs fresh_dir_def)

lemma unseen_format_reported_clean: "misreported {StatFails}"
proof (rule misreportedI)
  show "(wal_step {StatFails})\<^sup>*\<^sup>* fresh_dir (crash False 0 written)"
    by (rule crash_run [OF written_run]) (simp_all add: wal_defs fresh_dir_def)
  show "False \<or> StatFails \<in> {StatFails}" by simp
qed (simp_all add: wal_defs fresh_dir_def)

end
