(* ===== verification/Circuit_Breaker.thy ===== *)
theory Circuit_Breaker
  imports Prelude
begin

text \<open>
  The circuit breaker in front of a cluster node (\<^verbatim>\<open>internal/cluster/circuit_breaker.go\<close>). The
  mutex makes \<^verbatim>\<open>allowRequest\<close>, \<^verbatim>\<open>recordFailure\<close>, \<^verbatim>\<open>recordSuccess\<close> and \<^verbatim>\<open>Reset\<close> atomic; the protected
  call itself runs outside of it, so the events of several calls interleave.
\<close>

section \<open>The breaker\<close>

datatype breaker_state = StateClosed | StateOpen | StateHalfOpen

record breaker =
  cb_failureThreshold :: int
  cb_successThreshold :: int
  cb_timeout :: int
  cb_state :: breaker_state
  cb_failures :: int
  cb_successes :: int
  cb_lastFailureTime :: gotime
  cb_nodeID :: string

definition NewCircuitBreaker :: "string \<Rightarrow> int \<Rightarrow> int \<Rightarrow> int \<Rightarrow> breaker" where
  "NewCircuitBreaker nodeID failureThreshold successThreshold timeout =
    \<lparr>cb_failureThreshold = failureThreshold, cb_successThreshold = successThreshold, cb_timeout = timeout,
     cb_state = StateClosed, cb_failures = 0, cb_successes = 0, cb_lastFailureTime = zero_time, cb_nodeID = nodeID\<rparr>"

definition allowRequest :: "gotime \<Rightarrow> breaker \<Rightarrow> bool \<times> breaker" where
  "allowRequest now cb =
    (case cb_state cb of
       StateClosed \<Rightarrow> (True, cb)
     | StateOpen \<Rightarrow>
         if time_Sub now (cb_lastFailureTime cb) > cb_timeout cb
         then (True, cb\<lparr>cb_state := StateHalfOpen, cb_successes := 0\<rparr>)
         else (False, cb)
     | StateHalfOpen \<Rightarrow> (True, cb))"

definition recordFailure :: "gotime \<Rightarrow> breaker \<Rightarrow> breaker" where
  "recordFailure now cb =
    (let cb = cb\<lparr>cb_failures := cb_failures cb + 1, cb_lastFailureTime := now\<rparr> in
     case cb_state cb of
       StateClosed \<Rightarrow>
         if cb_failures cb \<ge> cb_failureThreshold cb then cb\<lparr>cb_state := StateOpen, cb_failures := 0\<rparr> else cb
     | StateHalfOpen \<Rightarrow> cb\<lparr>cb_state := StateOpen, cb_failures := 0, cb_successes := 0\<rparr>
     | StateOpen \<Rightarrow> cb)"

definition recordSuccess :: "breaker \<Rightarrow> breaker" where
  "recordSuccess cb =
    (case cb_state cb of
       StateClosed \<Rightarrow> cb\<lparr>cb_failures := 0\<rparr>
     | StateHalfOpen \<Rightarrow>
         (let cb = cb\<lparr>cb_successes := cb_successes cb + 1\<rparr> in
          if cb_successes cb \<ge> cb_successThreshold cb
          then cb\<lparr>cb_state := StateClosed, cb_failures := 0, cb_successes := 0\<rparr> else cb)
     | StateOpen \<Rightarrow> cb)"

definition Reset :: "breaker \<Rightarrow> breaker" where
  "Reset cb = cb\<lparr>cb_state := StateClosed, cb_failures := 0, cb_successes := 0\<rparr>"

definition getTimeUntilRetry :: "gotime \<Rightarrow> breaker \<Rightarrow> int" where
  "getTimeUntilRetry now cb =
    (if cb_state cb \<noteq> StateOpen then 0
     else let remaining = sub64 (cb_timeout cb) (time_Sub now (cb_lastFailureTime cb)) in if remaining < 0 then 0 else remaining)"

text \<open>
  \<^verbatim>\<open>Call\<close> with nothing in between: \<open>ok\<close> is the outcome of the protected function, which runs only
  if the request is let through. The result is \<^const>\<open>None\<close> for \<^verbatim>\<open>ErrCircuitOpen\<close>.
\<close>

definition Call :: "gotime \<Rightarrow> bool \<Rightarrow> breaker \<Rightarrow> bool option \<times> breaker" where
  "Call now ok cb =
    (case allowRequest now cb of
       (False, cb') \<Rightarrow> (None, cb')
     | (True, cb') \<Rightarrow> if ok then (Some True, recordSuccess cb') else (Some False, recordFailure now cb'))"

section \<open>The manager of a cluster's breakers\<close>

record breaker_manager =
  bm_breakers :: "string \<rightharpoonup> breaker"
  bm_failureThreshold :: int
  bm_successThreshold :: int
  bm_timeout :: int

definition NewCircuitBreakerManager :: "int \<Rightarrow> int \<Rightarrow> int \<Rightarrow> breaker_manager" where
  "NewCircuitBreakerManager ft st timeout =
    \<lparr>bm_breakers = Map.empty, bm_failureThreshold = ft, bm_successThreshold = st, bm_timeout = timeout\<rparr>"

definition GetBreaker :: "string \<Rightarrow> breaker_manager \<Rightarrow> breaker \<times> breaker_manager" where
  "GetBreaker nodeID m =
    (case bm_breakers m nodeID of
       Some b \<Rightarrow> (b, m)
     | None \<Rightarrow>
         let b = NewCircuitBreaker nodeID (bm_failureThreshold m) (bm_successThreshold m) (bm_timeout m)
         in (b, m\<lparr>bm_breakers := (bm_breakers m)(nodeID \<mapsto> b)\<rparr>))"

definition RemoveBreaker :: "string \<Rightarrow> breaker_manager \<Rightarrow> breaker_manager" where
  "RemoveBreaker nodeID m = m\<lparr>bm_breakers := (bm_breakers m)(nodeID := None)\<rparr>"

definition ResetAll :: "breaker_manager \<Rightarrow> breaker_manager" where
  "ResetAll m = m\<lparr>bm_breakers := (\<lambda>n. map_option Reset (bm_breakers m n))\<rparr>"

section \<open>Interleaved events\<close>

datatype breaker_event = Asked gotime | Failed gotime | Succeeded | WasReset

fun on_event :: "breaker_event \<Rightarrow> breaker \<Rightarrow> breaker" where
  "on_event (Asked now) cb = snd (allowRequest now cb)"
| "on_event (Failed now) cb = recordFailure now cb"
| "on_event Succeeded cb = recordSuccess cb"
| "on_event WasReset cb = Reset cb"

definition breaker_inv :: "int \<Rightarrow> int \<Rightarrow> int \<Rightarrow> breaker \<Rightarrow> bool" where
  "breaker_inv ft st timeout cb \<longleftrightarrow>
     cb_failureThreshold cb = ft \<and> cb_successThreshold cb = st \<and> cb_timeout cb = timeout \<and>
     0 \<le> cb_failures cb \<and> 0 \<le> cb_successes cb \<and>
     (cb_state cb = StateClosed \<longrightarrow> cb_failures cb < ft) \<and>
     (cb_state cb = StateHalfOpen \<longrightarrow> cb_successes cb < st)"

lemmas breaker_defs = allowRequest_def recordFailure_def recordSuccess_def Reset_def Let_def

lemma breaker_inv_event:
  "breaker_inv ft st timeout cb \<Longrightarrow> 0 < ft \<Longrightarrow> 0 < st \<Longrightarrow> breaker_inv ft st timeout (on_event e cb)"
  by (cases e; cases "cb_state cb") (simp_all add: breaker_defs breaker_inv_def)

lemma breaker_inv_run:
  "0 < ft \<Longrightarrow> 0 < st \<Longrightarrow> breaker_inv ft st timeout (fold on_event es (NewCircuitBreaker n ft st timeout))"
  by (induction es rule: rev_induct)
    (simp_all add: breaker_inv_event, simp add: breaker_inv_def NewCircuitBreaker_def)

section \<open>Protection and recovery\<close>

definition calls :: "bool \<Rightarrow> gotime list \<Rightarrow> breaker \<Rightarrow> breaker" where
  "calls ok ts cb = fold (\<lambda>t cb. snd (Call t ok cb)) ts cb"

lemma calls_simps [simp]:
  "calls ok [] cb = cb" "calls ok (t # ts) cb = calls ok ts (snd (Call t ok cb))"
  by (simp_all add: calls_def)

lemma call_inv: "breaker_inv ft st timeout cb \<Longrightarrow> 0 < ft \<Longrightarrow> 0 < st \<Longrightarrow> breaker_inv ft st timeout (snd (Call t ok cb))"
  using breaker_inv_event [of ft st timeout cb "Asked t"] breaker_inv_event [of ft st timeout "snd (allowRequest t cb)" "Failed t"]
    breaker_inv_event [of ft st timeout "snd (allowRequest t cb)" Succeeded]
  by (auto simp: Call_def split: prod.split bool.split)

text \<open>A failed or refused call keeps an open breaker open; otherwise it opens it or counts one failure more.\<close>

lemma failing_call:
  assumes "breaker_inv ft st timeout cb"
  shows "cb_state (snd (Call t False cb)) = StateOpen \<or>
    cb_state cb = StateClosed \<and> cb_state (snd (Call t False cb)) = StateClosed \<and> cb_failures (snd (Call t False cb)) = cb_failures cb + 1"
  by (cases "cb_state cb") (auto simp: Call_def breaker_defs)

lemma failing_open: "cb_state cb = StateOpen \<Longrightarrow> cb_state (snd (Call t False cb)) = StateOpen"
  by (simp add: Call_def breaker_defs)

lemma failing_calls_open: "cb_state cb = StateOpen \<Longrightarrow> cb_state (calls False ts cb) = StateOpen"
  by (induction ts arbitrary: cb) (simp_all add: failing_open)

lemma failing_calls:
  assumes "breaker_inv ft st timeout cb" "0 < ft" "0 < st"
    and "cb_state cb = StateClosed \<longrightarrow> ft \<le> cb_failures cb + int (length ts)" "ts \<noteq> []"
  shows "cb_state (calls False ts cb) = StateOpen"
  using assms
proof (induction ts arbitrary: cb)
  case (Cons t ts)
  let ?c = "snd (Call t False cb)"
  show ?case
  proof (cases "cb_state ?c = StateOpen")
    case True
    then show ?thesis by (simp add: failing_calls_open)
  next
    case False
    then have c: "cb_state cb = StateClosed" "cb_state ?c = StateClosed" "cb_failures ?c = cb_failures cb + 1"
      using failing_call [OF Cons.prems(1), of t] by auto
    have inv: "breaker_inv ft st timeout ?c" using call_inv Cons.prems(1-3) by blast
    then have "cb_failures ?c < ft" using c by (simp add: breaker_inv_def)
    then have "ts \<noteq> []" using Cons.prems(4) c by auto
    with Cons.IH [OF inv Cons.prems(2,3)] Cons.prems(4) c show ?thesis by simp
  qed
qed simp

fun successes_missing :: "breaker \<Rightarrow> int" where
  "successes_missing cb = (case cb_state cb of StateClosed \<Rightarrow> 0
     | StateHalfOpen \<Rightarrow> cb_successThreshold cb - cb_successes cb | StateOpen \<Rightarrow> cb_successThreshold cb)"

lemma succeeding_call:
  assumes "breaker_inv ft st timeout cb" "0 < st" "cb_state cb = StateOpen \<longrightarrow> timeout < time_Sub t (cb_lastFailureTime cb)"
  shows "cb_state (snd (Call t True cb)) \<noteq> StateOpen \<and>
    successes_missing (snd (Call t True cb)) = (if cb_state cb = StateClosed then 0 else successes_missing cb - 1) \<and>
    cb_lastFailureTime (snd (Call t True cb)) = cb_lastFailureTime cb \<or>
    cb_state (snd (Call t True cb)) = StateClosed"
  using assms by (cases "cb_state cb") (auto simp: Call_def breaker_defs breaker_inv_def)

lemma closed_stays: "cb_state cb = StateClosed \<Longrightarrow> cb_state (calls True ts cb) = StateClosed"
  by (induction ts arbitrary: cb) (simp_all add: Call_def breaker_defs)

lemma succeeding_calls:
  assumes "breaker_inv ft st timeout cb" "0 < ft" "0 < st" "successes_missing cb \<le> int (length ts)"
    and "cb_state cb = StateOpen \<longrightarrow> (\<forall>t\<in>set ts. timeout < time_Sub t (cb_lastFailureTime cb))"
  shows "cb_state (calls True ts cb) = StateClosed"
  using assms
proof (induction ts arbitrary: cb)
  case Nil
  then show ?case by (cases "cb_state cb") (auto simp: breaker_inv_def)
next
  case (Cons t ts)
  let ?c = "snd (Call t True cb)"
  show ?case
  proof (cases "cb_state ?c = StateClosed")
    case True
    then show ?thesis by (simp add: closed_stays)
  next
    case False
    then have c: "cb_state ?c \<noteq> StateOpen" "successes_missing ?c = (if cb_state cb = StateClosed then 0 else successes_missing cb - 1)"
      using succeeding_call [OF Cons.prems(1,3), of t] Cons.prems(5) by auto
    have "cb_state cb \<noteq> StateClosed" using False closed_stays [of cb "[t]"] by auto
    then have "successes_missing ?c \<le> int (length ts)" using c(2) Cons.prems(4) by (simp del: successes_missing.simps)
    with Cons.IH [OF call_inv [OF Cons.prems(1-3)] Cons.prems(2,3)] c(1) show ?thesis by simp
  qed
qed

text \<open>
  C23. From every state that any interleaving of requests, failures, successes and resets can
  produce: \<^verbatim>\<open>failureThreshold\<close> failing calls in a row leave the breaker open; an open breaker refuses
  every call and changes nothing until more than the timeout has passed since the last failure;
  and after that \<^verbatim>\<open>successThreshold\<close> successful calls in a row close it.
\<close>

theorem breaker_protects_and_recovers:
  assumes "0 < ft" "0 < st" "- (2 ^ 63) \<le> timeout" "timeout < 2 ^ 63 - 1"
    and "cb = fold on_event es (NewCircuitBreaker n ft st timeout)"
  shows "(\<forall>ts. ft \<le> int (length ts) \<longrightarrow> cb_state (calls False ts cb) = StateOpen) \<and>
    (\<forall>now ok. cb_state cb = StateOpen \<and> now - cb_lastFailureTime cb \<le> timeout \<longrightarrow> Call now ok cb = (None, cb)) \<and>
    (\<forall>ts. st \<le> int (length ts) \<and> (\<forall>t\<in>set ts. timeout < t - cb_lastFailureTime cb) \<longrightarrow> cb_state (calls True ts cb) = StateClosed)"
proof (intro conjI allI impI)
  have inv: "breaker_inv ft st timeout cb" unfolding assms(5) by (rule breaker_inv_run [OF assms(1,2)])
  have sub: "timeout < time_Sub t u \<longleftrightarrow> timeout < t - u" for t u using time_Sub_greater assms(3,4) by blast
  show "cb_state (calls False ts cb) = StateOpen" if len: "ft \<le> int (length ts)" for ts
  proof (rule failing_calls [OF inv assms(1,2)])
    show "cb_state cb = StateClosed \<longrightarrow> ft \<le> cb_failures cb + int (length ts)"
      using inv len by (simp add: breaker_inv_def)
    show "ts \<noteq> []" using len assms(1) by auto
  qed
  show "Call now ok cb = (None, cb)" if "cb_state cb = StateOpen \<and> now - cb_lastFailureTime cb \<le> timeout" for now ok
    using that inv sub [of now] by (simp add: Call_def allowRequest_def breaker_inv_def)
  show "cb_state (calls True ts cb) = StateClosed"
    if "st \<le> int (length ts) \<and> (\<forall>t\<in>set ts. timeout < t - cb_lastFailureTime cb)" for ts
  proof (rule succeeding_calls [OF inv assms(1,2)])
    have "successes_missing cb \<le> st" using inv assms(2) by (cases "cb_state cb") (simp_all add: breaker_inv_def)
    with that show "successes_missing cb \<le> int (length ts)" by linarith
  qed (use that sub in simp)
qed

theorem breaker_protects_and_recovers_witness:
  "cb_state (calls False [seconds 1, seconds 2, seconds 3] (NewCircuitBreaker ''n1'' 3 2 (seconds 30))) = StateOpen \<and>
   cb_state (calls True [seconds 40, seconds 41]
     (fold on_event [Failed (seconds 1), Failed (seconds 2), Failed (seconds 3)] (NewCircuitBreaker ''n1'' 3 2 (seconds 30)))) = StateClosed"
proof -
  have range: "- (2 ^ 63) \<le> seconds 30" "seconds 30 < 2 ^ 63 - 1" by (simp_all add: seconds_def)
  let ?cb = "fold on_event [Failed (seconds 1), Failed (seconds 2), Failed (seconds 3)] (NewCircuitBreaker ''n1'' 3 2 (seconds 30))"
  have "cb_lastFailureTime ?cb = seconds 3" by code_simp
  then have late: "\<forall>t\<in>set [seconds 40, seconds 41]. seconds 30 < t - cb_lastFailureTime ?cb" by (simp add: seconds_def)
  note new = breaker_protects_and_recovers [OF _ _ range, of 3 2 "NewCircuitBreaker ''n1'' 3 2 (seconds 30)" "[]" "''n1''"]
  note run = breaker_protects_and_recovers [OF _ _ range, of 3 2 ?cb
    "[Failed (seconds 1), Failed (seconds 2), Failed (seconds 3)]" "''n1''"]
  have "cb_state (calls True [seconds 40, seconds 41] ?cb) = StateClosed"
    using run late by (simp del: calls_simps fold_simps on_event.simps)
  moreover have "cb_state (calls False [seconds 1, seconds 2, seconds 3] (NewCircuitBreaker ''n1'' 3 2 (seconds 30))) = StateOpen"
    using new by (simp del: calls_simps)
  ultimately show ?thesis by (rule conjI [rotated])
qed

end
