(* ===== verification/Rate_Limiter.thy ===== *)
theory Rate_Limiter
  imports Prelude
begin

text \<open>
  The login rate limiter (\<^verbatim>\<open>internal/auth/rate_limiter.go\<close>): attempts per client address in a
  window that starts with the first attempt. Every method holds the mutex, so a run of the
  limiter is a sequence of method calls at non-decreasing times.
\<close>

section \<open>The limiter\<close>

record rate_limit_attempt =
  ra_Count :: int
  ra_FirstTry :: gotime
  ra_LastTry :: gotime

record login_rate_limiter =
  rl_attempts :: "string \<rightharpoonup> rate_limit_attempt"
  rl_maxAttempts :: int
  rl_windowSeconds :: int

definition NewLoginRateLimiter :: "int \<Rightarrow> int \<Rightarrow> login_rate_limiter" where
  "NewLoginRateLimiter maxAttempts windowSeconds =
    \<lparr>rl_attempts = Map.empty, rl_maxAttempts = maxAttempts, rl_windowSeconds = windowSeconds\<rparr>"

text \<open>\<^verbatim>\<open>time.Duration(l.windowSeconds)*time.Second\<close> is a product of \<^verbatim>\<open>int64\<close>s.\<close>

definition window :: "login_rate_limiter \<Rightarrow> int" where
  "window l = wrap64 (rl_windowSeconds l * 1000000000)"

definition expired :: "gotime \<Rightarrow> login_rate_limiter \<Rightarrow> rate_limit_attempt \<Rightarrow> bool" where
  "expired now l a \<longleftrightarrow> window l < time_Sub now (ra_FirstTry a)"

definition first_attempt :: "gotime \<Rightarrow> rate_limit_attempt" where
  "first_attempt now = \<lparr>ra_Count = 1, ra_FirstTry = now, ra_LastTry = now\<rparr>"

definition AllowLogin :: "gotime \<Rightarrow> string \<Rightarrow> login_rate_limiter \<Rightarrow> bool" where
  "AllowLogin now ip l =
    (case rl_attempts l ip of
       None \<Rightarrow> True
     | Some a \<Rightarrow> if expired now l a then True else if ra_Count a \<ge> rl_maxAttempts l then False else True)"

definition RecordFailedAttempt :: "gotime \<Rightarrow> string \<Rightarrow> login_rate_limiter \<Rightarrow> login_rate_limiter" where
  "RecordFailedAttempt now ip l =
    (case rl_attempts l ip of
       None \<Rightarrow> l\<lparr>rl_attempts := (rl_attempts l)(ip \<mapsto> first_attempt now)\<rparr>
     | Some a \<Rightarrow>
         if expired now l a then l\<lparr>rl_attempts := (rl_attempts l)(ip \<mapsto> first_attempt now)\<rparr>
         else l\<lparr>rl_attempts := (rl_attempts l)(ip \<mapsto> a\<lparr>ra_Count := ra_Count a + 1, ra_LastTry := now\<rparr>)\<rparr>)"

definition UpdateMaxAttempts :: "int \<Rightarrow> login_rate_limiter \<Rightarrow> login_rate_limiter" where
  "UpdateMaxAttempts n l = (if n \<le> 0 then l else l\<lparr>rl_maxAttempts := n\<rparr>)"

definition ResetIP :: "string \<Rightarrow> login_rate_limiter \<Rightarrow> login_rate_limiter" where
  "ResetIP ip l = l\<lparr>rl_attempts := (rl_attempts l)(ip := None)\<rparr>"

definition CheckAndRecord :: "gotime \<Rightarrow> string \<Rightarrow> login_rate_limiter \<Rightarrow> bool \<times> login_rate_limiter" where
  "CheckAndRecord now ip l =
    (case rl_attempts l ip of
       None \<Rightarrow> (True, l\<lparr>rl_attempts := (rl_attempts l)(ip \<mapsto> first_attempt now)\<rparr>)
     | Some a \<Rightarrow>
         if expired now l a then (True, l\<lparr>rl_attempts := (rl_attempts l)(ip \<mapsto> first_attempt now)\<rparr>)
         else if ra_Count a \<ge> rl_maxAttempts l then (False, l)
         else (True, l\<lparr>rl_attempts := (rl_attempts l)(ip \<mapsto> a\<lparr>ra_Count := ra_Count a + 1, ra_LastTry := now\<rparr>)\<rparr>))"

definition GetAttempts :: "gotime \<Rightarrow> string \<Rightarrow> login_rate_limiter \<Rightarrow> int" where
  "GetAttempts now ip l =
    (case rl_attempts l ip of None \<Rightarrow> 0 | Some a \<Rightarrow> if expired now l a then 0 else ra_Count a)"

definition cleanup :: "gotime \<Rightarrow> login_rate_limiter \<Rightarrow> login_rate_limiter" where
  "cleanup now l = l\<lparr>rl_attempts := (\<lambda>ip. case rl_attempts l ip of
     None \<Rightarrow> None
   | Some a \<Rightarrow> if window l < time_Sub now (ra_LastTry a) then None else Some a)\<rparr>"

section \<open>Runs\<close>

datatype limiter_event = Attempt string gotime | Cleanup gotime

fun event_time :: "limiter_event \<Rightarrow> gotime" where
  "event_time (Attempt ip t) = t"
| "event_time (Cleanup t) = t"

text \<open>A run returns the attempts it let through, with their times, in order.\<close>

fun limiter_run :: "limiter_event list \<Rightarrow> login_rate_limiter \<Rightarrow> (string \<times> gotime) list \<times> login_rate_limiter" where
  "limiter_run [] l = ([], l)"
| "limiter_run (Attempt ip t # es) l =
    (case CheckAndRecord t ip l of (ok, l') \<Rightarrow>
     case limiter_run es l' of (as, l'') \<Rightarrow> (if ok then (ip, t) # as else as, l''))"
| "limiter_run (Cleanup t # es) l = limiter_run es (cleanup t l)"

definition in_interval :: "string \<Rightarrow> gotime \<Rightarrow> gotime \<Rightarrow> (string \<times> gotime) list \<Rightarrow> nat" where
  "in_interval ip t u as = length (filter (\<lambda>(i, x). i = ip \<and> t \<le> x \<and> x \<le> u) as)"

section \<open>Windows of allowed attempts\<close>

text \<open>
  The times at which attempts of one address were let through fall into windows: each window
  begins with its first attempt, lasts at most \<open>w\<close>, holds at most \<open>m\<close> attempts, and the next one
  begins after it has expired. Windows are listed with the latest first.
\<close>

fun windows_ok :: "nat \<Rightarrow> int \<Rightarrow> gotime list list \<Rightarrow> bool" where
  "windows_ok m w [] \<longleftrightarrow> True"
| "windows_ok m w (g # gs) \<longleftrightarrow> g \<noteq> [] \<and> length g \<le> m \<and> (\<forall>x\<in>set g. hd g \<le> x \<and> x \<le> hd g + w) \<and>
     (\<forall>g'\<in>set gs. hd g' + w < hd g) \<and> windows_ok m w gs"

definition count_in :: "gotime \<Rightarrow> gotime \<Rightarrow> gotime list list \<Rightarrow> nat" where
  "count_in t u gs = length (filter (\<lambda>x. t \<le> x \<and> x \<le> u) (concat gs))"

lemma count_in_simps [simp]:
  "count_in t u [] = 0"
  "count_in t u (g # gs) = length (filter (\<lambda>x. t \<le> x \<and> x \<le> u) g) + count_in t u gs"
  by (simp_all add: count_in_def)

text \<open>An interval of length \<open>w\<close> that ends before a window does not reach the one before the last.\<close>

lemma count_in_before:
  "windows_ok m w gs \<Longrightarrow> \<forall>g\<in>set gs. hd g + w < t \<Longrightarrow> count_in t u gs = 0"
proof (induction gs)
  case (Cons g gs)
  then have "filter (\<lambda>x. t \<le> x \<and> x \<le> u) g = []" by (fastforce simp: filter_empty_conv)
  with Cons show ?case by simp
qed simp

lemma count_in_one: "windows_ok m w gs \<Longrightarrow> gs \<noteq> [] \<Longrightarrow> hd (hd gs) \<le> t \<Longrightarrow> count_in t u gs \<le> m"
proof (cases gs)
  case (Cons g gs')
  assume ok: "windows_ok m w gs" and t: "hd (hd gs) \<le> t"
  have "count_in t u gs' = 0"
    using ok t Cons by (intro count_in_before [of m w]) auto
  moreover have "length (filter (\<lambda>x. t \<le> x \<and> x \<le> u) g) \<le> m"
    using ok Cons by (simp add: order_trans [OF length_filter_le])
  ultimately show ?thesis using Cons by simp
qed simp

lemma count_in_two: "windows_ok m w gs \<Longrightarrow> count_in t (t + w) gs \<le> 2 * m"
proof (induction gs)
  case (Cons g gs)
  show ?case
  proof (cases "filter (\<lambda>x. t \<le> x \<and> x \<le> t + w) g = []")
    case True
    with Cons show ?thesis by simp
  next
    case False
    then obtain x where "x \<in> set g" "x \<le> t + w" by (auto simp: filter_empty_conv)
    then have f: "hd g \<le> t + w" using Cons.prems by fastforce
    have len: "length (filter (\<lambda>x. t \<le> x \<and> x \<le> t + w) g) \<le> m"
      using Cons.prems by (simp add: order_trans [OF length_filter_le])
    have "count_in t (t + w) gs \<le> m"
    proof (cases gs)
      case (Cons g' gs')
      have "hd g' + w < hd g" using Cons.prems Cons by simp
      then have "hd g' \<le> t" using f by linarith
      with count_in_one [of m w gs t "t + w"] Cons.prems Cons show ?thesis by simp
    qed simp
    with len show ?thesis by simp
  qed
qed simp

section \<open>The limiter keeps the windows\<close>

fun entry_ok :: "nat \<Rightarrow> int \<Rightarrow> gotime \<Rightarrow> rate_limit_attempt option \<Rightarrow> gotime list list \<Rightarrow> bool" where
  "entry_ok m w now None gs \<longleftrightarrow> windows_ok m w gs \<and> (\<forall>g\<in>set gs. hd g + w < now)"
| "entry_ok m w now (Some a) gs \<longleftrightarrow> windows_ok m w gs \<and> gs \<noteq> [] \<and> hd (hd gs) = ra_FirstTry a \<and>
     int (length (hd gs)) = ra_Count a \<and> ra_FirstTry a \<le> ra_LastTry a \<and> (\<forall>x\<in>set (hd gs). x \<le> now)"

definition limiter_inv :: "nat \<Rightarrow> int \<Rightarrow> gotime \<Rightarrow> login_rate_limiter \<Rightarrow> (string \<Rightarrow> gotime list list) \<Rightarrow> bool" where
  "limiter_inv m w now l gs \<longleftrightarrow> rl_maxAttempts l = int m \<and> window l = w \<and> (\<forall>ip. entry_ok m w now (rl_attempts l ip) (gs ip))"

lemma entry_later: "entry_ok m w now e gs \<Longrightarrow> now \<le> t \<Longrightarrow> entry_ok m w t e gs"
  by (cases e) force+

lemma entry_new:
  assumes "windows_ok m w gs" "\<forall>g\<in>set gs. hd g + w < t" "0 < m" "0 \<le> w"
  shows "entry_ok m w t (Some (first_attempt t)) ([t] # gs)"
  using assms by (simp add: first_attempt_def)

lemma entry_expired:
  assumes "entry_ok m w now (Some a) gs" "w < t - ra_FirstTry a" "0 \<le> w"
  shows "\<forall>g\<in>set gs. hd g + w < t"
proof -
  obtain g gs' where "gs = g # gs'" using assms(1) by (cases gs) auto
  with assms show ?thesis by fastforce
qed

lemma entry_again:
  assumes "entry_ok m w now (Some a) gs" "now \<le> t" "\<not> w < t - ra_FirstTry a" "ra_Count a < int m"
  shows "entry_ok m w t (Some (a\<lparr>ra_Count := ra_Count a + 1, ra_LastTry := t\<rparr>)) ((hd gs @ [t]) # tl gs)"
proof -
  obtain g gs' where gs: "gs = g # gs'" using assms(1) by (cases gs) auto
  have g: "g \<noteq> []" "hd g = ra_FirstTry a" "\<forall>x\<in>set g. x \<le> now" using assms(1) gs by simp_all
  then have "ra_FirstTry a \<le> t" using assms(2) hd_in_set [OF g(1)] by fastforce
  with assms gs g show ?thesis by (auto simp: hd_append)
qed

text \<open>The windows after one more attempt.\<close>

definition note_attempt :: "bool \<Rightarrow> bool \<Rightarrow> gotime \<Rightarrow> gotime list list \<Rightarrow> gotime list list" where
  "note_attempt ok fresh t gs = (if \<not> ok then gs else if fresh then [t] # gs else (hd gs @ [t]) # tl gs)"

lemma concat_note:
  "(fresh \<or> gs \<noteq> []) \<Longrightarrow> concat (rev (note_attempt ok fresh t gs)) = concat (rev gs) @ (if ok then [t] else [])"
  by (cases gs) (auto simp: note_attempt_def)

lemma attempt_step:
  assumes "limiter_inv m w now l gs" "now \<le> t" "0 < m" "0 \<le> w" "w < 2 ^ 63 - 1" "CheckAndRecord t ip l = (ok, l')"
  obtains fresh where "limiter_inv m w t l' (gs(ip := note_attempt ok fresh t (gs ip)))" "fresh \<or> gs ip \<noteq> []"
proof -
  have entry: "entry_ok m w now (rl_attempts l i) (gs i)" for i using assms(1) by (simp add: limiter_inv_def)
  have late: "entry_ok m w t (rl_attempts l i) (gs i)" for i using entry_later [OF entry assms(2)] .
  have w: "window l = w" "rl_maxAttempts l = int m" using assms(1) by (simp_all add: limiter_inv_def)
  have sub: "w < time_Sub t u \<longleftrightarrow> w < t - u" for u using time_Sub_greater [of w] assms(4,5) by simp
  have upd: "limiter_inv m w t (l\<lparr>rl_attempts := (rl_attempts l)(ip \<mapsto> e)\<rparr>) (gs(ip := gg))"
    if "entry_ok m w t (Some e) gg" for e gg
    using late w that by (simp add: limiter_inv_def window_def del: entry_ok.simps)
  show thesis
  proof (cases "rl_attempts l ip")
    case None
    have "\<forall>g\<in>set (gs ip). hd g + w < t" "windows_ok m w (gs ip)" using late [of ip] None by simp_all
    with upd [OF entry_new] assms(3,4,6) None that [of True] show thesis
      by (simp add: CheckAndRecord_def note_attempt_def del: entry_ok.simps)
  next
    case (Some a)
    note e = entry [of ip, unfolded Some]
    have ne: "gs ip \<noteq> []" using e by simp
    show thesis
    proof (cases "w < t - ra_FirstTry a")
      case True
      with upd [OF entry_new [OF _ entry_expired [OF e True assms(4)] assms(3,4)]] assms(6) Some e that [of True] show thesis
        by (simp add: CheckAndRecord_def expired_def w sub note_attempt_def)
    next
      case False
      show thesis
      proof (cases "ra_Count a < int m")
        case c: True
        with upd [OF entry_again [OF e assms(2) False c]] assms(6) Some ne False that [of False] show thesis
          by (simp add: CheckAndRecord_def expired_def w sub note_attempt_def del: entry_ok.simps)
      next
        case c: False
        have "limiter_inv m w t l gs" using late w by (simp add: limiter_inv_def)
        with c assms(6) Some e False that [of False] show thesis
          by (simp add: CheckAndRecord_def expired_def w sub note_attempt_def)
      qed
    qed
  qed
qed

lemma cleanup_step:
  assumes "limiter_inv m w now l gs" "now \<le> t" "0 \<le> w" "w < 2 ^ 63 - 1"
  shows "limiter_inv m w t (cleanup t l) gs"
proof -
  have "entry_ok m w t (rl_attempts (cleanup t l) ip) (gs ip)" for ip
  proof (cases "rl_attempts l ip")
    case None
    then have "entry_ok m w now None (gs ip)" using assms(1) unfolding limiter_inv_def by metis
    from entry_later [OF this assms(2)] None show ?thesis by (simp add: cleanup_def del: entry_ok.simps)
  next
    case (Some a)
    then have e: "entry_ok m w now (Some a) (gs ip)" using assms(1) unfolding limiter_inv_def by metis
    have w: "window l = w" using assms(1) by (simp add: limiter_inv_def)
    have sub: "w < time_Sub t (ra_LastTry a) \<longleftrightarrow> w < t - ra_LastTry a"
      using time_Sub_greater [of w] assms(3,4) by simp
    show ?thesis
    proof (cases "w < t - ra_LastTry a")
      case True
      then have "w < t - ra_FirstTry a" using e by simp
      from entry_expired [OF e this assms(3)] e True Some w sub show ?thesis by (simp add: cleanup_def)
    next
      case False
      with entry_later [OF e assms(2)] Some w sub show ?thesis by (simp add: cleanup_def del: entry_ok.simps)
    qed
  qed
  with assms(1) show ?thesis by (simp add: limiter_inv_def cleanup_def window_def)
qed

definition times_of :: "string \<Rightarrow> (string \<times> gotime) list \<Rightarrow> gotime list" where
  "times_of ip as = map snd (filter (\<lambda>(i, x). i = ip) as)"

lemma times_of_simps [simp]:
  "times_of ip [] = []" "times_of ip ((i, x) # as) = (if i = ip then x # times_of ip as else times_of ip as)"
  by (simp_all add: times_of_def)

lemma limiter_run_inv:
  assumes "limiter_inv m w now l gs" "0 < m" "0 \<le> w" "w < 2 ^ 63 - 1" "sorted (map event_time es)"
    and "\<forall>e\<in>set es. now \<le> event_time e" "limiter_run es l = (as, l')"
  shows "\<exists>gs' now'. limiter_inv m w now' l' gs' \<and> now' \<in> insert now (event_time ` set es) \<and>
    (\<forall>ip. concat (rev (gs' ip)) = concat (rev (gs ip)) @ times_of ip as)"
  using assms
proof (induction es arbitrary: now l gs as)
  case Nil
  then show ?case by auto
next
  case (Cons e es)
  show ?case
  proof (cases e)
    case (Cleanup t)
    have "limiter_inv m w t (cleanup t l) gs" using cleanup_step Cons.prems Cleanup by simp
    then obtain gs' now' where g: "limiter_inv m w now' l' gs'" "now' \<in> insert t (event_time ` set es)"
      "\<forall>ip. concat (rev (gs' ip)) = concat (rev (gs ip)) @ times_of ip as"
      using Cons.IH [of t "cleanup t l" gs as] Cons.prems(2-7) Cleanup by auto
    with Cleanup show ?thesis by auto
  next
    case (Attempt ip t)
    obtain ok l1 where l1: "CheckAndRecord t ip l = (ok, l1)" by force
    obtain as' where as': "limiter_run es l1 = (as', l')" "as = (if ok then (ip, t) # as' else as')"
      using Cons.prems(7) Attempt l1 by (auto split: prod.split_asm)
    obtain fresh where f: "limiter_inv m w t l1 (gs(ip := note_attempt ok fresh t (gs ip)))" "fresh \<or> gs ip \<noteq> []"
      using attempt_step [OF Cons.prems(1) _ Cons.prems(2-4) l1] Cons.prems(6) Attempt by auto
    define gs1 where "gs1 = gs(ip := note_attempt ok fresh t (gs ip))"
    obtain gs' now' where g: "limiter_inv m w now' l' gs'" "now' \<in> insert t (event_time ` set es)"
      "\<And>i. concat (rev (gs' i)) = concat (rev (gs1 i)) @ times_of i as'"
      using Cons.IH [of t l1 gs1 as'] f(1) Cons.prems(2-6) as'(1) Attempt by (auto simp: gs1_def [symmetric])
    have "concat (rev (gs' i)) = concat (rev (gs i)) @ times_of i as" for i
      using g(3) [of i] concat_note [OF f(2), of ok t] as'(2) by (auto simp: gs1_def)
    with g(1,2) Attempt show ?thesis by auto
  qed
qed

lemma in_interval_count:
  "concat (rev gs) = times_of ip as \<Longrightarrow> in_interval ip t u as = count_in t u gs"
proof -
  assume c: "concat (rev gs) = times_of ip as"
  have "in_interval ip t u as = length (filter (\<lambda>x. t \<le> x \<and> x \<le> u) (times_of ip as))"
  proof (induction as)
    case (Cons a as)
    then show ?case by (cases a) (simp add: in_interval_def)
  qed (simp add: in_interval_def)
  also have "\<dots> = length (filter (\<lambda>x. t \<le> x \<and> x \<le> u) (concat (rev gs)))" by (simp only: c)
  also have "\<dots> = count_in t u gs"
    by (induction gs) (simp_all add: count_in_def)
  finally show ?thesis .
qed

lemma refused_full:
  assumes "limiter_inv m w now l gs" "now \<le> t" "0 \<le> w" "w < 2 ^ 63 - 1" "\<not> fst (CheckAndRecord t ip l)"
  shows "m \<le> count_in (t - w) t (gs ip)"
proof -
  obtain a where a: "rl_attempts l ip = Some a" using assms(5) by (cases "rl_attempts l ip") (auto simp: CheckAndRecord_def)
  have inv: "window l = w" "rl_maxAttempts l = int m" "entry_ok m w now (Some a) (gs ip)"
    using assms(1) a [symmetric] unfolding limiter_inv_def by metis+
  then obtain g rest where g: "gs ip = g # rest" by (cases "gs ip") auto
  have r: "\<not> w < t - ra_FirstTry a" "int m \<le> ra_Count a"
    using assms(3-5) a inv time_Sub_greater [of w t "ra_FirstTry a"]
    by (auto simp: CheckAndRecord_def expired_def split: if_split_asm)
  have "filter (\<lambda>x. t - w \<le> x \<and> x \<le> t) g = g"
    using inv(3) g r(1) assms(2) by (fastforce intro: filter_True)
  moreover have "m \<le> length g" using inv(3) g r(2) by simp
  ultimately show ?thesis using g by simp
qed

text \<open>
  C22. What the limiter limits. The limiter counts from the first attempt of a window, so an interval may reach into two windows.
  Over any run of login attempts from any addresses and of
  cleanups, at non-decreasing times, no interval of the window's length holds more than twice
  \<^verbatim>\<open>maxAttempts\<close> attempts that an address was allowed; and an address is refused only if
  \<^verbatim>\<open>maxAttempts\<close> of its attempts were let through within one window's length before.
\<close>

theorem limiter_exact:
  assumes "0 < m" "0 \<le> ws" "ws * 1000000000 < 2 ^ 63 - 1" "sorted (map event_time es)"
    and "limiter_run es (NewLoginRateLimiter (int m) ws) = (as, l)"
  shows "(\<forall>ip t. in_interval ip t (t + ws * 1000000000) as \<le> 2 * m) \<and>
    (\<forall>ip t. (\<forall>e\<in>set es. event_time e \<le> t) \<and> \<not> fst (CheckAndRecord t ip l) \<longrightarrow>
       m \<le> in_interval ip (t - ws * 1000000000) t as)"
proof -
  define w where "w = ws * 1000000000"
  have w: "0 \<le> w" "w < 2 ^ 63 - 1" using assms(2,3) by (simp_all add: w_def)
  define now where "now = (if es = [] then 0 else event_time (hd es))"
  have "wrap64 w = w" using w by (intro wrap64_id) (simp add: i64_def)
  then have "limiter_inv m w now (NewLoginRateLimiter (int m) ws) (\<lambda>_. [])"
    by (simp add: limiter_inv_def NewLoginRateLimiter_def window_def w_def)
  moreover have "\<forall>e\<in>set es. now \<le> event_time e" using assms(4) by (cases es) (auto simp: now_def)
  ultimately obtain gs now' where g: "limiter_inv m w now' l gs" "now' \<in> insert now (event_time ` set es)"
    "\<And>ip. concat (rev (gs ip)) = times_of ip as"
    using limiter_run_inv [of m w now _ "\<lambda>_. []", OF _ assms(1) w assms(4) _ assms(5)] by auto
  show ?thesis unfolding w_def [symmetric]
  proof (intro conjI allI impI)
    show "in_interval ip t (t + w) as \<le> 2 * m" for ip t
    proof -
      have "windows_ok m w (gs ip)" using g(1) by (cases "rl_attempts l ip") (auto simp: limiter_inv_def dest!: spec [of _ ip])
      then show ?thesis using in_interval_count [OF g(3)] count_in_two by simp
    qed
  next
    fix ip t assume t: "(\<forall>e\<in>set es. event_time e \<le> t) \<and> \<not> fst (CheckAndRecord t ip l)"
    then have "es \<noteq> []" using assms(5) by (auto simp: NewLoginRateLimiter_def CheckAndRecord_def)
    then have "now \<in> event_time ` set es" by (auto simp: now_def)
    then have "now' \<le> t" using g(2) t by auto
    from refused_full [OF g(1) this w] t show "m \<le> in_interval ip (t - w) t as"
      using in_interval_count [OF g(3)] by simp
  qed
qed

theorem limiter_exact_witness:
  "fst (limiter_run [Attempt ''ip'' 0, Attempt ''ip'' 1, Attempt ''ip'' 2, Cleanup 3] (NewLoginRateLimiter (int 2) 60)) =
     [(''ip'', 0), (''ip'', 1)] \<and> in_interval ''ip'' 0 (0 + 60 * 1000000000) [(''ip'', 0), (''ip'', 1)] \<le> 2 * 2"
proof -
  let ?es = "[Attempt ''ip'' 0, Attempt ''ip'' 1, Attempt ''ip'' 2, Cleanup 3]"
  have f: "fst (limiter_run ?es (NewLoginRateLimiter (int 2) 60)) = [(''ip'', 0), (''ip'', 1)]"
    by (simp add: NewLoginRateLimiter_def CheckAndRecord_def first_attempt_def expired_def window_def time_Sub_def wrap64_def)
  then obtain l where r: "limiter_run ?es (NewLoginRateLimiter (int 2) 60) = ([(''ip'', 0), (''ip'', 1)], l)"
    by (metis prod.collapse)
  have "\<forall>ip t. in_interval ip t (t + 60 * 1000000000) [(''ip'', 0), (''ip'', 1)] \<le> 2 * 2"
    by (rule conjunct1 [OF limiter_exact [OF _ _ _ _ r]]) simp_all
  with f show ?thesis by blast
qed

end
