(* ===== verification/Bucket_Adapter.thy ===== *)
theory Bucket_Adapter
  imports Bucket_Policy
begin

text \<open>
  The configuration types of \<^verbatim>\<open>internal/bucket/types.go\<close> and \<^verbatim>\<open>interface.go\<close>, and the conversions of
  \<^verbatim>\<open>internal/bucket/adapter.go\<close> between them and the documents of the metadata store. A nil
  pointer is \<^const>\<open>None\<close>. The lemmas say which configurations survive the way to the store and
  back, and what the others lose.
\<close>

section \<open>Configuration types\<close>

record bucket_website_condition =
  bwc_HTTPErrorCodeReturnedEquals :: string
  bwc_KeyPrefixEquals :: string

record bucket_website_redirect =
  bwr_HostName :: string
  bwr_HTTPRedirectCode :: string
  bwr_Protocol :: string
  bwr_ReplaceKeyPrefixWith :: string
  bwr_ReplaceKeyWith :: string

record bucket_website_rule =
  bwu_Condition :: bucket_website_condition
  bwu_Redirect :: bucket_website_redirect

record website_config =
  wcf_IndexDocument :: string
  wcf_ErrorDocument :: string
  wcf_RoutingRules :: "bucket_website_rule list"

record versioning_config =
  vc_Status :: string

record bucket_tag =
  tg_Key :: string
  tg_Value :: string

record bucket_lifecycle_filter =
  blf_Prefix :: string
  blf_Tag :: "bucket_tag option"

record bucket_lifecycle_expiration =
  ble_Days :: "int option"
  ble_Date :: "gotime option"
  ble_ExpiredObjectDeleteMarker :: "bool option"

record bucket_lifecycle_transition =
  blt_Days :: "int option"
  blt_Date :: "gotime option"
  blt_StorageClass :: string

record noncurrent_version_expiration =
  nve_NoncurrentDays :: int

record lifecycle_abort =
  lab_DaysAfterInitiation :: int

record bucket_lifecycle_rule =
  blr_ID :: string
  blr_Status :: string
  blr_Filter :: bucket_lifecycle_filter
  blr_Expiration :: "bucket_lifecycle_expiration option"
  blr_NoncurrentVersionExpiration :: "noncurrent_version_expiration option"
  blr_Transition :: "bucket_lifecycle_transition option"
  blr_AbortIncompleteMultipartUpload :: "lifecycle_abort option"

record lifecycle_config =
  lc_Rules :: "bucket_lifecycle_rule list"

record bucket_cors_rule =
  bcr_ID :: string
  bcr_AllowedHeaders :: "string list"
  bcr_AllowedMethods :: "string list"
  bcr_AllowedOrigins :: "string list"
  bcr_ExposeHeaders :: "string list"
  bcr_MaxAgeSeconds :: "int option"

record cors_config =
  cc_CORSRules :: "bucket_cors_rule list"

record default_retention =
  dr_Mode :: string
  dr_Days :: "int option"
  dr_Years :: "int option"

record object_lock_rule =
  lrule_DefaultRetention :: "default_retention option"

record object_lock_config =
  olc_ObjectLockEnabled :: bool
  olc_Rule :: "object_lock_rule option"

record bucket_notification_filter =
  bnf_Prefix :: string
  bnf_Suffix :: string

record bucket_notification_target =
  bnt_ID :: string
  bnt_Endpoint :: string
  bnt_Events :: "string list"
  bnt_Filter :: "bucket_notification_filter option"

record notification_config =
  nc_TopicConfigurations :: "bucket_notification_target list"
  nc_QueueConfigurations :: "bucket_notification_target list"
  nc_LambdaConfigurations :: "bucket_notification_target list"

record encryption_config =
  ec_Type :: string
  ec_KMSKeyID :: string

record public_access_block =
  pa_BlockPublicAcls :: bool
  pa_IgnorePublicAcls :: bool
  pa_BlockPublicPolicy :: bool
  pa_RestrictPublicBuckets :: bool

record ownership_controls_config =
  oc_ObjectOwnership :: string

record logging_config =
  lgc_TargetBucket :: string
  lgc_TargetPrefix :: string

record bucket =
  bk_Name :: string
  bk_TenantID :: string
  bk_OwnerID :: string
  bk_OwnerType :: string
  bk_IsPublic :: bool
  bk_CreatedAt :: gotime
  bk_Region :: string
  bk_Versioning :: "versioning_config option"
  bk_ObjectLock :: "object_lock_config option"
  bk_Policy :: "policy option"
  bk_Lifecycle :: "lifecycle_config option"
  bk_CORS :: "cors_config option"
  bk_Encryption :: "encryption_config option"
  bk_PublicAccessBlock :: "public_access_block option"
  bk_Website :: "website_config option"
  bk_Notification :: "notification_config option"
  bk_Logging :: "logging_config option"
  bk_Tags :: smap
  bk_Metadata :: smap
  bk_ObjectCount :: int
  bk_TotalSize :: int
  bk_Quota :: "bucket_quota option"
  bk_HA :: "bucket_ha option"

section \<open>Conversions\<close>

definition toMetadataVersioning :: "versioning_config option \<Rightarrow> versioning_metadata option" where
  "toMetadataVersioning = map_option (\<lambda>v.
     \<lparr>vm_Enabled = (vc_Status v = ''Enabled''), vm_Status = vc_Status v, vm_MFADelete = False\<rparr>)"

definition fromMetadataVersioning :: "versioning_metadata option \<Rightarrow> versioning_config option" where
  "fromMetadataVersioning = map_option (\<lambda>v. \<lparr>vc_Status = vm_Status v\<rparr>)"

definition toMetadataRetention :: "default_retention option \<Rightarrow> retention_metadata option" where
  "toMetadataRetention = map_option (\<lambda>r.
     \<lparr>rt_Mode = dr_Mode r, rt_RetainUntilDate = zero_time, rt_Days = dr_Days r, rt_Years = dr_Years r\<rparr>)"

definition fromMetadataRetention :: "retention_metadata option \<Rightarrow> default_retention option" where
  "fromMetadataRetention = map_option (\<lambda>r.
     \<lparr>dr_Mode = rt_Mode r, dr_Days = rt_Days r, dr_Years = rt_Years r\<rparr>)"

definition toMetadataObjectLock :: "object_lock_config option \<Rightarrow> object_lock_metadata option" where
  "toMetadataObjectLock = map_option (\<lambda>c.
     \<lparr>olm_Enabled = olc_ObjectLockEnabled c,
      olm_Rule = map_option (\<lambda>r. \<lparr>olr_DefaultRetention = toMetadataRetention (lrule_DefaultRetention r)\<rparr>)
        (olc_Rule c)\<rparr>)"

definition fromMetadataObjectLock :: "object_lock_metadata option \<Rightarrow> object_lock_config option" where
  "fromMetadataObjectLock = map_option (\<lambda>c.
     \<lparr>olc_ObjectLockEnabled = olm_Enabled c,
      olc_Rule = map_option (\<lambda>r. \<lparr>lrule_DefaultRetention = fromMetadataRetention (olr_DefaultRetention r)\<rparr>)
        (olm_Rule c)\<rparr>)"

definition toMetadataStatement :: "statement \<Rightarrow> policy_statement" where
  "toMetadataStatement stmt = \<lparr>ps_Sid = st_Sid stmt, ps_Effect = st_Effect stmt,
     ps_Principal = st_Principal stmt, ps_Action = st_Action stmt, ps_Resource = st_Resource stmt,
     ps_Condition = st_Condition stmt\<rparr>"

definition toMetadataPolicy :: "policy option \<Rightarrow> policy_metadata option" where
  "toMetadataPolicy = map_option (\<lambda>p.
     \<lparr>pm_Version = pol_Version p, pm_Statement = map toMetadataStatement (pol_Statement p)\<rparr>)"

definition fromMetadataStatement :: "policy_statement \<Rightarrow> statement" where
  "fromMetadataStatement stmt = \<lparr>st_Sid = ps_Sid stmt, st_Effect = ps_Effect stmt,
     st_Principal = ps_Principal stmt, st_Action = ps_Action stmt, st_Resource = ps_Resource stmt,
     st_Condition = ps_Condition stmt\<rparr>"

definition fromMetadataPolicy :: "policy_metadata option \<Rightarrow> policy option" where
  "fromMetadataPolicy = map_option (\<lambda>p.
     \<lparr>pol_Version = pm_Version p, pol_Statement = map fromMetadataStatement (pm_Statement p)\<rparr>)"

text \<open>A missing number of days becomes 0 on the way to the store.\<close>

definition days_or_0 :: "int option \<Rightarrow> int" where
  "days_or_0 d = (case d of None \<Rightarrow> 0 | Some n \<Rightarrow> n)"

definition toMetadataLifecycleRule :: "bucket_lifecycle_rule \<Rightarrow> lifecycle_rule" where
  "toMetadataLifecycleRule r =
     \<lparr>lr_ID = blr_ID r, lr_Status = blr_Status r,
      lr_Filter = Some \<lparr>lf_Prefix = blf_Prefix (blr_Filter r), lf_Tags = [], lf_And = None\<rparr>,
      lr_Expiration = map_option (\<lambda>e.
        \<lparr>le_Days = days_or_0 (ble_Days e), le_Date = '''',
         le_ExpiredObjectDeleteMarker = (case ble_ExpiredObjectDeleteMarker e of None \<Rightarrow> False | Some d \<Rightarrow> d)\<rparr>)
        (blr_Expiration r),
      lr_Transitions = (case blr_Transition r of None \<Rightarrow> []
        | Some t \<Rightarrow> [\<lparr>lt_Days = days_or_0 (blt_Days t), lt_Date = '''', lt_StorageClass = blt_StorageClass t\<rparr>]),
      lr_NoncurrentVersionExpiration = map_option (\<lambda>n. \<lparr>ne_NoncurrentDays = nve_NoncurrentDays n\<rparr>)
        (blr_NoncurrentVersionExpiration r),
      lr_NoncurrentVersionTransitions = [],
      lr_AbortIncompleteMultipartUpload = map_option (\<lambda>a. \<lparr>ab_DaysAfterInitiation = lab_DaysAfterInitiation a\<rparr>)
        (blr_AbortIncompleteMultipartUpload r)\<rparr>"

definition toMetadataLifecycle :: "lifecycle_config option \<Rightarrow> lifecycle_metadata option" where
  "toMetadataLifecycle = map_option (\<lambda>l. \<lparr>lm_Rules = map toMetadataLifecycleRule (lc_Rules l)\<rparr>)"

definition fromMetadataLifecycleRule :: "lifecycle_rule \<Rightarrow> bucket_lifecycle_rule" where
  "fromMetadataLifecycleRule r =
     \<lparr>blr_ID = lr_ID r, blr_Status = lr_Status r,
      blr_Filter = (case lr_Filter r of None \<Rightarrow> \<lparr>blf_Prefix = '''', blf_Tag = None\<rparr>
        | Some f \<Rightarrow> \<lparr>blf_Prefix = lf_Prefix f, blf_Tag = None\<rparr>),
      blr_Expiration = map_option (\<lambda>e.
        \<lparr>ble_Days = Some (le_Days e), ble_Date = None,
         ble_ExpiredObjectDeleteMarker = Some (le_ExpiredObjectDeleteMarker e)\<rparr>) (lr_Expiration r),
      blr_NoncurrentVersionExpiration = map_option (\<lambda>n. \<lparr>nve_NoncurrentDays = ne_NoncurrentDays n\<rparr>)
        (lr_NoncurrentVersionExpiration r),
      blr_Transition = (case lr_Transitions r of [] \<Rightarrow> None
        | t # _ \<Rightarrow> Some \<lparr>blt_Days = Some (lt_Days t), blt_Date = None, blt_StorageClass = lt_StorageClass t\<rparr>),
      blr_AbortIncompleteMultipartUpload = map_option (\<lambda>a. \<lparr>lab_DaysAfterInitiation = ab_DaysAfterInitiation a\<rparr>)
        (lr_AbortIncompleteMultipartUpload r)\<rparr>"

definition fromMetadataLifecycle :: "lifecycle_metadata option \<Rightarrow> lifecycle_config option" where
  "fromMetadataLifecycle = map_option (\<lambda>l. \<lparr>lc_Rules = map fromMetadataLifecycleRule (lm_Rules l)\<rparr>)"

definition toMetadataCORS :: "cors_config option \<Rightarrow> cors_metadata option" where
  "toMetadataCORS = map_option (\<lambda>c. \<lparr>cm_Rules = map (\<lambda>r.
     \<lparr>cr_ID = bcr_ID r, cr_AllowedOrigins = bcr_AllowedOrigins r, cr_AllowedMethods = bcr_AllowedMethods r,
      cr_AllowedHeaders = bcr_AllowedHeaders r, cr_ExposeHeaders = bcr_ExposeHeaders r,
      cr_MaxAgeSeconds = (case bcr_MaxAgeSeconds r of None \<Rightarrow> 0 | Some n \<Rightarrow> n)\<rparr>) (cc_CORSRules c)\<rparr>)"

definition fromMetadataCORS :: "cors_metadata option \<Rightarrow> cors_config option" where
  "fromMetadataCORS = map_option (\<lambda>c. \<lparr>cc_CORSRules = map (\<lambda>r.
     \<lparr>bcr_ID = cr_ID r, bcr_AllowedHeaders = cr_AllowedHeaders r, bcr_AllowedMethods = cr_AllowedMethods r,
      bcr_AllowedOrigins = cr_AllowedOrigins r, bcr_ExposeHeaders = cr_ExposeHeaders r,
      bcr_MaxAgeSeconds = Some (cr_MaxAgeSeconds r)\<rparr>) (cm_Rules c)\<rparr>)"

definition toMetadataEncryption :: "encryption_config option \<Rightarrow> encryption_metadata option" where
  "toMetadataEncryption = map_option (\<lambda>e. \<lparr>em_Rules = [
     \<lparr>er_ApplyServerSideEncryptionByDefault =
        Some \<lparr>sse_Algorithm = ec_Type e, sse_KMSMasterKeyID = ec_KMSKeyID e\<rparr>,
      er_BucketKeyEnabled = False\<rparr>]\<rparr>)"

definition fromMetadataEncryption :: "encryption_metadata option \<Rightarrow> encryption_config option" where
  "fromMetadataEncryption e = (case e of None \<Rightarrow> None
     | Some c \<Rightarrow> (case em_Rules c of [] \<Rightarrow> None
       | rule # _ \<Rightarrow> map_option (\<lambda>a. \<lparr>ec_Type = sse_Algorithm a, ec_KMSKeyID = sse_KMSMasterKeyID a\<rparr>)
           (er_ApplyServerSideEncryptionByDefault rule)))"

definition toMetadataPublicAccessBlock :: "public_access_block option \<Rightarrow> public_access_block_metadata option" where
  "toMetadataPublicAccessBlock = map_option (\<lambda>p.
     \<lparr>pab_BlockPublicAcls = pa_BlockPublicAcls p, pab_IgnorePublicAcls = pa_IgnorePublicAcls p,
      pab_BlockPublicPolicy = pa_BlockPublicPolicy p, pab_RestrictPublicBuckets = pa_RestrictPublicBuckets p\<rparr>)"

definition fromMetadataPublicAccessBlock :: "public_access_block_metadata option \<Rightarrow> public_access_block option" where
  "fromMetadataPublicAccessBlock = map_option (\<lambda>p.
     \<lparr>pa_BlockPublicAcls = pab_BlockPublicAcls p, pa_IgnorePublicAcls = pab_IgnorePublicAcls p,
      pa_BlockPublicPolicy = pab_BlockPublicPolicy p, pa_RestrictPublicBuckets = pab_RestrictPublicBuckets p\<rparr>)"

definition toMetadataWebsiteRule :: "bucket_website_rule \<Rightarrow> website_routing_rule" where
  "toMetadataWebsiteRule rr = (let c = bwu_Condition rr; d = bwu_Redirect rr in
     \<lparr>wrr_Condition = \<lparr>wc_HTTPErrorCodeReturnedEquals = bwc_HTTPErrorCodeReturnedEquals c,
        wc_KeyPrefixEquals = bwc_KeyPrefixEquals c\<rparr>,
      wrr_Redirect = \<lparr>wr_HostName = bwr_HostName d, wr_HTTPRedirectCode = bwr_HTTPRedirectCode d,
        wr_Protocol = bwr_Protocol d, wr_ReplaceKeyPrefixWith = bwr_ReplaceKeyPrefixWith d,
        wr_ReplaceKeyWith = bwr_ReplaceKeyWith d\<rparr>\<rparr>)"

definition toMetadataWebsite :: "website_config option \<Rightarrow> website_metadata option" where
  "toMetadataWebsite = map_option (\<lambda>w.
     \<lparr>wm_IndexDocument = wcf_IndexDocument w, wm_ErrorDocument = wcf_ErrorDocument w,
      wm_RoutingRules = map toMetadataWebsiteRule (wcf_RoutingRules w)\<rparr>)"

definition fromMetadataWebsiteRule :: "website_routing_rule \<Rightarrow> bucket_website_rule" where
  "fromMetadataWebsiteRule rr = (let c = wrr_Condition rr; d = wrr_Redirect rr in
     \<lparr>bwu_Condition = \<lparr>bwc_HTTPErrorCodeReturnedEquals = wc_HTTPErrorCodeReturnedEquals c,
        bwc_KeyPrefixEquals = wc_KeyPrefixEquals c\<rparr>,
      bwu_Redirect = \<lparr>bwr_HostName = wr_HostName d, bwr_HTTPRedirectCode = wr_HTTPRedirectCode d,
        bwr_Protocol = wr_Protocol d, bwr_ReplaceKeyPrefixWith = wr_ReplaceKeyPrefixWith d,
        bwr_ReplaceKeyWith = wr_ReplaceKeyWith d\<rparr>\<rparr>)"

definition fromMetadataWebsite :: "website_metadata option \<Rightarrow> website_config option" where
  "fromMetadataWebsite = map_option (\<lambda>w.
     \<lparr>wcf_IndexDocument = wm_IndexDocument w, wcf_ErrorDocument = wm_ErrorDocument w,
      wcf_RoutingRules = map fromMetadataWebsiteRule (wm_RoutingRules w)\<rparr>)"

definition toMetadataTarget :: "bucket_notification_target \<Rightarrow> notification_target" where
  "toMetadataTarget t = \<lparr>nt_ID = bnt_ID t, nt_Endpoint = bnt_Endpoint t, nt_Events = bnt_Events t,
     nt_Filter = map_option (\<lambda>f. \<lparr>nf_Prefix = bnf_Prefix f, nf_Suffix = bnf_Suffix f\<rparr>) (bnt_Filter t)\<rparr>"

definition toMetadataNotification :: "notification_config option \<Rightarrow> notification_metadata option" where
  "toMetadataNotification = map_option (\<lambda>c.
     \<lparr>nm_TopicConfigurations = map toMetadataTarget (nc_TopicConfigurations c),
      nm_QueueConfigurations = map toMetadataTarget (nc_QueueConfigurations c),
      nm_LambdaConfigurations = map toMetadataTarget (nc_LambdaConfigurations c)\<rparr>)"

definition fromMetadataTarget :: "notification_target \<Rightarrow> bucket_notification_target" where
  "fromMetadataTarget t = \<lparr>bnt_ID = nt_ID t, bnt_Endpoint = nt_Endpoint t, bnt_Events = nt_Events t,
     bnt_Filter = map_option (\<lambda>f. \<lparr>bnf_Prefix = nf_Prefix f, bnf_Suffix = nf_Suffix f\<rparr>) (nt_Filter t)\<rparr>"

definition no_notification :: notification_config where
  "no_notification = \<lparr>nc_TopicConfigurations = [], nc_QueueConfigurations = [], nc_LambdaConfigurations = []\<rparr>"

definition fromMetadataNotification :: "notification_metadata option \<Rightarrow> notification_config" where
  "fromMetadataNotification m = (case m of None \<Rightarrow> no_notification
     | Some c \<Rightarrow> \<lparr>nc_TopicConfigurations = map fromMetadataTarget (nm_TopicConfigurations c),
         nc_QueueConfigurations = map fromMetadataTarget (nm_QueueConfigurations c),
         nc_LambdaConfigurations = map fromMetadataTarget (nm_LambdaConfigurations c)\<rparr>)"

definition toMetadataLogging :: "logging_config option \<Rightarrow> logging_metadata option" where
  "toMetadataLogging = map_option (\<lambda>l.
     \<lparr>lg_TargetBucket = lgc_TargetBucket l, lg_TargetPrefix = lgc_TargetPrefix l\<rparr>)"

definition fromMetadataLogging :: "logging_metadata option \<Rightarrow> logging_config option" where
  "fromMetadataLogging = map_option (\<lambda>l.
     \<lparr>lgc_TargetBucket = lg_TargetBucket l, lgc_TargetPrefix = lg_TargetPrefix l\<rparr>)"

text \<open>The whole bucket. No caller passes nil, so the argument is the bucket itself.\<close>

definition toMetadataBucket :: "bucket \<Rightarrow> bucket_metadata" where
  "toMetadataBucket b =
     \<lparr>bm_Name = bk_Name b, bm_TenantID = bk_TenantID b, bm_OwnerID = bk_OwnerID b,
      bm_OwnerType = bk_OwnerType b, bm_Region = bk_Region b, bm_IsPublic = bk_IsPublic b,
      bm_CreatedAt = bk_CreatedAt b, bm_UpdatedAt = bk_CreatedAt b,
      bm_Versioning = toMetadataVersioning (bk_Versioning b),
      bm_ObjectLock = toMetadataObjectLock (bk_ObjectLock b),
      bm_Policy = toMetadataPolicy (bk_Policy b),
      bm_Lifecycle = toMetadataLifecycle (bk_Lifecycle b),
      bm_CORS = toMetadataCORS (bk_CORS b),
      bm_Encryption = toMetadataEncryption (bk_Encryption b),
      bm_PublicAccessBlock = toMetadataPublicAccessBlock (bk_PublicAccessBlock b),
      bm_OwnershipControls = '''',
      bm_Website = toMetadataWebsite (bk_Website b),
      bm_Notification = None,
      bm_Logging = toMetadataLogging (bk_Logging b),
      bm_Tags = bk_Tags b, bm_Metadata = bk_Metadata b,
      bm_ObjectCount = bk_ObjectCount b, bm_TotalSize = bk_TotalSize b,
      bm_Quota = bk_Quota b, bm_HA = bk_HA b\<rparr>"

definition fromMetadataBucket :: "bucket_metadata \<Rightarrow> bucket" where
  "fromMetadataBucket mb =
     \<lparr>bk_Name = bm_Name mb, bk_TenantID = bm_TenantID mb, bk_OwnerID = bm_OwnerID mb,
      bk_OwnerType = bm_OwnerType mb, bk_IsPublic = bm_IsPublic mb, bk_CreatedAt = bm_CreatedAt mb,
      bk_Region = bm_Region mb,
      bk_Versioning = fromMetadataVersioning (bm_Versioning mb),
      bk_ObjectLock = fromMetadataObjectLock (bm_ObjectLock mb),
      bk_Policy = fromMetadataPolicy (bm_Policy mb),
      bk_Lifecycle = fromMetadataLifecycle (bm_Lifecycle mb),
      bk_CORS = fromMetadataCORS (bm_CORS mb),
      bk_Encryption = fromMetadataEncryption (bm_Encryption mb),
      bk_PublicAccessBlock = fromMetadataPublicAccessBlock (bm_PublicAccessBlock mb),
      bk_Website = fromMetadataWebsite (bm_Website mb),
      bk_Notification = None,
      bk_Logging = fromMetadataLogging (bm_Logging mb),
      bk_Tags = bm_Tags mb, bk_Metadata = bm_Metadata mb,
      bk_ObjectCount = bm_ObjectCount mb, bk_TotalSize = bm_TotalSize mb,
      bk_Quota = bm_Quota mb, bk_HA = bm_HA mb\<rparr>"

section \<open>What survives the store\<close>

lemma option_map_id: "(\<And>x. f (g x) = x) \<Longrightarrow> map_option f (map_option g c) = c"
  by (cases c) simp_all

lemma versioning_round_trip [simp]: "fromMetadataVersioning (toMetadataVersioning c) = c"
  unfolding fromMetadataVersioning_def toMetadataVersioning_def by (rule option_map_id) simp

lemma retention_round_trip [simp]: "fromMetadataRetention (toMetadataRetention c) = c"
  unfolding fromMetadataRetention_def toMetadataRetention_def by (rule option_map_id) simp

lemma object_lock_round_trip [simp]: "fromMetadataObjectLock (toMetadataObjectLock c) = c"
  unfolding fromMetadataObjectLock_def toMetadataObjectLock_def
  by (rule option_map_id) (simp add: option_map_id)

lemma item_round_trips [simp]:
  "fromMetadataStatement (toMetadataStatement st) = st"
  "fromMetadataWebsiteRule (toMetadataWebsiteRule w) = w"
  "fromMetadataTarget (toMetadataTarget t) = t"
  by (simp_all add: fromMetadataStatement_def toMetadataStatement_def fromMetadataWebsiteRule_def
      toMetadataWebsiteRule_def Let_def fromMetadataTarget_def toMetadataTarget_def option_map_id)

lemma policy_round_trip [simp]: "fromMetadataPolicy (toMetadataPolicy c) = c"
  unfolding fromMetadataPolicy_def toMetadataPolicy_def
  by (rule option_map_id) (simp add: comp_def)

lemma encryption_round_trip [simp]: "fromMetadataEncryption (toMetadataEncryption c) = c"
  by (cases c) (simp_all add: fromMetadataEncryption_def toMetadataEncryption_def)

lemma public_access_block_round_trip [simp]:
  "fromMetadataPublicAccessBlock (toMetadataPublicAccessBlock c) = c"
  unfolding fromMetadataPublicAccessBlock_def toMetadataPublicAccessBlock_def by (rule option_map_id) simp

lemma website_round_trip [simp]: "fromMetadataWebsite (toMetadataWebsite c) = c"
  unfolding fromMetadataWebsite_def toMetadataWebsite_def
  by (rule option_map_id) (simp add: comp_def)

lemma notification_round_trip [simp]: "fromMetadataNotification (toMetadataNotification (Some c)) = c"
  by (simp add: fromMetadataNotification_def toMetadataNotification_def comp_def)

lemma logging_round_trip [simp]: "fromMetadataLogging (toMetadataLogging c) = c"
  unfolding fromMetadataLogging_def toMetadataLogging_def by (rule option_map_id) simp

text \<open>
  A lifecycle rule survives exactly when it has no tag filter and no dates and writes out the
  number of days and the delete marker flag of its expiration and the days of its transition.
\<close>

lemma expiration_survives:
  "map_option (\<lambda>x. \<lparr>ble_Days = Some (days_or_0 (ble_Days x)), ble_Date = None,
     ble_ExpiredObjectDeleteMarker = Some (case ble_ExpiredObjectDeleteMarker x of None \<Rightarrow> False | Some d \<Rightarrow> d)\<rparr>) e = e
   \<longleftrightarrow> (\<forall>x. e = Some x \<longrightarrow> ble_Days x \<noteq> None \<and> ble_Date x = None \<and> ble_ExpiredObjectDeleteMarker x \<noteq> None)"
proof (cases e)
  case (Some x)
  then show ?thesis
    by (cases x; cases "ble_Days x"; cases "ble_ExpiredObjectDeleteMarker x") (auto simp: days_or_0_def)
qed simp

lemma transition_survives:
  "(case (case t of None \<Rightarrow> [] | Some t \<Rightarrow>
        [\<lparr>lt_Days = days_or_0 (blt_Days t), lt_Date = '''', lt_StorageClass = blt_StorageClass t\<rparr>]) of [] \<Rightarrow> None
      | t # _ \<Rightarrow> Some \<lparr>blt_Days = Some (lt_Days t), blt_Date = None, blt_StorageClass = lt_StorageClass t\<rparr>) = t
    \<longleftrightarrow> (\<forall>x. t = Some x \<longrightarrow> blt_Days x \<noteq> None \<and> blt_Date x = None)"
proof (cases t)
  case (Some x)
  then show ?thesis by (cases x) (auto simp: days_or_0_def split: option.splits)
qed simp

lemma filter_survives: "\<lparr>blf_Prefix = blf_Prefix f, blf_Tag = None\<rparr> = f \<longleftrightarrow> blf_Tag f = None"
  by (cases f) auto

lemma lifecycle_rule_survives:
  "fromMetadataLifecycleRule (toMetadataLifecycleRule r) = r \<longleftrightarrow>
     blf_Tag (blr_Filter r) = None \<and>
     (\<forall>x. blr_Expiration r = Some x \<longrightarrow>
        ble_Days x \<noteq> None \<and> ble_Date x = None \<and> ble_ExpiredObjectDeleteMarker x \<noteq> None) \<and>
     (\<forall>t. blr_Transition r = Some t \<longrightarrow> blt_Days t \<noteq> None \<and> blt_Date t = None)"
proof -
  have "map_option (\<lambda>n. \<lparr>nve_NoncurrentDays = ne_NoncurrentDays n\<rparr>)
      (map_option (\<lambda>n. \<lparr>ne_NoncurrentDays = nve_NoncurrentDays n\<rparr>) (blr_NoncurrentVersionExpiration r)) =
      blr_NoncurrentVersionExpiration r"
    by (rule option_map_id) simp
  moreover have "map_option (\<lambda>a. \<lparr>lab_DaysAfterInitiation = ab_DaysAfterInitiation a\<rparr>)
      (map_option (\<lambda>a. \<lparr>ab_DaysAfterInitiation = lab_DaysAfterInitiation a\<rparr>)
        (blr_AbortIncompleteMultipartUpload r)) = blr_AbortIncompleteMultipartUpload r"
    by (rule option_map_id) simp
  ultimately show ?thesis
    unfolding expiration_survives [symmetric] transition_survives [symmetric] filter_survives [symmetric]
    by (cases r) (simp add: fromMetadataLifecycleRule_def toMetadataLifecycleRule_def
        option.map_comp comp_def)
qed

end
