(* ===== verification/Bucket_Names.thy ===== *)
theory Bucket_Names
  imports Pebble_Store
begin

text \<open>
  Bucket names and bucket paths: \<^verbatim>\<open>internal/bucket/validation.go\<close>, the path builder of the bucket
  manager and the path parser of the object manager. A regular expression is written as the
  predicate it decides; Go anchors \<^verbatim>\<open>$\<close> at the end of the text.
\<close>

section \<open>Validation\<close>

definition is_lower :: "char \<Rightarrow> bool" where
  "is_lower c \<longleftrightarrow> CHR ''a'' \<le> c \<and> c \<le> CHR ''z''"

definition name_alnum :: "char \<Rightarrow> bool" where
  "name_alnum c \<longleftrightarrow> is_lower c \<or> is_digit c"

text \<open>\<^verbatim>\<open>^[a-z0-9]([a-z0-9\-]*[a-z0-9])?$\<close>\<close>

definition validBucketNameRegex :: "string \<Rightarrow> bool" where
  "validBucketNameRegex s \<longleftrightarrow> s \<noteq> [] \<and> name_alnum (hd s) \<and>
     (tl s = [] \<or> name_alnum (last (tl s)) \<and> list_all (\<lambda>c. name_alnum c \<or> c = CHR ''-'') (butlast (tl s)))"

text \<open>\<^verbatim>\<open>^(\d{1,3}\.){3}\d{1,3}$\<close>\<close>

definition ipAddressPattern :: "string \<Rightarrow> bool" where
  "ipAddressPattern s \<longleftrightarrow> (let fields = split_char CHR ''.'' s in
     length fields = 4 \<and> list_all (\<lambda>f. f \<noteq> [] \<and> length f \<le> 3 \<and> list_all is_digit f) fields)"

text \<open>\<^const>\<open>False\<close> stands for \<^verbatim>\<open>ErrInvalidBucketName\<close> with its explanation, \<^const>\<open>True\<close> for nil.\<close>

definition ValidateBucketName :: "string \<Rightarrow> bool" where
  "ValidateBucketName name =
     (if name = [] then False
      else if length name < 3 \<or> length name > 63 then False
      else if \<not> validBucketNameRegex name then False
      else if str_contains name ''--'' then False
      else if ipAddressPattern name then False
      else if HasPrefix name ''xn--'' then False
      else if HasSuffix name ''-s3alias'' then False
      else True)"

section \<open>Paths\<close>

definition getTenantBucketPath :: "string \<Rightarrow> string \<Rightarrow> string" where
  "getTenantBucketPath tenantID bucketName =
     (if tenantID = [] then bucketName else tenantID @ ''/'' @ bucketName)"

definition parseBucketPath :: "string \<Rightarrow> string \<times> string" where
  "parseBucketPath bucketPath = (case splitn_char CHR ''/'' 2 bucketPath of
     [t, n] \<Rightarrow> (t, n) | p # _ \<Rightarrow> ([], p) | [] \<Rightarrow> ([], []))"

section \<open>What a valid name gives\<close>

lemma getTenantBucketPath_mutation [simp]: "getTenantBucketPath = bucketPathForMutation"
  by (intro ext) (simp add: getTenantBucketPath_def bucketPathForMutation_def)

lemma not_alnum [simp]: "\<not> name_alnum CHR '':''" "\<not> name_alnum CHR ''/''" "\<not> name_alnum CHR ''.''"
  by (simp_all add: name_alnum_def is_lower_def is_digit_def less_eq_char_def)

lemma valid_name_chars:
  assumes "validBucketNameRegex s" "c \<in> set s"
  shows "name_alnum c \<or> c = CHR ''-''"
proof -
  obtain a r where s: "s = a # r" using assms(1) by (cases s) (auto simp: validBucketNameRegex_def)
  show ?thesis
  proof (cases "r = []")
    case False
    then have "set r = insert (last r) (set (butlast r))"
      by (metis append_butlast_last_id list.simps(15) rotate1.simps(2) set_rotate1)
    then show ?thesis using assms s False by (auto simp: validBucketNameRegex_def list_all_iff)
  qed (use assms s in \<open>auto simp: validBucketNameRegex_def\<close>)
qed

lemma valid_name_clean:
  assumes "ValidateBucketName n"
  shows "no_colon n" "CHR ''/'' \<notin> set n" "CHR ''.'' \<notin> set n" "n \<noteq> []"
proof -
  have "validBucketNameRegex n" "n \<noteq> []" using assms by (simp_all add: ValidateBucketName_def split: if_splits)
  then show "no_colon n" "CHR ''/'' \<notin> set n" "CHR ''.'' \<notin> set n" "n \<noteq> []"
    using valid_name_chars [of n] by (fastforce simp: no_colon_def)+
qed

text \<open>The tests for an address and for the \<^verbatim>\<open>xn--\<close> prefix are subsumed by the ones before them.\<close>

lemma contains_prefix: "str_contains s p \<Longrightarrow> str_contains (a # s) p"
  by (auto simp: str_contains_def)

lemma HasPrefix_contains: "HasPrefix s p \<Longrightarrow> str_contains s p"
  by (cases s) (auto simp: str_contains_def HasPrefix_def)

lemma validate_bucket_name_iff:
  "ValidateBucketName n \<longleftrightarrow> 3 \<le> length n \<and> length n \<le> 63 \<and> validBucketNameRegex n \<and>
     \<not> str_contains n ''--'' \<and> \<not> HasSuffix n ''-s3alias''"
proof -
  have "\<not> ipAddressPattern n" if v: "validBucketNameRegex n"
  proof -
    have "CHR ''.'' \<notin> set n" using valid_name_chars [OF v] by fastforce
    then show ?thesis by (simp add: ipAddressPattern_def split_char_none)
  qed
  moreover have "str_contains n ''--''" if xn: "HasPrefix n ''xn--''"
  proof -
    obtain r where "n = ''xn--'' @ r" using xn unfolding HasPrefix_iff by blast
    then have n: "n = CHR ''x'' # CHR ''n'' # ''--'' @ r" by simp
    show ?thesis unfolding n by (intro contains_prefix HasPrefix_contains HasPrefix_append)
  qed
  ultimately show ?thesis by (auto simp: ValidateBucketName_def)
qed

lemma parse_path:
  "CHR ''/'' \<notin> set t \<Longrightarrow> CHR ''/'' \<notin> set n \<Longrightarrow> parseBucketPath (getTenantBucketPath t n) = (t, n)"
  by (simp add: parseBucketPath_def bucketPathForMutation_def numeral_2_eq_2)

text \<open>
  C39. The path of a bucket with a valid name determines the bucket: the object manager's parser
  gives back the tenant and the name the bucket manager built the path from, two buckets with the
  same path are the same, and no field of a path or key can run into the next, since a valid name
  holds neither of the separators.
\<close>

theorem bucket_path_round_trip:
  assumes "ValidateBucketName n" "CHR ''/'' \<notin> set t"
  shows "parseBucketPath (getTenantBucketPath t n) = (t, n) \<and>
    (\<forall>t' n'. ValidateBucketName n' \<and> CHR ''/'' \<notin> set t' \<and> getTenantBucketPath t' n' = getTenantBucketPath t n \<longrightarrow>
       t' = t \<and> n' = n) \<and>
    no_colon n \<and> (no_colon t \<longrightarrow> no_colon (getTenantBucketPath t n))"
proof -
  have "parseBucketPath (getTenantBucketPath t' n') = (t', n')"
    if "ValidateBucketName n'" "CHR ''/'' \<notin> set t'" for t' n'
    using valid_name_clean(2) [OF that(1)] that(2) by (rule parse_path [rotated])
  note parse = this
  have "t' = t \<and> n' = n" if "ValidateBucketName n'" "CHR ''/'' \<notin> set t'"
    "getTenantBucketPath t' n' = getTenantBucketPath t n" for t' n'
    using parse [OF that(1,2)] parse [OF assms] that(3) by (metis Pair_inject)
  moreover have "no_colon n" using valid_name_clean(1) [OF assms(1)] .
  moreover from this have "no_colon t \<longrightarrow> no_colon (getTenantBucketPath t n)"
    by (simp add: bucketPathForMutation_def)
  ultimately show ?thesis using parse [OF assms] by blast
qed

theorem bucket_path_round_trip_witness:
  "ValidateBucketName ''my-photos'' \<and> parseBucketPath (getTenantBucketPath ''tenant-1'' ''my-photos'') = (''tenant-1'', ''my-photos'')"
proof -
  have "ValidateBucketName ''my-photos''"
    by (simp add: validate_bucket_name_iff validBucketNameRegex_def name_alnum_def is_lower_def less_eq_char_def
      str_contains_def HasPrefix_def HasSuffix_def)
  moreover have "CHR ''/'' \<notin> set ''tenant-1''" by simp
  ultimately show ?thesis using bucket_path_round_trip [of "''my-photos''" "''tenant-1''"] by (simp only: simp_thms)
qed

end
