(* ===== verification/Storage_Backend.thy ===== *)
theory Storage_Backend
  imports Pebble_Store
begin

text \<open>
  The interface of the object data store, \<^verbatim>\<open>internal/storage/backend.go\<close>, as the managers use it: a
  record of its calls over an arbitrary state, of which nothing is assumed. A call that fails may
  have changed the state, so a write returns its error together with the new state.
  \<open>be_RemoveDirectory\<close> is the optional call of the filesystem backend that the managers make
  through a type assertion and whose result they ignore. A running system is the metadata store
  with the data store beside it.
\<close>

definition map_get :: "smap \<Rightarrow> string \<Rightarrow> string" where
  "map_get m k = (case map_of m k of None \<Rightarrow> [] | Some v \<Rightarrow> v)"

datatype storage_error = StorageNotFound | StorageError string

record object_info =
  oi_Path :: string
  oi_Size :: int
  oi_LastModified :: int
  oi_ETag :: string
  oi_Metadata :: smap

text \<open>A reader as a call consumes it: the bytes it yields and the error that ends it, if it is not the end of file.\<close>

type_synonym reader = "string \<times> string option"

record 'fs backend =
  be_Put :: "string \<Rightarrow> reader \<Rightarrow> smap \<Rightarrow> 'fs \<Rightarrow> storage_error option \<times> 'fs"
  be_Get :: "string \<Rightarrow> 'fs \<Rightarrow> storage_error + (reader \<times> smap)"
  be_Delete :: "string \<Rightarrow> 'fs \<Rightarrow> storage_error option \<times> 'fs"
  be_Exists :: "string \<Rightarrow> 'fs \<Rightarrow> storage_error + bool"
  be_List :: "string \<Rightarrow> bool \<Rightarrow> 'fs \<Rightarrow> storage_error + object_info list"
  be_GetMetadata :: "string \<Rightarrow> 'fs \<Rightarrow> storage_error + smap"
  be_SetMetadata :: "string \<Rightarrow> smap \<Rightarrow> 'fs \<Rightarrow> storage_error option \<times> 'fs"
  be_RemoveDirectory :: "string \<Rightarrow> 'fs \<Rightarrow> 'fs"

record ('db, 'fs) system =
  sys_store :: "'db pstore"
  sys_fs :: 'fs

text \<open>A data store for examples: it holds nothing and answers every write as it is told to.\<close>

definition null_backend :: "storage_error option \<Rightarrow> unit backend" where
  "null_backend r = \<lparr>be_Put = \<lambda>p d m fs. (r, fs), be_Get = \<lambda>p fs. Inl StorageNotFound, be_Delete = \<lambda>p fs. (r, fs), be_Exists = \<lambda>p fs. Inr True,
     be_List = \<lambda>p b fs. Inr [], be_GetMetadata = \<lambda>p fs. Inr [], be_SetMetadata = \<lambda>p m fs. (r, fs),
     be_RemoveDirectory = \<lambda>p fs. fs\<rparr>"

end
