(* ===== verification/Bucket_Manager.thy ===== *)
theory Bucket_Manager
  imports Bucket_Adapter Bucket_Names Storage_Backend Acl
begin

text \<open>
  The bucket manager, \<^verbatim>\<open>internal/bucket/manager_impl.go\<close>, over the metadata store, the access control
  lists and the data store, and the visibility filter of \<^verbatim>\<open>internal/bucket/filter.go\<close>. The Go
  methods with the names of store operations have the prefix \<open>BM_\<close>. Each method that changes
  buckets returns the error, if any, together with the new state, because several of them return
  an error after they have changed something. Audit records and log messages are left out.
\<close>

section \<open>Errors and shared steps\<close>

datatype bucket_error =
    BucketNotFound
  | BucketAlreadyExists
  | BucketNotEmpty
  | InvalidBucketName
  | PolicyNotFound
  | LifecycleNotFound
  | CORSNotFound
  | WebsiteNotFound
  | EncryptionNotFound
  | PublicAccessBlockNotFound
  | OwnershipControlsNotFound
  | LoggingNotFound
  | BMsg string
  | BMeta meta_error
  | BStorage storage_error
  | BAcl acl_error

definition bucket_err :: "meta_error \<Rightarrow> bucket_error" where
  "bucket_err e = (if e = ErrBucketNotFound then BucketNotFound else BMeta e)"

text \<open>The first lines of every configuration method: load the bucket's document.\<close>

definition loadBucket :: "'db engine \<Rightarrow> string \<Rightarrow> string \<Rightarrow> 'db pstore \<Rightarrow> bucket_error + bucket_metadata" where
  "loadBucket E tenantID name s = (case GetBucket E tenantID name s of
     Inl e \<Rightarrow> Inl (bucket_err e) | Inr b \<Rightarrow> Inr b)"

text \<open>A configuration getter reads a field of the document, a setter writes it back changed.\<close>

definition readConfig :: "(bucket_metadata \<Rightarrow> bucket_error + 'c) \<Rightarrow> 'db engine \<Rightarrow> string \<Rightarrow> string \<Rightarrow> 'db pstore \<Rightarrow> bucket_error + 'c" where
  "readConfig get E tenantID name s = (case loadBucket E tenantID name s of Inl e \<Rightarrow> Inl e | Inr b \<Rightarrow> get b)"

definition writeConfig :: "(bucket_metadata \<Rightarrow> bucket_metadata) \<Rightarrow> 'db engine \<Rightarrow> gotime \<Rightarrow> string \<Rightarrow> string \<Rightarrow> 'db pstore \<Rightarrow> bucket_error + 'db pstore" where
  "writeConfig upd E now tenantID name s = (case loadBucket E tenantID name s of
     Inl e \<Rightarrow> Inl e
   | Inr b \<Rightarrow> (case UpdateBucket E now (Some (upd b)) s of Inl e \<Rightarrow> Inl (BMeta e) | Inr s' \<Rightarrow> Inr s'))"

definition or_error :: "bucket_error \<Rightarrow> 'c option \<Rightarrow> bucket_error + 'c" where
  "or_error e c = (case c of None \<Rightarrow> Inl e | Some x \<Rightarrow> Inr x)"

section \<open>Creating and deleting buckets\<close>

definition marker_path :: "string \<Rightarrow> string \<Rightarrow> string" where
  "marker_path tenantID name = getTenantBucketPath tenantID name @ ''/'' @ ''.maxiofs-bucket''"

definition new_bucket :: "gotime \<Rightarrow> string \<Rightarrow> string \<Rightarrow> string \<Rightarrow> string \<Rightarrow> bucket" where
  "new_bucket now tenantID name ownerType ownerID =
     \<lparr>bk_Name = name, bk_TenantID = tenantID, bk_OwnerID = ownerID, bk_OwnerType = ownerType,
      bk_IsPublic = False, bk_CreatedAt = now, bk_Region = ''us-east-1'', bk_Versioning = None,
      bk_ObjectLock = None, bk_Policy = None, bk_Lifecycle = None, bk_CORS = None, bk_Encryption = None,
      bk_PublicAccessBlock = None, bk_Website = None, bk_Notification = None, bk_Logging = None,
      bk_Tags = [], bk_Metadata = [], bk_ObjectCount = 0, bk_TotalSize = 0, bk_Quota = None, bk_HA = None\<rparr>"

text \<open>What is undone when the marker file cannot be written; its own failures are only logged.\<close>

definition rollback_create :: "'db engine \<Rightarrow> string \<Rightarrow> string \<Rightarrow> 'db pstore \<Rightarrow> 'db pstore" where
  "rollback_create E tenantID name s = (let
     s = (case DeleteBucket E tenantID name s of Inl _ \<Rightarrow> s | Inr s' \<Rightarrow> s') in
     (case DeleteBucketACL (pebble_kv E) tenantID name s of Inl _ \<Rightarrow> s | Inr s' \<Rightarrow> s'))"

text \<open>\<open>fmt\<close> renders a time as \<^verbatim>\<open>time.RFC3339\<close> in the zone of the server.\<close>

definition BM_CreateBucket :: "'db engine \<Rightarrow> 'fs backend \<Rightarrow> (gotime \<Rightarrow> string) \<Rightarrow> gotime \<Rightarrow> string \<Rightarrow> string \<Rightarrow> string
    \<Rightarrow> ('db, 'fs) system \<Rightarrow> bucket_error option \<times> ('db, 'fs) system" where
  "BM_CreateBucket E B fmt now tenantID name ownerID sys =
     (if \<not> ValidateBucketName name then (Some InvalidBucketName, sys)
      else (let
        (ownerType, ownerID) = (if ownerID = [] \<and> tenantID \<noteq> [] then (''tenant'', tenantID) else (''user'', ownerID));
        bucket = new_bucket now tenantID name ownerType ownerID
      in case CreateBucket E now (Some (toMetadataBucket bucket)) (sys_store sys) of
           Inl e \<Rightarrow> (Some (if e = ErrBucketAlreadyExists then BucketAlreadyExists else BMeta e), sys)
         | Inr s1 \<Rightarrow> (let
             s2 = (case SetBucketACL (pebble_kv E) tenantID name (Some (CreateDefaultACL ownerID ''Bucket Owner'')) s1 of
                     Inl _ \<Rightarrow> s1 | Inr s \<Rightarrow> s)
           in case be_Put B (marker_path tenantID name) ([], None)
                  [(''bucket-created'', fmt (bk_CreatedAt bucket)), (''tenant-id'', tenantID)] (sys_fs sys) of
                (Some err, fs) \<Rightarrow> (Some (BStorage err), \<lparr>sys_store = rollback_create E tenantID name s2, sys_fs = fs\<rparr>)
              | (None, fs) \<Rightarrow> (None, \<lparr>sys_store = s2, sys_fs = fs\<rparr>))))"

definition BM_UpdateBucket :: "'db engine \<Rightarrow> gotime \<Rightarrow> string \<Rightarrow> string \<Rightarrow> bucket \<Rightarrow> 'db pstore \<Rightarrow> bucket_error + 'db pstore" where
  "BM_UpdateBucket E now tenantID name bucket s =
     (if bk_Name bucket \<noteq> name then Inl (BMsg ''bucket name mismatch'')
      else if bk_TenantID bucket \<noteq> tenantID then Inl (BMsg ''tenant ID mismatch'')
      else (case UpdateBucket E now (Some (toMetadataBucket bucket)) s of
        Inl e \<Rightarrow> Inl (bucket_err e) | Inr s' \<Rightarrow> Inr s'))"

definition BM_DeleteBucket :: "'db engine \<Rightarrow> 'fs backend \<Rightarrow> string \<Rightarrow> string \<Rightarrow> ('db, 'fs) system
    \<Rightarrow> bucket_error option \<times> ('db, 'fs) system" where
  "BM_DeleteBucket E B tenantID name sys = (case DeleteBucketIfEmpty E tenantID name (sys_store sys) of
     Inl e \<Rightarrow> (Some (if e = ErrBucketNotFound then BucketNotFound
                     else if e = ErrBucketNotEmpty then BucketNotEmpty else BMeta e), sys)
   | Inr s' \<Rightarrow> (case be_Delete B (marker_path tenantID name) (sys_fs sys) of (r, fs) \<Rightarrow>
       if r \<noteq> None \<and> r \<noteq> Some StorageNotFound then (map_option BStorage r, \<lparr>sys_store = s', sys_fs = fs\<rparr>)
       else (None, \<lparr>sys_store = s', sys_fs = be_RemoveDirectory B (getTenantBucketPath tenantID name) fs\<rparr>)))"

text \<open>
  The two loops of \<^verbatim>\<open>deleteAllObjectMetadataForBucket\<close>. Failures are logged and the loops go on.
  The second ranges over a Go map of the keys seen, here in order of first appearance.
\<close>

definition drop_version :: "'db engine \<Rightarrow> string \<Rightarrow> object_version \<Rightarrow> 'db pstore \<Rightarrow> 'db pstore" where
  "drop_version E bucketPath version s =
     (if ov_Key version = [] \<or> ov_VersionID version = [] then s
      else (case DeleteObjectVersion E bucketPath (ov_Key version) (ov_VersionID version) s of
        Inl _ \<Rightarrow> s | Inr s' \<Rightarrow> s'))"

definition drop_object :: "'db engine \<Rightarrow> string \<Rightarrow> string \<Rightarrow> 'db pstore \<Rightarrow> 'db pstore" where
  "drop_object E bucketPath key s = (case DeleteObject E bucketPath key [] s of Inl _ \<Rightarrow> s | Inr s' \<Rightarrow> s')"

definition deleteAllObjectMetadataForBucket :: "'db engine \<Rightarrow> string \<Rightarrow> 'db pstore \<Rightarrow> 'db pstore" where
  "deleteAllObjectMetadataForBucket E bucketPath s = (case ListAllObjectVersions E bucketPath [] 0 s of
     Inl _ \<Rightarrow> s
   | Inr versions \<Rightarrow> (let
       s = fold (drop_version E bucketPath) versions s;
       seenKeys = remdups (filter (\<lambda>k. k \<noteq> []) (map ov_Key versions))
     in fold (drop_object E bucketPath) seenKeys s))"

definition force_delete_file :: "'db engine \<Rightarrow> 'fs backend \<Rightarrow> string \<Rightarrow> object_info \<Rightarrow> ('db, 'fs) system \<Rightarrow> ('db, 'fs) system" where
  "force_delete_file E B bucketPath obj sys = (let prfx = bucketPath @ ''/''; objectKey = TrimPrefix (oi_Path obj) prfx in
     if HasSuffix (oi_Path obj) ''.maxiofs-bucket'' \<or> str_contains (oi_Path obj) ''/.maxiofs-'' then sys
     else if objectKey = [] then sys
     else \<lparr>sys_store = drop_object E bucketPath objectKey (sys_store sys),
           sys_fs = snd (be_Delete B (oi_Path obj) (sys_fs sys))\<rparr>)"

definition ForceDeleteBucket :: "'db engine \<Rightarrow> 'fs backend \<Rightarrow> string \<Rightarrow> string \<Rightarrow> ('db, 'fs) system
    \<Rightarrow> bucket_error option \<times> ('db, 'fs) system" where
  "ForceDeleteBucket E B tenantID name sys = (let bucketPath = getTenantBucketPath tenantID name in
     case GetBucket E tenantID name (sys_store sys) of
       Inl e \<Rightarrow> (Some (bucket_err e), sys)
     | Inr _ \<Rightarrow> (let sys = sys\<lparr>sys_store := deleteAllObjectMetadataForBucket E bucketPath (sys_store sys)\<rparr> in
       case be_List B (bucketPath @ ''/'') False (sys_fs sys) of
         Inl e \<Rightarrow> (Some (BStorage e), sys)
       | Inr objects \<Rightarrow> (let sys = fold (force_delete_file E B bucketPath) objects sys in
         case DeleteBucket E tenantID name (sys_store sys) of
           Inl e \<Rightarrow> (Some (bucket_err e), sys)
         | Inr s' \<Rightarrow> (None, \<lparr>sys_store = s', sys_fs = be_RemoveDirectory B bucketPath
               (snd (be_Delete B (bucketPath @ ''/'' @ ''.maxiofs-bucket'') (sys_fs sys)))\<rparr>))))"

section \<open>Reading buckets\<close>

definition BM_ListBuckets :: "'db engine \<Rightarrow> string \<Rightarrow> 'db pstore \<Rightarrow> bucket_error + bucket list" where
  "BM_ListBuckets E tenantID s = (case ListBuckets E tenantID s of
     Inl e \<Rightarrow> Inl (BMeta e) | Inr bs \<Rightarrow> Inr (map fromMetadataBucket bs))"

definition BM_BucketExists :: "'db engine \<Rightarrow> string \<Rightarrow> string \<Rightarrow> 'db pstore \<Rightarrow> bucket_error + bool" where
  "BM_BucketExists E tenantID name s = (case BucketExists E tenantID name s of Inl e \<Rightarrow> Inl (BMeta e) | Inr x \<Rightarrow> Inr x)"

definition GetBucketInfo :: "'db engine \<Rightarrow> string \<Rightarrow> string \<Rightarrow> 'db pstore \<Rightarrow> bucket_error + bucket" where
  "GetBucketInfo = readConfig (\<lambda>b. Inr (fromMetadataBucket b))"

definition containsRole :: "string list \<Rightarrow> string \<Rightarrow> bool" where
  "containsRole roles role \<longleftrightarrow> list_ex (\<lambda>r. r = role) roles"

text \<open>\<open>access\<close> is \<^verbatim>\<open>permManager.CheckBucketAccess\<close>, an interface the caller supplies.\<close>

definition FilterBucketsByPermissions :: "(string \<Rightarrow> string \<Rightarrow> string + bool) \<Rightarrow> bucket list \<Rightarrow> string \<Rightarrow> string list \<Rightarrow> bucket list" where
  "FilterBucketsByPermissions access buckets userID userRoles =
     (if containsRole userRoles ''admin'' then buckets
      else filter (\<lambda>b. bk_IsPublic b \<or> bk_OwnerID b = userID \<and> bk_OwnerType b = ''user'' \<or>
                       access (bk_Name b) userID = Inr True) buckets)"

section \<open>Configurations\<close>

definition GetBucketPolicy :: "'db engine \<Rightarrow> string \<Rightarrow> string \<Rightarrow> 'db pstore \<Rightarrow> bucket_error + policy" where
  "GetBucketPolicy = readConfig (\<lambda>b. or_error PolicyNotFound (fromMetadataPolicy (bm_Policy b)))"

definition SetBucketPolicy :: "'db engine \<Rightarrow> gotime \<Rightarrow> string \<Rightarrow> string \<Rightarrow> policy option \<Rightarrow> 'db pstore \<Rightarrow> bucket_error + 'db pstore" where
  "SetBucketPolicy E now tenantID name policy = writeConfig (\<lambda>b. b\<lparr>bm_Policy := toMetadataPolicy policy\<rparr>) E now tenantID name"

definition DeleteBucketPolicy :: "'db engine \<Rightarrow> gotime \<Rightarrow> string \<Rightarrow> string \<Rightarrow> 'db pstore \<Rightarrow> bucket_error + 'db pstore" where
  "DeleteBucketPolicy E now tenantID name = SetBucketPolicy E now tenantID name None"

definition GetVersioning :: "'db engine \<Rightarrow> string \<Rightarrow> string \<Rightarrow> 'db pstore \<Rightarrow> bucket_error + versioning_config" where
  "GetVersioning = readConfig (\<lambda>b. case fromMetadataVersioning (bm_Versioning b) of
     None \<Rightarrow> Inr \<lparr>vc_Status = ''Suspended''\<rparr> | Some v \<Rightarrow> Inr v)"

definition SetVersioning :: "'db engine \<Rightarrow> gotime \<Rightarrow> string \<Rightarrow> string \<Rightarrow> versioning_config option \<Rightarrow> 'db pstore \<Rightarrow> bucket_error + 'db pstore" where
  "SetVersioning E now tenantID name config = writeConfig (\<lambda>b. b\<lparr>bm_Versioning := toMetadataVersioning config\<rparr>) E now tenantID name"

definition GetLifecycle :: "'db engine \<Rightarrow> string \<Rightarrow> string \<Rightarrow> 'db pstore \<Rightarrow> bucket_error + lifecycle_config" where
  "GetLifecycle = readConfig (\<lambda>b. or_error LifecycleNotFound (fromMetadataLifecycle (bm_Lifecycle b)))"

definition SetLifecycle :: "'db engine \<Rightarrow> gotime \<Rightarrow> string \<Rightarrow> string \<Rightarrow> lifecycle_config option \<Rightarrow> 'db pstore \<Rightarrow> bucket_error + 'db pstore" where
  "SetLifecycle E now tenantID name config = writeConfig (\<lambda>b. b\<lparr>bm_Lifecycle := toMetadataLifecycle config\<rparr>) E now tenantID name"

definition DeleteLifecycle :: "'db engine \<Rightarrow> gotime \<Rightarrow> string \<Rightarrow> string \<Rightarrow> 'db pstore \<Rightarrow> bucket_error + 'db pstore" where
  "DeleteLifecycle E now tenantID name = SetLifecycle E now tenantID name None"

definition GetCORS :: "'db engine \<Rightarrow> string \<Rightarrow> string \<Rightarrow> 'db pstore \<Rightarrow> bucket_error + cors_config" where
  "GetCORS = readConfig (\<lambda>b. or_error CORSNotFound (fromMetadataCORS (bm_CORS b)))"

definition SetCORS :: "'db engine \<Rightarrow> gotime \<Rightarrow> string \<Rightarrow> string \<Rightarrow> cors_config option \<Rightarrow> 'db pstore \<Rightarrow> bucket_error + 'db pstore" where
  "SetCORS E now tenantID name config = writeConfig (\<lambda>b. b\<lparr>bm_CORS := toMetadataCORS config\<rparr>) E now tenantID name"

definition DeleteCORS :: "'db engine \<Rightarrow> gotime \<Rightarrow> string \<Rightarrow> string \<Rightarrow> 'db pstore \<Rightarrow> bucket_error + 'db pstore" where
  "DeleteCORS E now tenantID name = SetCORS E now tenantID name None"

definition GetWebsite :: "'db engine \<Rightarrow> string \<Rightarrow> string \<Rightarrow> 'db pstore \<Rightarrow> bucket_error + website_config" where
  "GetWebsite = readConfig (\<lambda>b. or_error WebsiteNotFound (fromMetadataWebsite (bm_Website b)))"

definition SetWebsite :: "'db engine \<Rightarrow> gotime \<Rightarrow> string \<Rightarrow> string \<Rightarrow> website_config option \<Rightarrow> 'db pstore \<Rightarrow> bucket_error + 'db pstore" where
  "SetWebsite E now tenantID name config = writeConfig (\<lambda>b. b\<lparr>bm_Website := toMetadataWebsite config\<rparr>) E now tenantID name"

definition DeleteWebsite :: "'db engine \<Rightarrow> gotime \<Rightarrow> string \<Rightarrow> string \<Rightarrow> 'db pstore \<Rightarrow> bucket_error + 'db pstore" where
  "DeleteWebsite = writeConfig (\<lambda>b. b\<lparr>bm_Website := None\<rparr>)"

definition SetQuota :: "'db engine \<Rightarrow> gotime \<Rightarrow> string \<Rightarrow> string \<Rightarrow> bucket_quota option \<Rightarrow> 'db pstore \<Rightarrow> bucket_error + 'db pstore" where
  "SetQuota E now tenantID name quota = writeConfig (\<lambda>b. b\<lparr>bm_Quota := quota\<rparr>) E now tenantID name"

definition DeleteQuota :: "'db engine \<Rightarrow> gotime \<Rightarrow> string \<Rightarrow> string \<Rightarrow> 'db pstore \<Rightarrow> bucket_error + 'db pstore" where
  "DeleteQuota E now tenantID name = SetQuota E now tenantID name None"

definition GetPublicAccessBlock :: "'db engine \<Rightarrow> string \<Rightarrow> string \<Rightarrow> 'db pstore \<Rightarrow> bucket_error + public_access_block" where
  "GetPublicAccessBlock = readConfig (\<lambda>b. or_error PublicAccessBlockNotFound (fromMetadataPublicAccessBlock (bm_PublicAccessBlock b)))"

definition SetPublicAccessBlock :: "'db engine \<Rightarrow> gotime \<Rightarrow> string \<Rightarrow> string \<Rightarrow> public_access_block option \<Rightarrow> 'db pstore \<Rightarrow> bucket_error + 'db pstore" where
  "SetPublicAccessBlock E now tenantID name config =
     writeConfig (\<lambda>b. b\<lparr>bm_PublicAccessBlock := toMetadataPublicAccessBlock config\<rparr>) E now tenantID name"

definition DeletePublicAccessBlock :: "'db engine \<Rightarrow> gotime \<Rightarrow> string \<Rightarrow> string \<Rightarrow> 'db pstore \<Rightarrow> bucket_error + 'db pstore" where
  "DeletePublicAccessBlock = writeConfig (\<lambda>b. b\<lparr>bm_PublicAccessBlock := None\<rparr>)"

definition GetOwnershipControls :: "'db engine \<Rightarrow> string \<Rightarrow> string \<Rightarrow> 'db pstore \<Rightarrow> bucket_error + ownership_controls_config" where
  "GetOwnershipControls = readConfig (\<lambda>b. if bm_OwnershipControls b = [] then Inl OwnershipControlsNotFound
     else Inr \<lparr>oc_ObjectOwnership = bm_OwnershipControls b\<rparr>)"

definition SetOwnershipControls :: "'db engine \<Rightarrow> gotime \<Rightarrow> string \<Rightarrow> string \<Rightarrow> ownership_controls_config \<Rightarrow> 'db pstore \<Rightarrow> bucket_error + 'db pstore" where
  "SetOwnershipControls E now tenantID name config =
     writeConfig (\<lambda>b. b\<lparr>bm_OwnershipControls := oc_ObjectOwnership config\<rparr>) E now tenantID name"

definition DeleteOwnershipControls :: "'db engine \<Rightarrow> gotime \<Rightarrow> string \<Rightarrow> string \<Rightarrow> 'db pstore \<Rightarrow> bucket_error + 'db pstore" where
  "DeleteOwnershipControls = writeConfig (\<lambda>b. b\<lparr>bm_OwnershipControls := []\<rparr>)"

definition GetLogging :: "'db engine \<Rightarrow> string \<Rightarrow> string \<Rightarrow> 'db pstore \<Rightarrow> bucket_error + logging_config" where
  "GetLogging = readConfig (\<lambda>b. or_error LoggingNotFound (fromMetadataLogging (bm_Logging b)))"

definition SetLogging :: "'db engine \<Rightarrow> gotime \<Rightarrow> string \<Rightarrow> string \<Rightarrow> logging_config option \<Rightarrow> 'db pstore \<Rightarrow> bucket_error + 'db pstore" where
  "SetLogging E now tenantID name config = writeConfig (\<lambda>b. b\<lparr>bm_Logging := toMetadataLogging config\<rparr>) E now tenantID name"

definition DeleteLogging :: "'db engine \<Rightarrow> gotime \<Rightarrow> string \<Rightarrow> string \<Rightarrow> 'db pstore \<Rightarrow> bucket_error + 'db pstore" where
  "DeleteLogging = writeConfig (\<lambda>b. b\<lparr>bm_Logging := None\<rparr>)"

definition GetEncryption :: "'db engine \<Rightarrow> string \<Rightarrow> string \<Rightarrow> 'db pstore \<Rightarrow> bucket_error + encryption_config" where
  "GetEncryption = readConfig (\<lambda>b. or_error EncryptionNotFound (fromMetadataEncryption (bm_Encryption b)))"

definition SetEncryption :: "'db engine \<Rightarrow> gotime \<Rightarrow> string \<Rightarrow> string \<Rightarrow> encryption_config option \<Rightarrow> 'db pstore \<Rightarrow> bucket_error + 'db pstore" where
  "SetEncryption E now tenantID name config = writeConfig (\<lambda>b. b\<lparr>bm_Encryption := toMetadataEncryption config\<rparr>) E now tenantID name"

definition DeleteEncryption :: "'db engine \<Rightarrow> gotime \<Rightarrow> string \<Rightarrow> string \<Rightarrow> 'db pstore \<Rightarrow> bucket_error + 'db pstore" where
  "DeleteEncryption = writeConfig (\<lambda>b. b\<lparr>bm_Encryption := None\<rparr>)"

definition GetNotification :: "'db engine \<Rightarrow> string \<Rightarrow> string \<Rightarrow> 'db pstore \<Rightarrow> bucket_error + notification_config" where
  "GetNotification = readConfig (\<lambda>b. Inr (fromMetadataNotification (bm_Notification b)))"

definition SetNotification :: "'db engine \<Rightarrow> gotime \<Rightarrow> string \<Rightarrow> string \<Rightarrow> notification_config option \<Rightarrow> 'db pstore \<Rightarrow> bucket_error + 'db pstore" where
  "SetNotification E now tenantID name config = writeConfig (\<lambda>b. b\<lparr>bm_Notification := toMetadataNotification config\<rparr>) E now tenantID name"

definition DeleteNotification :: "'db engine \<Rightarrow> gotime \<Rightarrow> string \<Rightarrow> string \<Rightarrow> 'db pstore \<Rightarrow> bucket_error + 'db pstore" where
  "DeleteNotification E now tenantID name = SetNotification E now tenantID name (Some no_notification)"

definition SetBucketTags :: "'db engine \<Rightarrow> gotime \<Rightarrow> string \<Rightarrow> string \<Rightarrow> smap \<Rightarrow> 'db pstore \<Rightarrow> bucket_error + 'db pstore" where
  "SetBucketTags E now tenantID name tags = writeConfig (\<lambda>b. b\<lparr>bm_Tags := tags\<rparr>) E now tenantID name"

definition GetObjectLockConfig :: "'db engine \<Rightarrow> string \<Rightarrow> string \<Rightarrow> 'db pstore \<Rightarrow> bucket_error + object_lock_config" where
  "GetObjectLockConfig = readConfig (\<lambda>b. case fromMetadataObjectLock (bm_ObjectLock b) of
     None \<Rightarrow> Inr \<lparr>olc_ObjectLockEnabled = False, olc_Rule = None\<rparr> | Some c \<Rightarrow> Inr c)"

definition SetObjectLockConfig :: "'db engine \<Rightarrow> gotime \<Rightarrow> string \<Rightarrow> string \<Rightarrow> object_lock_config option \<Rightarrow> 'db pstore \<Rightarrow> bucket_error + 'db pstore" where
  "SetObjectLockConfig E now tenantID name config = writeConfig (\<lambda>b. let
       b = b\<lparr>bm_ObjectLock := toMetadataObjectLock config\<rparr>
     in if (case config of None \<Rightarrow> False | Some c \<Rightarrow> olc_ObjectLockEnabled c)
        then b\<lparr>bm_Versioning := toMetadataVersioning (Some \<lparr>vc_Status = ''Enabled''\<rparr>)\<rparr> else b) E now tenantID name"

section \<open>Counters and access control lists\<close>

definition IncrementObjectCount :: "'db engine \<Rightarrow> gotime \<Rightarrow> string \<Rightarrow> string \<Rightarrow> int \<Rightarrow> 'db pstore \<Rightarrow> meta_error + 'db pstore" where
  "IncrementObjectCount E now tenantID name sizeBytes = UpdateBucketMetrics E now tenantID name 1 sizeBytes"

definition DecrementObjectCount :: "'db engine \<Rightarrow> gotime \<Rightarrow> string \<Rightarrow> string \<Rightarrow> int \<Rightarrow> 'db pstore \<Rightarrow> meta_error + 'db pstore" where
  "DecrementObjectCount E now tenantID name sizeBytes = UpdateBucketMetrics E now tenantID name (-1) (wrap64 (- sizeBytes))"

definition AdjustBucketSize :: "'db engine \<Rightarrow> gotime \<Rightarrow> string \<Rightarrow> string \<Rightarrow> int \<Rightarrow> 'db pstore \<Rightarrow> meta_error + 'db pstore" where
  "AdjustBucketSize E now tenantID name sizeDelta = UpdateBucketMetrics E now tenantID name 0 sizeDelta"

definition RecalculateMetrics :: "'db engine \<Rightarrow> gotime \<Rightarrow> string \<Rightarrow> string \<Rightarrow> 'db pstore \<Rightarrow> meta_error + 'db pstore" where
  "RecalculateMetrics E now tenantID name = RecalculateBucketStats E now tenantID name"

definition BM_GetBucketACL :: "'db engine \<Rightarrow> string \<Rightarrow> string \<Rightarrow> 'db pstore \<Rightarrow> bucket_error + acl" where
  "BM_GetBucketACL E tenantID name s = (case BM_BucketExists E tenantID name s of
     Inl e \<Rightarrow> Inl e
   | Inr False \<Rightarrow> Inl BucketNotFound
   | Inr True \<Rightarrow> (case GetBucketACL (pebble_kv E) tenantID name s of Inl e \<Rightarrow> Inl (BAcl e) | Inr a \<Rightarrow> Inr a))"

definition BM_SetBucketACL :: "'db engine \<Rightarrow> string \<Rightarrow> string \<Rightarrow> acl option \<Rightarrow> 'db pstore \<Rightarrow> bucket_error + 'db pstore" where
  "BM_SetBucketACL E tenantID name aclData s = (case BM_BucketExists E tenantID name s of
     Inl e \<Rightarrow> Inl e
   | Inr False \<Rightarrow> Inl BucketNotFound
   | Inr True \<Rightarrow> (case SetBucketACL (pebble_kv E) tenantID name aclData s of Inl e \<Rightarrow> Inl (BAcl e) | Inr s' \<Rightarrow> Inr s'))"

end
