(* ===== verification/Bucket_Manager_Props.thy ===== *)
theory Bucket_Manager_Props
  imports Bucket_Manager
begin

text \<open>
  What the bucket manager guarantees over a metadata store that does not fail. The locale
  \<open>bucket_config\<close> is the contract of a configuration: the setter leaves the bucket's key and
  counters alone and the getter reads what it wrote. It is interpreted on every configuration of
  the manager that survives the store, and its lemma gives the round trip of each.
\<close>

section \<open>Configurations\<close>

text \<open>
  The write \<open>r\<close> of a configuration worked, the getter returns it, no other entry of the store and no counter changed, and the bucket's
  document is the one from before but for its time of change and the fields that \<open>blank\<close> blanks.
\<close>

definition config_kept :: "'db engine \<Rightarrow> ('db \<Rightarrow> contents) \<Rightarrow> string \<Rightarrow> string \<Rightarrow> 'db pstore \<Rightarrow> bucket_error + 'db pstore
    \<Rightarrow> ('db pstore \<Rightarrow> bucket_error + 'c) \<Rightarrow> 'c \<Rightarrow> (bucket_metadata \<Rightarrow> bucket_metadata) \<Rightarrow> bool" where
  "config_kept E cont t n s r get c blank \<longleftrightarrow> (\<exists>s' b b'. r = Inr s' \<and> get s' = Inr c \<and>
     sto cont s (bucketKey t n) = Some (JBucket b) \<and> sto cont s' (bucketKey t n) = Some (JBucket b') \<and>
     blank b' = blank (b\<lparr>bm_UpdatedAt := bm_UpdatedAt b'\<rparr>) \<and>
     (\<forall>k. k \<noteq> bucketKey t n \<longrightarrow> sto cont s' k = sto cont s k) \<and>
     GetBucketStats E t n s' = GetBucketStats E t n s)"

context pebble_reliable
begin

lemma UpdateBucket_ok:
  assumes "sto cont s (bucketKey (bm_TenantID b) (bm_Name b)) \<noteq> None"
  shows "\<exists>s'. UpdateBucket E now (Some b) s = Inr s' \<and>
    sto cont s' = (sto cont s)(bucketKey (bm_TenantID b) (bm_Name b) \<mapsto> JBucket (b\<lparr>bm_UpdatedAt := now\<rparr>))"
proof -
  obtain s1 where "commitSync E [BSet (bucketKey (bm_TenantID b) (bm_Name b)) (JBucket (b\<lparr>bm_UpdatedAt := now\<rparr>))] s = Inr s1"
    using commit_total(2) by blast
  then obtain s' where s': "UpdateBucket E now (Some b) s = Inr s'"
    using assms by (auto simp: UpdateBucket_defs Let_def)
  with UpdateBucket_sound(2) [OF s'] show ?thesis by blast
qed

lemma loadBucket_ok: "sto cont s (bucketKey t n) = Some (JBucket b) \<Longrightarrow> loadBucket E t n s = Inr b"
  by (simp add: loadBucket_def GetBucket_ok)

lemma write_config_kept:
  assumes "typed (sto cont s)" "no_colon t" "sto cont s (bucketKey t n) \<noteq> None"
    and upd: "\<And>b. bm_TenantID (upd b) = bm_TenantID b" "\<And>b. bm_Name (upd b) = bm_Name b"
      "\<And>b. bm_ObjectCount (upd b) = bm_ObjectCount b" "\<And>b. bm_TotalSize (upd b) = bm_TotalSize b"
      "\<And>b. get ((upd b)\<lparr>bm_UpdatedAt := now\<rparr>) = Inr c" "\<And>b. blank ((upd b)\<lparr>bm_UpdatedAt := now\<rparr>) = blank (b\<lparr>bm_UpdatedAt := now\<rparr>)"
  shows "config_kept E cont t n s (writeConfig upd E now t n s) (readConfig get E t n) c blank"
proof -
  obtain b where b: "sto cont s (bucketKey t n) = Some (JBucket b)" "bm_TenantID b = t" "bm_Name b = n"
    using assms typed_bucket [OF assms(1) _ assms(2)] by blast
  obtain s' where s': "UpdateBucket E now (Some (upd b)) s = Inr s'"
    "sto cont s' = (sto cont s)(bucketKey t n \<mapsto> JBucket ((upd b)\<lparr>bm_UpdatedAt := now\<rparr>))"
    using UpdateBucket_ok [of s "upd b" now] b upd(1,2) by auto
  have new: "sto cont s' (bucketKey t n) = Some (JBucket ((upd b)\<lparr>bm_UpdatedAt := now\<rparr>))"
    unfolding s'(2) by simp
  have "writeConfig upd E now t n s = Inr s'"
    by (simp add: writeConfig_def loadBucket_ok [OF b(1)] s'(1))
  moreover have "readConfig get E t n s' = Inr c"
    using upd(5) by (simp add: readConfig_def loadBucket_ok [OF new])
  moreover have "GetBucketStats E t n s' = GetBucketStats E t n s"
    using upd(3,4) by (simp add: GetBucketStats_def GetBucket_ok [OF new] GetBucket_ok [OF b(1)])
  moreover have "\<forall>k. k \<noteq> bucketKey t n \<longrightarrow> sto cont s' k = sto cont s k" unfolding s'(2) by simp
  moreover have "blank ((upd b)\<lparr>bm_UpdatedAt := now\<rparr>) = blank (b\<lparr>bm_UpdatedAt := bm_UpdatedAt ((upd b)\<lparr>bm_UpdatedAt := now\<rparr>)\<rparr>)"
    using upd(6) by simp
  ultimately show ?thesis unfolding config_kept_def using b(1) new by blast
qed

end

locale bucket_config =
  fixes upd :: "'c \<Rightarrow> bucket_metadata \<Rightarrow> bucket_metadata" and get :: "bucket_metadata \<Rightarrow> bucket_error + 'c"
    and blank :: "'c \<Rightarrow> bucket_metadata \<Rightarrow> bucket_metadata"
  assumes keeps_key: "bm_TenantID (upd c b) = bm_TenantID b" "bm_Name (upd c b) = bm_Name b"
    and keeps_counters: "bm_ObjectCount (upd c b) = bm_ObjectCount b" "bm_TotalSize (upd c b) = bm_TotalSize b"
    and reads_back: "get ((upd c b)\<lparr>bm_UpdatedAt := now\<rparr>) = Inr c"
    and keeps_rest: "blank c ((upd c b)\<lparr>bm_UpdatedAt := now\<rparr>) = blank c (b\<lparr>bm_UpdatedAt := now\<rparr>)"
begin

lemma set_get:
  assumes "pebble_reliable E cont" "typed (sto cont s)" "no_colon t" "sto cont s (bucketKey t n) \<noteq> None"
  shows "config_kept E cont t n s (writeConfig (upd c) E now t n s) (readConfig get E t n) c (blank c)"
  by (rule pebble_reliable.write_config_kept [OF assms]) (simp_all add: keeps_key keeps_counters reads_back keeps_rest)

end

interpretation policy_cfg: bucket_config "\<lambda>p b. b\<lparr>bm_Policy := toMetadataPolicy (Some p)\<rparr>"
    "\<lambda>b. or_error PolicyNotFound (fromMetadataPolicy (bm_Policy b))" "\<lambda>_ b. b\<lparr>bm_Policy := None\<rparr>"
  by unfold_locales (simp_all add: or_error_def)

interpretation versioning_cfg: bucket_config "\<lambda>v b. b\<lparr>bm_Versioning := toMetadataVersioning (Some v)\<rparr>"
    "\<lambda>b. case fromMetadataVersioning (bm_Versioning b) of None \<Rightarrow> Inr \<lparr>vc_Status = ''Suspended''\<rparr> | Some v \<Rightarrow> Inr v" "\<lambda>_ b. b\<lparr>bm_Versioning := None\<rparr>"
  by unfold_locales simp_all

interpretation website_cfg: bucket_config "\<lambda>w b. b\<lparr>bm_Website := toMetadataWebsite (Some w)\<rparr>"
    "\<lambda>b. or_error WebsiteNotFound (fromMetadataWebsite (bm_Website b))" "\<lambda>_ b. b\<lparr>bm_Website := None\<rparr>"
  by unfold_locales (simp_all add: or_error_def)

interpretation access_block_cfg: bucket_config
    "\<lambda>p b. b\<lparr>bm_PublicAccessBlock := toMetadataPublicAccessBlock (Some p)\<rparr>"
    "\<lambda>b. or_error PublicAccessBlockNotFound (fromMetadataPublicAccessBlock (bm_PublicAccessBlock b))" "\<lambda>_ b. b\<lparr>bm_PublicAccessBlock := None\<rparr>"
  by unfold_locales (simp_all add: or_error_def)

interpretation logging_cfg: bucket_config "\<lambda>l b. b\<lparr>bm_Logging := toMetadataLogging (Some l)\<rparr>"
    "\<lambda>b. or_error LoggingNotFound (fromMetadataLogging (bm_Logging b))" "\<lambda>_ b. b\<lparr>bm_Logging := None\<rparr>"
  by unfold_locales (simp_all add: or_error_def)

interpretation encryption_cfg: bucket_config "\<lambda>e b. b\<lparr>bm_Encryption := toMetadataEncryption (Some e)\<rparr>"
    "\<lambda>b. or_error EncryptionNotFound (fromMetadataEncryption (bm_Encryption b))" "\<lambda>_ b. b\<lparr>bm_Encryption := None\<rparr>"
  by unfold_locales (simp_all add: or_error_def)

interpretation notification_cfg: bucket_config "\<lambda>c b. b\<lparr>bm_Notification := toMetadataNotification (Some c)\<rparr>"
    "\<lambda>b. Inr (fromMetadataNotification (bm_Notification b))" "\<lambda>_ b. b\<lparr>bm_Notification := None\<rparr>"
  by unfold_locales simp_all

text \<open>Enabling object lock enables versioning.\<close>

definition blank_lock :: "object_lock_config \<Rightarrow> bucket_metadata \<Rightarrow> bucket_metadata" where
  "blank_lock c b = (if olc_ObjectLockEnabled c then b\<lparr>bm_ObjectLock := None, bm_Versioning := None\<rparr> else b\<lparr>bm_ObjectLock := None\<rparr>)"

definition lock_update :: "object_lock_config \<Rightarrow> bucket_metadata \<Rightarrow> bucket_metadata" where
  "lock_update c b = (let b = b\<lparr>bm_ObjectLock := toMetadataObjectLock (Some c)\<rparr> in
     if olc_ObjectLockEnabled c then b\<lparr>bm_Versioning := toMetadataVersioning (Some \<lparr>vc_Status = ''Enabled''\<rparr>)\<rparr> else b)"

interpretation lock_cfg: bucket_config lock_update
    "\<lambda>b. case fromMetadataObjectLock (bm_ObjectLock b) of
       None \<Rightarrow> Inr \<lparr>olc_ObjectLockEnabled = False, olc_Rule = None\<rparr> | Some c \<Rightarrow> Inr c" blank_lock
  by unfold_locales (simp_all add: lock_update_def blank_lock_def Let_def)

lemma SetObjectLockConfig_write:
  "SetObjectLockConfig E now t n (Some c) = writeConfig (lock_update c) E now t n"
  by (simp add: SetObjectLockConfig_def lock_update_def [abs_def])

lemmas config_defs = SetBucketPolicy_def GetBucketPolicy_def SetVersioning_def GetVersioning_def SetWebsite_def GetWebsite_def
  SetPublicAccessBlock_def GetPublicAccessBlock_def SetLogging_def GetLogging_def SetEncryption_def GetEncryption_def
  SetNotification_def GetNotification_def SetObjectLockConfig_write GetObjectLockConfig_def

text \<open>
  C38. Each configuration a client sets on an existing bucket is what the getter returns afterwards:
  policy, versioning, website, public access block, logging, encryption, notification and object
  lock. Setting it changes no other field of the bucket's document but the time of change, no other entry of the store and not the bucket's
  counters; setting an object lock that is enabled also enables versioning, and changes no field but those two. The engine does not fail.
\<close>

theorem bucket_config_round_trips:
  assumes "pebble_reliable E cont" "typed (sto cont s)" "no_colon t" "sto cont s (bucketKey t n) \<noteq> None"
  shows "config_kept E cont t n s (SetBucketPolicy E now t n (Some p) s) (GetBucketPolicy E t n) p (\<lambda>b. b\<lparr>bm_Policy := None\<rparr>) \<and>
    config_kept E cont t n s (SetVersioning E now t n (Some v) s) (GetVersioning E t n) v (\<lambda>b. b\<lparr>bm_Versioning := None\<rparr>) \<and>
    config_kept E cont t n s (SetWebsite E now t n (Some w) s) (GetWebsite E t n) w (\<lambda>b. b\<lparr>bm_Website := None\<rparr>) \<and>
    config_kept E cont t n s (SetPublicAccessBlock E now t n (Some a) s) (GetPublicAccessBlock E t n) a (\<lambda>b. b\<lparr>bm_PublicAccessBlock := None\<rparr>) \<and>
    config_kept E cont t n s (SetLogging E now t n (Some l) s) (GetLogging E t n) l (\<lambda>b. b\<lparr>bm_Logging := None\<rparr>) \<and>
    config_kept E cont t n s (SetEncryption E now t n (Some e) s) (GetEncryption E t n) e (\<lambda>b. b\<lparr>bm_Encryption := None\<rparr>) \<and>
    config_kept E cont t n s (SetNotification E now t n (Some c) s) (GetNotification E t n) c (\<lambda>b. b\<lparr>bm_Notification := None\<rparr>) \<and>
    config_kept E cont t n s (SetObjectLockConfig E now t n (Some k) s) (GetObjectLockConfig E t n) k (blank_lock k) \<and>
    (olc_ObjectLockEnabled k \<longrightarrow> config_kept E cont t n s (SetObjectLockConfig E now t n (Some k) s) (GetVersioning E t n)
       \<lparr>vc_Status = ''Enabled''\<rparr> (blank_lock k))"
proof -
  have "config_kept E cont t n s (writeConfig (lock_update k) E now t n s)
      (readConfig (\<lambda>b. case fromMetadataVersioning (bm_Versioning b) of
         None \<Rightarrow> Inr \<lparr>vc_Status = ''Suspended''\<rparr> | Some v \<Rightarrow> Inr v) E t n) \<lparr>vc_Status = ''Enabled''\<rparr> (blank_lock k)"
    if "olc_ObjectLockEnabled k"
    by (rule pebble_reliable.write_config_kept [OF assms]) (simp_all add: lock_update_def blank_lock_def Let_def that)
  then show ?thesis unfolding config_defs
    by (intro conjI impI policy_cfg.set_get [OF assms] versioning_cfg.set_get [OF assms] website_cfg.set_get [OF assms]
        access_block_cfg.set_get [OF assms] logging_cfg.set_get [OF assms] encryption_cfg.set_get [OF assms]
        notification_cfg.set_get [OF assms] lock_cfg.set_get [OF assms])
qed

theorem bucket_config_round_trips_witness:
  "config_kept mem_engine map_of ''t1'' ''photos'' photos_store
     (SetObjectLockConfig mem_engine 7 ''t1'' ''photos'' (Some \<lparr>olc_ObjectLockEnabled = True, olc_Rule = None\<rparr>) photos_store)
     (GetVersioning mem_engine ''t1'' ''photos'') \<lparr>vc_Status = ''Enabled''\<rparr> (\<lambda>b. b\<lparr>bm_ObjectLock := None, bm_Versioning := None\<rparr>)"
proof -
  have "no_colon ''t1''" "sto map_of photos_store (bucketKey ''t1'' ''photos'') \<noteq> None"
    by (simp_all add: photos_store_def)
  from bucket_config_round_trips [OF mem.pebble_reliable_axioms photos_store_typed this,
      of 7 _ _ _ _ _ _ _ "\<lparr>olc_ObjectLockEnabled = True, olc_Rule = None\<rparr>"]
  show ?thesis by (simp add: blank_lock_def [abs_def])
qed

section \<open>Creating a bucket\<close>

definition owner_of :: "string \<Rightarrow> string \<Rightarrow> string" where
  "owner_of t owner = (if owner = [] \<and> t \<noteq> [] then t else owner)"

lemma new_bucket_simps [simp]:
  "bm_Name (toMetadataBucket (new_bucket now t n ty ow)) = n"
  "bm_TenantID (toMetadataBucket (new_bucket now t n ty ow)) = t"
  "bm_OwnerID (toMetadataBucket (new_bucket now t n ty ow)) = ow"
  by (simp_all add: toMetadataBucket_def new_bucket_def)

lemma acl_bucket_key [simp]: "bucketACLKey t n \<noteq> bucketKey t' n'" "bucketKey t' n' \<noteq> bucketACLKey t n"
  by (simp_all add: bucketACLKey_def bucketKey_def)

lemma stamped_owner [simp]: "bm_OwnerID (stamp_bucket now b) = bm_OwnerID b"
  by (simp add: stamp_bucket_def)

lemma new_bucket_created [simp]: "bk_CreatedAt (new_bucket now t n ty ow) = now"
  by (simp add: new_bucket_def)

lemma owner_pair:
  "(if owner = [] \<and> t \<noteq> [] then (''tenant'', t) else (''user'', owner)) =
     (if owner = [] \<and> t \<noteq> [] then ''tenant'' else ''user'', owner_of t owner)"
  by (simp add: owner_of_def)

lemma default_acl_private:
  "(CheckPermission (Some (CreateDefaultACL ow dn)) u p \<longleftrightarrow> u = ow) \<and> \<not> CheckPublicAccess (Some (CreateDefaultACL ow dn)) p"
  by (auto simp: CreateDefaultACL_def canned_checks)

context pebble_reliable
begin

lemma BM_GetBucketACL_ok:
  "sto cont s (bucketKey t n) \<noteq> None \<Longrightarrow> sto cont s (bucketACLKey t n) = Some (JAcl a) \<Longrightarrow> BM_GetBucketACL E t n s = Inr a"
  by (auto simp: BM_GetBucketACL_def BM_BucketExists_def BucketExists_def raw.get_bucket_acl)

lemma DeleteBucket_ok:
  assumes "sto cont s (bucketKey t n) \<noteq> None"
  shows "\<exists>s'. DeleteBucket E t n s = Inr s' \<and> sto cont s' = (sto cont s)(bucketKey t n := None) \<and>
    ps_deletedBuckets s' = insert (bucketPathForMutation t n) (ps_deletedBuckets s)"
proof -
  obtain s1 where "commitSync E [BDel (bucketKey t n)] s = Inr s1" using commit_total(2) by blast
  then obtain s' where s': "DeleteBucket E t n s = Inr s'" using assms by (auto simp: DeleteBucket_def Let_def)
  with DeleteBucket_sound(2,3) [OF s'] show ?thesis by blast
qed

lemma DeleteBucketACL_ok:
  "\<exists>s'. DeleteBucketACL (pebble_kv E) t n s = Inr s' \<and> sto cont s' = (sto cont s)(bucketACLKey t n := None)"
  using raw.kv_delete [of "bucketACLKey t n" s] by (auto simp: DeleteBucketACL_def)

lemma rollback_contents:
  assumes "sto cont s (bucketKey t n) \<noteq> None"
  shows "sto cont (rollback_create E t n s) = (sto cont s)(bucketKey t n := None, bucketACLKey t n := None)"
proof -
  obtain s1 where s1: "DeleteBucket E t n s = Inr s1" "sto cont s1 = (sto cont s)(bucketKey t n := None)"
    using DeleteBucket_ok [OF assms] by blast
  obtain s2 where s2: "DeleteBucketACL (pebble_kv E) t n s1 = Inr s2" "sto cont s2 = (sto cont s1)(bucketACLKey t n := None)"
    using DeleteBucketACL_ok by blast
  show ?thesis unfolding rollback_create_def Let_def s1(1) sum.case s2(1) s2(2) s1(2) ..
qed

text \<open>The store after the metadata and the access control list are written.\<close>

lemma create_steps:
  assumes "typed (sto cont s)" "no_colon t" "CreateBucket E now (Some (toMetadataBucket (new_bucket now t n ty ow))) s = Inr s1"
  obtains s2 where "SetBucketACL (pebble_kv E) t n (Some a) s1 = Inr s2"
    "sto cont s2 = (sto cont s)(bucketKey t n \<mapsto> JBucket (stamp_bucket now (toMetadataBucket (new_bucket now t n ty ow))),
       bucketACLKey t n \<mapsto> JAcl a)"
    "sto cont s (bucketKey t n) = None" "\<not> name_taken n (sto cont s)"
proof -
  note c = CreateBucket_sound [OF assms(3), simplified]
  have free: "\<not> name_taken n (sto cont s)"
    using CreateBucket_taken [OF assms(1), of "toMetadataBucket (new_bucket now t n ty ow)" now] assms(3) by auto
  obtain s2 where "SetBucketACL (pebble_kv E) t n (Some a) s1 = Inr s2"
    "sto cont s2 = (sto cont s1)(bucketACLKey t n \<mapsto> JAcl a)"
    using raw.set_bucket_acl by blast
  then show thesis using that c(1) free unfolding c(3) by blast
qed

end

text \<open>
  C20. Creating a bucket is all or nothing. When it succeeds the name was valid and free in every
  tenant, the bucket is stored with its owner, and its access control list is private to that owner: no
  public and no other user's access. When it fails for any reason, the write of the marker file
  included, no entry of the store differs from before, except that the bucket's access control
  list entry may have been removed.
\<close>

theorem create_bucket_all_or_nothing:
  assumes "pebble_reliable E cont" "typed (sto cont (sys_store sys))" "no_colon t"
    and "BM_CreateBucket E B fmt now t n owner sys = (r, sys')"
  shows "(r = None \<longrightarrow> ValidateBucketName n \<and> \<not> name_taken n (sto cont (sys_store sys)) \<and>
      (\<exists>b a. GetBucketInfo E t n (sys_store sys') = Inr b \<and> bk_OwnerID b = owner_of t owner \<and>
         BM_GetBucketACL E t n (sys_store sys') = Inr a \<and>
         (\<forall>u p. (CheckPermission (Some a) u p \<longleftrightarrow> u = owner_of t owner) \<and> \<not> CheckPublicAccess (Some a) p)) \<and>
      (\<forall>k. k \<notin> {bucketKey t n, bucketACLKey t n} \<longrightarrow> sto cont (sys_store sys') k = sto cont (sys_store sys) k)) \<and>
    (r \<noteq> None \<longrightarrow>
      (\<forall>k. sto cont (sys_store sys') k = sto cont (sys_store sys) k \<or>
         k = bucketACLKey t n \<and> sto cont (sys_store sys') k = None))"
proof -
  note P = assms(1)
  let ?ty = "if owner = [] \<and> t \<noteq> [] then ''tenant'' else ''user''"
  let ?b = "toMetadataBucket (new_bucket now t n ?ty (owner_of t owner))"
  let ?a = "CreateDefaultACL (owner_of t owner) ''Bucket Owner''"
  note def = assms(4) [unfolded BM_CreateBucket_def Let_def]
  consider "sys' = sys" "r \<noteq> None" | s1 where "ValidateBucketName n" "CreateBucket E now (Some ?b) (sys_store sys) = Inr s1"
    using def by (auto simp: owner_of_def split: if_splits sum.splits)
  then show ?thesis
  proof cases
    case 2
    obtain s2 where s2: "SetBucketACL (pebble_kv E) t n (Some ?a) s1 = Inr s2"
      "sto cont s2 = (sto cont (sys_store sys))(bucketKey t n \<mapsto> JBucket (stamp_bucket now ?b), bucketACLKey t n \<mapsto> JAcl ?a)"
      "sto cont (sys_store sys) (bucketKey t n) = None" "\<not> name_taken n (sto cont (sys_store sys))"
      using pebble_reliable.create_steps [OF P assms(2,3) 2(2)] by metis
    obtain pr fs where put: "be_Put B (marker_path t n) ([], None)
        [(''bucket-created'', fmt now), (''tenant-id'', t)] (sys_fs sys) = (pr, fs)" by (rule prod.exhaust)
    have res: "BM_CreateBucket E B fmt now t n owner sys = (case pr of
        Some err \<Rightarrow> (Some (BStorage err), \<lparr>sys_store = rollback_create E t n s2, sys_fs = fs\<rparr>)
      | None \<Rightarrow> (None, \<lparr>sys_store = s2, sys_fs = fs\<rparr>))"
      unfolding BM_CreateBucket_def owner_pair using 2 s2(1) put
      by (simp add: Let_def split: option.split)
    show ?thesis
    proof (cases pr)
      case None
      then have r: "r = None" "sys_store sys' = s2" using res assms(4) by simp_all
      have "GetBucketInfo E t n s2 = Inr (fromMetadataBucket (stamp_bucket now ?b))"
        unfolding GetBucketInfo_def readConfig_def
        by (subst pebble_reliable.loadBucket_ok [OF P]) (simp_all add: s2(2))
      moreover have "BM_GetBucketACL E t n s2 = Inr ?a"
        by (rule pebble_reliable.BM_GetBucketACL_ok [OF P]) (simp_all add: s2(2))
      moreover have "bk_OwnerID (fromMetadataBucket (stamp_bucket now ?b)) = owner_of t owner"
        by (simp add: fromMetadataBucket_def)
      moreover have "\<forall>k. k \<notin> {bucketKey t n, bucketACLKey t n} \<longrightarrow> sto cont s2 k = sto cont (sys_store sys) k"
        by (simp add: s2(2))
      ultimately show ?thesis unfolding r using 2(1) s2(4) default_acl_private by blast
    next
      case (Some e)
      then have r: "r = Some (BStorage e)" "sys_store sys' = rollback_create E t n s2" using res assms(4) by simp_all
      have "sto cont (rollback_create E t n s2) = (sto cont s2)(bucketKey t n := None, bucketACLKey t n := None)"
        by (rule pebble_reliable.rollback_contents [OF P]) (simp add: s2(2))
      then show ?thesis using r s2(3) unfolding s2(2) by auto
    qed
  qed auto
qed

lemma videos_not_created:
  "fst (BM_CreateBucket mem_engine (null_backend (Some (StorageError ''disk full''))) (\<lambda>_. []) 7 ''t2'' ''videos'' ''u1''
     \<lparr>sys_store = photos_store, sys_fs = ()\<rparr>) = Some (BStorage (StorageError ''disk full''))"
  by code_simp

theorem create_bucket_all_or_nothing_witness:
  "\<exists>sys'. BM_CreateBucket mem_engine (null_backend (Some (StorageError ''disk full''))) (\<lambda>_. []) 7 ''t2'' ''videos'' ''u1''
       \<lparr>sys_store = photos_store, sys_fs = ()\<rparr> = (Some (BStorage (StorageError ''disk full'')), sys') \<and>
     sto map_of (sys_store sys') (bucketKey ''t2'' ''videos'') = None \<and>
     sto map_of (sys_store sys') (bucketKey ''t1'' ''photos'') = Some (JBucket photos_bucket)"
proof -
  obtain r sys' where c: "BM_CreateBucket mem_engine (null_backend (Some (StorageError ''disk full''))) (\<lambda>_. []) 7 ''t2'' ''videos'' ''u1''
       \<lparr>sys_store = photos_store, sys_fs = ()\<rparr> = (r, sys')" by (rule prod.exhaust)
  then have r: "r = Some (BStorage (StorageError ''disk full''))" using videos_not_created by simp
  have "no_colon ''t2''" "typed (sto map_of (sys_store \<lparr>sys_store = photos_store, sys_fs = ()\<rparr>))"
    by (simp_all add: photos_store_typed)
  from create_bucket_all_or_nothing [OF mem.pebble_reliable_axioms this(2,1) c]
  have "sto map_of (sys_store sys') k = sto map_of photos_store k" if "k \<noteq> bucketACLKey ''t2'' ''videos''" for k
    using r that by auto
  then show ?thesis using c r by (auto simp: photos_store_def bucketKey_inj)
qed

section \<open>What the manager loses\<close>

text \<open>
  \<^verbatim>\<open>UpdateBucket\<close> with the bucket \<^verbatim>\<open>GetBucketInfo\<close> returned, as the handlers call it to change one
  setting, erases the notification configuration and the ownership controls: the conversions skip
  both fields.
\<close>

lemma update_bucket_forgets:
  assumes "pebble_reliable E cont" "typed (sto cont s)" "no_colon t"
    "GetBucketInfo E t n s = Inr b" "BM_UpdateBucket E now t n b s = Inr s'"
  shows "GetNotification E t n s' = Inr no_notification" "GetOwnershipControls E t n s' = Inl OwnershipControlsNotFound"
proof -
  note P = assms(1)
  have PE: "pebble_engine E cont" using P by (simp add: pebble_reliable_def)
  have "UpdateBucket E now (Some (toMetadataBucket b)) s = Inr s'" "bk_Name b = n" "bk_TenantID b = t"
    using assms(5) by (auto simp: BM_UpdateBucket_def split: if_splits sum.splits)
  with pebble_engine.UpdateBucket_sound(2) [OF PE this(1)]
  have "sto cont s' (bucketKey t n) = Some (JBucket ((toMetadataBucket b)\<lparr>bm_UpdatedAt := now\<rparr>))"
    by (simp add: toMetadataBucket_def)
  from pebble_reliable.loadBucket_ok [OF P this]
  show "GetNotification E t n s' = Inr no_notification" "GetOwnershipControls E t n s' = Inl OwnershipControlsNotFound"
    by (simp_all add: GetNotification_def GetOwnershipControls_def readConfig_def toMetadataBucket_def fromMetadataNotification_def)
qed

text \<open>
  The setters read the document, change it and write it back without a lock, so an object counted
  in between is lost from the counters.
\<close>

lemma config_write_loses_counters:
  assumes "pebble_reliable E cont" "typed (sto cont s)" "no_colon t" "loadBucket E t n s = Inr b"
    "IncrementObjectCount E now t n sz s = Inr s1" "UpdateBucket E now (Some (b\<lparr>bm_Quota := q\<rparr>)) s1 = Inr s2"
  shows "GetBucketStats E t n s2 = GetBucketStats E t n s"
proof -
  note P = assms(1)
  have PE: "pebble_engine E cont" using P by (simp add: pebble_reliable_def)
  have b: "sto cont s (bucketKey t n) = Some (JBucket b)"
    using assms(4) pebble_engine.GetBucket_sound [OF PE] by (auto simp: loadBucket_def split: sum.splits)
  then have "bm_TenantID b = t" "bm_Name b = n" using typed_bucket [OF assms(2) b assms(3)] by simp_all
  with pebble_engine.UpdateBucket_sound(2) [OF PE assms(6)]
  have "sto cont s2 (bucketKey t n) = Some (JBucket (b\<lparr>bm_Quota := q, bm_UpdatedAt := now\<rparr>))" by simp
  from pebble_reliable.GetBucket_ok [OF P this] pebble_reliable.GetBucket_ok [OF P b]
  show ?thesis by (simp add: GetBucketStats_def)
qed

section \<open>Deleting a bucket with its contents\<close>

text \<open>Steps that remove only contents and tag index entries of one bucket.\<close>

definition only_contents_lost :: "string \<Rightarrow> contents \<Rightarrow> contents \<Rightarrow> bool" where
  "only_contents_lost bp m m' \<longleftrightarrow> (\<forall>k. m' k = m k \<or>
     m' k = None \<and> (content_key bp k \<or> (\<exists>tk tv key. k = tagIndexKey bp tk tv key)))"

lemma contents_lost_refl [simp]: "only_contents_lost bp m m"
  by (simp add: only_contents_lost_def)

lemma contents_lost_trans:
  "only_contents_lost bp m m' \<Longrightarrow> only_contents_lost bp m' m'' \<Longrightarrow> only_contents_lost bp m m''"
  unfolding only_contents_lost_def by metis

lemma contents_lost_None: "only_contents_lost bp m m' \<Longrightarrow> m k = None \<Longrightarrow> m' k = None"
  unfolding only_contents_lost_def by metis

lemma contents_lost_typed: "only_contents_lost bp m m' \<Longrightarrow> typed m \<Longrightarrow> typed m'"
  unfolding only_contents_lost_def typed_def by (metis option.distinct(1))

lemma contents_lost_fold:
  "(\<And>x s. only_contents_lost bp (sto cont s) (sto cont (f x s))) \<Longrightarrow> only_contents_lost bp (sto cont s) (sto cont (fold f xs s))"
proof (induction xs arbitrary: s)
  case (Cons x xs)
  have "only_contents_lost bp (sto cont s) (sto cont (f x s))" by (rule Cons.prems)
  moreover have "only_contents_lost bp (sto cont (f x s)) (sto cont (fold f xs (f x s)))"
    by (rule Cons.IH) (rule Cons.prems)
  ultimately show ?case by (simp add: contents_lost_trans)
qed simp

lemma objKeyFor_Nil: "objKeyFor b k [] = objectKey b k"
  by (simp add: objKeyFor_def)

lemma own_content [simp]: "content_key bp (objectKey bp k)" "content_key bp (objectVersionKey bp k v)"
  by (simp_all add: content_key_def objectKey_def objectVersionKey_def HasPrefix_iff)

context pebble_reliable
begin

lemma drop_version_lost: "only_contents_lost bp (sto cont s) (sto cont (drop_version E bp v s))"
proof (cases "DeleteObjectVersion E bp (ov_Key v) (ov_VersionID v) s")
  case (Inr s')
  with DeleteObjectVersion_sound [OF Inr] show ?thesis
    by (auto simp: drop_version_def only_contents_lost_def)
qed (simp add: drop_version_def)

lemma drop_version_gone:
  "ov_Key v \<noteq> [] \<Longrightarrow> ov_VersionID v \<noteq> [] \<Longrightarrow>
     sto cont (drop_version E bp v s) (objectVersionKey bp (ov_Key v) (ov_VersionID v)) = None"
proof (cases "DeleteObjectVersion E bp (ov_Key v) (ov_VersionID v) s")
  case (Inr s')
  assume "ov_Key v \<noteq> []" "ov_VersionID v \<noteq> []"
  with Inr DeleteObjectVersion_sound [OF Inr] show ?thesis by (simp add: drop_version_def)
next
  case (Inl e)
  obtain r where "commitSync E [BDel (objectVersionKey bp (ov_Key v) (ov_VersionID v))] s = Inr r" using commit_total(2) by blast
  then show ?thesis using Inl by (auto simp: drop_version_def DeleteObjectVersion_def Let_def split: option.splits)
qed

lemma drop_object_lost: "only_contents_lost bp (sto cont s) (sto cont (drop_object E bp k s))"
proof (cases "DeleteObject E bp k [] s")
  case (Inr s')
  obtain ob :: object_metadata where "sto cont s' = (apply_batch (tag_dels bp k (om_Tags ob)) (sto cont s))(objectKey bp k := None)"
    using DeleteObject_sound [OF Inr] unfolding objKeyFor_Nil by blast
  then show ?thesis using Inr
    by (auto simp: drop_object_def only_contents_lost_def apply_tag_dels tag_keys_def)
qed (simp add: drop_object_def)

lemma drop_object_gone:
  assumes "typed (sto cont s)" "no_colon bp" "bp \<noteq> []" "k \<noteq> []"
  shows "sto cont (drop_object E bp k s) (objectKey bp k) = None"
proof (cases "sto cont s (objectKey bp k)")
  case None
  then show ?thesis by (rule contents_lost_None [OF drop_object_lost])
next
  case (Some v)
  then obtain ob where ob: "sto cont s (objectKey bp k) = Some (JObject ob)"
    using typed_object [OF assms(1) _ assms(2)] by blast
  obtain s' where "commitSync E (tag_dels bp k (om_Tags ob) @ [BDel (objectKey bp k)]) s = Inr s'" using commit_total(2) by blast
  with ob assms(3,4) have d: "DeleteObject E bp k [] s = Inr s'" by (simp add: DeleteObject_def objKeyFor_def Let_def)
  then show ?thesis using DeleteObject_sound [OF d] by (auto simp: drop_object_def objKeyFor_def)
qed

end

text \<open>What the collecting loop gathers without a limit.\<close>

lemma collect_versions_all:
  "collect_versions f 0 kvs acc =
     (acc @ List.map_filter (\<lambda>(k, v). case decode_object v of None \<Rightarrow> None | Some ob \<Rightarrow> f ob) kvs, True)"
proof (induction kvs arbitrary: acc)
  case (Cons kv kvs)
  obtain k v where kv: "kv = (k, v)" by (cases kv)
  show ?case
  proof (cases "decode_object v")
    case None
    then show ?thesis using Cons.IH by (simp add: kv List.map_filter_simps)
  next
    case (Some ob)
    then show ?thesis using Cons.IH by (cases "f ob") (simp_all add: kv List.map_filter_simps Let_def)
  qed
qed (simp add: List.map_filter_simps)

text \<open>
  Every stored object of the bucket has a key, and every stored version also an identifier; the
  store's callers give both.
\<close>

definition named_contents :: "contents \<Rightarrow> bool" where
  "named_contents m \<longleftrightarrow> (\<forall>k ob. m k = Some (JObject ob) \<longrightarrow> om_Key ob \<noteq> [] \<and>
     (HasPrefix k ''version:'' \<longrightarrow> om_VersionID ob \<noteq> []))"

context pebble_reliable
begin

lemma ListAllObjectVersions_all:
  "\<exists>vs. ListAllObjectVersions E bp [] 0 s = Inr vs \<and>
     (\<forall>k ob. sto cont s k = Some (JObject ob) \<and> HasPrefix k (''version:'' @ bp @ '':'') \<longrightarrow> to_version ob \<in> set vs) \<and>
     (\<forall>k ob. sto cont s k = Some (JObject ob) \<and> HasPrefix k (''obj:'' @ bp @ '':'') \<longrightarrow> om_Key ob \<in> ov_Key ` set vs)"
proof -
  obtain vk where vk: "pebbleIter E (versionBucketPrefix bp) s = Inr (vk, None)" using pebbleIter_ok by blast
  obtain okv where okv: "pebbleIter E (''obj:'' @ bp @ '':'') s = Inr (okv, None)" using pebbleIter_ok by blast
  define ver where "ver = List.map_filter (\<lambda>(k, v). case decode_object v of None \<Rightarrow> None | Some ob \<Rightarrow> Some (to_version ob)) vk"
  define g where "g ob = (if om_Key ob \<in> ov_Key ` set ver then None else Some (zero_version\<lparr>ov_Key := om_Key ob, ov_IsLatest := True,
    ov_LastModified := om_LastModified ob, ov_ETag := om_ETag ob, ov_Size := om_Size ob\<rparr>))" for ob :: object_metadata
  define all where "all = ver @ List.map_filter (\<lambda>(k, v). case decode_object v of None \<Rightarrow> None | Some ob \<Rightarrow> g ob) okv"
  have no_prefix: "([] \<noteq> ([] :: string) \<and> P) = False" for P by simp
  have "ListAllObjectVersions E bp [] 0 s = Inr (sort_key version_before all)"
    unfolding ListAllObjectVersions_def vk okv sum.case prod.case collect_versions_all no_prefix if_False append.simps(1)
      ver_def [symmetric] g_def [symmetric] all_def
    by simp
  moreover have "to_version ob \<in> set all"
    if "sto cont s k = Some (JObject ob)" "HasPrefix k (''version:'' @ bp @ '':'')" for k ob
  proof -
    have "(k, JObject ob) \<in> set vk"
      using pebbleIter_complete [OF vk] that by (simp add: versionBucketPrefix_def)
    then show ?thesis by (force simp: all_def ver_def in_map_filter)
  qed
  moreover have "om_Key ob \<in> ov_Key ` set all"
    if "sto cont s k = Some (JObject ob)" "HasPrefix k (''obj:'' @ bp @ '':'')" for k ob
  proof (cases "om_Key ob \<in> ov_Key ` set ver")
    case False
    have "(k, JObject ob) \<in> set okv" using pebbleIter_complete [OF okv] that by simp
    then have "\<exists>v \<in> set all. ov_Key v = om_Key ob"
      using False by (force simp: all_def in_map_filter g_def)
    then show ?thesis by force
  qed (auto simp: all_def)
  moreover have "set (sort_key version_before all) = set all" by simp
  ultimately show ?thesis by (metis (no_types, lifting))
qed

lemma fold_gone:
  assumes "\<And>x s. only_contents_lost bp (sto cont s) (sto cont (f x s))" "x \<in> set xs"
    and "\<And>s. typed (sto cont s) \<Longrightarrow> sto cont (f x s) k = None" "typed (sto cont s)"
  shows "sto cont (fold f xs s) k = None"
  using assms(2,4)
proof (induction xs arbitrary: s)
  case (Cons y ys)
  show ?case
  proof (cases "x = y")
    case True
    then have "sto cont (f y s) k = None" using assms(3) Cons.prems(2) by simp
    then have "sto cont (fold f ys (f y s)) k = None"
      using contents_lost_None [OF contents_lost_fold [of bp cont f "f y s" ys]] assms(1) by blast
    then show ?thesis by simp
  next
    case False
    have "typed (sto cont (f y s))" using contents_lost_typed [OF assms(1) Cons.prems(2)] .
    then show ?thesis using Cons False by simp
  qed
qed simp

lemma deleteAll_empties:
  assumes "typed (sto cont s)" "named_contents (sto cont s)" "no_colon bp" "bp \<noteq> []"
  defines "s' \<equiv> deleteAllObjectMetadataForBucket E bp s"
  shows "bucket_empty bp (sto cont s')" "only_contents_lost bp (sto cont s) (sto cont s')"
proof -
  obtain vs where vs: "ListAllObjectVersions E bp [] 0 s = Inr vs"
    "\<And>k ob. sto cont s k = Some (JObject ob) \<Longrightarrow> HasPrefix k (''version:'' @ bp @ '':'') \<Longrightarrow> to_version ob \<in> set vs"
    "\<And>k ob. sto cont s k = Some (JObject ob) \<Longrightarrow> HasPrefix k (''obj:'' @ bp @ '':'') \<Longrightarrow> om_Key ob \<in> ov_Key ` set vs"
    using ListAllObjectVersions_all [of bp s] by metis
  define s1 where "s1 = fold (drop_version E bp) vs s"
  define keys where "keys = remdups (filter (\<lambda>k. k \<noteq> []) (map ov_Key vs))"
  have s': "s' = fold (drop_object E bp) keys s1"
    by (simp add: s'_def deleteAllObjectMetadataForBucket_def vs(1) s1_def keys_def Let_def)
  have lost1: "only_contents_lost bp (sto cont s) (sto cont s1)"
    unfolding s1_def by (rule contents_lost_fold) (rule drop_version_lost)
  have lost2: "only_contents_lost bp (sto cont s1) (sto cont s')"
    unfolding s' by (rule contents_lost_fold) (rule drop_object_lost)
  show "only_contents_lost bp (sto cont s) (sto cont s')" by (rule contents_lost_trans [OF lost1 lost2])
  have t1: "typed (sto cont s1)" by (rule contents_lost_typed [OF lost1 assms(1)])
  have "sto cont s' k = None" if k: "content_key bp k" for k
  proof (cases "sto cont s k")
    case None
    then show ?thesis using contents_lost_None lost1 lost2 by metis
  next
    case (Some v)
    from k consider (o) "HasPrefix k (''obj:'' @ bp @ '':'')" | (v) "HasPrefix k (''version:'' @ bp @ '':'')"
      by (auto simp: content_key_def)
    then show ?thesis
    proof cases
      case o
      obtain ob where ob: "v = JObject ob" "k = objectKey (om_Bucket ob) (om_Key ob)" "no_colon (om_Bucket ob)"
        using prefix_kinds(2) [OF HasPrefix_trans [OF o HasPrefix_append]] typedD [OF assms(1) Some] by blast
      have "om_Bucket ob = bp" using o ob assms(3) obj_prefix_iff by blast
      moreover have "om_Key ob \<in> set keys"
        using vs(3) [of k ob] assms(2) Some ob o by (auto simp: keys_def named_contents_def)
      ultimately show ?thesis unfolding s'
        using drop_object_gone [OF _ assms(3,4), of _ "om_Key ob"] ob(2) assms(2) Some ob(1)
        by (intro fold_gone [OF drop_object_lost _ _ t1, of "om_Key ob"]) (auto simp: named_contents_def)
    next
      case v
      obtain ob where ob: "v = JObject ob" "k = objectVersionKey (om_Bucket ob) (om_Key ob) (om_VersionID ob)" "no_colon (om_Bucket ob)"
        using prefix_kinds(3) [OF HasPrefix_trans [OF v HasPrefix_append]] typedD [OF assms(1) Some] by blast
      have bp: "om_Bucket ob = bp" using v ob assms(3) version_prefix_iff by blast
      have "HasPrefix k ''version:''" by (rule HasPrefix_trans [OF v HasPrefix_append])
      then have "om_Key ob \<noteq> []" "om_VersionID ob \<noteq> []" using assms(2) Some ob(1) by (auto simp: named_contents_def)
      then have "sto cont s1 k = None" unfolding s1_def
        using drop_version_gone [of "to_version ob" bp] ob(2) bp vs(2) [of k ob] Some ob(1) v
        by (intro fold_gone [OF drop_version_lost _ _ assms(1), of "to_version ob"]) (auto simp: to_version_def)
      then show ?thesis by (rule contents_lost_None [OF lost2])
    qed
  qed
  then show "bucket_empty bp (sto cont s')" by (simp add: bucket_empty_iff)
qed

end

lemma getTenantBucketPath_clean:
  "ValidateBucketName n \<Longrightarrow> no_colon t \<Longrightarrow> no_colon (getTenantBucketPath t n) \<and> getTenantBucketPath t n \<noteq> []"
  using valid_name_clean [of n] by (simp add: bucketPathForMutation_def)

context pebble_reliable
begin

lemma force_delete_files_lost:
  "only_contents_lost bp (sto cont (sys_store sys)) (sto cont (sys_store (fold (force_delete_file E B bp) objs sys)))"
proof (induction objs arbitrary: sys)
  case (Cons ob objs)
  have "only_contents_lost bp (sto cont (sys_store sys)) (sto cont (sys_store (force_delete_file E B bp ob sys)))"
    by (simp add: force_delete_file_def Let_def drop_object_lost)
  then show ?case using contents_lost_trans [OF _ Cons.IH] by simp
qed simp

end

text \<open>
  C21. Force-deleting a bucket whose data can be listed always succeeds and leaves nothing of it: no object
  and no version, and no bucket entry. Nothing else is lost but the bucket's own tag index
  entries; in particular every other bucket keeps its entry and its contents. Writes to
  the path are refused from then on.
\<close>

theorem force_delete_empties:
  assumes "pebble_reliable E cont" "typed (sto cont (sys_store sys))" "named_contents (sto cont (sys_store sys))"
    "ValidateBucketName n" "no_colon t" "sto cont (sys_store sys) (bucketKey t n) \<noteq> None"
    "be_List B (getTenantBucketPath t n @ ''/'') False (sys_fs sys) = Inr objects"
  shows "\<exists>sys'. ForceDeleteBucket E B t n sys = (None, sys') \<and>
    bucket_empty (getTenantBucketPath t n) (sto cont (sys_store sys')) \<and>
    sto cont (sys_store sys') (bucketKey t n) = None \<and>
    only_contents_lost (getTenantBucketPath t n) ((sto cont (sys_store sys))(bucketKey t n := None)) (sto cont (sys_store sys')) \<and>
    getTenantBucketPath t n \<in> ps_deletedBuckets (sys_store sys')"
proof -
  note P = assms(1)
  define bp where "bp = getTenantBucketPath t n"
  have bp: "no_colon bp" "bp \<noteq> []" using getTenantBucketPath_clean [OF assms(4,5)] by (simp_all add: bp_def)
  define s1 where "s1 = deleteAllObjectMetadataForBucket E bp (sys_store sys)"
  define sys2 where "sys2 = fold (force_delete_file E B bp) objects (sys\<lparr>sys_store := s1\<rparr>)"
  note del = pebble_reliable.deleteAll_empties [OF P assms(2,3) bp, folded s1_def]
  have lost2: "only_contents_lost bp (sto cont s1) (sto cont (sys_store sys2))"
    using pebble_reliable.force_delete_files_lost [OF P, of bp "sys\<lparr>sys_store := s1\<rparr>" B objects] by (simp add: sys2_def)
  note lost = contents_lost_trans [OF del(2) lost2]
  have "sto cont (sys_store sys2) (bucketKey t n) = sto cont (sys_store sys) (bucketKey t n)"
    using lost [unfolded only_contents_lost_def, rule_format, of "bucketKey t n"] by simp
  then obtain s3 where s3: "DeleteBucket E t n (sys_store sys2) = Inr s3"
    "sto cont s3 = (sto cont (sys_store sys2))(bucketKey t n := None)"
    "ps_deletedBuckets s3 = insert (bucketPathForMutation t n) (ps_deletedBuckets (sys_store sys2))"
    using pebble_reliable.DeleteBucket_ok [OF P, of "sys_store sys2"] assms(6) by metis
  obtain b where "GetBucket E t n (sys_store sys) = Inr b"
    using typed_bucket [OF assms(2) _ assms(5)] assms(6) pebble_reliable.GetBucket_ok [OF P] by blast
  then have "\<exists>fs. ForceDeleteBucket E B t n sys = (None, \<lparr>sys_store = s3, sys_fs = fs\<rparr>)"
    unfolding ForceDeleteBucket_def Let_def bp_def [symmetric] s1_def [symmetric]
    using assms(7) [folded bp_def] s3(1) by (simp add: sys2_def)
  moreover have "bucket_empty bp (sto cont s3)" unfolding s3(2)
    by (rule bucket_empty_mono [OF del(1)]) (auto dest: contents_lost_None [OF lost2])
  moreover have "only_contents_lost bp ((sto cont (sys_store sys))(bucketKey t n := None)) (sto cont s3)"
    using lost unfolding s3(2) only_contents_lost_def by auto
  ultimately show ?thesis using s3(2,3) unfolding bp_def by fastforce
qed

theorem force_delete_empties_witness:
  "\<exists>sys'. ForceDeleteBucket mem_engine (null_backend None) ''t1'' ''photos'' \<lparr>sys_store = album_store, sys_fs = ()\<rparr> = (None, sys') \<and>
     bucket_empty ''t1/photos'' (sto map_of (sys_store sys')) \<and> sto map_of (sys_store sys') (bucketKey ''t1'' ''photos'') = None"
proof -
  let ?sys = "\<lparr>sys_store = album_store, sys_fs = ()\<rparr>"
  have "typed (sto map_of (sys_store ?sys))"
    unfolding album_store_def system.simps NewPebbleStore_simps by (rule typed_map_of) (simp add: photos_bucket_def)
  moreover have "named_contents (sto map_of (sys_store ?sys))"
    by (auto simp: named_contents_def album_store_def HasPrefix_def objectKey_def split: if_splits)
  moreover have "ValidateBucketName ''photos''" by code_simp
  moreover have "no_colon ''t1''" by simp
  moreover have "sto map_of (sys_store ?sys) (bucketKey ''t1'' ''photos'') \<noteq> None" by (simp add: album_store_def)
  moreover have "be_List (null_backend None) (getTenantBucketPath ''t1'' ''photos'' @ ''/'') False (sys_fs ?sys) = Inr []"
    by (simp add: null_backend_def)
  ultimately have "\<exists>sys'. ForceDeleteBucket mem_engine (null_backend None) ''t1'' ''photos'' ?sys = (None, sys') \<and>
      bucket_empty (getTenantBucketPath ''t1'' ''photos'') (sto map_of (sys_store sys')) \<and>
      sto map_of (sys_store sys') (bucketKey ''t1'' ''photos'') = None"
    using force_delete_empties [OF mem.pebble_reliable_axioms] by blast
  moreover have "getTenantBucketPath ''t1'' ''photos'' = ''t1/photos''" by (simp add: bucketPathForMutation_def)
  ultimately show ?thesis by (simp only:)
qed

end
