(* ===== verification/Object_Adapter.thy ===== *)
theory Object_Adapter
  imports Meta_Types "HOL-Library.AList"
begin

text \<open>
  The types of \<^verbatim>\<open>internal/object\<close> (\<^verbatim>\<open>Object\<close> of \<^verbatim>\<open>manager.go\<close>, \<^verbatim>\<open>types.go\<close>, \<^verbatim>\<open>errors.go\<close>) and the
  conversions of \<^verbatim>\<open>internal/object/adapter.go\<close> to and from the documents of the metadata store.
\<close>

section \<open>Types\<close>

record retention_config =
  rc_Mode :: string
  rc_RetainUntilDate :: gotime

record legal_hold_config =
  lh_Status :: string

record object_tag =
  ot_Key :: string
  ot_Value :: string

record tag_set =
  ts_Tags :: "object_tag list"

record object_owner =
  oo_ID :: string
  oo_DisplayName :: string

record object_grantee =
  oge_Type :: string
  oge_ID :: string
  oge_DisplayName :: string
  oge_EmailAddress :: string
  oge_URI :: string

record object_grant =
  ogr_Grantee :: object_grantee
  ogr_Permission :: string

record object_acl =
  oac_Owner :: object_owner
  oac_Grants :: "object_grant list"

record object =
  ob_Key :: string
  ob_Bucket :: string
  ob_Size :: int
  ob_LastModified :: gotime
  ob_ETag :: string
  ob_ContentType :: string
  ob_ContentDisposition :: string
  ob_ContentEncoding :: string
  ob_CacheControl :: string
  ob_ContentLanguage :: string
  ob_Metadata :: smap
  ob_StorageClass :: string
  ob_ChecksumAlgorithm :: string
  ob_ChecksumValue :: string
  ob_VersionID :: string
  ob_IsLatest :: bool
  ob_Retention :: "retention_config option"
  ob_LegalHold :: "legal_hold_config option"
  ob_Tags :: "tag_set option"
  ob_ACL :: "object_acl option"
  ob_RestoreStatus :: string
  ob_RestoreExpiresAt :: "gotime option"
  ob_SSEAlgorithm :: string

definition blank_object :: object where
  "blank_object = \<lparr>ob_Key = [], ob_Bucket = [], ob_Size = 0, ob_LastModified = zero_time, ob_ETag = [],
     ob_ContentType = [], ob_ContentDisposition = [], ob_ContentEncoding = [], ob_CacheControl = [],
     ob_ContentLanguage = [], ob_Metadata = [], ob_StorageClass = [], ob_ChecksumAlgorithm = [],
     ob_ChecksumValue = [], ob_VersionID = [], ob_IsLatest = False, ob_Retention = None, ob_LegalHold = None,
     ob_Tags = None, ob_ACL = None, ob_RestoreStatus = [], ob_RestoreExpiresAt = None, ob_SSEAlgorithm = []\<rparr>"

record multipart_part =
  pa_PartNumber :: int
  pa_ETag :: string
  pa_Size :: int
  pa_LastModified :: gotime

record multipart_upload =
  mu_UploadID :: string
  mu_Bucket :: string
  mu_Key :: string
  mu_Initiated :: gotime
  mu_StorageClass :: string
  mu_Metadata :: smap
  mu_Parts :: "multipart_part list"

section \<open>Conversions\<close>

definition toMetadataACL :: "object_acl \<Rightarrow> acl_metadata" where
  "toMetadataACL a =
     \<lparr>am_Owner = Some \<lparr>mo_ID = oo_ID (oac_Owner a), mo_DisplayName = oo_DisplayName (oac_Owner a)\<rparr>,
      am_Grants = map (\<lambda>g. let ge = ogr_Grantee g in
        \<lparr>mgr_Grantee = Some \<lparr>mg_Type = oge_Type ge, mg_ID = oge_ID ge, mg_DisplayName = oge_DisplayName ge,
           mg_EmailAddress = oge_EmailAddress ge, mg_URI = oge_URI ge\<rparr>,
         mgr_Permission = ogr_Permission g\<rparr>) (oac_Grants a)\<rparr>"

definition fromMetadataACL :: "acl_metadata \<Rightarrow> object_acl" where
  "fromMetadataACL a =
     \<lparr>oac_Owner = (case am_Owner a of None \<Rightarrow> \<lparr>oo_ID = [], oo_DisplayName = []\<rparr>
        | Some w \<Rightarrow> \<lparr>oo_ID = mo_ID w, oo_DisplayName = mo_DisplayName w\<rparr>),
      oac_Grants = map (\<lambda>g.
        \<lparr>ogr_Grantee = (case mgr_Grantee g of
             None \<Rightarrow> \<lparr>oge_Type = [], oge_ID = [], oge_DisplayName = [], oge_EmailAddress = [], oge_URI = []\<rparr>
           | Some ge \<Rightarrow> \<lparr>oge_Type = mg_Type ge, oge_ID = mg_ID ge, oge_DisplayName = mg_DisplayName ge,
               oge_EmailAddress = mg_EmailAddress ge, oge_URI = mg_URI ge\<rparr>),
         ogr_Permission = mgr_Permission g\<rparr>) (am_Grants a)\<rparr>"

text \<open>Writing tags into a Go map: a later tag replaces an earlier one with the same key.\<close>

definition tags_to_map :: "object_tag list \<Rightarrow> smap" where
  "tags_to_map tags = fold (\<lambda>tag. AList.update (ot_Key tag) (ot_Value tag)) tags []"

definition toMetadataObject :: "object \<Rightarrow> object_metadata" where
  "toMetadataObject o' = zero_object\<lparr>
     om_Key := ob_Key o', om_Bucket := ob_Bucket o', om_Size := ob_Size o', om_LastModified := ob_LastModified o',
     om_ETag := ob_ETag o', om_ContentType := ob_ContentType o', om_ContentDisposition := ob_ContentDisposition o',
     om_ContentEncoding := ob_ContentEncoding o', om_CacheControl := ob_CacheControl o',
     om_ContentLanguage := ob_ContentLanguage o', om_Metadata := ob_Metadata o', om_StorageClass := ob_StorageClass o',
     om_VersionID := ob_VersionID o', om_IsLatest := ob_IsLatest o', om_ChecksumAlgorithm := ob_ChecksumAlgorithm o',
     om_ChecksumValue := ob_ChecksumValue o', om_SSEAlgorithm := ob_SSEAlgorithm o',
     om_Retention := map_option (\<lambda>r. \<lparr>rt_Mode = rc_Mode r, rt_RetainUntilDate = rc_RetainUntilDate r,
       rt_Days = None, rt_Years = None\<rparr>) (ob_Retention o'),
     om_LegalHold := (case ob_LegalHold o' of None \<Rightarrow> False | Some h \<Rightarrow> lh_Status h = ''ON''),
     om_Tags := (case ob_Tags o' of None \<Rightarrow> [] | Some t \<Rightarrow> tags_to_map (ts_Tags t)),
     om_ACL := map_option toMetadataACL (ob_ACL o')\<rparr>"

definition fromMetadataObject :: "object_metadata \<Rightarrow> object" where
  "fromMetadataObject mo =
     \<lparr>ob_Key = om_Key mo, ob_Bucket = om_Bucket mo, ob_Size = om_Size mo, ob_LastModified = om_LastModified mo,
      ob_ETag = om_ETag mo, ob_ContentType = om_ContentType mo, ob_ContentDisposition = om_ContentDisposition mo,
      ob_ContentEncoding = om_ContentEncoding mo, ob_CacheControl = om_CacheControl mo,
      ob_ContentLanguage = om_ContentLanguage mo, ob_Metadata = om_Metadata mo, ob_StorageClass = om_StorageClass mo,
      ob_ChecksumAlgorithm = om_ChecksumAlgorithm mo, ob_ChecksumValue = om_ChecksumValue mo,
      ob_VersionID = om_VersionID mo, ob_IsLatest = om_IsLatest mo,
      ob_Retention = map_option (\<lambda>r. \<lparr>rc_Mode = rt_Mode r, rc_RetainUntilDate = rt_RetainUntilDate r\<rparr>) (om_Retention mo),
      ob_LegalHold = Some \<lparr>lh_Status = (if om_LegalHold mo then ''ON'' else ''OFF'')\<rparr>,
      ob_Tags = (if om_Tags mo = [] then None
        else Some \<lparr>ts_Tags = map (\<lambda>(k, v). \<lparr>ot_Key = k, ot_Value = v\<rparr>) (om_Tags mo)\<rparr>),
      ob_ACL = map_option fromMetadataACL (om_ACL mo),
      ob_RestoreStatus = om_RestoreStatus mo, ob_RestoreExpiresAt = om_RestoreExpiresAt mo,
      ob_SSEAlgorithm = om_SSEAlgorithm mo\<rparr>"

definition toMetadataMultipartUpload :: "multipart_upload \<Rightarrow> upload_metadata" where
  "toMetadataMultipartUpload mu = \<lparr>um_UploadID = mu_UploadID mu, um_Bucket = mu_Bucket mu, um_Key = mu_Key mu,
     um_Initiated = mu_Initiated mu, um_StorageClass = mu_StorageClass mu, um_Metadata = mu_Metadata mu,
     um_ContentType = [], um_TenantID = [], um_OwnerID = []\<rparr>"

definition fromMetadataMultipartUpload :: "upload_metadata \<Rightarrow> multipart_upload" where
  "fromMetadataMultipartUpload mu = \<lparr>mu_UploadID = um_UploadID mu, mu_Bucket = um_Bucket mu, mu_Key = um_Key mu,
     mu_Initiated = um_Initiated mu, mu_StorageClass = um_StorageClass mu, mu_Metadata = um_Metadata mu, mu_Parts = []\<rparr>"

section \<open>What survives a read and a write\<close>

lemma tags_to_map_id: "distinct (map fst m) \<Longrightarrow> tags_to_map (map (\<lambda>(k, v). \<lparr>ot_Key = k, ot_Value = v\<rparr>) m) = m"
proof (induction m rule: rev_induct)
  case (snoc kv m)
  have "AList.update k v m = m @ [(k, v)]" if "k \<notin> fst ` set m" for k v and m :: smap
    using that by (induction m) auto
  then show ?case using snoc by (cases kv) (simp add: tags_to_map_def)
qed (simp add: tags_to_map_def)

text \<open>
  Reading a document and writing it back, as the metadata setters do, keeps its identity, lock,
  tags and access control list, but not what the conversion skips: the restore status, the
  creation time, the tenant and the key of its encryption.
\<close>

lemma object_round_trip:
  "om_Bucket (toMetadataObject (fromMetadataObject mo)) = om_Bucket mo"
  "om_Key (toMetadataObject (fromMetadataObject mo)) = om_Key mo"
  "om_VersionID (toMetadataObject (fromMetadataObject mo)) = om_VersionID mo"
  "om_IsLatest (toMetadataObject (fromMetadataObject mo)) = om_IsLatest mo"
  "om_Size (toMetadataObject (fromMetadataObject mo)) = om_Size mo"
  "om_ETag (toMetadataObject (fromMetadataObject mo)) = om_ETag mo"
  "om_LegalHold (toMetadataObject (fromMetadataObject mo)) = om_LegalHold mo"
  "distinct (map fst (om_Tags mo)) \<Longrightarrow> om_Tags (toMetadataObject (fromMetadataObject mo)) = om_Tags mo"
  "om_RestoreStatus (toMetadataObject (fromMetadataObject mo)) = []"
  "om_TenantID (toMetadataObject (fromMetadataObject mo)) = []"
  by (simp_all add: toMetadataObject_def fromMetadataObject_def zero_object_def tags_to_map_id)

end
