(* ===== verification/Go_Hex.thy ===== *)
theory Go_Hex
  imports Prelude
begin

text \<open>
  Byte strings in hexadecimal, \<^verbatim>\<open>encoding/hex\<close> of the Go library: \<^verbatim>\<open>EncodeToString\<close> writes lower case,
  \<^verbatim>\<open>DecodeString\<close> reads both cases and fails on an odd length or another character.
\<close>

definition hex_digit :: "nat \<Rightarrow> char" where
  "hex_digit n = ''0123456789abcdef'' ! n"

definition EncodeToString :: "string \<Rightarrow> string" where
  "EncodeToString bytes = concat (map (\<lambda>c. [hex_digit (of_char c div 16), hex_digit (of_char c mod 16)]) bytes)"

definition hex_value :: "char \<Rightarrow> nat option" where
  "hex_value c = (let n = of_char c in
     if 48 \<le> n \<and> n \<le> 57 then Some (n - 48)
     else if 97 \<le> n \<and> n \<le> 102 then Some (n - 87)
     else if 65 \<le> n \<and> n \<le> 70 then Some (n - 55)
     else None)"

fun DecodeString :: "string \<Rightarrow> string option" where
  "DecodeString [] = Some []"
| "DecodeString [c] = None"
| "DecodeString (a # b # s) = (case (hex_value a, hex_value b, DecodeString s) of
     (Some x, Some y, Some bytes) \<Rightarrow> Some (char_of (16 * x + y) # bytes)
   | _ \<Rightarrow> None)"

lemma hex_value_digit: "n < 16 \<Longrightarrow> hex_value (hex_digit n) = Some n"
proof -
  have "list_all (\<lambda>n. hex_value (hex_digit n) = Some n) [0..<16]" by code_simp
  then show "n < 16 \<Longrightarrow> hex_value (hex_digit n) = Some n" by (simp add: list_all_iff)
qed

lemma EncodeToString_simps [simp]:
  "EncodeToString [] = []"
  "EncodeToString (c # s) = hex_digit (of_char c div 16) # hex_digit (of_char c mod 16) # EncodeToString s"
  by (simp_all add: EncodeToString_def)

lemma DecodeString_Encode [simp]: "DecodeString (EncodeToString s) = Some s"
proof (induction s)
  case (Cons c s)
  have "(of_char c :: nat) < 256" by simp
  then have "of_char c div 16 < (16 :: nat)" by (simp add: less_mult_imp_div_less)
  then show ?case using Cons by (simp add: hex_value_digit)
qed simp

lemma length_EncodeToString [simp]: "length (EncodeToString s) = 2 * length s"
  by (induction s) simp_all

lemma EncodeToString_inj: "EncodeToString a = EncodeToString b \<longleftrightarrow> a = b"
  by (metis DecodeString_Encode option.inject)

lemma length_DecodeString: "DecodeString s = Some b \<Longrightarrow> length s = 2 * length b"
  by (induction s arbitrary: b rule: DecodeString.induct) (auto split: option.splits)

end
