(* ===== verification/Object_Manager.thy ===== *)
theory Object_Manager
  imports Object_Adapter Bucket_Manager Go_Hex
begin

text \<open>
  The object manager, \<^verbatim>\<open>internal/object/manager.go\<close>: names and versions, object lock, tags, deletion,
  quotas, counters and the metadata side of writes. The Go methods with the names of store
  operations have the prefix \<open>OM_\<close>. The manager runs with its bucket and auth managers set, as the
  server wires it.

  What a method calls outside the metadata store is a field of its environment: the data store,
  the tenants' storage accounts (\<^verbatim>\<open>IncrementTenantStorage\<close>, \<^verbatim>\<open>DecrementTenantStorage\<close> and
  \<^verbatim>\<open>CheckTenantStorageQuota\<close> of the auth manager), the removal of empty directories, the errors of
  the temporary upload file (\<open>env_stage\<close> when it is created and written, \<open>env_open\<close> when it is read
  again), the fresh data key with its sidecar entries or the error of \<^verbatim>\<open>newEnvelope\<close>, the encrypted
  stream, and the digests. The request's context gives the time, the
  random bytes of a version identifier and what a replica write pins. One call reads the clock
  once.
\<close>

section \<open>Environment, state and errors\<close>

datatype object_error =
    ObjectNotFound
  | ObjectBucketNotFound
  | InvalidObjectName
  | InvalidPath
  | ObjectUnderLegalHold
  | RetentionError string gotime
  | NoRetentionConfiguration
  | CannotShortenCompliance
  | CannotShortenGovernance
  | TooManyTags
  | BucketQuotaExceeded
  | TenantQuotaExceeded string
  | InvalidUploadID
  | UploadNotFound
  | InvalidPart
  | InvalidPartOrder
  | OMsg string
  | OMeta meta_error
  | OAcl acl_error
  | OStorage storage_error

record ('db, 'fs, 'au) om_env =
  env_E :: "'db engine"
  env_B :: "'fs backend"
  env_inc :: "string \<Rightarrow> int \<Rightarrow> 'au \<Rightarrow> 'au"
  env_dec :: "string \<Rightarrow> int \<Rightarrow> 'au \<Rightarrow> 'au"
  env_quota :: "string \<Rightarrow> int \<Rightarrow> 'au \<Rightarrow> string option"
  env_cleanup :: "string \<Rightarrow> string \<Rightarrow> 'fs \<Rightarrow> 'fs"
  env_stage :: "reader \<Rightarrow> 'fs \<Rightarrow> string option"
  env_open :: "'fs \<Rightarrow> string option"
  env_envelope :: "string + string \<times> smap"
  env_encrypt :: "string \<Rightarrow> string \<Rightarrow> reader"
  env_md5 :: "string \<Rightarrow> string"
  env_checksum :: "string \<Rightarrow> string \<Rightarrow> string option"

record ('db, 'fs, 'au) om_state =
  os_store :: "'db pstore"
  os_fs :: 'fs
  os_tenants :: 'au

record request_context =
  rx_now :: gotime
  rx_rand :: "string option"
  rx_versionID :: "string option"
  rx_lastModified :: "gotime option"
  rx_bypassQuota :: bool

section \<open>Names, paths and versions\<close>

definition validateObjectName :: "string \<Rightarrow> bool" where
  "validateObjectName key =
     (if key = [] then False
      else if HasPrefix key ''/'' then False
      else if list_ex (\<lambda>segment. segment = ''..'') (split_char CHR ''/'' key) then False
      else if length key > 1024 then False
      else if HasSuffix key ''.metadata'' \<or> HasSuffix key ''.metadata-staging'' then False
      else True)"

definition getObjectPath :: "string \<Rightarrow> string \<Rightarrow> string" where
  "getObjectPath bucket key = bucket @ ''/'' @ key"

definition getVersionedObjectPath :: "string \<Rightarrow> string \<Rightarrow> string \<Rightarrow> string" where
  "getVersionedObjectPath bucket key versionID = bucket @ ''/.versions/'' @ key @ ''/'' @ versionID"

definition isMetadataDeleteMarker :: "object_metadata option \<Rightarrow> bool" where
  "isMetadataDeleteMarker obj = (case obj of None \<Rightarrow> False | Some ob \<Rightarrow> om_Size ob = 0 \<and> om_ETag ob = [])"

definition isVersionDeleteMarker :: "object_version option \<Rightarrow> bool" where
  "isVersionDeleteMarker ver = (case ver of None \<Rightarrow> False | Some v \<Rightarrow> ov_Size v = 0 \<and> ov_ETag v = [])"

definition isBucketVersioningEnabled :: "'db engine \<Rightarrow> string \<Rightarrow> 'db pstore \<Rightarrow> bool" where
  "isBucketVersioningEnabled E bucket s = (let (tenantID, bucketName) = parseBucketPath bucket in
     case GetBucket E tenantID bucketName s of
       Inl _ \<Rightarrow> False
     | Inr b \<Rightarrow> (case bm_Versioning b of None \<Rightarrow> False | Some v \<Rightarrow> vm_Status v = ''Enabled''))"

definition generateVersionID :: "request_context \<Rightarrow> string" where
  "generateVersionID cx = (let timestamp = wrap64 (rx_now cx) in
     case rx_rand cx of
       None \<Rightarrow> show_int64 timestamp
     | Some randomBytes \<Rightarrow> show_int64 timestamp @ ''.'' @ EncodeToString randomBytes)"

definition replicatedVersionIDFromContext :: "request_context \<Rightarrow> string option" where
  "replicatedVersionIDFromContext cx = (case rx_versionID cx of None \<Rightarrow> None | Some v \<Rightarrow> if v = [] then None else Some v)"

definition validateReplicatedVersionID :: "string \<Rightarrow> bool" where
  "validateReplicatedVersionID versionID \<longleftrightarrow> \<not> (versionID = [] \<or> str_contains versionID ''/'' \<or>
     str_contains versionID [char_of (92 :: nat)] \<or> str_contains versionID ''..'')"

definition replicatedLastModifiedFromContext :: "request_context \<Rightarrow> gotime option" where
  "replicatedLastModifiedFromContext cx = (case rx_lastModified cx of None \<Rightarrow> None
     | Some t \<Rightarrow> if IsZero t \<or> Unix t \<le> 0 then None else Some t)"

text \<open>The version identifier of a new version or delete marker: the pinned one, else a fresh one.\<close>

definition newVersionID :: "request_context \<Rightarrow> object_error + string" where
  "newVersionID cx = (case replicatedVersionIDFromContext cx of
     Some v \<Rightarrow> if validateReplicatedVersionID v then Inr v else Inl InvalidPath
   | None \<Rightarrow> Inr (generateVersionID cx))"

section \<open>Reading metadata\<close>

definition StorageClassStandard :: string where
  "StorageClassStandard = ''STANDARD''"

definition GetObjectMetadata :: "('db, 'fs, 'au) om_env \<Rightarrow> string \<Rightarrow> string \<Rightarrow> ('db, 'fs, 'au) om_state \<Rightarrow> object_error + object" where
  "GetObjectMetadata env bucket key sys =
     (if \<not> validateObjectName key then Inl InvalidObjectName
      else (case GetObject (env_E env) bucket key [] (os_store sys) of
        Inr metaObj \<Rightarrow> (let
            checkPath = (if om_VersionID metaObj \<noteq> [] then getVersionedObjectPath bucket key (om_VersionID metaObj)
                         else getObjectPath bucket key)
          in case be_Exists (env_B env) checkPath (os_fs sys) of
               Inl e \<Rightarrow> Inl (OStorage e)
             | Inr False \<Rightarrow> Inl ObjectNotFound
             | Inr True \<Rightarrow> Inr (fromMetadataObject metaObj))
      | Inl _ \<Rightarrow> (let objectPath = getObjectPath bucket key in
          case be_Exists (env_B env) objectPath (os_fs sys) of
            Inl e \<Rightarrow> Inl (OStorage e)
          | Inr False \<Rightarrow> Inl ObjectNotFound
          | Inr True \<Rightarrow> (case be_GetMetadata (env_B env) objectPath (os_fs sys) of
              Inl e \<Rightarrow> Inl (OStorage e)
            | Inr m \<Rightarrow> Inr (blank_object\<lparr>ob_Key := key, ob_Bucket := bucket, ob_Size := ParseInt64 (map_get m ''size''),
                ob_LastModified := seconds (ParseInt64 (map_get m ''last_modified'')), ob_ETag := map_get m ''etag'',
                ob_ContentType := map_get m ''content-type'', ob_Metadata := m,
                ob_StorageClass := StorageClassStandard\<rparr>)))))"

text \<open>An absent version argument and an empty one are the same, so it is a string.\<close>

definition getObjectMetadataForVersion :: "('db, 'fs, 'au) om_env \<Rightarrow> string \<Rightarrow> string \<Rightarrow> string \<Rightarrow> ('db, 'fs, 'au) om_state \<Rightarrow> object_error + object" where
  "getObjectMetadataForVersion env bucket key versionID sys =
     (if versionID \<noteq> [] then (case GetObject (env_E env) bucket key versionID (os_store sys) of
          Inl e \<Rightarrow> Inl (if e = ErrObjectNotFound then ObjectNotFound else OMeta e)
        | Inr metaObj \<Rightarrow> Inr (fromMetadataObject metaObj))
      else GetObjectMetadata env bucket key sys)"

section \<open>Object lock, tags and restore status\<close>

text \<open>The last step of every setter: write the changed object back through the metadata store.\<close>

definition saveObject :: "('db, 'fs, 'au) om_env \<Rightarrow> gotime \<Rightarrow> object_metadata \<Rightarrow> ('db, 'fs, 'au) om_state
    \<Rightarrow> object_error + ('db, 'fs, 'au) om_state" where
  "saveObject env now metaObj sys = (case PutObject (env_E env) now (Some metaObj) (os_store sys) of
     Inl e \<Rightarrow> Inl (OMeta e) | Inr s' \<Rightarrow> Inr (sys\<lparr>os_store := s'\<rparr>))"

definition GetObjectRetention :: "('db, 'fs, 'au) om_env \<Rightarrow> string \<Rightarrow> string \<Rightarrow> string \<Rightarrow> ('db, 'fs, 'au) om_state \<Rightarrow> object_error + retention_config" where
  "GetObjectRetention env bucket key versionID sys = (case getObjectMetadataForVersion env bucket key versionID sys of
     Inl e \<Rightarrow> Inl e
   | Inr obj \<Rightarrow> (case ob_Retention obj of None \<Rightarrow> Inl NoRetentionConfiguration | Some r \<Rightarrow> Inr r))"

definition SetObjectRetention :: "('db, 'fs, 'au) om_env \<Rightarrow> gotime \<Rightarrow> string \<Rightarrow> string \<Rightarrow> retention_config option \<Rightarrow> string
    \<Rightarrow> ('db, 'fs, 'au) om_state \<Rightarrow> object_error + ('db, 'fs, 'au) om_state" where
  "SetObjectRetention env now bucket key config versionID sys =
     (case getObjectMetadataForVersion env bucket key versionID sys of
        Inl e \<Rightarrow> Inl e
      | Inr obj \<Rightarrow> (case ob_Retention obj of
          Some r \<Rightarrow>
            if now < rc_RetainUntilDate r \<and>
               (case config of None \<Rightarrow> True | Some c \<Rightarrow> rc_RetainUntilDate c < rc_RetainUntilDate r)
            then (if rc_Mode r = ''COMPLIANCE'' then Inl CannotShortenCompliance else Inl CannotShortenGovernance)
            else saveObject env now (toMetadataObject (obj\<lparr>ob_Retention := config\<rparr>)) sys
        | None \<Rightarrow> saveObject env now (toMetadataObject (obj\<lparr>ob_Retention := config\<rparr>)) sys))"

definition GetObjectLegalHold :: "('db, 'fs, 'au) om_env \<Rightarrow> string \<Rightarrow> string \<Rightarrow> string \<Rightarrow> ('db, 'fs, 'au) om_state \<Rightarrow> object_error + legal_hold_config" where
  "GetObjectLegalHold env bucket key versionID sys = (case getObjectMetadataForVersion env bucket key versionID sys of
     Inl e \<Rightarrow> Inl e
   | Inr obj \<Rightarrow> (case ob_LegalHold obj of None \<Rightarrow> Inr \<lparr>lh_Status = ''OFF''\<rparr> | Some h \<Rightarrow> Inr h))"

definition SetObjectLegalHold :: "('db, 'fs, 'au) om_env \<Rightarrow> gotime \<Rightarrow> string \<Rightarrow> string \<Rightarrow> legal_hold_config option \<Rightarrow> string
    \<Rightarrow> ('db, 'fs, 'au) om_state \<Rightarrow> object_error + ('db, 'fs, 'au) om_state" where
  "SetObjectLegalHold env now bucket key config versionID sys =
     (case getObjectMetadataForVersion env bucket key versionID sys of
        Inl e \<Rightarrow> Inl e
      | Inr obj \<Rightarrow> saveObject env now (toMetadataObject (obj\<lparr>ob_LegalHold := config\<rparr>)) sys)"

definition SetRestoreStatus :: "('db, 'fs, 'au) om_env \<Rightarrow> gotime \<Rightarrow> string \<Rightarrow> string \<Rightarrow> string \<Rightarrow> gotime option \<Rightarrow> string
    \<Rightarrow> ('db, 'fs, 'au) om_state \<Rightarrow> object_error + ('db, 'fs, 'au) om_state" where
  "SetRestoreStatus env now bucket key status expiresAt versionID sys =
     (case getObjectMetadataForVersion env bucket key versionID sys of
        Inl e \<Rightarrow> Inl e
      | Inr obj \<Rightarrow> saveObject env now ((toMetadataObject obj)\<lparr>om_RestoreStatus := status, om_RestoreExpiresAt := expiresAt\<rparr>) sys)"

definition GetObjectTagging :: "('db, 'fs, 'au) om_env \<Rightarrow> string \<Rightarrow> string \<Rightarrow> string \<Rightarrow> ('db, 'fs, 'au) om_state \<Rightarrow> object_error + tag_set" where
  "GetObjectTagging env bucket key versionID sys = (case getObjectMetadataForVersion env bucket key versionID sys of
     Inl e \<Rightarrow> Inl e
   | Inr obj \<Rightarrow> (case ob_Tags obj of None \<Rightarrow> Inr \<lparr>ts_Tags = []\<rparr> | Some t \<Rightarrow> Inr t))"

definition SetObjectTagging :: "('db, 'fs, 'au) om_env \<Rightarrow> gotime \<Rightarrow> string \<Rightarrow> string \<Rightarrow> tag_set option \<Rightarrow> string
    \<Rightarrow> ('db, 'fs, 'au) om_state \<Rightarrow> object_error + ('db, 'fs, 'au) om_state" where
  "SetObjectTagging env now bucket key tags versionID sys =
     (case getObjectMetadataForVersion env bucket key versionID sys of
        Inl e \<Rightarrow> Inl e
      | Inr obj \<Rightarrow> if (case tags of None \<Rightarrow> False | Some t \<Rightarrow> length (ts_Tags t) > 10) then Inl TooManyTags
          else saveObject env now (toMetadataObject (obj\<lparr>ob_Tags := tags\<rparr>)) sys)"

definition DeleteObjectTagging :: "('db, 'fs, 'au) om_env \<Rightarrow> gotime \<Rightarrow> string \<Rightarrow> string \<Rightarrow> string
    \<Rightarrow> ('db, 'fs, 'au) om_state \<Rightarrow> object_error + ('db, 'fs, 'au) om_state" where
  "DeleteObjectTagging env now bucket key versionID sys =
     (case getObjectMetadataForVersion env bucket key versionID sys of
        Inl e \<Rightarrow> Inl e
      | Inr obj \<Rightarrow> saveObject env now (toMetadataObject (obj\<lparr>ob_Tags := Some \<lparr>ts_Tags = []\<rparr>\<rparr>)) sys)"

section \<open>Deletion\<close>

text \<open>The object lock check that both permanent deletions make.\<close>

definition lock_check :: "bool \<Rightarrow> gotime \<Rightarrow> object \<Rightarrow> object_error option" where
  "lock_check bypassGovernance now obj =
     (if (case ob_LegalHold obj of None \<Rightarrow> False | Some h \<Rightarrow> lh_Status h = ''ON'') then Some ObjectUnderLegalHold
      else (case ob_Retention obj of
        None \<Rightarrow> None
      | Some r \<Rightarrow>
          if now < rc_RetainUntilDate r then
            (if rc_Mode r = ''COMPLIANCE'' then Some (RetentionError ''COMPLIANCE'' (rc_RetainUntilDate r))
             else if rc_Mode r = ''GOVERNANCE'' \<and> \<not> bypassGovernance
             then Some (RetentionError ''GOVERNANCE'' (rc_RetainUntilDate r))
             else None)
          else None))"

definition resolveFolderDeleteKey :: "'db engine \<Rightarrow> string \<Rightarrow> string \<Rightarrow> 'db pstore \<Rightarrow> string" where
  "resolveFolderDeleteKey E bucket key s =
     (if HasSuffix key ''/'' then key
      else (case GetObject E bucket key [] s of
        Inr _ \<Rightarrow> key
      | Inl _ \<Rightarrow> (case GetObject E bucket (key @ ''/'') [] s of Inr _ \<Rightarrow> key @ ''/'' | Inl _ \<Rightarrow> key)))"

text \<open>A best-effort call: its error is logged and the store stays as it was.\<close>

definition try_store :: "(meta_error + 'db pstore) \<Rightarrow> 'db pstore \<Rightarrow> 'db pstore" where
  "try_store r s = (case r of Inl _ \<Rightarrow> s | Inr s' \<Rightarrow> s')"

definition createDeleteMarker :: "('db, 'fs, 'au) om_env \<Rightarrow> request_context \<Rightarrow> string \<Rightarrow> string
    \<Rightarrow> ('db, 'fs, 'au) om_state \<Rightarrow> (object_error + string) \<times> ('db, 'fs, 'au) om_state" where
  "createDeleteMarker env cx bucket key sys = (let
     E = env_E env; now = rx_now cx;
     wasVisible = (case GetObject E bucket key [] (os_store sys) of
         Inl _ \<Rightarrow> False | Inr ob \<Rightarrow> \<not> isMetadataDeleteMarker (Some ob))
   in case newVersionID cx of
        Inl e \<Rightarrow> (Inl e, sys)
      | Inr deleteMarkerVersionID \<Rightarrow> (let
          deleteMarker = zero_version\<lparr>ov_VersionID := deleteMarkerVersionID, ov_IsLatest := True, ov_Key := key,
            ov_Size := 0, ov_ETag := [], ov_LastModified := now, ov_StorageClass := StorageClassStandard\<rparr>;
          deleteMarkerObj = zero_object\<lparr>om_Bucket := bucket, om_Key := key, om_VersionID := deleteMarkerVersionID,
            om_Size := 0, om_LastModified := now, om_ETag := [], om_ContentType := [],
            om_StorageClass := StorageClassStandard, om_CreatedAt := now, om_UpdatedAt := now\<rparr>
        in case PutObjectVersion E (Some deleteMarkerObj) (Some deleteMarker) (os_store sys) of
             Inl e \<Rightarrow> (Inl (OMeta e), sys)
           | Inr s \<Rightarrow> (let (tenantID, bucketName) = parseBucketPath bucket;
               s = (if wasVisible then try_store (DecrementObjectCount E now tenantID bucketName 0 s) s else s)
             in (Inr deleteMarkerVersionID, sys\<lparr>os_store := s\<rparr>))))"

text \<open>The most recent version other than \<open>versionID\<close>; the first one wins a tie.\<close>

definition pick_latest :: "string \<Rightarrow> object_version list \<Rightarrow> object_version option" where
  "pick_latest versionID vs = foldl (\<lambda>next ver.
     if ov_VersionID ver \<noteq> versionID \<and>
        (case next of None \<Rightarrow> True | Some w \<Rightarrow> ov_LastModified w < ov_LastModified ver)
     then Some ver else next) None vs"

text \<open>What happens to the key's latest entry after its latest version was removed.\<close>

definition promote_next :: "'db engine \<Rightarrow> string \<Rightarrow> string \<Rightarrow> string \<Rightarrow> object_version list \<Rightarrow> 'db pstore \<Rightarrow> 'db pstore" where
  "promote_next E bucket key versionID allVersions s = (let
     freshVersions = (case GetObjectVersions E bucket key s of Inl _ \<Rightarrow> allVersions | Inr vs \<Rightarrow> vs)
   in if freshVersions \<noteq> [] then
        (case pick_latest versionID freshVersions of
           None \<Rightarrow> s
         | Some nextLatest \<Rightarrow> (case GetObject E bucket key (ov_VersionID nextLatest) s of
             Inl _ \<Rightarrow> s
           | Inr nextMetaObj \<Rightarrow> (let
               nextMetaObj = (if om_Bucket nextMetaObj = [] then nextMetaObj\<lparr>om_Bucket := bucket\<rparr> else nextMetaObj);
               nextMetaObj = (if om_Key nextMetaObj = [] then nextMetaObj\<lparr>om_Key := key\<rparr> else nextMetaObj)
             in try_store (PutObjectVersion E (Some nextMetaObj) (Some (nextLatest\<lparr>ov_IsLatest := True\<rparr>)) s) s)))
      else try_store (DeleteObject E bucket key [] s) s)"

text \<open>The counters after a permanent deletion of the latest version.\<close>

definition count_version_delete :: "'db engine \<Rightarrow> gotime \<Rightarrow> string \<Rightarrow> string \<Rightarrow> object_metadata \<Rightarrow> int \<Rightarrow> object_version list
    \<Rightarrow> 'db pstore \<Rightarrow> 'db pstore" where
  "count_version_delete E now bucket versionID metaObj freedBytes allVersions s = (let
     deletedIsDeleteMarker = isMetadataDeleteMarker (Some metaObj);
     nextLatest = (if length allVersions > 1 then pick_latest versionID allVersions else None);
     hasNextVersion = nextLatest \<noteq> None;
     nextIsDeleteMarker = isVersionDeleteMarker nextLatest;
     (tenantID, bucketName) = parseBucketPath bucket
   in if \<not> hasNextVersion \<and> \<not> deletedIsDeleteMarker
      then try_store (DecrementObjectCount E now tenantID bucketName freedBytes s) s
      else if hasNextVersion \<and> deletedIsDeleteMarker \<and> \<not> nextIsDeleteMarker
      then try_store (IncrementObjectCount E now tenantID bucketName 0 s) s
      else if hasNextVersion \<and> \<not> deletedIsDeleteMarker \<and> nextIsDeleteMarker
      then try_store (DecrementObjectCount E now tenantID bucketName freedBytes s) s
      else s)"

definition deleteSpecificVersion :: "('db, 'fs, 'au) om_env \<Rightarrow> gotime \<Rightarrow> string \<Rightarrow> string \<Rightarrow> string \<Rightarrow> bool
    \<Rightarrow> ('db, 'fs, 'au) om_state \<Rightarrow> object_error option \<times> ('db, 'fs, 'au) om_state" where
  "deleteSpecificVersion env now bucket key versionID bypassGovernance sys = (let E = env_E env in
     case GetObjectVersions E bucket key (os_store sys) of
       Inl e \<Rightarrow> (Some (OMeta e), sys)
     | Inr allVersions \<Rightarrow> (case find (\<lambda>ver. ov_VersionID ver = versionID) allVersions of
         None \<Rightarrow> (Some ObjectNotFound, sys)
       | Some versionToDelete \<Rightarrow> (case GetObject E bucket key versionID (os_store sys) of
           Inl e \<Rightarrow> (Some (if e = ErrObjectNotFound then ObjectNotFound else OMeta e), sys)
         | Inr metaObj \<Rightarrow> (let objMetadata = fromMetadataObject metaObj in
           case lock_check bypassGovernance now objMetadata of
             Some e \<Rightarrow> (Some e, sys)
           | None \<Rightarrow> (case DeleteObjectVersion E bucket key versionID (os_store sys) of
               Inl e \<Rightarrow> (Some (OMeta e), sys)
             | Inr s1 \<Rightarrow> (let
                 (physicalDeleteOK, fs) =
                   (if ob_Size objMetadata > 0
                    then (case be_Delete (env_B env) (getVersionedObjectPath bucket key versionID) (os_fs sys) of
                        (r, fs) \<Rightarrow> (r = None \<or> r = Some StorageNotFound, fs))
                    else (True, os_fs sys));
                 s2 = (if ov_IsLatest versionToDelete then promote_next E bucket key versionID allVersions s1 else s1);
                 freedBytes = (if physicalDeleteOK then ob_Size objMetadata else 0);
                 s3 = (if ov_IsLatest versionToDelete
                       then count_version_delete E now bucket versionID metaObj freedBytes allVersions s2 else s2)
               in (None, sys\<lparr>os_store := s3, os_fs := fs\<rparr>)))))))"

definition deletePermanently :: "('db, 'fs, 'au) om_env \<Rightarrow> gotime \<Rightarrow> string \<Rightarrow> string \<Rightarrow> bool
    \<Rightarrow> ('db, 'fs, 'au) om_state \<Rightarrow> object_error option \<times> ('db, 'fs, 'au) om_state" where
  "deletePermanently env now bucket key bypassGovernance sys = (let
     E = env_E env; objectPath = getObjectPath bucket key
   in case GetObject E bucket key [] (os_store sys) of
        Inl e \<Rightarrow>
          if e = ErrObjectNotFound
          then (None, sys\<lparr>os_fs := env_cleanup env bucket key (snd (be_Delete (env_B env) objectPath (os_fs sys)))\<rparr>)
          else (Some (OMeta e), sys)
      | Inr metaObj \<Rightarrow> (let
          objMetadata = fromMetadataObject metaObj; objectSize = ob_Size objMetadata;
          finish = (\<lambda>s1. let
            fs = env_cleanup env bucket key (snd (be_Delete (env_B env) objectPath (os_fs sys)));
            (tenantID, bucketName) = parseBucketPath bucket;
            s2 = try_store (DecrementObjectCount E now tenantID bucketName objectSize s1) s1;
            au = (if tenantID \<noteq> [] then env_dec env tenantID objectSize (os_tenants sys) else os_tenants sys)
          in (None, \<lparr>os_store = s2, os_fs = fs, os_tenants = au\<rparr>))
        in case lock_check bypassGovernance now objMetadata of
             Some e \<Rightarrow> (Some e, sys)
           | None \<Rightarrow> (case DeleteObject E bucket key [] (os_store sys) of
               Inl e \<Rightarrow> if e \<noteq> ErrObjectNotFound then (Some (OMeta e), sys) else finish (os_store sys)
             | Inr s1 \<Rightarrow> finish s1)))"

definition OM_DeleteObject :: "('db, 'fs, 'au) om_env \<Rightarrow> request_context \<Rightarrow> string \<Rightarrow> string \<Rightarrow> bool \<Rightarrow> string
    \<Rightarrow> ('db, 'fs, 'au) om_state \<Rightarrow> (object_error + string) \<times> ('db, 'fs, 'au) om_state" where
  "OM_DeleteObject env cx bucket key bypassGovernance versionID sys =
     (if \<not> validateObjectName key then (Inl InvalidObjectName, sys)
      else (let
        key = resolveFolderDeleteKey (env_E env) bucket key (os_store sys);
        versioningEnabled = isBucketVersioningEnabled (env_E env) bucket (os_store sys);
        result = (\<lambda>(r, sys'). (case r of None \<Rightarrow> Inr [] | Some e \<Rightarrow> Inl e, sys'))
      in if versionID \<noteq> [] then result (deleteSpecificVersion env (rx_now cx) bucket key versionID bypassGovernance sys)
         else if versioningEnabled then createDeleteMarker env cx bucket key sys
         else result (deletePermanently env (rx_now cx) bucket key bypassGovernance sys)))"

definition OM_DeleteObjectVersion :: "('db, 'fs, 'au) om_env \<Rightarrow> gotime \<Rightarrow> string \<Rightarrow> string \<Rightarrow> string
    \<Rightarrow> ('db, 'fs, 'au) om_state \<Rightarrow> object_error option \<times> ('db, 'fs, 'au) om_state" where
  "OM_DeleteObjectVersion env now bucket key versionID sys = deleteSpecificVersion env now bucket key versionID False sys"

section \<open>Quotas and counters\<close>

definition checkBucketStorageQuota :: "'db engine \<Rightarrow> string \<Rightarrow> int \<Rightarrow> bool \<Rightarrow> 'db pstore \<Rightarrow> object_error option" where
  "checkBucketStorageQuota E bucket sizeIncrement newObject s = (let (tenantID, bucketName) = parseBucketPath bucket in
     case GetBucket E tenantID bucketName s of
       Inl _ \<Rightarrow> None
     | Inr bucketMeta \<Rightarrow> (case bm_Quota bucketMeta of
         None \<Rightarrow> None
       | Some q \<Rightarrow>
           if bq_MaxSizeBytes q > 0 \<and> sizeIncrement > 0 \<and>
              add64 (bm_TotalSize bucketMeta) sizeIncrement > bq_MaxSizeBytes q then Some BucketQuotaExceeded
           else if bq_MaxObjectCount q > 0 \<and> newObject \<and>
              add64 (bm_ObjectCount bucketMeta) 1 > bq_MaxObjectCount q then Some BucketQuotaExceeded
           else None))"

definition updateBucketMetricsAfterPut :: "'db engine \<Rightarrow> gotime \<Rightarrow> string \<Rightarrow> string \<Rightarrow> int \<Rightarrow> bool \<Rightarrow> object_metadata option
    \<Rightarrow> 'db pstore \<Rightarrow> 'db pstore" where
  "updateBucketMetricsAfterPut E now tenantID bucketName sz versioningEnabled existingObjBeforeSave s =
     (if \<not> versioningEnabled then (case existingObjBeforeSave of
          None \<Rightarrow> try_store (IncrementObjectCount E now tenantID bucketName sz s) s
        | Some existing \<Rightarrow> (let sizeDiff = sub64 sz (om_Size existing) in
            if sizeDiff \<noteq> 0 then try_store (AdjustBucketSize E now tenantID bucketName sizeDiff s) s else s))
      else (let wasVisible = existingObjBeforeSave \<noteq> None \<and> \<not> isMetadataDeleteMarker existingObjBeforeSave in
        if \<not> wasVisible then try_store (IncrementObjectCount E now tenantID bucketName sz s) s
        else try_store (AdjustBucketSize E now tenantID bucketName sz s) s))"

definition updateTenantQuotaAfterPut :: "('db, 'fs, 'au) om_env \<Rightarrow> string \<Rightarrow> int \<Rightarrow> bool \<Rightarrow> object_metadata option \<Rightarrow> 'au \<Rightarrow> 'au" where
  "updateTenantQuotaAfterPut env tenantID sz versioningEnabled existingObjBeforeSave au =
     (if tenantID = [] then au
      else (let sizeToAdd = (if \<not> versioningEnabled then (case existingObjBeforeSave of
                 None \<Rightarrow> sz | Some existing \<Rightarrow> sub64 sz (om_Size existing)) else sz)
        in if sizeToAdd \<noteq> 0 then env_inc env tenantID sizeToAdd au else au))"

section \<open>Writing an object\<close>

text \<open>\<^verbatim>\<open>http.Header\<close> with its canonical keys; \<open>header_get\<close> is \<^verbatim>\<open>Get\<close>, which ignores case.\<close>

type_synonym header = "(string \<times> string list) list"

definition header_get :: "header \<Rightarrow> string \<Rightarrow> string" where
  "header_get h name = (case find (\<lambda>(k, vs). EqualFold k name) h of
     Some (k, v # vs) \<Rightarrow> v | _ \<Rightarrow> [])"

definition put_nonempty :: "string \<Rightarrow> string \<Rightarrow> smap \<Rightarrow> smap" where
  "put_nonempty k v m = (if v \<noteq> [] then AList.update k v m else m)"

definition extractMetadataFromHeaders :: "header \<Rightarrow> smap \<times> smap" where
  "extractMetadataFromHeaders h = (let
     contentType = header_get h ''Content-Type'';
     m = [(''content-type'', if contentType \<noteq> [] then contentType else ''application/octet-stream'')];
     m = put_nonempty ''storage-class'' (header_get h ''x-amz-storage-class'') m;
     storageMetadata = fold (\<lambda>k. put_nonempty (ToLower k) (header_get h k))
       [''Content-Disposition'', ''Content-Encoding'', ''Cache-Control'', ''Content-Language''] m;
     userMetadata = fold (\<lambda>(k, vs) um. case vs of [] \<Rightarrow> um
       | v # _ \<Rightarrow> (let lowerKey = ToLower k in
           if HasPrefix lowerKey ''x-amz-meta-'' then AList.update (TrimPrefix lowerKey ''x-amz-meta-'') v um else um)) h []
   in (storageMetadata, userMetadata))"

definition storageClassOrDefault :: "string \<Rightarrow> string" where
  "storageClassOrDefault sc = (if sc = [] then StorageClassStandard else sc)"

definition ToUpper :: "string \<Rightarrow> string" where
  "ToUpper s = map (\<lambda>c. if 97 \<le> (of_char c :: nat) \<and> of_char c \<le> (122 :: nat) then char_of (of_char c - 32 :: nat) else c) s"

definition loadBucketMetadata :: "'db engine \<Rightarrow> string \<Rightarrow> 'db pstore \<Rightarrow> object_error + bucket_metadata" where
  "loadBucketMetadata E bucketName s = (let (tenantID, actualBucketName) = parseBucketPath bucketName in
     case GetBucket E tenantID actualBucketName s of
       Inl e \<Rightarrow> Inl (if e = ErrBucketNotFound then OMsg ''bucket metadata not found'' else OMeta e)
     | Inr b \<Rightarrow> Inr b)"

definition applyDefaultRetention :: "'db engine \<Rightarrow> object \<Rightarrow> 'db pstore \<Rightarrow> object" where
  "applyDefaultRetention E obj s = (case loadBucketMetadata E (ob_Bucket obj) s of
     Inl _ \<Rightarrow> obj
   | Inr bucketMeta \<Rightarrow> (case bm_ObjectLock bucketMeta of
       None \<Rightarrow> obj
     | Some lock \<Rightarrow>
         if \<not> olm_Enabled lock then obj
         else (case olm_Rule lock of
           None \<Rightarrow> obj
         | Some rule \<Rightarrow> (case olr_DefaultRetention rule of
             None \<Rightarrow> obj
           | Some retention \<Rightarrow> obj\<lparr>ob_Retention :=
               Some \<lparr>rc_Mode = rt_Mode retention, rc_RetainUntilDate = rt_RetainUntilDate retention\<rparr>\<rparr>))))"

text \<open>
  The parent folders of a key as metadata entries. \<open>folder_paths\<close> is the loop that joins the parts;
  an empty part is skipped.
\<close>

fun folder_paths :: "string \<Rightarrow> string list \<Rightarrow> string list" where
  "folder_paths currentPath [] = []"
| "folder_paths currentPath (part # parts) =
     (if part = [] then folder_paths currentPath parts
      else (let currentPath = (if currentPath \<noteq> [] then currentPath @ ''/'' else currentPath) @ part
        in (currentPath @ ''/'') # folder_paths currentPath parts))"

definition folder_object :: "gotime \<Rightarrow> string \<Rightarrow> string \<Rightarrow> object_metadata" where
  "folder_object now bucket folderKey = zero_object\<lparr>om_Bucket := bucket, om_Key := folderKey, om_Size := 0,
     om_LastModified := now, om_ETag := ''d41d8cd98f00b204e9800998ecf8427e'', om_ContentType := ''application/x-directory'',
     om_Metadata := [(''x-maxiofs-implicit-folder'', ''true'')], om_CreatedAt := now, om_UpdatedAt := now\<rparr>"

definition ensure_folder :: "'db engine \<Rightarrow> gotime \<Rightarrow> string \<Rightarrow> string \<Rightarrow> 'db pstore \<Rightarrow> 'db pstore" where
  "ensure_folder E now bucket folderKey s = (case GetObject E bucket folderKey [] s of
     Inr _ \<Rightarrow> s
   | Inl _ \<Rightarrow> try_store (PutObject E now (Some (folder_object now bucket folderKey)) s) s)"

definition ensureImplicitFolders :: "'db engine \<Rightarrow> gotime \<Rightarrow> string \<Rightarrow> string \<Rightarrow> 'db pstore \<Rightarrow> 'db pstore" where
  "ensureImplicitFolders E now bucket key s =
     (if HasSuffix key ''/'' then s
      else (let parts = split_char CHR ''/'' key in
        if length parts \<le> 1 then s
        else fold (ensure_folder E now bucket) (folder_paths [] (butlast parts)) s))"

text \<open>The quota check before any data is stored: how much the write adds and whether the key is new.\<close>

definition put_increment :: "bool \<Rightarrow> int \<Rightarrow> object_metadata option \<Rightarrow> int \<times> bool" where
  "put_increment versioningEnabled originalSize existingObj =
     (if versioningEnabled then (originalSize, existingObj = None \<or> isMetadataDeleteMarker existingObj)
      else (case existingObj of
        None \<Rightarrow> (originalSize, True)
      | Some existing \<Rightarrow> (sub64 originalSize (om_Size existing), False)))"

definition put_quota_check :: "('db, 'fs, 'au) om_env \<Rightarrow> string \<Rightarrow> bool \<Rightarrow> int \<Rightarrow> object_metadata option
    \<Rightarrow> ('db, 'fs, 'au) om_state \<Rightarrow> object_error option" where
  "put_quota_check env bucket versioningEnabled originalSize existingObj sys = (let
     (tenantID, bucketName) = parseBucketPath bucket;
     (sizeIncrement, isNewObject) = put_increment versioningEnabled originalSize existingObj
   in case (if tenantID \<noteq> [] \<and> sizeIncrement > 0 then env_quota env tenantID sizeIncrement (os_tenants sys) else None) of
        Some e \<Rightarrow> Some (TenantQuotaExceeded e)
      | None \<Rightarrow> checkBucketStorageQuota (env_E env) bucket sizeIncrement isNewObject (os_store sys))"

definition existing_object :: "'db engine \<Rightarrow> string \<Rightarrow> string \<Rightarrow> 'db pstore \<Rightarrow> object_metadata option" where
  "existing_object E bucket key s = (case GetObject E bucket key [] s of Inl _ \<Rightarrow> None | Inr ob \<Rightarrow> Some ob)"

text \<open>
  The end of \<^verbatim>\<open>PutObject\<close>, once the data is stored: save the metadata as a version or as the object,
  create the parent folders and update the counters.
\<close>

definition save_put :: "('db, 'fs, 'au) om_env \<Rightarrow> gotime \<Rightarrow> bool \<Rightarrow> object \<Rightarrow> ('db, 'fs, 'au) om_state
    \<Rightarrow> (object_error + object) \<times> ('db, 'fs, 'au) om_state" where
  "save_put env now versioningEnabled obj sys = (let
     E = env_E env; bucket = ob_Bucket obj; key = ob_Key obj; sz = ob_Size obj;
     (tenantID, bucketName) = parseBucketPath bucket;
     existing = existing_object E bucket key (os_store sys);
     version = zero_version\<lparr>ov_VersionID := ob_VersionID obj, ov_IsLatest := True, ov_Key := key, ov_Size := sz,
       ov_ETag := ob_ETag obj, ov_LastModified := ob_LastModified obj, ov_StorageClass := ob_StorageClass obj\<rparr>
   in case (if versioningEnabled then PutObjectVersion E (Some (toMetadataObject obj)) (Some version) (os_store sys)
            else PutObject E now (Some (toMetadataObject obj)) (os_store sys)) of
        Inl e \<Rightarrow> (Inl (OMeta e), sys)
      | Inr s1 \<Rightarrow> (let
          s2 = ensureImplicitFolders E now bucket key s1;
          s3 = updateBucketMetricsAfterPut E now tenantID bucketName sz versioningEnabled existing s2
        in (Inr obj, sys\<lparr>os_store := s3,
             os_tenants := updateTenantQuotaAfterPut env tenantID sz versioningEnabled existing (os_tenants sys)\<rparr>)))"

definition storeEncryptedObject :: "('db, 'fs, 'au) om_env \<Rightarrow> string \<Rightarrow> string \<Rightarrow> smap \<Rightarrow> int \<Rightarrow> string \<Rightarrow> 'fs
    \<Rightarrow> object_error option \<times> 'fs" where
  "storeEncryptedObject env objectPath temp storageMetadata originalSize originalETag fs =
     (case env_envelope env of
        Inl e \<Rightarrow> (Some (OMsg e), fs)
      | Inr (dek, envelopeMeta) \<Rightarrow> (let
          m = AList.update ''original-size'' (show_int64 originalSize) storageMetadata;
          m = AList.update ''original-etag'' originalETag m;
          m = AList.update ''encrypted'' ''true'' m;
          m = AList.update ''x-amz-server-side-encryption'' ''AES256'' m;
          m = AList.update ''x-amz-server-side-encryption-algorithm'' ''AES-256-GCM-STREAM'' m;
          m = fold (\<lambda>(k, v). AList.update k v) envelopeMeta m
        in case env_open env fs of
             Some e \<Rightarrow> (Some (OMsg e), fs)
           | None \<Rightarrow> (case be_Put (env_B env) objectPath (env_encrypt env dek temp) m fs of
               (Some e, fs') \<Rightarrow> (Some (OStorage e), fs') | (None, fs') \<Rightarrow> (None, fs'))))"

definition storeUnencryptedObject :: "('db, 'fs, 'au) om_env \<Rightarrow> string \<Rightarrow> string \<Rightarrow> smap \<Rightarrow> int \<Rightarrow> string \<Rightarrow> 'fs
    \<Rightarrow> object_error option \<times> 'fs" where
  "storeUnencryptedObject env objectPath temp storageMetadata originalSize originalETag fs = (let
     m = AList.update ''size'' (show_int64 originalSize) storageMetadata;
     m = AList.update ''etag'' originalETag m
   in case env_open env fs of
        Some e \<Rightarrow> (Some (OMsg e), fs)
      | None \<Rightarrow> (case be_Put (env_B env) objectPath (temp, None) m fs of
          (Some e, fs') \<Rightarrow> (Some (OStorage e), fs') | (None, fs') \<Rightarrow> (None, fs')))"

text \<open>
  The body of \<^verbatim>\<open>PutObject\<close> between the staged upload and the metadata: \<open>put_data\<close> stores the bytes,
  \<open>put_object_record\<close> is the object value built from the headers and the stored sidecar. The entries
  that the store adds to the header map are not read again.
\<close>

definition put_data :: "('db, 'fs, 'au) om_env \<Rightarrow> string \<Rightarrow> string \<Rightarrow> string \<Rightarrow> smap \<Rightarrow> 'fs \<Rightarrow> object_error option \<times> 'fs" where
  "put_data env key objectPath temp storageMetadata fs =
     (if HasSuffix key ''/'' then storeUnencryptedObject env objectPath temp storageMetadata (int (length temp)) (env_md5 env temp) fs
      else storeEncryptedObject env objectPath temp storageMetadata (int (length temp)) (env_md5 env temp) fs)"

definition put_object_record :: "request_context \<Rightarrow> string \<Rightarrow> string \<Rightarrow> string \<Rightarrow> int \<Rightarrow> string \<Rightarrow> smap \<Rightarrow> smap \<Rightarrow> smap
    \<Rightarrow> string \<Rightarrow> string \<Rightarrow> object" where
  "put_object_record cx bucket key versionID originalSize originalETag storageMetadata userMetadata finalStorageMetadata
     checksumAlgo checksumValue = (let
     modTime = (case replicatedLastModifiedFromContext cx of Some t \<Rightarrow> t
       | None \<Rightarrow> seconds (ParseInt64 (map_get finalStorageMetadata ''last_modified'')))
   in blank_object\<lparr>ob_Key := key, ob_Bucket := bucket, ob_Size := originalSize,
     ob_LastModified := modTime, ob_ETag := originalETag,
     ob_ContentType := map_get finalStorageMetadata ''content-type'',
     ob_ContentDisposition := map_get storageMetadata ''content-disposition'',
     ob_ContentEncoding := map_get storageMetadata ''content-encoding'',
     ob_CacheControl := map_get storageMetadata ''cache-control'',
     ob_ContentLanguage := map_get storageMetadata ''content-language'',
     ob_Metadata := userMetadata,
     ob_StorageClass := storageClassOrDefault (map_get storageMetadata ''storage-class''),
     ob_VersionID := versionID, ob_ChecksumAlgorithm := checksumAlgo,
     ob_ChecksumValue := checksumValue,
     ob_SSEAlgorithm := (if HasSuffix key ''/'' then [] else ''AES256'')\<rparr>)"

definition checksum_mismatch :: "header \<Rightarrow> string \<Rightarrow> string option \<Rightarrow> bool" where
  "checksum_mismatch headers checksumAlgo checksum = (case checksum of
     None \<Rightarrow> False
   | Some checksumValue \<Rightarrow> (let clientValue = header_get headers (''x-amz-checksum-'' @ ToLower checksumAlgo)
       in clientValue \<noteq> [] \<and> clientValue \<noteq> checksumValue))"

definition OM_PutObject :: "('db, 'fs, 'au) om_env \<Rightarrow> request_context \<Rightarrow> string \<Rightarrow> string \<Rightarrow> reader \<Rightarrow> header
    \<Rightarrow> ('db, 'fs, 'au) om_state \<Rightarrow> (object_error + object) \<times> ('db, 'fs, 'au) om_state" where
  "OM_PutObject env cx bucket key data headers sys =
     (if \<not> validateObjectName key then (Inl InvalidObjectName, sys)
      else (let
        E = env_E env;
        (storageMetadata, userMetadata) = extractMetadataFromHeaders headers;
        versioningEnabled = isBucketVersioningEnabled E bucket (os_store sys)
      in case (if versioningEnabled then newVersionID cx else Inr []) of
           Inl e \<Rightarrow> (Inl e, sys)
         | Inr versionID \<Rightarrow> (case env_stage env data (os_fs sys) of
             Some e \<Rightarrow> (Inl (OMsg e), sys)
           | None \<Rightarrow> (let
               objectPath = (if versioningEnabled then getVersionedObjectPath bucket key versionID else getObjectPath bucket key);
               temp = fst data; originalSize = int (length temp); originalETag = env_md5 env temp;
               checksumAlgo = ToUpper (header_get headers ''x-amz-checksum-algorithm'');
               checksum = env_checksum env checksumAlgo temp;
               checksumValue = (case checksum of None \<Rightarrow> [] | Some v \<Rightarrow> v)
             in if checksum_mismatch headers checksumAlgo checksum then (Inl (OMsg ''BadDigest''), sys)
                else (case (if rx_bypassQuota cx then None
                    else put_quota_check env bucket versioningEnabled originalSize (existing_object E bucket key (os_store sys)) sys) of
                  Some e \<Rightarrow> (Inl e, sys)
                | None \<Rightarrow> (case put_data env key objectPath temp storageMetadata (os_fs sys) of
                    (Some e, fs) \<Rightarrow> (Inl e, sys\<lparr>os_fs := fs\<rparr>)
                  | (None, fs) \<Rightarrow> (case be_GetMetadata (env_B env) objectPath fs of
                      Inl e \<Rightarrow> (Inl (OStorage e), sys\<lparr>os_fs := fs\<rparr>)
                    | Inr finalStorageMetadata \<Rightarrow> save_put env (rx_now cx) versioningEnabled
                        (applyDefaultRetention E (put_object_record cx bucket key versionID originalSize originalETag
                           storageMetadata userMetadata finalStorageMetadata checksumAlgo checksumValue) (os_store sys))
                        (sys\<lparr>os_fs := fs\<rparr>))))))))"

end
