(* ===== verification/Object_Multipart.thy ===== *)
theory Object_Multipart
  imports Object_Manager Meta_Multipart
begin

text \<open>
  Multipart uploads in the object manager, \<^verbatim>\<open>internal/object/manager.go\<close>: the upload session, its parts and
  the completion that combines them, encrypts the result and saves it as an object or as a new version.

  \<open>doCompleteMultipartUpload\<close> is one run of the completion; how concurrent callers share it is in
  \<^verbatim>\<open>Completion_Flights\<close>.
\<close>

section \<open>Sessions and parts\<close>

definition generateUploadID :: "string + string \<Rightarrow> object_error + string" where
  "generateUploadID rnd = (case rnd of Inl e \<Rightarrow> Inl (OMsg e) | Inr bytes \<Rightarrow> Inr (EncodeToString bytes))"

definition getMultipartPartPath :: "string \<Rightarrow> int \<Rightarrow> string" where
  "getMultipartPartPath uploadID partNumber = ''.maxiofs/multipart/parts/'' @ uploadID @ ''/'' @ pad5 partNumber"

definition upload_metadata_of :: "header \<Rightarrow> smap" where
  "upload_metadata_of headers = (let
     (storageMetadata, userMetadata) = extractMetadataFromHeaders headers;
     m = fold (\<lambda>(k, v). AList.update k v) storageMetadata [];
     m = fold (\<lambda>(k, v). AList.update k v) userMetadata m
   in put_nonempty ''x-amz-acl'' (header_get headers ''x-amz-acl'') m)"

definition OM_CreateMultipartUpload :: "('db, 'fs, 'au) om_env \<Rightarrow> gotime \<Rightarrow> string + string \<Rightarrow> string \<Rightarrow> string \<Rightarrow> header
    \<Rightarrow> ('db, 'fs, 'au) om_state \<Rightarrow> (object_error + multipart_upload) \<times> ('db, 'fs, 'au) om_state" where
  "OM_CreateMultipartUpload env now rnd bucket key headers sys =
     (if \<not> validateObjectName key then (Inl InvalidObjectName, sys)
      else (case generateUploadID rnd of
        Inl e \<Rightarrow> (Inl e, sys)
      | Inr uploadID \<Rightarrow> (let
          multipart = \<lparr>mu_UploadID = uploadID, mu_Bucket = bucket, mu_Key = key, mu_Initiated = now,
            mu_StorageClass = storageClassOrDefault (header_get headers ''x-amz-storage-class''),
            mu_Metadata = upload_metadata_of headers, mu_Parts = []\<rparr>
        in case CreateMultipartUpload (env_E env) now (Some (toMetadataMultipartUpload multipart)) (os_store sys) of
             Inl e \<Rightarrow> (Inl (OMeta e), sys)
           | Inr s \<Rightarrow> (Inr multipart, sys\<lparr>os_store := s\<rparr>))))"

definition upload_missing :: "meta_error \<Rightarrow> object_error" where
  "upload_missing e = (if e = ErrUploadNotFound then UploadNotFound else OMeta e)"

definition UploadPart :: "('db, 'fs, 'au) om_env \<Rightarrow> gotime \<Rightarrow> string \<Rightarrow> int \<Rightarrow> reader \<Rightarrow> ('db, 'fs, 'au) om_state
    \<Rightarrow> (object_error + multipart_part) \<times> ('db, 'fs, 'au) om_state" where
  "UploadPart env now uploadID partNumber data sys =
     (if partNumber < 1 \<or> partNumber > 10000 then (Inl (OMsg ''part number must be between 1 and 10000''), sys)
      else (case GetMultipartUpload (env_E env) uploadID (os_store sys) of
        Inl e \<Rightarrow> (Inl (upload_missing e), sys)
      | Inr _ \<Rightarrow> (let
          partPath = getMultipartPartPath uploadID partNumber;
          partMetadata = [(''upload-id'', uploadID), (''part-number'', show_int64 partNumber), (''content-type'', ''application/octet-stream'')]
        in case be_Put (env_B env) partPath data partMetadata (os_fs sys) of
             (Some e, fs) \<Rightarrow> (Inl (OStorage e), sys\<lparr>os_fs := fs\<rparr>)
           | (None, fs) \<Rightarrow> (case be_GetMetadata (env_B env) partPath fs of
               Inl e \<Rightarrow> (Inl (OStorage e), sys\<lparr>os_fs := fs\<rparr>)
             | Inr m \<Rightarrow> (let
                 part = \<lparr>pa_PartNumber = partNumber, pa_ETag = map_get m ''etag'', pa_Size = ParseInt64 (map_get m ''size''),
                   pa_LastModified = seconds (ParseInt64 (map_get m ''last_modified''))\<rparr>
               in case PutPart (env_E env) now (Some \<lparr>pt_UploadID = uploadID, pt_PartNumber = partNumber, pt_Size = pa_Size part,
                      pt_ETag = pa_ETag part, pt_LastModified = pa_LastModified part\<rparr>) (os_store sys) of
                    Inl e \<Rightarrow> (Inl (upload_missing e), sys\<lparr>os_fs := snd (be_Delete (env_B env) partPath fs)\<rparr>)
                  | Inr s \<Rightarrow> (Inr part, sys\<lparr>os_store := s, os_fs := fs\<rparr>))))))"

definition OM_ListParts :: "('db, 'fs, 'au) om_env \<Rightarrow> string \<Rightarrow> ('db, 'fs, 'au) om_state \<Rightarrow> object_error + multipart_part list" where
  "OM_ListParts env uploadID sys = (case GetMultipartUpload (env_E env) uploadID (os_store sys) of
     Inl e \<Rightarrow> Inl (upload_missing e)
   | Inr _ \<Rightarrow> (case ListParts (env_E env) uploadID (os_store sys) of
       Inl e \<Rightarrow> Inl (if e = ErrUploadNotFound then InvalidUploadID else OMeta e)
     | Inr metaParts \<Rightarrow> Inr (map (\<lambda>mp. \<lparr>pa_PartNumber = pt_PartNumber mp, pa_ETag = pt_ETag mp, pa_Size = pt_Size mp,
         pa_LastModified = pt_LastModified mp\<rparr>) metaParts)))"

definition OM_ListMultipartUploads :: "('db, 'fs, 'au) om_env \<Rightarrow> string \<Rightarrow> ('db, 'fs, 'au) om_state \<Rightarrow> object_error + multipart_upload list" where
  "OM_ListMultipartUploads env bucket sys = (case ListMultipartUploads (env_E env) bucket [] 1000 (os_store sys) of
     Inl e \<Rightarrow> Inl (OMeta e) | Inr metaUploads \<Rightarrow> Inr (map fromMetadataMultipartUpload metaUploads))"

definition delete_part_files :: "'fs backend \<Rightarrow> string \<Rightarrow> int list \<Rightarrow> 'fs \<Rightarrow> 'fs" where
  "delete_part_files B uploadID = fold (\<lambda>n fs. snd (be_Delete B (getMultipartPartPath uploadID n) fs))"

definition OM_AbortMultipartUpload :: "('db, 'fs, 'au) om_env \<Rightarrow> string \<Rightarrow> ('db, 'fs, 'au) om_state
    \<Rightarrow> object_error option \<times> ('db, 'fs, 'au) om_state" where
  "OM_AbortMultipartUpload env uploadID sys = (case GetMultipartUpload (env_E env) uploadID (os_store sys) of
     Inl e \<Rightarrow> (Some (upload_missing e), sys)
   | Inr _ \<Rightarrow> (case ListParts (env_E env) uploadID (os_store sys) of
       Inl e \<Rightarrow> (if e \<noteq> ErrUploadNotFound then Some (OMeta e) else None, sys)
     | Inr metaParts \<Rightarrow> (let sys = sys\<lparr>os_fs := delete_part_files (env_B env) uploadID (map pt_PartNumber metaParts) (os_fs sys)\<rparr> in
         case AbortMultipartUpload (env_E env) uploadID (os_store sys) of
           Inl e \<Rightarrow> (if e \<noteq> ErrUploadNotFound then Some (OMeta e) else None, sys)
         | Inr s \<Rightarrow> (None, sys\<lparr>os_store := s\<rparr>))))"

section \<open>Completion\<close>

text \<open>\<^verbatim>\<open>strings.Trim(s, cutset)\<close> for one character.\<close>

definition trim_char :: "char \<Rightarrow> string \<Rightarrow> string" where
  "trim_char c s = rev (dropWhile (\<lambda>x. x = c) (rev (dropWhile (\<lambda>x. x = c) s)))"

fun check_parts :: "('db, 'fs, 'au) om_env \<Rightarrow> string \<Rightarrow> ('db, 'fs, 'au) om_state \<Rightarrow> int \<Rightarrow> int \<Rightarrow> multipart_part list \<Rightarrow> object_error + int" where
  "check_parts env uploadID sys previousPartNumber totalSize [] = Inr totalSize"
| "check_parts env uploadID sys previousPartNumber totalSize (part # parts) =
     (if pa_PartNumber part \<le> previousPartNumber then Inl InvalidPartOrder
      else (case GetPart (env_E env) uploadID (pa_PartNumber part) (os_store sys) of
        Inl e \<Rightarrow> Inl (if e = ErrPartNotFound then InvalidPart else OMeta e)
      | Inr partMeta \<Rightarrow>
          if pa_ETag part \<noteq> [] \<and> trim_char CHR 0x22 (pa_ETag part) \<noteq> trim_char CHR 0x22 (pt_ETag partMeta) then Inl InvalidPart
          else (case be_Exists (env_B env) (getMultipartPartPath uploadID (pa_PartNumber part)) (os_fs sys) of
            Inl e \<Rightarrow> Inl (OStorage e)
          | Inr False \<Rightarrow> Inl InvalidPart
          | Inr True \<Rightarrow> check_parts env uploadID sys (pa_PartNumber part) (add64 totalSize (pt_Size partMeta)) parts)))"

definition validateAndCalculatePartsSize :: "('db, 'fs, 'au) om_env \<Rightarrow> string \<Rightarrow> multipart_part list \<Rightarrow> ('db, 'fs, 'au) om_state \<Rightarrow> object_error + int" where
  "validateAndCalculatePartsSize env uploadID parts sys =
     (if parts = [] then Inl (OMsg ''no parts provided'') else check_parts env uploadID sys 0 0 parts)"

fun part_digests :: "'db engine \<Rightarrow> string \<Rightarrow> multipart_part list \<Rightarrow> 'db pstore \<Rightarrow> object_error + string" where
  "part_digests E uploadID [] s = Inr []"
| "part_digests E uploadID (part # parts) s = (case GetPart E uploadID (pa_PartNumber part) s of
     Inl e \<Rightarrow> Inl (OMeta e)
   | Inr partMeta \<Rightarrow> (let etag = trim_char CHR 0x22 (pt_ETag partMeta) in
       if length etag \<noteq> 32 then Inl (OMsg ''invalid part ETag'')
       else (case DecodeString etag of
         None \<Rightarrow> Inl (OMsg ''invalid part ETag'')
       | Some raw \<Rightarrow> (case part_digests E uploadID parts s of Inl e \<Rightarrow> Inl e | Inr combined \<Rightarrow> Inr (raw @ combined)))))"

definition computeMultipartETag :: "('db, 'fs, 'au) om_env \<Rightarrow> string \<Rightarrow> multipart_part list \<Rightarrow> 'db pstore \<Rightarrow> object_error + string" where
  "computeMultipartETag env uploadID parts s = (case part_digests (env_E env) uploadID parts s of
     Inl e \<Rightarrow> Inl e
   | Inr combined \<Rightarrow> Inr (env_md5 env combined @ ''-'' @ show_int64 (int (length parts))))"

definition checkMultipartQuotaBeforeComplete :: "('db, 'fs, 'au) om_env \<Rightarrow> string \<Rightarrow> int \<Rightarrow> object_metadata option \<Rightarrow> bool
    \<Rightarrow> ('db, 'fs, 'au) om_state \<Rightarrow> object_error option" where
  "checkMultipartQuotaBeforeComplete env bucket totalSize existingObj versioningEnabled sys = (let
     sizeIncrement = (if versioningEnabled then totalSize
       else (case existingObj of None \<Rightarrow> totalSize | Some existing \<Rightarrow> sub64 totalSize (om_Size existing)));
     isNewObject = (existingObj = None \<or> isMetadataDeleteMarker existingObj);
     (tenantID, _) = parseBucketPath bucket
   in case (if tenantID \<noteq> [] \<and> sizeIncrement > 0 then env_quota env tenantID sizeIncrement (os_tenants sys) else None) of
        Some e \<Rightarrow> Some (TenantQuotaExceeded e)
      | None \<Rightarrow> checkBucketStorageQuota (env_E env) bucket sizeIncrement isNewObject (os_store sys))"

text \<open>The readers of the parts, opened in order, and what \<^verbatim>\<open>io.MultiReader\<close> yields of them.\<close>

fun open_parts :: "'fs backend \<Rightarrow> string \<Rightarrow> multipart_part list \<Rightarrow> 'fs \<Rightarrow> storage_error + reader list" where
  "open_parts B uploadID [] fs = Inr []"
| "open_parts B uploadID (part # parts) fs = (case be_Get B (getMultipartPartPath uploadID (pa_PartNumber part)) fs of
     Inl e \<Rightarrow> Inl e
   | Inr (rd, m) \<Rightarrow> (case open_parts B uploadID parts fs of Inl e \<Rightarrow> Inl e | Inr readers \<Rightarrow> Inr (rd # readers)))"

fun multi_reader :: "reader list \<Rightarrow> reader" where
  "multi_reader [] = ([], None)"
| "multi_reader ((d, Some e) # readers) = (d, Some e)"
| "multi_reader ((d, None) # readers) = (case multi_reader readers of (d', e) \<Rightarrow> (d @ d', e))"

definition combineMultipartParts :: "('db, 'fs, 'au) om_env \<Rightarrow> string \<Rightarrow> multipart_part list \<Rightarrow> string \<Rightarrow> 'fs \<Rightarrow> object_error option \<times> 'fs" where
  "combineMultipartParts env uploadID parts finalPath fs =
     (if parts = [] then (Some (OMsg ''no parts to combine''), fs)
      else (let
        contentType = (case be_GetMetadata (env_B env) (getMultipartPartPath uploadID (pa_PartNumber (hd parts))) fs of
            Inl _ \<Rightarrow> ''application/octet-stream''
          | Inr m \<Rightarrow> (case map_of m ''content-type'' of None \<Rightarrow> ''application/octet-stream'' | Some c \<Rightarrow> c))
      in case open_parts (env_B env) uploadID parts fs of
           Inl e \<Rightarrow> (Some (OStorage e), fs)
         | Inr readers \<Rightarrow> (case be_Put (env_B env) finalPath (multi_reader readers) [(''content-type'', contentType)] fs of
             (Some e, fs) \<Rightarrow> (Some (OStorage e), fs) | (None, fs) \<Rightarrow> (None, fs))))"

definition stagePlaintextToTemp :: "('db, 'fs, 'au) om_env \<Rightarrow> string \<Rightarrow> 'fs \<Rightarrow> object_error + string" where
  "stagePlaintextToTemp env objectPath fs = (case be_Get (env_B env) objectPath fs of
     Inl e \<Rightarrow> Inl (OStorage e)
   | Inr (rd, _) \<Rightarrow> (case env_stage env rd fs of
       Some e \<Rightarrow> Inl (OMsg e)
     | None \<Rightarrow> (case snd rd of Some e \<Rightarrow> Inl (OMsg e) | None \<Rightarrow> Inr (fst rd))))"

definition multipart_sidecar :: "multipart_upload \<Rightarrow> smap \<Rightarrow> int \<Rightarrow> string \<Rightarrow> smap" where
  "multipart_sidecar multipart envelopeMeta originalSize originalETag = (let
     contentType = map_get (mu_Metadata multipart) ''content-type'';
     m = [(''original-size'', show_int64 originalSize), (''original-etag'', originalETag), (''encrypted'', ''true''),
       (''x-amz-server-side-encryption'', ''AES256''), (''x-amz-server-side-encryption-algorithm'', ''AES-256-GCM-STREAM''),
       (''content-type'', if contentType = [] then ''application/octet-stream'' else contentType)];
     m = fold (\<lambda>(k, v). AList.update k v) envelopeMeta m
   in fold (\<lambda>(k, v) m. if k \<noteq> ''content-type'' then AList.update k v m else m) (mu_Metadata multipart) m)"

definition storeEncryptedMultipartObject :: "('db, 'fs, 'au) om_env \<Rightarrow> string \<Rightarrow> string \<Rightarrow> multipart_upload \<Rightarrow> int \<Rightarrow> string \<Rightarrow> 'fs
    \<Rightarrow> object_error option \<times> 'fs" where
  "storeEncryptedMultipartObject env objectPath temp multipart originalSize originalETag fs = (case env_envelope env of
     Inl e \<Rightarrow> (Some (OMsg e), fs)
   | Inr (dek, envelopeMeta) \<Rightarrow> (case env_open env fs of
       Some e \<Rightarrow> (Some (OMsg e), fs)
     | None \<Rightarrow> (case be_Put (env_B env) objectPath (env_encrypt env dek temp)
           (multipart_sidecar multipart envelopeMeta originalSize originalETag) fs of
         (Some e, fs) \<Rightarrow> (Some (OStorage e), fs) | (None, fs) \<Rightarrow> (None, fs))))"

definition filterStorageMetadataKeys :: "smap \<Rightarrow> smap" where
  "filterStorageMetadataKeys m = filter (\<lambda>(k, v). k \<notin> {''content-type'', ''content-disposition'', ''content-encoding'', ''cache-control'',
     ''content-language'', ''storage-class'', ''x-amz-acl''}) m"

text \<open>From the combined file to the encrypted one: the size of the plaintext and the time of the last write.\<close>

definition seal_combined :: "('db, 'fs, 'au) om_env \<Rightarrow> string \<Rightarrow> multipart_upload \<Rightarrow> 'fs \<Rightarrow> (object_error + int \<times> int) \<times> 'fs" where
  "seal_combined env objectPath multipart fs = (case be_GetMetadata (env_B env) objectPath fs of
     Inl e \<Rightarrow> (Inl (OStorage e), fs)
   | Inr m \<Rightarrow> (let originalSize = ParseInt64 (map_get m ''size'') in
       case stagePlaintextToTemp env objectPath fs of
         Inl e \<Rightarrow> (Inl e, fs)
       | Inr temp \<Rightarrow> (case storeEncryptedMultipartObject env objectPath temp multipart originalSize (map_get m ''etag'') fs of
           (Some e, fs) \<Rightarrow> (Inl e, fs)
         | (None, fs) \<Rightarrow> (Inr (originalSize, ParseInt64 (map_get
             (case be_GetMetadata (env_B env) objectPath fs of Inl _ \<Rightarrow> m | Inr sm \<Rightarrow> sm) ''last_modified'')), fs))))"

definition updateMetricsAndCleanupMultipart :: "('db, 'fs, 'au) om_env \<Rightarrow> gotime \<Rightarrow> string \<Rightarrow> string \<Rightarrow> int \<Rightarrow> object_metadata option
    \<Rightarrow> multipart_part list \<Rightarrow> bool \<Rightarrow> ('db, 'fs, 'au) om_state \<Rightarrow> ('db, 'fs, 'au) om_state" where
  "updateMetricsAndCleanupMultipart env now bucket uploadID originalSize existingObj parts versioningEnabled sys = (let
     E = env_E env; (tenantID, bucketName) = parseBucketPath bucket;
     s = updateBucketMetricsAfterPut E now tenantID bucketName originalSize versioningEnabled existingObj (os_store sys);
     s = try_store (AbortMultipartUpload E uploadID s) s
   in sys\<lparr>os_store := s,
        os_tenants := updateTenantQuotaAfterPut env tenantID originalSize versioningEnabled existingObj (os_tenants sys),
        os_fs := delete_part_files (env_B env) uploadID (map pa_PartNumber parts) (os_fs sys)\<rparr>)"

definition multipart_object :: "multipart_upload \<Rightarrow> string \<Rightarrow> int \<Rightarrow> int \<Rightarrow> string \<Rightarrow> object" where
  "multipart_object multipart versionID originalSize lastModified multipartETag = (let contentType = map_get (mu_Metadata multipart) ''content-type'' in
     blank_object\<lparr>ob_Key := mu_Key multipart, ob_Bucket := mu_Bucket multipart, ob_Size := originalSize,
       ob_LastModified := seconds lastModified, ob_ETag := multipartETag,
       ob_ContentType := (if contentType = [] then ''application/octet-stream'' else contentType),
       ob_Metadata := filterStorageMetadataKeys (mu_Metadata multipart), ob_StorageClass := mu_StorageClass multipart,
       ob_VersionID := versionID\<rparr>)"

definition save_multipart :: "('db, 'fs, 'au) om_env \<Rightarrow> gotime \<Rightarrow> bool \<Rightarrow> object \<Rightarrow> 'db pstore \<Rightarrow> meta_error + 'db pstore" where
  "save_multipart env now versioningEnabled obj s =
     (if versioningEnabled then PutObjectVersion (env_E env) (Some (toMetadataObject obj))
        (Some (zero_version\<lparr>ov_VersionID := ob_VersionID obj, ov_IsLatest := True, ov_Key := ob_Key obj, ov_Size := ob_Size obj,
           ov_ETag := ob_ETag obj, ov_LastModified := ob_LastModified obj, ov_StorageClass := ob_StorageClass obj\<rparr>)) s
      else PutObject (env_E env) now (Some (toMetadataObject obj)) s)"

definition doCompleteMultipartUpload :: "('db, 'fs, 'au) om_env \<Rightarrow> request_context \<Rightarrow> string \<Rightarrow> multipart_part list \<Rightarrow> ('db, 'fs, 'au) om_state
    \<Rightarrow> (object_error + object) \<times> ('db, 'fs, 'au) om_state" where
  "doCompleteMultipartUpload env cx uploadID parts sys = (case GetMultipartUpload (env_E env) uploadID (os_store sys) of
     Inl e \<Rightarrow> (Inl (if e = ErrUploadNotFound then InvalidUploadID else OMeta e), sys)
   | Inr metaMU \<Rightarrow> (let
       E = env_E env; B = env_B env; multipart = fromMetadataMultipartUpload metaMU; bucket = mu_Bucket multipart; key = mu_Key multipart;
       versioningEnabled = isBucketVersioningEnabled E bucket (os_store sys);
       existingObj = existing_object E bucket key (os_store sys)
     in case validateAndCalculatePartsSize env uploadID parts sys of
          Inl e \<Rightarrow> (Inl e, sys)
        | Inr totalSize \<Rightarrow> (case checkMultipartQuotaBeforeComplete env bucket totalSize existingObj versioningEnabled sys of
            Some e \<Rightarrow> (Inl e, sys)
          | None \<Rightarrow> (case computeMultipartETag env uploadID parts (os_store sys) of
              Inl e \<Rightarrow> (Inl e, sys)
            | Inr multipartETag \<Rightarrow> (let
                versionID = (if versioningEnabled then generateVersionID cx else []);
                objectPath = (if versioningEnabled then getVersionedObjectPath bucket key versionID else getObjectPath bucket key)
              in case combineMultipartParts env uploadID parts objectPath (os_fs sys) of
                   (Some e, fs) \<Rightarrow> (Inl e, sys\<lparr>os_fs := fs\<rparr>)
                 | (None, fs) \<Rightarrow> (case seal_combined env objectPath multipart fs of
                     (Inl e, fs) \<Rightarrow> (Inl e, sys\<lparr>os_fs := snd (be_Delete B objectPath fs)\<rparr>)
                   | (Inr (originalSize, lastModified), fs) \<Rightarrow> (let
                       obj = multipart_object multipart versionID originalSize lastModified multipartETag
                     in case save_multipart env (rx_now cx) versioningEnabled obj (os_store sys) of
                          Inl e \<Rightarrow> (Inl (OMeta e), sys\<lparr>os_fs := snd (be_Delete B objectPath fs)\<rparr>)
                        | Inr s \<Rightarrow> (Inr obj, updateMetricsAndCleanupMultipart env (rx_now cx) bucket uploadID originalSize existingObj parts
                            versioningEnabled (sys\<lparr>os_store := s, os_fs := fs\<rparr>)))))))))"

end
