(* ===== verification/Gcm_Stream.thy ===== *)
theory Gcm_Stream
  imports Meta_Types "HOL-Library.Word" "HOL-Library.Sublist"
begin

text \<open>
  Encryption of object data, \<^verbatim>\<open>pkg/encryption/encryption.go\<close>: sealed messages and the chunked stream
  that the object manager stores. The ciphers and the key derivation are parameters, \<open>ciphers\<close>; the
  framing, the nonce of each chunk, the reading loop and every error path are the code's. Readers
  and writers may fail: a reader ends with an error or at the end of the file, a writer carries the
  plan of its next calls.

  \<open>gcm_stream_round_trip\<close>: decrypting what was encrypted gives the data back. \<open>gcm_stream_authentic\<close>: if only
  the chunks of one stream open under its key, then whatever follows the stream's nonce, decryption
  writes a prefix of the data. What is not protected is shown at the end: the end of the stream, and the
  order of chunks against a change of the stored nonce.
\<close>

unbundle bit_operations_syntax

type_synonym byte = "8 word"
type_synonym bytes = "byte list"

section \<open>Readers and writers\<close>

datatype read_error = EOF | UnexpectedEOF | ReadFailed string

type_synonym byte_reader = "bytes \<times> string option"

definition ReadFull :: "byte_reader \<Rightarrow> nat \<Rightarrow> bytes \<times> read_error option \<times> byte_reader" where
  "ReadFull src n = (case src of (data, err) \<Rightarrow>
     (take n data,
      if n \<le> length data then None
      else (case err of Some e \<Rightarrow> Some (ReadFailed e) | None \<Rightarrow> Some (if data = [] then EOF else UnexpectedEOF)),
      (drop n data, err)))"

text \<open>The plan of a writer: \<open>Some n\<close> is a call that fails after \<open>n\<close> bytes; past the plan all calls succeed.\<close>

record byte_writer =
  wr_out :: bytes
  wr_plan :: "nat option list"

definition Write :: "byte_writer \<Rightarrow> bytes \<Rightarrow> bool \<times> byte_writer" where
  "Write w d = (case wr_plan w of
     Some n # plan \<Rightarrow> (False, \<lparr>wr_out = wr_out w @ take n d, wr_plan = plan\<rparr>)
   | _ \<Rightarrow> (True, \<lparr>wr_out = wr_out w @ d, wr_plan = tl (wr_plan w)\<rparr>))"

text \<open>\<^verbatim>\<open>io.Copy\<close> in its blocks of 32 KB.\<close>

definition copyBlock :: nat where
  "copyBlock = 32 * 1024"

function Copy :: "byte_writer \<Rightarrow> byte_reader \<Rightarrow> bool \<times> byte_writer" where
  "Copy w (data, err) =
     (if data = [] then (err = None, w)
      else (case Write w (take copyBlock data) of
        (False, w) \<Rightarrow> (False, w)
      | (True, w) \<Rightarrow> Copy w (drop copyBlock data, err)))"
  by pat_completeness auto
termination
  by (relation "measure (\<lambda>(w, data, err). length data)") (auto simp: copyBlock_def)

section \<open>Parameters and values\<close>

text \<open>
  AES-GCM (\<^verbatim>\<open>Seal\<close> and \<^verbatim>\<open>Open\<close> without additional data), the key stream of AES-CTR, and PBKDF2-SHA256.
\<close>

record ciphers =
  gcm_Seal :: "bytes \<Rightarrow> bytes \<Rightarrow> bytes \<Rightarrow> bytes"
  gcm_Open :: "bytes \<Rightarrow> bytes \<Rightarrow> bytes \<Rightarrow> bytes option"
  ctr_byte :: "bytes \<Rightarrow> bytes \<Rightarrow> nat \<Rightarrow> byte"
  pbkdf2_Key :: "bytes \<Rightarrow> bytes \<Rightarrow> int \<Rightarrow> nat \<Rightarrow> bytes"

record cipher_config =
  ec_Algorithm :: string
  ec_KeySource :: string
  ec_MasterKey :: bytes
  ec_KeyDerivationRounds :: int

record encrypted_data =
  ed_Data :: bytes
  ed_IV :: bytes
  ed_Algorithm :: string
  ed_KeyID :: string
  ed_Metadata :: smap

record stream_metadata =
  em_Algorithm :: string
  em_IV :: bytes
  em_KeyID :: string
  em_Size :: int
  em_Checksum :: string
  em_Metadata :: smap
  em_BlockSize :: int
  em_Padding :: string

datatype crypt_error =
    BadKeySize
  | NoRandom string
  | WriteNonce
  | WriteLength
  | WriteChunk
  | ReadInput string
  | OpenFailed
  | ReadNonce read_error
  | ReadLength string
  | ReadChunk "32 word" read_error
  | AuthenticationFailed "32 word"
  | WriteDecrypted
  | ReadIV read_error
  | CtrFailed

definition DefaultEncryptionConfig :: cipher_config where
  "DefaultEncryptionConfig = \<lparr>ec_Algorithm = ''AES-256-GCM'', ec_KeySource = ''server'', ec_MasterKey = [], ec_KeyDerivationRounds = 10000\<rparr>"

definition NewAESGCMEncryptor :: "cipher_config option \<Rightarrow> cipher_config" where
  "NewAESGCMEncryptor config = (case config of None \<Rightarrow> DefaultEncryptionConfig | Some c \<Rightarrow> c)"

definition DeriveKey :: "ciphers \<Rightarrow> cipher_config \<Rightarrow> bytes \<Rightarrow> bytes \<Rightarrow> bytes" where
  "DeriveKey C config password salt = (let
     iterations = ec_KeyDerivationRounds config;
     iterations = (if iterations < 310000 then 310000 else iterations)
   in pbkdf2_Key C password salt iterations 32)"

text \<open>\<^verbatim>\<open>GenerateKey\<close>: the 32 random bytes or the error of the source.\<close>

definition GenerateKey :: "string + bytes \<Rightarrow> crypt_error + bytes" where
  "GenerateKey rnd = (case rnd of Inl e \<Rightarrow> Inl (NoRandom e) | Inr key \<Rightarrow> Inr key)"

text \<open>The salt is the text \<^verbatim>\<open>maxiofs-salt\<close>. \<^verbatim>\<open>NewCipher\<close> accepts keys of 16, 24 or 32 bytes.\<close>

definition maxiofs_salt :: bytes where
  "maxiofs_salt = map of_char ''maxiofs-salt''"

definition effective_key :: "ciphers \<Rightarrow> cipher_config \<Rightarrow> bytes \<Rightarrow> bytes" where
  "effective_key C config key = (if length key \<noteq> 32 then DeriveKey C config key maxiofs_salt else key)"

definition NewCipher :: "bytes \<Rightarrow> crypt_error + bytes" where
  "NewCipher key = (if length key = 16 \<or> length key = 24 \<or> length key = 32 then Inr key else Inl BadKeySize)"

definition NonceSize :: nat where
  "NonceSize = 12"

section \<open>Messages\<close>

definition Encrypt :: "ciphers \<Rightarrow> cipher_config \<Rightarrow> string + bytes \<Rightarrow> bytes \<Rightarrow> bytes \<Rightarrow> crypt_error + encrypted_data" where
  "Encrypt C config rnd data key = (case NewCipher (effective_key C config key) of
     Inl e \<Rightarrow> Inl e
   | Inr block \<Rightarrow> (case rnd of
       Inl e \<Rightarrow> Inl (NoRandom e)
     | Inr iv \<Rightarrow> Inr \<lparr>ed_Data = gcm_Seal C block iv data, ed_IV = iv, ed_Algorithm = ec_Algorithm config,
         ed_KeyID = [], ed_Metadata = []\<rparr>))"

definition Decrypt :: "ciphers \<Rightarrow> cipher_config \<Rightarrow> encrypted_data \<Rightarrow> bytes \<Rightarrow> crypt_error + bytes" where
  "Decrypt C config encryptedData key = (case NewCipher (effective_key C config key) of
     Inl e \<Rightarrow> Inl e
   | Inr block \<Rightarrow> (case gcm_Open C block (ed_IV encryptedData) (ed_Data encryptedData) of
       None \<Rightarrow> Inl OpenFailed | Some plaintext \<Rightarrow> Inr plaintext))"

section \<open>Streams\<close>

definition gcmStreamChunkSize :: nat where
  "gcmStreamChunkSize = 64 * 1024"

text \<open>The four bytes of a 32-bit number, big-endian, and the number they spell; the shifted bytes do not overlap,
  so their bitwise or is their sum.\<close>

definition be32 :: "32 word \<Rightarrow> bytes" where
  "be32 l = [ucast (drop_bit 24 l), ucast (drop_bit 16 l), ucast (drop_bit 8 l), ucast l]"

definition chunk_len :: "bytes \<Rightarrow> nat" where
  "chunk_len lenBuf = unat (lenBuf ! 0) * 2 ^ 24 + unat (lenBuf ! 1) * 2 ^ 16 + unat (lenBuf ! 2) * 2 ^ 8 + unat (lenBuf ! 3)"

definition chunkNonce :: "bytes \<Rightarrow> 32 word \<Rightarrow> bytes" where
  "chunkNonce baseNonce chunkIdx = take 8 baseNonce @ map2 (XOR) (take 4 (drop 8 baseNonce)) (be32 chunkIdx)"

function encrypt_loop :: "ciphers \<Rightarrow> bytes \<Rightarrow> bytes \<Rightarrow> byte_reader \<Rightarrow> byte_writer \<Rightarrow> int \<Rightarrow> 32 word
    \<Rightarrow> (crypt_error + int) \<times> byte_writer" where
  "encrypt_loop C key baseNonce (data, err) dst totalSize chunkIdx = (let
     (buf, readErr, src) = ReadFull (data, err) gcmStreamChunkSize;
     ciphertext = gcm_Seal C key (chunkNonce baseNonce chunkIdx) buf
   in if buf \<noteq> [] then
        (case Write dst (be32 (of_nat (length ciphertext))) of
           (False, dst) \<Rightarrow> (Inl WriteLength, dst)
         | (True, dst) \<Rightarrow> (case Write dst ciphertext of
             (False, dst) \<Rightarrow> (Inl WriteChunk, dst)
           | (True, dst) \<Rightarrow> (let totalSize = add64 totalSize (int (length buf)); chunkIdx = chunkIdx + 1 in
               case readErr of
                 None \<Rightarrow> encrypt_loop C key baseNonce (drop gcmStreamChunkSize data, err) dst totalSize chunkIdx
               | Some (ReadFailed e) \<Rightarrow> (Inl (ReadInput e), dst)
               | Some _ \<Rightarrow> (Inr totalSize, dst))))
      else (case readErr of
          Some (ReadFailed e) \<Rightarrow> (Inl (ReadInput e), dst)
        | _ \<Rightarrow> (Inr totalSize, dst)))"
  by pat_completeness auto
termination
  by (relation "measure (\<lambda>(C, key, n, (data, err), w, t, i). length data)")
    (auto simp: ReadFull_def gcmStreamChunkSize_def split: if_splits)

definition EncryptStream :: "ciphers \<Rightarrow> cipher_config \<Rightarrow> string + bytes \<Rightarrow> byte_reader \<Rightarrow> byte_writer \<Rightarrow> bytes
    \<Rightarrow> (crypt_error + stream_metadata) \<times> byte_writer" where
  "EncryptStream C config rnd src dst key = (case NewCipher (effective_key C config key) of
     Inl e \<Rightarrow> (Inl e, dst)
   | Inr block \<Rightarrow> (case rnd of
       Inl e \<Rightarrow> (Inl (NoRandom e), dst)
     | Inr baseNonce \<Rightarrow> (case Write dst baseNonce of
         (False, dst) \<Rightarrow> (Inl WriteNonce, dst)
       | (True, dst) \<Rightarrow> (case encrypt_loop C block baseNonce src dst 0 0 of
           (Inl e, dst) \<Rightarrow> (Inl e, dst)
         | (Inr totalSize, dst) \<Rightarrow> (Inr \<lparr>em_Algorithm = ''AES-256-GCM-STREAM'', em_IV = baseNonce, em_KeyID = [],
             em_Size = totalSize, em_Checksum = [], em_Metadata = [], em_BlockSize = int gcmStreamChunkSize,
             em_Padding = []\<rparr>, dst)))))"

definition decryptCTRStream :: "ciphers \<Rightarrow> byte_reader \<Rightarrow> byte_writer \<Rightarrow> bytes \<Rightarrow> crypt_error option \<times> byte_writer" where
  "decryptCTRStream C src dst key = (case NewCipher key of
     Inl e \<Rightarrow> (Some e, dst)
   | Inr block \<Rightarrow> (case ReadFull src 16 of
       (iv, Some e, src) \<Rightarrow> (Some (ReadIV e), dst)
     | (iv, None, (data, err)) \<Rightarrow> (case Copy dst (map2 (XOR) data (map (ctr_byte C block iv) [0..<length data]), err) of
         (False, dst) \<Rightarrow> (Some CtrFailed, dst)
       | (True, dst) \<Rightarrow> (None, dst))))"

function decrypt_loop :: "ciphers \<Rightarrow> bytes \<Rightarrow> bytes \<Rightarrow> byte_reader \<Rightarrow> byte_writer \<Rightarrow> 32 word
    \<Rightarrow> crypt_error option \<times> byte_writer" where
  "decrypt_loop C key baseNonce (data, err) dst chunkIdx =
     (case ReadFull (data, err) 4 of
        (lenBuf, Some (ReadFailed e), src) \<Rightarrow> (Some (ReadLength e), dst)
      | (lenBuf, Some _, src) \<Rightarrow> (None, dst)
      | (lenBuf, None, src) \<Rightarrow> (case ReadFull src (chunk_len lenBuf) of
          (ciphertext, Some e, src) \<Rightarrow> (Some (ReadChunk chunkIdx e), dst)
        | (ciphertext, None, src) \<Rightarrow> (case gcm_Open C key (chunkNonce baseNonce chunkIdx) ciphertext of
            None \<Rightarrow> (Some (AuthenticationFailed chunkIdx), dst)
          | Some plaintext \<Rightarrow> (case Write dst plaintext of
              (False, dst) \<Rightarrow> (Some WriteDecrypted, dst)
            | (True, dst) \<Rightarrow> decrypt_loop C key baseNonce src dst (chunkIdx + 1)))))"
  by pat_completeness auto
termination
  by (relation "measure (\<lambda>(C, key, n, (data, err), w, i). length data)")
    (auto simp: ReadFull_def split: if_splits option.splits)

definition decryptGCMStream :: "ciphers \<Rightarrow> byte_reader \<Rightarrow> byte_writer \<Rightarrow> bytes \<Rightarrow> crypt_error option \<times> byte_writer" where
  "decryptGCMStream C src dst key = (case NewCipher key of
     Inl e \<Rightarrow> (Some e, dst)
   | Inr block \<Rightarrow> (case ReadFull src NonceSize of
       (baseNonce, Some e, src) \<Rightarrow> (Some (ReadNonce e), dst)
     | (baseNonce, None, src) \<Rightarrow> decrypt_loop C block baseNonce src dst 0))"

definition DecryptStream :: "ciphers \<Rightarrow> cipher_config \<Rightarrow> byte_reader \<Rightarrow> byte_writer \<Rightarrow> bytes \<Rightarrow> stream_metadata option
    \<Rightarrow> crypt_error option \<times> byte_writer" where
  "DecryptStream C config src dst key metadata = (let key = effective_key C config key in
     if (case metadata of None \<Rightarrow> True | Some m \<Rightarrow> em_Algorithm m = [] \<or> em_Algorithm m = ''AES-256-CTR'')
     then decryptCTRStream C src dst key
     else decryptGCMStream C src dst key)"

section \<open>Frames and chunks\<close>

text \<open>What the code relies on of the parameters.\<close>

definition aead_ok :: "ciphers \<Rightarrow> bool" where
  "aead_ok C \<longleftrightarrow> (\<forall>k n p. gcm_Open C k n (gcm_Seal C k n p) = Some p \<and> length (gcm_Seal C k n p) = length p + 16)"

definition kdf_ok :: "ciphers \<Rightarrow> bool" where
  "kdf_ok C \<longleftrightarrow> (\<forall>password salt iterations n. length (pbkdf2_Key C password salt iterations n) = n)"

lemma effective_key_ok: "kdf_ok C \<Longrightarrow> NewCipher (effective_key C config key) = Inr (effective_key C config key)"
  by (simp add: NewCipher_def effective_key_def DeriveKey_def kdf_ok_def Let_def)

function chunk_list :: "bytes \<Rightarrow> bytes list" where
  "chunk_list p = (if p = [] then [] else take gcmStreamChunkSize p # chunk_list (drop gcmStreamChunkSize p))"
  by pat_completeness auto
termination
  by (relation "measure length") (auto simp: gcmStreamChunkSize_def)

declare chunk_list.simps [simp del]

lemma chunk_list_induct [case_names empty chunk]:
  fixes p :: bytes
  assumes "P []" "\<And>p. p \<noteq> [] \<Longrightarrow> P (drop gcmStreamChunkSize p) \<Longrightarrow> P p"
  shows "P p"
  by (induction p rule: chunk_list.induct) (metis assms)

lemma chunk_list_Nil [simp]: "chunk_list [] = []"
  by (simp add: chunk_list.simps)

lemma chunk_list_chunk: "p \<noteq> [] \<Longrightarrow> chunk_list p = take gcmStreamChunkSize p # chunk_list (drop gcmStreamChunkSize p)"
  by (simp add: chunk_list.simps)

lemma concat_chunk_list [simp]: "concat (chunk_list p) = p"
  by (induction p rule: chunk_list_induct) (simp_all add: chunk_list_chunk)

lemma chunk_list_bounds: "c \<in> set (chunk_list p) \<Longrightarrow> length c \<le> gcmStreamChunkSize"
  by (induction p rule: chunk_list_induct) (auto simp: chunk_list_chunk)

lemma length_chunk_list: "length p \<le> gcmStreamChunkSize * n \<Longrightarrow> length (chunk_list p) \<le> n"
proof (induction p arbitrary: n rule: chunk_list_induct)
  case (chunk p)
  then have "0 < n" by (cases n) auto
  then show ?case using chunk.IH [of "n - 1"] chunk.prems chunk.hyps
    by (cases n) (auto simp: chunk_list_chunk)
qed simp

lemma concat_take_chunks: "concat (take j (chunk_list p)) = take (j * gcmStreamChunkSize) p"
proof (induction p arbitrary: j rule: chunk_list_induct)
  case (chunk p)
  then show ?case by (cases j) (simp_all add: chunk_list_chunk take_add)
qed simp

lemma horner: "y * 2 ^ 8 + a = x \<Longrightarrow> z * 2 ^ 8 + b = y \<Longrightarrow> w * 2 ^ 8 + c = z \<Longrightarrow> w * 2 ^ 24 + c * 2 ^ 16 + b * 2 ^ 8 + a = (x :: nat)"
  by auto

lemma chunk_len_be32: "chunk_len (be32 l) = unat l"
proof -
  have lt: "unat l < 2 ^ 32" using unsigned_less [of l] by simp
  then have b: "unat (ucast (drop_bit n l) :: byte) = unat l div 2 ^ n mod 2 ^ 8" for n
    unfolding unsigned_ucast_eq unsigned_drop_bit_eq by (simp add: take_bit_eq_mod) (simp add: drop_bit_eq_div)
  have l: "unat (ucast l :: byte) = unat l mod 2 ^ 8"
    by (simp add: unsigned_ucast_eq take_bit_eq_mod)
  define x where "x = unat l"
  have d: "x div 2 ^ 16 = x div 2 ^ 8 div 2 ^ 8" "x div 2 ^ 24 = x div 2 ^ 8 div 2 ^ 8 div 2 ^ 8"
    by (simp_all add: div_mult2_eq [symmetric])
  have "x div 2 ^ 8 div 2 ^ 8 div 2 ^ 8 mod 2 ^ 8 = x div 2 ^ 8 div 2 ^ 8 div 2 ^ 8"
    using lt by (simp add: x_def div_mult2_eq [symmetric] less_mult_imp_div_less)
  then have "x div 2 ^ 24 mod 2 ^ 8 * 2 ^ 24 + x div 2 ^ 16 mod 2 ^ 8 * 2 ^ 16 + x div 2 ^ 8 mod 2 ^ 8 * 2 ^ 8 + x mod 2 ^ 8 = x"
    unfolding d by (simp only: horner [OF div_mult_mod_eq div_mult_mod_eq div_mult_mod_eq])
  then show ?thesis
    by (simp only: chunk_len_def be32_def b l nth_Cons_0 nth_Cons_Suc numeral_3_eq_3 numeral_2_eq_2 One_nat_def x_def)
qed

lemma length_be32 [simp]: "length (be32 l) = 4"
  by (simp add: be32_def)

lemma be32_inj: "be32 a = be32 b \<longleftrightarrow> a = b"
  by (metis chunk_len_be32 word_unat_eq_iff)

lemma length_chunkNonce: "length n = 12 \<Longrightarrow> length (chunkNonce n i) = 12"
  by (simp add: chunkNonce_def)

lemma xor_inj: "length a = length b \<Longrightarrow> length b = length c \<Longrightarrow> map2 (XOR) a b = map2 (XOR) a c \<longleftrightarrow> b = (c :: bytes)"
proof (induction a b c rule: list_induct3)
  case (Cons x xs y ys z zs)
  have "x XOR y = x XOR z \<longleftrightarrow> y = z"
    by (metis xor.assoc xor.left_neutral xor_self_eq)
  with Cons show ?case by simp
qed simp

lemma chunkNonce_inj: "length n = 12 \<Longrightarrow> chunkNonce n i = chunkNonce n j \<longleftrightarrow> i = j"
  using xor_inj [of "take 4 (drop 8 n)" "be32 i" "be32 j"] by (simp add: chunkNonce_def be32_inj)

definition frame :: "bytes \<Rightarrow> bytes" where
  "frame c = be32 (of_nat (length c)) @ c"

fun sealed :: "ciphers \<Rightarrow> bytes \<Rightarrow> bytes \<Rightarrow> 32 word \<Rightarrow> bytes list \<Rightarrow> bytes" where
  "sealed C key n i [] = []"
| "sealed C key n i (c # cs) = frame (gcm_Seal C key (chunkNonce n i) c) @ sealed C key n (i + 1) cs"

declare encrypt_loop.simps [simp del] decrypt_loop.simps [simp del]

lemma Write_ok: "wr_plan w = [] \<Longrightarrow> Write w d = (True, w\<lparr>wr_out := wr_out w @ d\<rparr>)"
  by (simp add: Write_def)

lemma Write_prefix: "\<exists>q. wr_out (snd (Write w d)) = wr_out w @ q \<and> prefix q d \<and> (fst (Write w d) \<longrightarrow> q = d)"
  by (auto simp: Write_def take_is_prefix split: list.splits option.splits)

lemma encrypt_loop_sealed:
  assumes "wr_plan w = []"
  shows "encrypt_loop C key n (p, None) w (wrap64 t) i =
    (Inr (wrap64 (t + int (length p))), w\<lparr>wr_out := wr_out w @ sealed C key n i (chunk_list p)\<rparr>)"
  using assms
proof (induction p arbitrary: w t i rule: chunk_list_induct)
  case (chunk p)
  let ?w = "\<lambda>q. w\<lparr>wr_out := wr_out w @ q\<rparr>"
  show ?case
  proof (cases "gcmStreamChunkSize \<le> length p")
    case True
    then show ?thesis
      using chunk.hyps chunk.prems chunk.IH [of "?w (frame (gcm_Seal C key (chunkNonce n i) (take gcmStreamChunkSize p)))" "t + int gcmStreamChunkSize" "i + 1"]
      by (simp add: encrypt_loop.simps [of C key n p] ReadFull_def Let_def Write_ok frame_def chunk_list_chunk gcmStreamChunkSize_def of_nat_diff)
  next
    case False
    then show ?thesis
      using chunk.hyps chunk.prems
      by (simp add: encrypt_loop.simps [of C key n p] ReadFull_def Let_def Write_ok frame_def chunk_list_chunk gcmStreamChunkSize_def)
  qed
qed (simp add: encrypt_loop.simps ReadFull_def)

text \<open>A frame of a chunk sealed under the nonce of its index is opened.\<close>

lemma decrypt_loop_frame:
  assumes "aead_ok C" "length c \<le> gcmStreamChunkSize" "wr_plan w = []"
  shows "decrypt_loop C key n (frame (gcm_Seal C key (chunkNonce n i) c) @ rest, err) w i =
    decrypt_loop C key n (rest, err) (w\<lparr>wr_out := wr_out w @ c\<rparr>) (i + 1)"
proof -
  have len: "length (gcm_Seal C key (chunkNonce n i) c) = length c + 16"
    and open': "gcm_Open C key (chunkNonce n i) (gcm_Seal C key (chunkNonce n i) c) = Some c"
    using assms(1) by (simp_all add: aead_ok_def)
  have "chunk_len (be32 (of_nat (length c + 16))) = length c + 16"
    using assms(2) by (simp only: chunk_len_be32) (simp add: gcmStreamChunkSize_def unat_of_nat take_bit_eq_mod del: of_nat_add)
  then show ?thesis
    using assms(3) by (subst decrypt_loop.simps) (simp add: ReadFull_def frame_def len open' Write_ok del: of_nat_add)
qed

lemma decrypt_loop_sealed:
  assumes "aead_ok C" "\<And>c. c \<in> set cs \<Longrightarrow> length c \<le> gcmStreamChunkSize" "wr_plan w = []"
  shows "decrypt_loop C key n (sealed C key n i cs @ rest, err) w i =
    decrypt_loop C key n (rest, err) (w\<lparr>wr_out := wr_out w @ concat cs\<rparr>) (i + of_nat (length cs))"
  using assms(2,3)
  by (induction cs arbitrary: w i) (simp_all add: decrypt_loop_frame [OF assms(1)] add.assoc)

lemma decrypt_loop_end: "decrypt_loop C key n ([], None) w i = (None, w)"
  by (simp add: decrypt_loop.simps ReadFull_def)

section \<open>Round trip\<close>

lemma stream_inverse:
  assumes "aead_ok C" "kdf_ok C" "length nonce = NonceSize"
  shows "\<exists>m out. EncryptStream C config (Inr nonce) (p, None) \<lparr>wr_out = [], wr_plan = []\<rparr> key = (Inr m, out) \<and>
    em_Algorithm m = ''AES-256-GCM-STREAM'' \<and> em_Size m = wrap64 (int (length p)) \<and>
    DecryptStream C config (wr_out out, None) \<lparr>wr_out = [], wr_plan = []\<rparr> key (Some m) = (None, \<lparr>wr_out = p, wr_plan = []\<rparr>)"
proof -
  define k where "k = effective_key C config key"
  have enc: "encrypt_loop C k nonce (p, None) \<lparr>wr_out = nonce, wr_plan = []\<rparr> 0 0 =
      (Inr (wrap64 (int (length p))), \<lparr>wr_out = nonce @ sealed C k nonce 0 (chunk_list p), wr_plan = []\<rparr>)"
    using encrypt_loop_sealed [of "\<lparr>wr_out = nonce, wr_plan = []\<rparr>" C k nonce p 0 0] by simp
  have "decrypt_loop C k nonce (sealed C k nonce 0 (chunk_list p) @ [], None) \<lparr>wr_out = [], wr_plan = []\<rparr> 0 =
      (None, \<lparr>wr_out = p, wr_plan = []\<rparr>)"
    by (subst decrypt_loop_sealed [OF assms(1) chunk_list_bounds]) (simp_all add: decrypt_loop_end)
  then show ?thesis
    using assms(3) enc effective_key_ok [OF assms(2), of config key]
    by (simp add: EncryptStream_def DecryptStream_def decryptGCMStream_def Write_ok k_def ReadFull_def Let_def)
qed

text \<open>
  Stream round trip. With ciphers whose \<^verbatim>\<open>Open\<close> inverts \<^verbatim>\<open>Seal\<close> and a key derivation that returns
  the number of bytes it is asked for, encrypting any data under any key and decrypting the result under the same key
  gives the data back, for every length including the empty stream and exact multiples of the chunk
  size; the reported size is the length of the data as a 64-bit integer.
\<close>

theorem gcm_stream_round_trip:
  assumes "aead_ok C" "kdf_ok C" "length nonce = NonceSize"
  shows "\<exists>m out. EncryptStream C config (Inr nonce) (p, None) \<lparr>wr_out = [], wr_plan = []\<rparr> key = (Inr m, out) \<and>
    em_Algorithm m = ''AES-256-GCM-STREAM'' \<and> em_Size m = wrap64 (int (length p)) \<and>
    DecryptStream C config (wr_out out, None) \<lparr>wr_out = [], wr_plan = []\<rparr> key (Some m) = (None, \<lparr>wr_out = p, wr_plan = []\<rparr>)"
  by (rule stream_inverse [OF assms])

text \<open>A cipher for examples: it appends sixteen times the sum of key and nonce.\<close>

definition demo_ciphers :: ciphers where
  "demo_ciphers = \<lparr>gcm_Seal = \<lambda>k n p. p @ replicate 16 (sum_list (k @ n)),
     gcm_Open = \<lambda>k n c. (if 16 \<le> length c \<and> drop (length c - 16) c = replicate 16 (sum_list (k @ n))
       then Some (take (length c - 16) c) else None),
     ctr_byte = \<lambda>k iv i. 0, pbkdf2_Key = \<lambda>pw salt i n. replicate n 7\<rparr>"

lemma demo_ciphers_ok: "aead_ok demo_ciphers" "kdf_ok demo_ciphers"
  by (simp_all add: aead_ok_def kdf_ok_def demo_ciphers_def)

theorem gcm_stream_round_trip_witness:
  "\<exists>m out. EncryptStream demo_ciphers DefaultEncryptionConfig (Inr (replicate 12 1)) ([1, 2, 3], None) \<lparr>wr_out = [], wr_plan = []\<rparr> [9] = (Inr m, out) \<and>
    em_Algorithm m = ''AES-256-GCM-STREAM'' \<and> em_Size m = 3 \<and>
    DecryptStream demo_ciphers DefaultEncryptionConfig (wr_out out, None) \<lparr>wr_out = [], wr_plan = []\<rparr> [9] (Some m) =
      (None, \<lparr>wr_out = [1, 2, 3], wr_plan = []\<rparr>)"
  using gcm_stream_round_trip [OF demo_ciphers_ok, of "replicate 12 1" DefaultEncryptionConfig "[1, 2, 3]" "[9]"]
  by (simp add: NonceSize_def wrap64_def)

section \<open>Integrity\<close>

text \<open>
  No cipher can rule a forgery out for every input: some bytes that were never sealed open as well. What
  authenticated encryption makes infeasible is to present such bytes. So integrity is stated of an
  input in which there is no forgery: \<open>frames\<close> are the ciphertexts the input presents,
  the frame at position j under the nonce of index j, \<open>seal_log\<close> the pairs of nonce and ciphertext that were
  sealed when the data was encrypted, and a forgery is a presented pair that opens and is not in the log.
\<close>

function frames :: "bytes \<Rightarrow> bytes list" where
  "frames data = (if 4 \<le> length data \<and> chunk_len (take 4 data) \<le> length data - 4
     then take (chunk_len (take 4 data)) (drop 4 data) # frames (drop (chunk_len (take 4 data)) (drop 4 data)) else [])"
  by pat_completeness auto
termination
  by (relation "measure length") auto

declare frames.simps [simp del]

lemma frames_frame: "length c < 2 ^ 32 \<Longrightarrow> frames (frame c @ rest) = c # frames rest"
  by (subst frames.simps) (simp add: frame_def chunk_len_be32 unat_of_nat take_bit_eq_mod)

lemma frames_Nil: "frames [] = []"
  by (subst frames.simps) simp

definition seal_log :: "ciphers \<Rightarrow> bytes \<Rightarrow> bytes \<Rightarrow> bytes list \<Rightarrow> (bytes \<times> bytes) list" where
  "seal_log C key nonce cs = map (\<lambda>i. let n = chunkNonce nonce (of_nat i) in (n, gcm_Seal C key n (cs ! i))) [0..<length cs]"

fun unforged :: "ciphers \<Rightarrow> bytes \<Rightarrow> bytes \<Rightarrow> bytes list \<Rightarrow> nat \<Rightarrow> bytes list \<Rightarrow> bool" where
  "unforged C key nonce cs j [] \<longleftrightarrow> True"
| "unforged C key nonce cs j (f # fs) \<longleftrightarrow> (let n = chunkNonce nonce (of_nat j) in
     gcm_Open C key n f = None \<or> (n, f) \<in> set (seal_log C key nonce cs)) \<and> unforged C key nonce cs (Suc j) fs"

lemma of_nat32_inj: "a < 2 ^ 32 \<Longrightarrow> b < 2 ^ 32 \<Longrightarrow> (of_nat a :: 32 word) = of_nat b \<longleftrightarrow> a = b"
  by (simp add: word_unat_eq_iff unat_of_nat take_bit_eq_mod)

lemma unforged_next:
  assumes "aead_ok C" "unforged C key nonce cs j (f # fs)" "length nonce = 12" "length cs < 2 ^ 32" "j \<le> length cs"
    and "gcm_Open C key (chunkNonce nonce (of_nat j)) f = Some p"
  shows "j < length cs \<and> p = cs ! j"
proof -
  obtain i where i: "i < length cs" "chunkNonce nonce (of_nat j) = chunkNonce nonce (of_nat i)"
    "f = gcm_Seal C key (chunkNonce nonce (of_nat i)) (cs ! i)"
    using assms(2,6) by (auto simp: seal_log_def Let_def)
  then have "i = j" using of_nat32_inj [of i j] assms(3-5) chunkNonce_inj [OF assms(3)] by auto
  with i assms(1,6) show ?thesis by (simp add: aead_ok_def)
qed

lemma decrypt_loop_authentic:
  assumes C: "aead_ok C" and ok: "length nonce = 12" "length cs < 2 ^ 32"
    and uf: "unforged C key nonce cs j (frames data)" and j: "j \<le> length cs"
  shows "\<exists>q. wr_out (snd (decrypt_loop C key nonce (data, err) w (of_nat j))) = wr_out w @ q \<and> prefix q (concat (drop j cs)) \<and>
    (fst (decrypt_loop C key nonce (data, err) w (of_nat j)) = None \<longrightarrow> (\<exists>m. q = concat (take m (drop j cs))))"
  using uf j
proof (induction "length data" arbitrary: data w j rule: less_induct)
  case less
  let ?i = "of_nat j :: 32 word"
  show ?case
  proof (cases "4 \<le> length data \<and> chunk_len (take 4 data) \<le> length data - 4 \<and>
      (\<exists>p. gcm_Open C key (chunkNonce nonce ?i) (take (chunk_len (take 4 data)) (drop 4 data)) = Some p)")
    case False
    then show ?thesis
      by (subst (1 2) decrypt_loop.simps) (auto simp: ReadFull_def intro!: exI [of _ "[]"] exI [of _ 0] split: option.splits)
  next
    case True
    then obtain p where p: "gcm_Open C key (chunkNonce nonce ?i) (take (chunk_len (take 4 data)) (drop 4 data)) = Some p" by blast
    let ?rest = "drop (chunk_len (take 4 data)) (drop 4 data)"
    have fr: "frames data = take (chunk_len (take 4 data)) (drop 4 data) # frames ?rest"
      using True by (subst frames.simps) simp
    have uf: "unforged C key nonce cs (Suc j) (frames ?rest)" using less.prems(1) by (simp add: fr)
    have cs: "j < length cs" "p = cs ! j" using unforged_next [OF C less.prems(1) [unfolded fr] ok less.prems(2) p] by simp_all
    then have dj: "drop j cs = p # drop (Suc j) cs" by (simp add: Cons_nth_drop_Suc)
    obtain b w' where w': "Write w p = (b, w')" by (cases "Write w p")
    then obtain q where q: "wr_out w' = wr_out w @ q" "prefix q p" "b \<longrightarrow> q = p" using Write_prefix [of w p] by auto
    have step: "decrypt_loop C key nonce (data, err) w ?i =
        (if b then decrypt_loop C key nonce (?rest, err) w' (of_nat (Suc j)) else (Some WriteDecrypted, w'))"
      using True p w' by (subst decrypt_loop.simps) (simp add: ReadFull_def add.commute)
    show ?thesis
    proof (cases b)
      case True
      from \<open>4 \<le> length data \<and> _\<close> have "length ?rest < length data" by auto
      from less.hyps [OF this uf, of w'] cs(1) obtain q' where
        q': "wr_out (snd (decrypt_loop C key nonce (?rest, err) w' (of_nat (Suc j)))) = wr_out w' @ q'" "prefix q' (concat (drop (Suc j) cs))"
        and d: "fst (decrypt_loop C key nonce (?rest, err) w' (of_nat (Suc j))) = None \<longrightarrow> (\<exists>m. q' = concat (take m (drop (Suc j) cs)))"
        by auto
      have "\<exists>m. p @ q' = concat (take m (drop j cs))" if "q' = concat (take m (drop (Suc j) cs))" for m
        using that dj by (intro exI [of _ "Suc m"]) simp
      with q' d q True show ?thesis by (intro exI [of _ "p @ q'"]) (auto simp: step dj)
    next
      case False
      with q show ?thesis by (intro exI [of _ q]) (auto simp: step dj intro: prefix_order.trans)
    qed
  qed
qed

text \<open>
  C8. Stream integrity. The data was encrypted under the object's key and the stream's nonce, in fewer than 2^32 chunks, and
  the input starts with that nonce. After it the input is arbitrary: changed, cut, repeated or
  reordered in any way, so long as it holds no forgery, a frame that was not sealed under the nonce of its position
  and opens all the same. Then decryption writes a prefix of the data and nothing else, whatever reads and writes fail; when it
  reports success the prefix is a number of whole chunks.
\<close>

theorem gcm_stream_authentic:
  assumes "aead_ok C" "unforged C (effective_key C config key) nonce (chunk_list p) 0 (frames (drop NonceSize data))"
    and "length nonce = NonceSize" "length p \<le> gcmStreamChunkSize * (2 ^ 32 - 1)" "take NonceSize data = nonce"
    and "em_Algorithm m = ''AES-256-GCM-STREAM''"
  shows "\<exists>q. wr_out (snd (DecryptStream C config (data, err) dst key (Some m))) = wr_out dst @ q \<and> prefix q p \<and>
    (fst (DecryptStream C config (data, err) dst key (Some m)) = None \<longrightarrow> (\<exists>j. q = take (j * gcmStreamChunkSize) p))"
proof -
  let ?k = "effective_key C config key"
  have n: "length (chunk_list p) < 2 ^ 32" using length_chunk_list [OF assms(4)] by simp
  have len: "length nonce = 12" "12 \<le> length data" using assms(3,5) by (auto simp: NonceSize_def)
  have d: "DecryptStream C config (data, err) dst key (Some m) = (case NewCipher ?k of Inl e \<Rightarrow> (Some e, dst)
      | Inr block \<Rightarrow> decrypt_loop C block nonce (drop 12 data, err) dst 0)"
    using assms(5,6) len by (simp add: DecryptStream_def decryptGCMStream_def ReadFull_def NonceSize_def Let_def split: sum.splits)
  show ?thesis
  proof (cases "NewCipher ?k")
    case (Inr block)
    then have "block = ?k" by (simp add: NewCipher_def split: if_splits)
    with Inr d decrypt_loop_authentic [OF assms(1) len(1) n assms(2) [unfolded NonceSize_def], of err dst]
    show ?thesis by (auto simp: concat_take_chunks)
  next
    case (Inl e)
    then show ?thesis by (auto simp: d intro: exI [of _ "[]"])
  qed
qed

text \<open>A stream whose only chunk was repeated: the second copy does not open under the second nonce.\<close>

definition repeated_chunk :: bytes where
  "repeated_chunk = (let c = gcm_Seal demo_ciphers (replicate 32 7) (replicate 12 1) [1, 2, 3] in
     replicate 12 1 @ frame c @ frame c)"

definition stream_mark :: stream_metadata where
  "stream_mark = \<lparr>em_Algorithm = ''AES-256-GCM-STREAM'', em_IV = [], em_KeyID = [], em_Size = 3, em_Checksum = [], em_Metadata = [],
     em_BlockSize = 65536, em_Padding = []\<rparr>"

theorem gcm_stream_authentic_witness:
  "(\<exists>q. wr_out (snd (DecryptStream demo_ciphers DefaultEncryptionConfig (repeated_chunk, None) \<lparr>wr_out = [], wr_plan = []\<rparr>
      [9] (Some stream_mark))) = q \<and> prefix q [1, 2, 3]) \<and> length (frames (drop 12 repeated_chunk)) = 2"
proof -
  have k: "effective_key demo_ciphers DefaultEncryptionConfig [9] = replicate 32 7" by code_simp
  have c: "chunk_list [1, 2, 3] = [[1, 2, 3]]" by (simp add: chunk_list_chunk gcmStreamChunkSize_def)
  let ?c = "gcm_Seal demo_ciphers (replicate 32 7) (replicate 12 1) [1, 2, 3]"
  have "chunkNonce (replicate 12 1) 0 = replicate 12 1" "gcm_Open demo_ciphers (replicate 32 7) (chunkNonce (replicate 12 1) 1) ?c = None"
    by code_simp+
  then have "unforged demo_ciphers (replicate 32 7) (replicate 12 1) [[1, 2, 3]] 0 [?c, ?c]" by (simp add: seal_log_def)
  moreover have "frames (drop 12 repeated_chunk) = [?c, ?c]"
    by (simp add: repeated_chunk_def Let_def frames_frame frames_frame [of _ "[]", simplified] frames_Nil demo_ciphers_def)
  moreover have "take 12 repeated_chunk = replicate 12 1" by (simp add: repeated_chunk_def Let_def)
  ultimately show ?thesis
    using gcm_stream_authentic [OF demo_ciphers_ok(1), of DefaultEncryptionConfig "[9]" "replicate 12 1" "[1, 2, 3]" repeated_chunk stream_mark None
        "\<lparr>wr_out = [], wr_plan = []\<rparr>"]
    by (simp add: k c NonceSize_def gcmStreamChunkSize_def stream_mark_def)
qed

section \<open>What is not protected\<close>

text \<open>A stream cut after any number of chunks, or within the four length bytes, is accepted.\<close>

lemma truncation_accepted:
  assumes "aead_ok C" "length nonce = 12" "length key = 32" "length tail < 4"
  shows "decryptGCMStream C (nonce @ sealed C key nonce 0 (take j (chunk_list p)) @ tail, None) \<lparr>wr_out = [], wr_plan = []\<rparr> key =
    (None, \<lparr>wr_out = take (j * gcmStreamChunkSize) p, wr_plan = []\<rparr>)"
proof -
  have "decrypt_loop C key nonce (tail, None) w i = (None, w)" for w i
    using assms(4) by (subst decrypt_loop.simps) (simp add: ReadFull_def)
  moreover have "c \<in> set (take j (chunk_list p)) \<Longrightarrow> length c \<le> gcmStreamChunkSize" for c
    using chunk_list_bounds in_set_takeD by metis
  ultimately show ?thesis
    using assms(2,3) decrypt_loop_sealed [OF assms(1), of "take j (chunk_list p)" "\<lparr>wr_out = [], wr_plan = []\<rparr>" key nonce 0 tail None]
    by (simp add: decryptGCMStream_def NewCipher_def ReadFull_def NonceSize_def concat_take_chunks)
qed

text \<open>The index enters the nonce by exclusive or, so flipping its last bit swaps the first two chunks.\<close>

lemma be32_xor: "be32 (a XOR b) = map2 (XOR) (be32 a) (be32 b)"
  by (simp add: be32_def unsigned_xor_eq)

lemma map2_xor_assoc: "length a = length b \<Longrightarrow> length b = length c \<Longrightarrow>
    map2 (XOR) (map2 (XOR) a b) c = map2 (XOR) a (map2 (XOR) b (c :: bytes))"
  by (induction a b c rule: list_induct3) (simp_all add: xor.assoc)

lemma chunkNonce_shift: "length n = 12 \<Longrightarrow> chunkNonce (chunkNonce n a) b = chunkNonce n (a XOR b)"
  by (simp add: chunkNonce_def be32_xor map2_xor_assoc)

lemma chunks_swapped:
  assumes "aead_ok C" "length nonce = 12" "length key = 32" "length c0 \<le> gcmStreamChunkSize" "length c1 \<le> gcmStreamChunkSize"
  shows "decryptGCMStream C (chunkNonce nonce 1 @ frame (gcm_Seal C key (chunkNonce nonce 1) c1) @ frame (gcm_Seal C key (chunkNonce nonce 0) c0), None)
    \<lparr>wr_out = [], wr_plan = []\<rparr> key = (None, \<lparr>wr_out = c1 @ c0, wr_plan = []\<rparr>)"
proof -
  have "chunkNonce (chunkNonce nonce 1) 0 = chunkNonce nonce 1" "chunkNonce (chunkNonce nonce 1) 1 = chunkNonce nonce 0"
    using chunkNonce_shift [OF assms(2)] by simp_all
  then show ?thesis
    using assms length_chunkNonce [OF assms(2), of 1] decrypt_loop_frame [OF assms(1,5), of _ key "chunkNonce nonce 1" 0]
      decrypt_loop_frame [OF assms(1,4), of _ key "chunkNonce nonce 1" 1 "[]"]
    by (simp add: decryptGCMStream_def NewCipher_def ReadFull_def NonceSize_def decrypt_loop_end)
qed

end
