(* ===== verification/Kek_Store.thy ===== *)
theory Kek_Store
  imports Gcm_Stream Go_Hex "HOL-Library.AList"
begin

text \<open>
  The keys that wrap the data keys of objects, \<^verbatim>\<open>internal/kek/store.go\<close> and \<^verbatim>\<open>bundle.go\<close>. A \<open>kek_store\<close> holds every
  key version in memory and in the table \<^verbatim>\<open>encryption_keys\<close>. The database is a parameter, \<open>key_table\<close>: one
  field per statement or transaction of the source, which succeeds or fails and leaves the table
  as it was; the locale \<open>key_table_laws\<close> says what a statement that succeeds does to the rows. The random
  bytes of a new key are an argument.

  \<open>kek_versions_survive\<close>: through rotations, adoptions of cluster keys and restarts, whatever statements fail, no
  key version is lost or changed, in the table or in memory.
\<close>

section \<open>The table\<close>

record kek_row =
  kr_version :: int
  kr_key_hex :: string
  kr_is_current :: int
  kr_shared :: int

record 'db key_table =
  kt_rows :: "'db \<Rightarrow> string + kek_row list"
  kt_insert :: "kek_row \<Rightarrow> 'db \<Rightarrow> string + 'db"
  kt_mark_current :: "int \<Rightarrow> 'db \<Rightarrow> string + 'db"
  kt_adopt :: "(int \<times> string) list \<Rightarrow> int \<Rightarrow> 'db \<Rightarrow> string + 'db"
  kt_reset_bundle :: "'db \<Rightarrow> string + 'db"
  kt_mark_bundle :: "string \<Rightarrow> 'db \<Rightarrow> string + 'db"
  kt_bundle_at :: "'db \<Rightarrow> string + string option"

type_synonym key_rows = "int \<Rightarrow> kek_row option"

definition marked :: "int \<Rightarrow> key_rows \<Rightarrow> key_rows" where
  "marked v m = (\<lambda>w. map_option (\<lambda>r. r\<lparr>kr_is_current := if w = v then 1 else 0\<rparr>) (m w))"

text \<open>The upsert of an adopted key: a new row, or only the shared flag of the existing one.\<close>

definition upsert :: "int \<times> string \<Rightarrow> key_rows \<Rightarrow> key_rows" where
  "upsert p m = (case m (fst p) of
     None \<Rightarrow> m(fst p \<mapsto> \<lparr>kr_version = fst p, kr_key_hex = snd p, kr_is_current = 0, kr_shared = 1\<rparr>)
   | Some r \<Rightarrow> m(fst p \<mapsto> r\<lparr>kr_shared := 1\<rparr>))"

locale key_table_laws =
  fixes T :: "'db key_table" and tab :: "'db \<Rightarrow> key_rows"
  assumes rows: "kt_rows T db = Inr rs \<Longrightarrow> distinct (map kr_version rs) \<and> map_of (map (\<lambda>r. (kr_version r, r)) rs) = tab db"
    and insert: "kt_insert T r db = Inr db' \<Longrightarrow> tab db (kr_version r) = None \<and> tab db' = (tab db)(kr_version r \<mapsto> r)"
    and mark: "kt_mark_current T v db = Inr db' \<Longrightarrow> tab db' = marked v (tab db)"
    and adopt: "kt_adopt T ps v db = Inr db' \<Longrightarrow> tab db' = marked v (fold upsert ps (tab db))"
    and reset: "kt_reset_bundle T db = Inr db' \<Longrightarrow> tab db' = tab db"
    and flag: "kt_mark_bundle T at db = Inr db' \<Longrightarrow> tab db' = tab db"

section \<open>The store\<close>

datatype kek_error =
    KekDb string
  | KekRandom string
  | KeyLength nat
  | KeyNotHex
  | CorruptKey int
  | NoneCurrent
  | VersionNotFound int
  | MalformedClusterKey int
  | KeyConflict int
  | NoCurrentInSet
  | ShortPassphrase
  | NoKeys
  | BadBundle string

record 'db kek_store =
  ks_db :: 'db
  ks_keys :: "(int \<times> string) list"
  ks_shared :: "(int \<times> bool) list"
  ks_current :: int

record key_record =
  kx_Version :: int
  kx_KeyHex :: string
  kx_IsCurrent :: bool

definition decodeKeyHex :: "string \<Rightarrow> kek_error + string" where
  "decodeKeyHex keyHex =
     (if length keyHex \<noteq> 64 then Inl (KeyLength (length keyHex))
      else (case DecodeString keyHex of None \<Rightarrow> Inl KeyNotHex | Some key \<Rightarrow> Inr key))"

fun load_rows :: "kek_row list \<Rightarrow> 'db kek_store \<Rightarrow> kek_error + 'db kek_store" where
  "load_rows [] s = Inr s"
| "load_rows (r # rs) s = (case decodeKeyHex (kr_key_hex r) of
     Inl e \<Rightarrow> Inl (CorruptKey (kr_version r))
   | Inr key \<Rightarrow> load_rows rs (s\<lparr>ks_keys := AList.update (kr_version r) key (ks_keys s),
       ks_shared := AList.update (kr_version r) (kr_shared r = 1) (ks_shared s),
       ks_current := if kr_is_current r = 1 then kr_version r else ks_current s\<rparr>))"

definition loadAll :: "'db key_table \<Rightarrow> 'db kek_store \<Rightarrow> kek_error + 'db kek_store" where
  "loadAll T s = (case kt_rows T (ks_db s) of
     Inl e \<Rightarrow> Inl (KekDb e)
   | Inr rs \<Rightarrow> (case load_rows rs s of
       Inl e \<Rightarrow> Inl e
     | Inr s \<Rightarrow> if ks_keys s \<noteq> [] \<and> ks_current s = 0 then Inl NoneCurrent else Inr s))"

definition insertKey :: "'db key_table \<Rightarrow> int \<Rightarrow> string \<Rightarrow> bool \<Rightarrow> bool \<Rightarrow> 'db kek_store \<Rightarrow> kek_error + 'db kek_store" where
  "insertKey T version key current clusterShared s =
     (case kt_insert T \<lparr>kr_version = version, kr_key_hex = EncodeToString key, kr_is_current = (if current then 1 else 0),
         kr_shared = (if clusterShared then 1 else 0)\<rparr> (ks_db s) of
        Inl e \<Rightarrow> Inl (KekDb e)
      | Inr db \<Rightarrow> Inr (s\<lparr>ks_db := db, ks_keys := AList.update version key (ks_keys s),
          ks_shared := AList.update version clusterShared (ks_shared s),
          ks_current := if current then version else ks_current s\<rparr>))"

definition markCurrent :: "'db key_table \<Rightarrow> int \<Rightarrow> 'db kek_store \<Rightarrow> kek_error + 'db kek_store" where
  "markCurrent T version s = (case kt_mark_current T version (ks_db s) of
     Inl e \<Rightarrow> Inl (KekDb e)
   | Inr db \<Rightarrow> Inr (s\<lparr>ks_db := db, ks_current := version\<rparr>))"

definition new_store :: "'db \<Rightarrow> 'db kek_store" where
  "new_store db = \<lparr>ks_db = db, ks_keys = [], ks_shared = [], ks_current = 0\<rparr>"

text \<open>A failed start leaves the database as it was.\<close>

definition Bootstrap :: "'db key_table \<Rightarrow> 'db \<Rightarrow> string \<Rightarrow> string + string \<Rightarrow> kek_error + 'db kek_store" where
  "Bootstrap T db configKeyHex rnd = (case loadAll T (new_store db) of
     Inl e \<Rightarrow> Inl e
   | Inr s \<Rightarrow>
       if ks_current s \<noteq> 0 then Inr s
       else if configKeyHex \<noteq> [] then
         (case decodeKeyHex configKeyHex of
            Inl e \<Rightarrow> Inl e
          | Inr key \<Rightarrow> insertKey T 1 key True False s)
       else (case rnd of
           Inl e \<Rightarrow> Inl (KekRandom e)
         | Inr key \<Rightarrow> insertKey T 1 key True False s))"

definition CurrentKEK :: "'db kek_store \<Rightarrow> string \<times> int" where
  "CurrentKEK s = (case map_of (ks_keys s) (ks_current s) of None \<Rightarrow> [] | Some k \<Rightarrow> k, ks_current s)"

definition KEKByVersion :: "'db kek_store \<Rightarrow> int \<Rightarrow> kek_error + string" where
  "KEKByVersion s version = (case map_of (ks_keys s) version of None \<Rightarrow> Inl (VersionNotFound version) | Some key \<Rightarrow> Inr key)"

definition IsClusterShared :: "'db kek_store \<Rightarrow> int \<Rightarrow> bool" where
  "IsClusterShared s version = (map_of (ks_shared s) version = Some True)"

definition ClusterSharedKeys :: "'db kek_store \<Rightarrow> key_record list" where
  "ClusterSharedKeys s = map (\<lambda>(version, key). \<lparr>kx_Version = version, kx_KeyHex = EncodeToString key, kx_IsCurrent = (version = ks_current s)\<rparr>)
     (filter (\<lambda>(version, key). IsClusterShared s version) (ks_keys s))"

definition next_version :: "'db kek_store \<Rightarrow> int" where
  "next_version s = fold (\<lambda>(version, key) nx. if version \<ge> nx then add64 version 1 else nx) (ks_keys s) 1"

text \<open>The error of a step comes with the store as the steps before it left it.\<close>

definition EnsureClusterKey :: "'db key_table \<Rightarrow> string + string \<Rightarrow> 'db kek_store \<Rightarrow> (kek_error + key_record list) \<times> 'db kek_store" where
  "EnsureClusterKey T rnd s =
     (if ClusterSharedKeys s \<noteq> [] then (Inr (ClusterSharedKeys s), s)
      else (let nx = next_version s in
        case rnd of
          Inl e \<Rightarrow> (Inl (KekRandom e), s)
        | Inr key \<Rightarrow> (case insertKey T nx key False True s of
            Inl e \<Rightarrow> (Inl e, s)
          | Inr s1 \<Rightarrow> (case markCurrent T nx s1 of
              Inl e \<Rightarrow> (Inl e, s1)
            | Inr s2 \<Rightarrow> (Inr (ClusterSharedKeys s2), s2)))))"

fun parse_records :: "'db kek_store \<Rightarrow> key_record list \<Rightarrow> (int \<times> string) list \<Rightarrow> int \<Rightarrow> kek_error + (int \<times> string) list \<times> int" where
  "parse_records s [] parsed currentVersion = Inr (parsed, currentVersion)"
| "parse_records s (r # rs) parsed currentVersion = (case decodeKeyHex (kx_KeyHex r) of
     Inl e \<Rightarrow> Inl (MalformedClusterKey (kx_Version r))
   | Inr key \<Rightarrow>
       if (case map_of (ks_keys s) (kx_Version r) of None \<Rightarrow> False | Some lkey \<Rightarrow> EncodeToString lkey \<noteq> kx_KeyHex r)
       then Inl (KeyConflict (kx_Version r))
       else parse_records s rs (parsed @ [(kx_Version r, key)]) (if kx_IsCurrent r then kx_Version r else currentVersion))"

definition AdoptClusterKeys :: "'db key_table \<Rightarrow> key_record list \<Rightarrow> 'db kek_store \<Rightarrow> kek_error option \<times> 'db kek_store" where
  "AdoptClusterKeys T records s =
     (if records = [] then (None, s)
      else (case parse_records s records [] 0 of
        Inl e \<Rightarrow> (Some e, s)
      | Inr (parsed, currentVersion) \<Rightarrow>
          if currentVersion = 0 then (Some NoCurrentInSet, s)
          else (case kt_adopt T (map (\<lambda>(v, key). (v, EncodeToString key)) parsed) currentVersion (ks_db s) of
            Inl e \<Rightarrow> (Some (KekDb e), s)
          | Inr db \<Rightarrow> (None, \<lparr>ks_db = db,
              ks_keys = fold (\<lambda>(v, key). AList.update v key) parsed (ks_keys s),
              ks_shared = fold (\<lambda>(v, key). AList.update v True) parsed (ks_shared s),
              ks_current = currentVersion\<rparr>))))"

definition Rotate :: "'db key_table \<Rightarrow> string + string \<Rightarrow> bool \<Rightarrow> 'db kek_store \<Rightarrow> (kek_error + int) \<times> 'db kek_store" where
  "Rotate T rnd clusterShared s = (let nx = next_version s in
     case rnd of
       Inl e \<Rightarrow> (Inl (KekRandom e), s)
     | Inr key \<Rightarrow> (case insertKey T nx key False clusterShared s of
         Inl e \<Rightarrow> (Inl e, s)
       | Inr s1 \<Rightarrow> (case markCurrent T nx s1 of
           Inl e \<Rightarrow> (Inl e, s1)
         | Inr s2 \<Rightarrow> (Inr nx, case kt_reset_bundle T (ks_db s2) of Inl _ \<Rightarrow> s2 | Inr db \<Rightarrow> s2\<lparr>ks_db := db\<rparr>))))"

definition EphemeralFromKey :: "string \<Rightarrow> kek_error + string" where
  "EphemeralFromKey key = (if length key \<noteq> 32 then Inl (KeyLength (length key)) else Inr key)"

section \<open>The recovery bundle\<close>

text \<open>
  Every key version in one file under a passphrase. The two JSON documents are the fields of
  \<open>bundle_codec\<close>; a passphrase and a document are byte strings.
\<close>

definition str_bytes :: "string \<Rightarrow> bytes" where
  "str_bytes s = map (\<lambda>c. word_of_nat (of_char c)) s"

definition bytes_str :: "bytes \<Rightarrow> string" where
  "bytes_str b = map (\<lambda>w. char_of (unat w)) b"

lemma bytes_str_inverse [simp]: "bytes_str (str_bytes s) = s"
proof -
  have "(of_char c :: nat) mod 256 = of_char c" for c by simp
  then show ?thesis by (induction s) (simp_all add: bytes_str_def str_bytes_def unat_of_nat)
qed

lemma str_bytes_inverse [simp]: "str_bytes (bytes_str b) = b"
proof -
  have "unat w mod 256 = unat (w :: byte)" for w using unsigned_less [of w, where ?'a = nat] by simp
  then show ?thesis by (induction b) (simp_all add: bytes_str_def str_bytes_def)
qed

record bundle_file =
  bf_Format :: string
  bf_CreatedAt :: int
  bf_KDF :: string
  bf_Iterations :: int
  bf_Salt :: string
  bf_Nonce :: string
  bf_Ciphertext :: string

record bundle_codec =
  bc_records :: "key_record list \<Rightarrow> string"
  bc_read_records :: "string \<Rightarrow> key_record list option"
  bc_file :: "bundle_file \<Rightarrow> string"
  bc_read_file :: "string \<Rightarrow> bundle_file option"

definition bundleFormat :: string where
  "bundleFormat = ''maxiofs-kek-bundle-v1''"

definition bundleIterations :: int where
  "bundleIterations = 310000"

definition MinBundlePassphraseLen :: nat where
  "MinBundlePassphraseLen = 8"

definition all_records :: "'db kek_store \<Rightarrow> key_record list" where
  "all_records s = map (\<lambda>(version, key). \<lparr>kx_Version = version, kx_KeyHex = EncodeToString key, kx_IsCurrent = (version = ks_current s)\<rparr>) (ks_keys s)"

definition ExportBundle :: "ciphers \<Rightarrow> bundle_codec \<Rightarrow> gotime \<Rightarrow> string + bytes \<Rightarrow> string + bytes \<Rightarrow> string \<Rightarrow> 'db kek_store \<Rightarrow> kek_error + string" where
  "ExportBundle C J now rndSalt rndNonce passphrase s =
     (if length passphrase < MinBundlePassphraseLen then Inl ShortPassphrase
      else if all_records s = [] then Inl NoKeys
      else (let plaintext = bc_records J (sort_key kx_Version (all_records s)) in
        case rndSalt of
          Inl e \<Rightarrow> Inl (KekRandom e)
        | Inr salt \<Rightarrow> (case NewCipher (pbkdf2_Key C (str_bytes passphrase) salt bundleIterations 32) of
            Inl _ \<Rightarrow> Inl (BadBundle ''cipher'')
          | Inr block \<Rightarrow> (case rndNonce of
              Inl e \<Rightarrow> Inl (KekRandom e)
            | Inr nonce \<Rightarrow> Inr (bc_file J \<lparr>bf_Format = bundleFormat, bf_CreatedAt = Unix now, bf_KDF = ''pbkdf2-sha256'',
                bf_Iterations = bundleIterations, bf_Salt = EncodeToString (bytes_str salt), bf_Nonce = EncodeToString (bytes_str nonce),
                bf_Ciphertext = EncodeToString (bytes_str (gcm_Seal C block nonce (str_bytes plaintext)))\<rparr>)))))"

definition DecryptBundle :: "ciphers \<Rightarrow> bundle_codec \<Rightarrow> string \<Rightarrow> string \<Rightarrow> kek_error + key_record list" where
  "DecryptBundle C J data passphrase = (case bc_read_file J data of
     None \<Rightarrow> Inl (BadBundle ''not a valid recovery bundle'')
   | Some bundle \<Rightarrow>
       if bf_Format bundle \<noteq> bundleFormat then Inl (BadBundle ''unsupported bundle format'')
       else (case DecodeString (bf_Salt bundle) of
         None \<Rightarrow> Inl (BadBundle ''corrupt bundle salt'')
       | Some salt \<Rightarrow> (case DecodeString (bf_Nonce bundle) of
           None \<Rightarrow> Inl (BadBundle ''corrupt bundle nonce'')
         | Some nonce \<Rightarrow> (case DecodeString (bf_Ciphertext bundle) of
             None \<Rightarrow> Inl (BadBundle ''corrupt bundle ciphertext'')
           | Some ciphertext \<Rightarrow> (let iterations = (if bf_Iterations bundle < bundleIterations then bundleIterations else bf_Iterations bundle)
               in case NewCipher (pbkdf2_Key C (str_bytes passphrase) (str_bytes salt) iterations 32) of
                 Inl _ \<Rightarrow> Inl (BadBundle ''cipher'')
               | Inr block \<Rightarrow> (case gcm_Open C block (str_bytes nonce) (str_bytes ciphertext) of
                   None \<Rightarrow> Inl (BadBundle ''wrong passphrase or corrupt bundle'')
                 | Some plaintext \<Rightarrow> (case bc_read_records J (bytes_str plaintext) of
                     None \<Rightarrow> Inl (BadBundle ''corrupt bundle contents'')
                   | Some records \<Rightarrow>
                       if records = [] then Inl (BadBundle ''bundle contains no keys'')
                       else (case find (\<lambda>r. isl (decodeKeyHex (kx_KeyHex r))) records of
                           Some r \<Rightarrow> Inl (CorruptKey (kx_Version r))
                         | None \<Rightarrow> Inr records))))))))"

definition MarkBundleDownloaded :: "'db key_table \<Rightarrow> gotime \<Rightarrow> 'db kek_store \<Rightarrow> kek_error + 'db kek_store" where
  "MarkBundleDownloaded T now s = (case kt_mark_bundle T (show_int64 (Unix now)) (ks_db s) of
     Inl e \<Rightarrow> Inl (KekDb e) | Inr db \<Rightarrow> Inr (s\<lparr>ks_db := db\<rparr>))"

text \<open>The export of a store is read back as its keys, in the order of their versions.\<close>

lemma bundle_round_trip:
  assumes "aead_ok C" "kdf_ok C" "\<And>rs. bc_read_records J (bc_records J rs) = Some rs" "\<And>f. bc_read_file J (bc_file J f) = Some f"
    and "\<And>v k. (v, k) \<in> set (ks_keys s) \<Longrightarrow> length k = 32"
    and "ExportBundle C J now rndSalt rndNonce passphrase s = Inr data"
  shows "DecryptBundle C J data passphrase = Inr (sort_key kx_Version (all_records s))"
proof -
  have "isl (decodeKeyHex (kx_KeyHex r)) = False" if "r \<in> set (all_records s)" for r
    using that assms(5) by (auto simp: all_records_def decodeKeyHex_def)
  then have f: "find (\<lambda>r. isl (decodeKeyHex (kx_KeyHex r))) (sort_key kx_Version (all_records s)) = None"
    by (auto simp: find_None_iff)
  have "all_records s \<noteq> []" using assms(6) by (auto simp: ExportBundle_def split: if_splits)
  then have ne: "sort_key kx_Version (all_records s) \<noteq> []" by (metis length_0_conv length_sort)
  from assms(6) show ?thesis
    using f ne assms(1-4) by (auto simp: ExportBundle_def DecryptBundle_def Let_def aead_ok_def split: if_splits sum.splits)
qed

section \<open>Runs\<close>

text \<open>A process that is up has a store; one whose start failed has only the database.\<close>

datatype 'db kek_process = Up "'db kek_store" | Down 'db

datatype kek_op =
    OpRotate "string + string" bool
  | OpEnsure "string + string"
  | OpAdopt "key_record list"
  | OpBundle gotime
  | OpRestart string "string + string"

fun process_db :: "'db kek_process \<Rightarrow> 'db" where
  "process_db (Up s) = ks_db s"
| "process_db (Down db) = db"

definition kek_restart :: "'db key_table \<Rightarrow> string \<Rightarrow> string + string \<Rightarrow> 'db \<Rightarrow> 'db kek_process" where
  "kek_restart T cfg rnd db = (case Bootstrap T db cfg rnd of Inl _ \<Rightarrow> Down db | Inr s \<Rightarrow> Up s)"

fun kek_exec :: "'db key_table \<Rightarrow> kek_op \<Rightarrow> 'db kek_process \<Rightarrow> 'db kek_process" where
  "kek_exec T (OpRestart cfg rnd) p = kek_restart T cfg rnd (process_db p)"
| "kek_exec T op (Down db) = Down db"
| "kek_exec T (OpRotate rnd shared) (Up s) = Up (snd (Rotate T rnd shared s))"
| "kek_exec T (OpEnsure rnd) (Up s) = Up (snd (EnsureClusterKey T rnd s))"
| "kek_exec T (OpAdopt rs) (Up s) = Up (snd (AdoptClusterKeys T rs s))"
| "kek_exec T (OpBundle now) (Up s) = Up (case MarkBundleDownloaded T now s of Inl _ \<Rightarrow> s | Inr s' \<Rightarrow> s')"

text \<open>New keys have the 32 bytes that \<^verbatim>\<open>rand.Read\<close> fills.\<close>

definition fresh_key :: "string + string \<Rightarrow> bool" where
  "fresh_key rnd = (case rnd of Inl _ \<Rightarrow> True | Inr key \<Rightarrow> length key = 32)"

lemma fresh_key_simps [simp]: "fresh_key (Inl e)" "fresh_key (Inr k) \<longleftrightarrow> length k = 32"
  by (simp_all add: fresh_key_def)

fun kek_op_ok :: "kek_op \<Rightarrow> bool" where
  "kek_op_ok (OpRotate rnd shared) \<longleftrightarrow> fresh_key rnd"
| "kek_op_ok (OpEnsure rnd) \<longleftrightarrow> fresh_key rnd"
| "kek_op_ok (OpAdopt rs) \<longleftrightarrow> True"
| "kek_op_ok (OpBundle now) \<longleftrightarrow> True"
| "kek_op_ok (OpRestart cfg rnd) \<longleftrightarrow> fresh_key rnd"

section \<open>The store mirrors the table\<close>

definition row_key :: "kek_row \<Rightarrow> string option" where
  "row_key r = (case decodeKeyHex (kr_key_hex r) of Inl _ \<Rightarrow> None | Inr k \<Rightarrow> Some k)"

definition key_map :: "key_rows \<Rightarrow> int \<Rightarrow> string option" where
  "key_map m v = Option.bind (m v) row_key"

definition sound_rows :: "key_rows \<Rightarrow> bool" where
  "sound_rows m \<longleftrightarrow> (\<forall>v. m v \<noteq> None \<longrightarrow> key_map m v \<noteq> None)"

definition mirrors :: "('db \<Rightarrow> key_rows) \<Rightarrow> 'db kek_store \<Rightarrow> bool" where
  "mirrors tab s \<longleftrightarrow> map_of (ks_keys s) = key_map (tab (ks_db s)) \<and> sound_rows (tab (ks_db s))"

lemma decode_encode: "length k = 32 \<Longrightarrow> decodeKeyHex (EncodeToString k) = Inr k"
  by (simp add: decodeKeyHex_def)

lemma decodeKeyHex_length: "decodeKeyHex h = Inr k \<Longrightarrow> length k = 32"
  using length_DecodeString [of h k] by (auto simp: decodeKeyHex_def split: if_splits option.splits)

lemma row_key_Some: "row_key r = Some k \<longleftrightarrow> decodeKeyHex (kr_key_hex r) = Inr k"
  by (cases "decodeKeyHex (kr_key_hex r)") (simp_all add: row_key_def)

lemma row_key_flags [simp]: "row_key (r\<lparr>kr_is_current := a\<rparr>) = row_key r" "row_key (r\<lparr>kr_shared := b\<rparr>) = row_key r"
  by (simp_all add: row_key_def)

lemma key_map_marked [simp]: "key_map (marked v m) = key_map m"
  by (rule ext) (simp add: key_map_def marked_def split: Option.bind_split)

lemma sound_marked [simp]: "sound_rows (marked v m) = sound_rows m"
  by (simp add: sound_rows_def) (simp add: marked_def)

lemma map_of_update [simp]: "map_of (AList.update k v al) = (map_of al)(k \<mapsto> v)"
  by (rule AList.update_conv')

lemma key_map_insert: "length k = 32 \<Longrightarrow> key_map (m(v \<mapsto> \<lparr>kr_version = a, kr_key_hex = EncodeToString k, kr_is_current = b, kr_shared = c\<rparr>)) = (key_map m)(v \<mapsto> k)"
  by (rule ext) (simp add: key_map_def row_key_def decode_encode)

lemma sound_insert: "length k = 32 \<Longrightarrow> sound_rows m \<Longrightarrow>
    sound_rows (m(v \<mapsto> \<lparr>kr_version = a, kr_key_hex = EncodeToString k, kr_is_current = b, kr_shared = c\<rparr>))"
  by (simp add: sound_rows_def key_map_insert)

lemma upsert_keeps: "key_map m v = Some k \<Longrightarrow> key_map (upsert p m) v = Some k"
  by (auto simp: upsert_def key_map_def bind_eq_Some_conv split: option.splits)

lemma sound_upsert: "length k = 32 \<Longrightarrow> sound_rows m \<Longrightarrow> sound_rows (upsert (v, EncodeToString k) m)"
  by (auto simp: sound_insert upsert_def split: option.splits) (auto simp: sound_rows_def key_map_def)

text \<open>An adoption changes no key of the table, even when it names a version twice.\<close>

lemma fold_upsert:
  assumes "sound_rows m" "\<And>v k. (v, k) \<in> set ps \<Longrightarrow> length k = 32"
  shows "key_map m \<subseteq>\<^sub>m key_map (fold upsert (map (\<lambda>(v, key). (v, EncodeToString key)) ps) m) \<and>
    sound_rows (fold upsert (map (\<lambda>(v, key). (v, EncodeToString key)) ps) m)"
  using assms
proof (induction ps arbitrary: m)
  case (Cons p ps)
  obtain v k where p: "p = (v, k)" by (cases p)
  have "length k = 32" using Cons.prems(2) [of v k] by (simp add: p)
  note u = sound_upsert [OF this Cons.prems(1), of v]
  have "key_map m \<subseteq>\<^sub>m key_map (upsert (v, EncodeToString k) m)" by (force simp: map_le_def upsert_keeps)
  then show ?case using Cons.IH [OF u] Cons.prems(2) by (auto simp: p intro: map_le_trans)
qed simp

lemma map_of_fold_update: "map_of (fold (\<lambda>(v, key). AList.update v key) ps al) = fold (\<lambda>(v, key) f. f(v \<mapsto> key)) ps (map_of al)"
  by (induction ps arbitrary: al) auto

lemma fold_upd_keeps: "f v = Some k \<Longrightarrow> (\<And>v k'. (v, k') \<in> set ps \<Longrightarrow> f v = None \<or> f v = Some k') \<Longrightarrow>
    fold (\<lambda>(v, key) f. f(v \<mapsto> key)) ps f v = Some k"
proof -
  assume k: "f v = Some k" and ps: "\<And>v k'. (v, k') \<in> set ps \<Longrightarrow> f v = None \<or> f v = Some k'"
  have "g v = Some k \<Longrightarrow> (\<And>k'. (v, k') \<in> set ps \<Longrightarrow> k' = k) \<Longrightarrow> fold (\<lambda>(v, key) f. f(v \<mapsto> key)) ps g v = Some k" for g
    by (induction ps arbitrary: g) auto
  from this [of f] show ?thesis using k ps by fastforce
qed

lemma decode_local: "EncodeToString a = h \<Longrightarrow> decodeKeyHex h = Inr k \<Longrightarrow> a = k"
  by (auto simp: decodeKeyHex_def split: if_splits)

lemma parse_records_sound:
  assumes "parse_records s rs acc cv = Inr (parsed, cur)" "(v, k) \<in> set parsed"
  shows "(v, k) \<in> set acc \<or> length k = 32 \<and> (map_of (ks_keys s) v = None \<or> map_of (ks_keys s) v = Some k)"
  using assms
proof (induction rs arbitrary: acc cv)
  case (Cons r rs)
  then obtain k' where k: "decodeKeyHex (kx_KeyHex r) = Inr k'"
    and free: "case map_of (ks_keys s) (kx_Version r) of None \<Rightarrow> True | Some lkey \<Rightarrow> EncodeToString lkey = kx_KeyHex r"
    by (auto split: sum.splits if_splits option.splits)
  have local: "map_of (ks_keys s) (kx_Version r) = None \<or> map_of (ks_keys s) (kx_Version r) = Some k'"
    using free decode_local [OF _ k] by (auto split: option.splits)
  have "parse_records s rs (acc @ [(kx_Version r, k')]) (if kx_IsCurrent r then kx_Version r else cv) = Inr (parsed, cur)"
    using Cons.prems(1) k free by (auto split: option.splits)
  from Cons.IH [OF this Cons.prems(2)] show ?case using local decodeKeyHex_length [OF k] by auto
qed auto

lemma map_of_rev_distinct: "distinct (map fst al) \<Longrightarrow> map_of (rev al) = map_of al"
  by (rule ext) (metis distinct_rev map_of_eq_None_iff map_of_eq_Some_iff not_Some_eq rev_map set_rev)

lemma load_rows_sound:
  assumes "load_rows rs s = Inr s'"
  shows "ks_db s' = ks_db s" "\<And>r. r \<in> set rs \<Longrightarrow> row_key r \<noteq> None"
    "map_of (ks_keys s') v = (case map_of (rev (map (\<lambda>r. (kr_version r, r)) rs)) v of None \<Rightarrow> map_of (ks_keys s) v | Some r \<Rightarrow> row_key r)"
  using assms
proof (induction rs arbitrary: s)
  case (Cons r rs)
  {
    case 1
    then show ?case using Cons.IH(1) by (fastforce split: sum.splits)
  next
    case 2
    then show ?case using Cons.IH(2) by (fastforce simp: row_key_def split: sum.splits)
  next
    case 3
    then show ?case using Cons.IH(3) by (fastforce simp: row_key_def map_add_Some_iff split: sum.splits option.splits if_splits)
  }
qed auto

context key_table_laws
begin

lemma map_le_upd_new: "M \<subseteq>\<^sub>m f \<Longrightarrow> M v = None \<Longrightarrow> M \<subseteq>\<^sub>m f(v \<mapsto> k)"
  by (auto simp: map_le_def)

text \<open>
  The keys \<open>M\<close> are carried by a store: memory and table both have them. The two may differ on other versions,
  which happens after an adoption that names a new version twice: the table keeps the first key and memory the last.
\<close>

definition carries :: "(int \<Rightarrow> string option) \<Rightarrow> 'db kek_store \<Rightarrow> bool" where
  "carries M s \<longleftrightarrow> M \<subseteq>\<^sub>m map_of (ks_keys s) \<and> M \<subseteq>\<^sub>m key_map (tab (ks_db s)) \<and> sound_rows (tab (ks_db s))"

lemma mirrors_carries: "mirrors tab s \<Longrightarrow> M \<subseteq>\<^sub>m map_of (ks_keys s) \<Longrightarrow> carries M s"
  by (simp add: mirrors_def carries_def)

lemma insertKey_carries:
  assumes "carries M s" "insertKey T v k cur sh s = Inr s'" "length k = 32"
  shows "carries M s'"
proof -
  obtain db where i: "kt_insert T \<lparr>kr_version = v, kr_key_hex = EncodeToString k, kr_is_current = (if cur then 1 else 0),
      kr_shared = (if sh then 1 else 0)\<rparr> (ks_db s) = Inr db"
    and s': "ks_db s' = db" "ks_keys s' = AList.update v k (ks_keys s)"
    using assms(2) by (auto simp: insertKey_def split: sum.splits)
  have "M v = None"
  proof (rule ccontr)
    assume "M v \<noteq> None"
    then have "key_map (tab (ks_db s)) v \<noteq> None" using assms(1) by (auto simp: carries_def map_le_def dom_def)
    then show False using insert [OF i] by (simp add: key_map_def)
  qed
  with assms(1) insert [OF i] s' show ?thesis
    by (simp add: carries_def key_map_insert [OF assms(3)] sound_insert [OF assms(3)] map_le_upd_new)
qed

lemma markCurrent_carries: "carries M s \<Longrightarrow> markCurrent T v s = Inr s' \<Longrightarrow> carries M s'"
  using mark by (auto simp: markCurrent_def carries_def split: sum.splits)

lemma EnsureClusterKey_carries: "carries M s \<Longrightarrow> fresh_key rnd \<Longrightarrow> carries M (snd (EnsureClusterKey T rnd s))"
  by (auto simp: EnsureClusterKey_def Let_def dest: insertKey_carries markCurrent_carries split: sum.splits)

lemma reset_carries: "carries M s \<Longrightarrow> kt_reset_bundle T (ks_db s) = Inr db \<Longrightarrow> carries M (s\<lparr>ks_db := db\<rparr>)"
  using reset by (simp add: carries_def)

lemma Rotate_carries:
  assumes "carries M s" "fresh_key rnd"
  shows "carries M (snd (Rotate T rnd sh s))"
proof -
  have "carries M s1 \<and> (markCurrent T v s1 = Inr s2 \<longrightarrow> carries M s2 \<and> (kt_reset_bundle T (ks_db s2) = Inr db \<longrightarrow> carries M (s2\<lparr>ks_db := db\<rparr>)))"
    if "insertKey T v k False sh s = Inr s1" "length k = 32" for v k s1 s2 db
    using insertKey_carries [OF assms(1) that] markCurrent_carries [of M s1 v s2] reset_carries [of M s2 db] by blast
  then show ?thesis using assms by (auto simp: Rotate_def Let_def split: sum.splits)
qed

lemma MarkBundleDownloaded_carries: "carries M s \<Longrightarrow> MarkBundleDownloaded T now s = Inr s' \<Longrightarrow> carries M s'"
  using flag by (auto simp: MarkBundleDownloaded_def carries_def split: sum.splits)

lemma AdoptClusterKeys_carries:
  assumes m: "carries M s"
  shows "carries M (snd (AdoptClusterKeys T rs s))"
proof -
  have "carries M \<lparr>ks_db = db, ks_keys = fold (\<lambda>(v, key). AList.update v key) parsed (ks_keys s), ks_shared = sh, ks_current = cur\<rparr>"
    if p: "parse_records s rs [] 0 = Inr (parsed, cur)"
      and a: "kt_adopt T (map (\<lambda>(v, key). (v, EncodeToString key)) parsed) cur (ks_db s) = Inr db" for parsed cur db sh
  proof -
    have ps: "length k = 32 \<and> (map_of (ks_keys s) v = None \<or> map_of (ks_keys s) v = Some k)" if "(v, k) \<in> set parsed" for v k
      using parse_records_sound [OF p that] by simp
    have "key_map (tab (ks_db s)) \<subseteq>\<^sub>m key_map (tab db)" "sound_rows (tab db)"
      using fold_upsert [of "tab (ks_db s)" parsed] ps m by (auto simp: adopt [OF a] carries_def)
    moreover have "map_of (ks_keys s) \<subseteq>\<^sub>m fold (\<lambda>(v, key) f. f(v \<mapsto> key)) parsed (map_of (ks_keys s))"
      using fold_upd_keeps [of "map_of (ks_keys s)" _ _ parsed] ps by (fastforce simp: map_le_def)
    ultimately show ?thesis using m by (auto simp: carries_def map_of_fold_update intro: map_le_trans)
  qed
  then show ?thesis using m by (auto simp: AdoptClusterKeys_def split: sum.splits prod.splits)
qed

lemma loadAll_mirrors:
  assumes "loadAll T (new_store db) = Inr s"
  shows "mirrors tab s \<and> ks_db s = db"
proof -
  from assms obtain rs where rs: "kt_rows T db = Inr rs" "load_rows rs (new_store db) = Inr s"
    by (auto simp: loadAll_def new_store_def split: sum.splits if_splits)
  let ?al = "map (\<lambda>r. (kr_version r, r)) rs"
  have tab: "map_of (rev ?al) = tab db"
    using rows [OF rs(1)] map_of_rev_distinct [of ?al] by (simp add: comp_def)
  note l = load_rows_sound [OF rs(2)]
  have "map_of (ks_keys s) v = key_map (tab db) v" for v
    using l(3) [of v] by (simp add: tab key_map_def new_store_def split: option.splits)
  moreover have "key_map (tab db) v \<noteq> None" if "tab db v \<noteq> None" for v
    using that l(2) tab map_of_SomeD [of "rev ?al" v] by (fastforce simp: key_map_def)
  ultimately show ?thesis using l(1) by (auto simp: mirrors_def sound_rows_def new_store_def)
qed

lemma Bootstrap_carries:
  assumes "Bootstrap T db cfg rnd = Inr s" "fresh_key rnd" "M \<subseteq>\<^sub>m key_map (tab db)"
  shows "carries M s"
proof -
  obtain s0 where s0: "loadAll T (new_store db) = Inr s0" using assms(1) by (auto simp: Bootstrap_def split: sum.splits)
  have m: "carries M s0" using loadAll_mirrors [OF s0] assms(3) by (intro mirrors_carries) (auto simp: mirrors_def)
  have "s = s0 \<or> (\<exists>k. length k = 32 \<and> insertKey T 1 k True False s0 = Inr s)"
    using assms s0 by (auto simp: Bootstrap_def dest: decodeKeyHex_length split: sum.splits if_splits)
  with m insertKey_carries [OF m] show ?thesis by auto
qed

definition process_ok :: "(int \<Rightarrow> string option) \<Rightarrow> 'db kek_process \<Rightarrow> bool" where
  "process_ok M p \<longleftrightarrow> (case p of Up s \<Rightarrow> carries M s | Down db \<Rightarrow> M \<subseteq>\<^sub>m key_map (tab db) \<and> sound_rows (tab db))"

lemma process_ok_db: "process_ok M p \<Longrightarrow> M \<subseteq>\<^sub>m key_map (tab (process_db p)) \<and> sound_rows (tab (process_db p))"
  by (cases p) (simp_all add: process_ok_def carries_def)

lemma kek_exec_keeps:
  assumes "process_ok M p" "kek_op_ok op"
  shows "process_ok M (kek_exec T op p)"
proof (cases op)
  case (OpRestart cfg rnd)
  then show ?thesis
    using process_ok_db [OF assms(1)] Bootstrap_carries [of "process_db p" cfg rnd] assms(2)
    by (auto simp: kek_restart_def process_ok_def split: sum.splits)
next
  case (OpRotate rnd sh)
  then show ?thesis using assms Rotate_carries by (cases p) (auto simp: process_ok_def)
next
  case (OpEnsure rnd)
  then show ?thesis using assms EnsureClusterKey_carries by (cases p) (auto simp: process_ok_def)
next
  case (OpAdopt rs)
  then show ?thesis using assms AdoptClusterKeys_carries by (cases p) (auto simp: process_ok_def)
next
  case (OpBundle now)
  then show ?thesis using assms MarkBundleDownloaded_carries by (cases p) (auto simp: process_ok_def split: sum.splits)
qed

lemma kek_run_keeps: "process_ok M p \<Longrightarrow> list_all kek_op_ok ops \<Longrightarrow> process_ok M (fold (kek_exec T) ops p)"
  by (induction ops arbitrary: p) (simp_all add: kek_exec_keeps)

text \<open>What a run from a store that mirrors its table keeps.\<close>

lemma kek_run_up:
  assumes "mirrors tab s" "list_all kek_op_ok ops"
  shows "map_of (ks_keys s) \<subseteq>\<^sub>m key_map (tab (process_db (fold (kek_exec T) ops (Up s))))"
    and "fold (kek_exec T) ops (Up s) = Up s' \<Longrightarrow> map_of (ks_keys s) \<subseteq>\<^sub>m map_of (ks_keys s')"
proof -
  have "process_ok (map_of (ks_keys s)) (Up s)" using mirrors_carries [OF assms(1)] by (simp add: process_ok_def)
  note ok = kek_run_keeps [OF this assms(2)]
  show "map_of (ks_keys s) \<subseteq>\<^sub>m key_map (tab (process_db (fold (kek_exec T) ops (Up s))))" using process_ok_db [OF ok] by simp
  show "map_of (ks_keys s) \<subseteq>\<^sub>m map_of (ks_keys s')" if "fold (kek_exec T) ops (Up s) = Up s'"
    using ok that by (simp add: process_ok_def carries_def)
qed

end

section \<open>A table in memory\<close>

definition row_map :: "kek_row list \<Rightarrow> key_rows" where
  "row_map db = map_of (map (\<lambda>r. (kr_version r, r)) db)"

definition mark_rows :: "int \<Rightarrow> kek_row list \<Rightarrow> kek_row list" where
  "mark_rows v db = map (\<lambda>r. r\<lparr>kr_is_current := if kr_version r = v then 1 else 0\<rparr>) db"

definition upsert_row :: "int \<times> string \<Rightarrow> kek_row list \<Rightarrow> kek_row list" where
  "upsert_row p db = (if fst p \<in> set (map kr_version db)
     then map (\<lambda>r. if kr_version r = fst p then r\<lparr>kr_shared := 1\<rparr> else r) db
     else \<lparr>kr_version = fst p, kr_key_hex = snd p, kr_is_current = 0, kr_shared = 1\<rparr> # db)"

definition mem_table :: "kek_row list key_table" where
  "mem_table = \<lparr>kt_rows = \<lambda>db. if distinct (map kr_version db) then Inr db else Inl ''UNIQUE'',
     kt_insert = \<lambda>r db. if kr_version r \<in> set (map kr_version db) then Inl ''UNIQUE'' else Inr (r # db),
     kt_mark_current = \<lambda>v db. Inr (mark_rows v db),
     kt_adopt = \<lambda>ps v db. Inr (mark_rows v (fold upsert_row ps db)),
     kt_reset_bundle = Inr, kt_mark_bundle = \<lambda>at. Inr, kt_bundle_at = \<lambda>db. Inr None\<rparr>"

lemma row_map_None: "row_map db v = None \<longleftrightarrow> v \<notin> set (map kr_version db)"
  by (simp add: row_map_def map_of_eq_None_iff image_image)

lemma row_map_mark: "row_map (mark_rows v db) = marked v (row_map db)"
  by (rule ext) (induction db; simp add: row_map_def mark_rows_def marked_def)

lemma row_map_upsert: "row_map (upsert_row p db) = upsert p (row_map db)"
proof (cases "row_map db (fst p)")
  case None
  moreover have "fst p \<notin> set (map kr_version db)" using None row_map_None by blast
  ultimately show ?thesis by (simp add: upsert_row_def upsert_def) (simp add: row_map_def)
next
  case (Some r)
  have "map_of (map (\<lambda>r. (kr_version r, r)) (map (\<lambda>r. if kr_version r = fst p then r\<lparr>kr_shared := 1\<rparr> else r) db)) w =
      map_option (\<lambda>r. if w = fst p then r\<lparr>kr_shared := 1\<rparr> else r) (map_of (map (\<lambda>r. (kr_version r, r)) db) w)" for w
    by (induction db) auto
  then show ?thesis
    using Some row_map_None [of db "fst p"] by (auto simp: upsert_row_def upsert_def row_map_def fun_eq_iff option.map_ident split: option.splits)
qed

lemma row_map_fold: "row_map (fold upsert_row ps db) = fold upsert ps (row_map db)"
  by (induction ps arbitrary: db) (simp_all add: row_map_upsert)

interpretation kek: key_table_laws mem_table row_map
proof
  show "kt_rows mem_table db = Inr rs \<Longrightarrow> distinct (map kr_version rs) \<and> map_of (map (\<lambda>r. (kr_version r, r)) rs) = row_map db" for db rs
    by (simp add: mem_table_def row_map_def split: if_splits)
  show "kt_insert mem_table r db = Inr db' \<Longrightarrow> row_map db (kr_version r) = None \<and> row_map db' = (row_map db)(kr_version r \<mapsto> r)" for r db db'
    using row_map_None [of db "kr_version r"] by (auto simp: mem_table_def row_map_def split: if_splits)
qed (auto simp: mem_table_def row_map_mark row_map_fold)

section \<open>No key is lost\<close>

text \<open>
  C7. Key versions survive. The store of a running process mirrors its table. Then after any sequence of
  rotations, cluster key creations, adoptions of any key sets, marks of a downloaded recovery bundle and restarts,
  each of which may fail at any statement or for lack of random bytes, every version that the store knew at the start is
  still in the table with the same key, and a process that is up returns the same key for it. So no
  data key wrapped under an old version becomes unreadable. (A version first seen in an adoption that names it twice, with different
  keys, is not covered: the table keeps one and memory the other.)
\<close>

theorem kek_versions_survive:
  assumes "key_table_laws T tab" "mirrors tab s" "KEKByVersion s v = Inr k" "list_all kek_op_ok ops"
  shows "(\<exists>r. tab (process_db (fold (kek_exec T) ops (Up s))) v = Some r \<and> decodeKeyHex (kr_key_hex r) = Inr k) \<and>
    (case fold (kek_exec T) ops (Up s) of Up s' \<Rightarrow> KEKByVersion s' v = Inr k | Down _ \<Rightarrow> True)"
proof -
  let ?p = "fold (kek_exec T) ops (Up s)"
  note run = key_table_laws.kek_run_up [OF assms(1,2,4)]
  have k: "map_of (ks_keys s) v = Some k" using assms(3) by (simp add: KEKByVersion_def split: option.splits)
  then have "key_map (tab (process_db ?p)) v = Some k" using run(1) by (metis domI map_le_def)
  then have "\<exists>r. tab (process_db ?p) v = Some r \<and> decodeKeyHex (kr_key_hex r) = Inr k"
    by (simp add: key_map_def bind_eq_Some_conv row_key_Some)
  moreover have "KEKByVersion s' v = Inr k" if "?p = Up s'" for s'
    using run(2) [OF that] k by (metis KEKByVersion_def domI map_le_def option.simps(5))
  ultimately show ?thesis by (auto split: kek_process.splits)
qed

definition demo_key :: string where
  "demo_key = replicate 32 CHR ''k''"

definition demo_kek :: "kek_row list kek_store" where
  "demo_kek = \<lparr>ks_db = [\<lparr>kr_version = 1, kr_key_hex = EncodeToString demo_key, kr_is_current = 1, kr_shared = 0\<rparr>],
     ks_keys = [(1, demo_key)], ks_shared = [(1, False)], ks_current = 1\<rparr>"

lemma demo_kek_mirrors: "mirrors row_map demo_kek"
  by (auto simp: mirrors_def demo_kek_def sound_rows_def key_map_def row_map_def row_key_def decode_encode demo_key_def fun_eq_iff split: if_splits)

text \<open>A run with an adoption that names the new version 5 twice and one that conflicts with version 1.\<close>

definition demo_adoptions :: "kek_op list" where
  "demo_adoptions = [OpRotate (Inr (replicate 32 CHR ''r'')) False,
     OpAdopt [\<lparr>kx_Version = 5, kx_KeyHex = EncodeToString (replicate 32 CHR ''a''), kx_IsCurrent = True\<rparr>,
       \<lparr>kx_Version = 5, kx_KeyHex = EncodeToString (replicate 32 CHR ''b''), kx_IsCurrent = True\<rparr>],
     OpAdopt [\<lparr>kx_Version = 1, kx_KeyHex = EncodeToString (replicate 32 CHR ''x''), kx_IsCurrent = True\<rparr>],
     OpBundle 7, OpEnsure (Inl ''no entropy''), OpRestart [] (Inl ''no entropy'')]"

theorem kek_versions_survive_witness:
  "case fold (kek_exec mem_table) demo_adoptions (Up demo_kek) of Up s' \<Rightarrow> KEKByVersion s' 1 = Inr demo_key | Down _ \<Rightarrow> True"
proof -
  have "KEKByVersion demo_kek 1 = Inr demo_key" by (simp add: KEKByVersion_def demo_kek_def)
  from kek_versions_survive [OF kek.key_table_laws_axioms demo_kek_mirrors this, of demo_adoptions]
  show ?thesis by (simp add: demo_adoptions_def)
qed

text \<open>The key of a version that one adoption names twice changes at the next start.\<close>

lemma adopted_twice_changes:
  "case fold (kek_exec mem_table) (take 2 demo_adoptions) (Up demo_kek) of
     Up s' \<Rightarrow> KEKByVersion s' 5 = Inr (replicate 32 CHR ''b'') | Down _ \<Rightarrow> False"
  "case fold (kek_exec mem_table) (take 2 demo_adoptions @ [OpRestart [] (Inl ''no entropy'')]) (Up demo_kek) of
     Up s' \<Rightarrow> KEKByVersion s' 5 = Inr (replicate 32 CHR ''a'') | Down _ \<Rightarrow> False"
  by code_simp+

end
