(* ===== verification/Envelope.thy ===== *)
theory Envelope
  imports Kek_Store Object_Manager
begin

text \<open>
  Envelope encryption in the object manager, \<^verbatim>\<open>newEnvelope\<close> and \<^verbatim>\<open>decryptionKeyFor\<close> of
  \<^verbatim>\<open>internal/object/manager.go\<close> with the classification and re-wrapping of \<^verbatim>\<open>encryption_migration.go\<close>: each object has
  its own data key, wrapped by the current key version and kept in the object's sidecar. A crypter
  bundles the manager's encryptor and key provider.

  \<open>envelope_survives\<close>: the data key unwraps again after any sequence of rotations, adoptions, restarts and
  re-wraps.
\<close>

record 'k crypter =
  cr_C :: ciphers
  cr_config :: cipher_config
  cr_kek :: "'k kek_store"

section \<open>Wrapping and unwrapping\<close>

definition newEnvelope :: "'k crypter \<Rightarrow> string + bytes \<Rightarrow> string + bytes \<Rightarrow> string + string \<times> smap" where
  "newEnvelope cr rndKey rndIV = (let (kekKey, kekVersion) = CurrentKEK (cr_kek cr) in
     if kekKey = [] then Inl ''no current KEK available''
     else (case GenerateKey rndKey of
       Inl _ \<Rightarrow> Inl ''failed to generate DEK''
     | Inr dek \<Rightarrow> (case Encrypt (cr_C cr) (cr_config cr) rndIV dek (str_bytes kekKey) of
         Inl _ \<Rightarrow> Inl ''failed to wrap DEK''
       | Inr wrapped \<Rightarrow> Inr (bytes_str dek,
           [(''wrapped-dek'', EncodeToString (bytes_str (ed_Data wrapped))),
            (''wrapped-dek-iv'', EncodeToString (bytes_str (ed_IV wrapped))),
            (''kek-version'', show_int64 kekVersion)]))))"

definition decryptionKeyFor :: "'k crypter \<Rightarrow> smap \<Rightarrow> string + string" where
  "decryptionKeyFor cr storageMetadata = (let wrappedHex = map_get storageMetadata ''wrapped-dek'' in
     if wrappedHex = [] then (case KEKByVersion (cr_kek cr) 1 of Inl _ \<Rightarrow> Inl ''key version not found'' | Inr k \<Rightarrow> Inr k)
     else (case DecodeString wrappedHex of
       None \<Rightarrow> Inl ''corrupt wrapped-dek metadata''
     | Some wrapped \<Rightarrow> (case DecodeString (map_get storageMetadata ''wrapped-dek-iv'') of
         None \<Rightarrow> Inl ''corrupt wrapped-dek-iv metadata''
       | Some iv \<Rightarrow> (let v = map_get storageMetadata ''kek-version'' in
           case (if v \<noteq> [] then ParseInt v else Some 1) of
             None \<Rightarrow> Inl ''corrupt kek-version metadata''
           | Some kekVersion \<Rightarrow> (case KEKByVersion (cr_kek cr) kekVersion of
               Inl _ \<Rightarrow> Inl ''key version not found''
             | Inr kekKey \<Rightarrow> (case Decrypt (cr_C cr) (cr_config cr) \<lparr>ed_Data = str_bytes wrapped, ed_IV = str_bytes iv,
                   ed_Algorithm = [], ed_KeyID = [], ed_Metadata = []\<rparr> (str_bytes kekKey) of
                 Inl _ \<Rightarrow> Inl ''failed to unwrap DEK''
               | Inr dek \<Rightarrow> Inr (bytes_str dek)))))))"

definition isProtectedStorageMetadataKey :: "string \<Rightarrow> bool" where
  "isProtectedStorageMetadataKey key \<longleftrightarrow> key \<in> {''encrypted'', ''original-size'', ''original-etag'', ''wrapped-dek'', ''wrapped-dek-iv'',
     ''kek-version'', ''size'', ''etag'', ''last_modified'', ''x-amz-server-side-encryption'', ''x-amz-server-side-encryption-algorithm''}"

text \<open>The algorithm of the stored stream; an unmarked object is of the legacy kind.\<close>

definition decryptMetaFor :: "smap \<Rightarrow> stream_metadata" where
  "decryptMetaFor storageMetadata = (let alg = map_get storageMetadata ''x-amz-server-side-encryption-algorithm'' in
     \<lparr>em_Algorithm = (if alg = [] then ''AES-256-CTR'' else alg), em_IV = [], em_KeyID = [], em_Size = 0, em_Checksum = [],
      em_Metadata = [], em_BlockSize = 0, em_Padding = []\<rparr>)"

text \<open>The two pipes: what a reader gets of the encrypted and of the decrypted stream.\<close>

definition encrypt_pipe :: "'k crypter \<Rightarrow> string + bytes \<Rightarrow> string \<Rightarrow> string \<Rightarrow> reader" where
  "encrypt_pipe cr rndNonce dek plain =
     (case EncryptStream (cr_C cr) (cr_config cr) rndNonce (str_bytes plain, None) \<lparr>wr_out = [], wr_plan = []\<rparr> (str_bytes dek) of
        (Inl _, w) \<Rightarrow> (bytes_str (wr_out w), Some ''encryption failed'')
      | (Inr _, w) \<Rightarrow> (bytes_str (wr_out w), None))"

definition decrypt_pipe :: "'k crypter \<Rightarrow> smap \<Rightarrow> string \<Rightarrow> reader \<Rightarrow> reader" where
  "decrypt_pipe cr storageMetadata key src =
     (case DecryptStream (cr_C cr) (cr_config cr) (str_bytes (fst src), snd src) \<lparr>wr_out = [], wr_plan = []\<rparr> (str_bytes key)
         (Some (decryptMetaFor storageMetadata)) of
        (Some _, w) \<Rightarrow> (bytes_str (wr_out w), Some ''decryption failed'')
      | (None, w) \<Rightarrow> (bytes_str (wr_out w), None))"

section \<open>Migration\<close>

datatype migration_action = MigrationSkip | MigrationEncrypt | MigrationRewrap

definition migrationActionFor :: "'k crypter \<Rightarrow> smap \<Rightarrow> migration_action" where
  "migrationActionFor cr meta =
     (if map_get meta ''encrypted'' \<noteq> ''true'' then MigrationEncrypt
      else if map_get meta ''wrapped-dek'' = [] then MigrationEncrypt
      else (case ParseInt (map_get meta ''kek-version'') of
        None \<Rightarrow> MigrationSkip
      | Some version \<Rightarrow> if version = snd (CurrentKEK (cr_kek cr)) then MigrationSkip else MigrationRewrap))"

text \<open>The sidecar with the data key wrapped by the current key.\<close>

definition rewrapped :: "'k crypter \<Rightarrow> string + bytes \<Rightarrow> smap \<Rightarrow> string + smap" where
  "rewrapped cr rndIV meta = (case decryptionKeyFor cr meta of
     Inl e \<Rightarrow> Inl ''failed to unwrap DEK with old KEK''
   | Inr dek \<Rightarrow> (let (kekKey, kekVersion) = CurrentKEK (cr_kek cr) in
       case Encrypt (cr_C cr) (cr_config cr) rndIV (str_bytes dek) (str_bytes kekKey) of
         Inl _ \<Rightarrow> Inl ''failed to re-wrap DEK''
       | Inr wrapped \<Rightarrow> Inr (AList.update ''kek-version'' (show_int64 kekVersion)
           (AList.update ''wrapped-dek-iv'' (EncodeToString (bytes_str (ed_IV wrapped)))
             (AList.update ''wrapped-dek'' (EncodeToString (bytes_str (ed_Data wrapped))) meta)))))"

definition rewrapPathDEK :: "'k crypter \<Rightarrow> 'fs backend \<Rightarrow> string + bytes \<Rightarrow> string \<Rightarrow> smap \<Rightarrow> 'fs \<Rightarrow> (string + bool) \<times> 'fs" where
  "rewrapPathDEK cr B rndIV path meta fs = (case decryptionKeyFor cr meta of
     Inl e \<Rightarrow> (Inl ''failed to unwrap DEK with old KEK'', fs)
   | Inr dek \<Rightarrow> (case rewrapped cr rndIV meta of
       Inl e \<Rightarrow> (Inl e, fs)
     | Inr metaCopy \<Rightarrow> (case be_SetMetadata B path metaCopy fs of
         (Some _, fs) \<Rightarrow> (Inl ''failed to update sidecar with re-wrapped DEK'', fs)
       | (None, fs) \<Rightarrow> (case be_GetMetadata B path fs of
           Inl _ \<Rightarrow> (Inl ''re-wrap verification read failed'', fs)
         | Inr verifyMeta \<Rightarrow> (case decryptionKeyFor cr verifyMeta of
             Inl _ \<Rightarrow> (Inl ''re-wrap verification unwrap failed'', fs)
           | Inr verifyDEK \<Rightarrow> (if dek \<noteq> verifyDEK then Inl ''re-wrap verification failed'' else Inr True, fs))))))"

section \<open>The data key is kept\<close>

text \<open>A sidecar whose wrapped key opens to \<open>dek\<close> under the key of its version.\<close>

definition opens_to :: "ciphers \<Rightarrow> cipher_config \<Rightarrow> (int \<Rightarrow> string option) \<Rightarrow> smap \<Rightarrow> string \<Rightarrow> bool" where
  "opens_to C config keys m dek \<longleftrightarrow> (\<exists>wrapped iv v kekKey. map_get m ''wrapped-dek'' = EncodeToString (bytes_str wrapped) \<and> wrapped \<noteq> [] \<and>
     map_get m ''wrapped-dek-iv'' = EncodeToString (bytes_str iv) \<and> map_get m ''kek-version'' = show_int64 v \<and> i64 v \<and>
     keys v = Some kekKey \<and> NewCipher (effective_key C config (str_bytes kekKey)) = Inr (effective_key C config (str_bytes kekKey)) \<and>
     gcm_Open C (effective_key C config (str_bytes kekKey)) iv wrapped = Some (str_bytes dek))"

lemma decryptionKeyFor_opens:
  assumes "opens_to (cr_C cr) (cr_config cr) (map_of (ks_keys (cr_kek cr))) m dek"
  shows "decryptionKeyFor cr m = Inr dek"
proof -
  from assms obtain wrapped iv v kekKey where h: "map_get m ''wrapped-dek'' = EncodeToString (bytes_str wrapped)" "wrapped \<noteq> []"
    "map_get m ''wrapped-dek-iv'' = EncodeToString (bytes_str iv)" "map_get m ''kek-version'' = show_int64 v" "i64 v"
    "map_of (ks_keys (cr_kek cr)) v = Some kekKey"
    "NewCipher (effective_key (cr_C cr) (cr_config cr) (str_bytes kekKey)) = Inr (effective_key (cr_C cr) (cr_config cr) (str_bytes kekKey))"
    "gcm_Open (cr_C cr) (effective_key (cr_C cr) (cr_config cr) (str_bytes kekKey)) iv wrapped = Some (str_bytes dek)"
    unfolding opens_to_def by blast
  have "EncodeToString (bytes_str wrapped) \<noteq> []" using h(2) by (cases wrapped) (simp_all add: bytes_str_def)
  with h show ?thesis by (simp add: decryptionKeyFor_def Let_def ParseInt_show KEKByVersion_def Decrypt_def)
qed

lemma opens_to_mono:
  assumes "opens_to C config keys m dek" "keys \<subseteq>\<^sub>m keys'"
  shows "opens_to C config keys' m dek"
proof -
  have "keys v = Some k \<Longrightarrow> keys' v = Some k" for v k using assms(2) by (metis domI map_le_def)
  with assms(1) show ?thesis unfolding opens_to_def by blast
qed

text \<open>What wrapping writes: the entries of \<open>newEnvelope\<close> and of a re-wrap.\<close>

definition wrap_entries :: "encrypted_data \<Rightarrow> int \<Rightarrow> smap \<Rightarrow> bool" where
  "wrap_entries w v m \<longleftrightarrow> map_get m ''wrapped-dek'' = EncodeToString (bytes_str (ed_Data w)) \<and>
     map_get m ''wrapped-dek-iv'' = EncodeToString (bytes_str (ed_IV w)) \<and> map_get m ''kek-version'' = show_int64 v"

lemma wrap_opens:
  assumes "aead_ok C" "kdf_ok C" "i64 v" "keys v = Some kekKey"
    and "Encrypt C config rnd (str_bytes dek) (str_bytes kekKey) = Inr w" "wrap_entries w v m"
  shows "opens_to C config keys m dek"
proof -
  let ?k = "effective_key C config (str_bytes kekKey)"
  have n: "NewCipher ?k = Inr ?k" by (rule effective_key_ok [OF assms(2)])
  then obtain iv where w: "ed_Data w = gcm_Seal C ?k iv (str_bytes dek)" "ed_IV w = iv"
    using assms(5) by (auto simp: Encrypt_def split: sum.splits)
  have "length (gcm_Seal C ?k iv (str_bytes dek)) = length (str_bytes dek) + 16" "gcm_Open C ?k iv (gcm_Seal C ?k iv (str_bytes dek)) = Some (str_bytes dek)"
    using assms(1) by (simp_all add: aead_ok_def)
  moreover from this have "gcm_Seal C ?k iv (str_bytes dek) \<noteq> []" by (metis add_is_0 list.size(3) zero_neq_numeral)
  ultimately show ?thesis
    using assms(3,4,6) n w unfolding opens_to_def wrap_entries_def
    by (intro exI [of _ "ed_Data w"] exI [of _ iv] exI [of _ v] exI [of _ kekKey]) simp
qed

lemma newEnvelope_opens:
  assumes "aead_ok (cr_C cr)" "kdf_ok (cr_C cr)" "i64 (ks_current (cr_kek cr))" "newEnvelope cr r1 r2 = Inr (dek, em)"
    and m: "\<And>k. k \<in> fst ` set em \<Longrightarrow> map_get m k = map_get em k"
  shows "opens_to (cr_C cr) (cr_config cr) (map_of (ks_keys (cr_kek cr))) m dek"
proof -
  obtain kekKey key w where h: "map_of (ks_keys (cr_kek cr)) (ks_current (cr_kek cr)) = Some kekKey"
    "Encrypt (cr_C cr) (cr_config cr) r2 key (str_bytes kekKey) = Inr w" "dek = bytes_str key"
    "em = [(''wrapped-dek'', EncodeToString (bytes_str (ed_Data w))), (''wrapped-dek-iv'', EncodeToString (bytes_str (ed_IV w))),
       (''kek-version'', show_int64 (ks_current (cr_kek cr)))]"
    using assms(4) by (auto simp: newEnvelope_def CurrentKEK_def Let_def split: if_splits sum.splits option.splits)
  have "wrap_entries w (ks_current (cr_kek cr)) m" using m by (simp add: wrap_entries_def h(4) map_get_def)
  then show ?thesis using wrap_opens [OF assms(1-3), where keys = "map_of (ks_keys (cr_kek cr))", OF h(1), of "cr_config cr" r2 dek w m] h(2,3) by simp
qed

lemma rewrapped_opens:
  assumes "aead_ok (cr_C cr)" "kdf_ok (cr_C cr)" "i64 (ks_current (cr_kek cr))" "map_of (ks_keys (cr_kek cr)) (ks_current (cr_kek cr)) = Some kekKey"
    and "decryptionKeyFor cr m = Inr dek" "rewrapped cr rnd m = Inr m'"
  shows "opens_to (cr_C cr) (cr_config cr) (map_of (ks_keys (cr_kek cr))) m' dek"
proof -
  obtain w where w: "Encrypt (cr_C cr) (cr_config cr) rnd (str_bytes dek) (str_bytes kekKey) = Inr w"
    "m' = AList.update ''kek-version'' (show_int64 (ks_current (cr_kek cr)))
       (AList.update ''wrapped-dek-iv'' (EncodeToString (bytes_str (ed_IV w)))
         (AList.update ''wrapped-dek'' (EncodeToString (bytes_str (ed_Data w))) m))"
    using assms(4-6) by (auto simp: rewrapped_def CurrentKEK_def Let_def split: sum.splits)
  have "wrap_entries w (ks_current (cr_kek cr)) m'" by (simp add: wrap_entries_def w(2) map_get_def)
  then show ?thesis by (rule wrap_opens [OF assms(1-3), where keys = "map_of (ks_keys (cr_kek cr))", OF assms(4) w(1)])
qed

text \<open>The data key of an envelope unwraps after any run of the key store, and so does that of a re-wrapped one.\<close>

lemma envelope_survives:
  assumes "key_table_laws T tab" "mirrors tab (cr_kek cr)" "aead_ok (cr_C cr)" "kdf_ok (cr_C cr)" "i64 (ks_current (cr_kek cr))"
    and "newEnvelope cr r1 r2 = Inr (dek, em)" "\<And>k. k \<in> fst ` set em \<Longrightarrow> map_get m k = map_get em k"
    and "list_all kek_op_ok ops" "fold (kek_exec T) ops (Up (cr_kek cr)) = Up kek'"
  shows "decryptionKeyFor (cr\<lparr>cr_kek := kek'\<rparr>) m = Inr dek"
proof -
  have "map_of (ks_keys (cr_kek cr)) \<subseteq>\<^sub>m map_of (ks_keys kek')"
    by (rule key_table_laws.kek_run_up(2) [OF assms(1,2,8,9)])
  then have "opens_to (cr_C cr) (cr_config cr) (map_of (ks_keys kek')) m dek"
    using opens_to_mono newEnvelope_opens [OF assms(3-7)] by blast
  then show ?thesis by (intro decryptionKeyFor_opens) simp
qed

lemma rewrap_survives:
  assumes "aead_ok (cr_C cr)" "kdf_ok (cr_C cr)" "i64 (ks_current (cr_kek cr))" "map_of (ks_keys (cr_kek cr)) (ks_current (cr_kek cr)) = Some kekKey"
    and "decryptionKeyFor cr m = Inr dek" "rewrapped cr rnd m = Inr m'"
  shows "decryptionKeyFor cr m' = Inr dek"
  by (rule decryptionKeyFor_opens [OF rewrapped_opens [OF assms]])

text \<open>The two pipes are inverse to each other on a marked stream.\<close>

lemma pipes_inverse:
  assumes "aead_ok (cr_C cr)" "kdf_ok (cr_C cr)" "length nonce = NonceSize"
    and "map_get m ''x-amz-server-side-encryption-algorithm'' = ''AES-256-GCM-STREAM''" "cr_C cr' = cr_C cr" "cr_config cr' = cr_config cr"
  shows "snd (encrypt_pipe cr (Inr nonce) dek plain) = None"
    "decrypt_pipe cr' m dek (encrypt_pipe cr (Inr nonce) dek plain) = (plain, None)"
proof -
  obtain sm out where e: "EncryptStream (cr_C cr) (cr_config cr) (Inr nonce) (str_bytes plain, None) \<lparr>wr_out = [], wr_plan = []\<rparr> (str_bytes dek) = (Inr sm, out)"
    "em_Algorithm sm = ''AES-256-GCM-STREAM''"
    "DecryptStream (cr_C cr) (cr_config cr) (wr_out out, None) \<lparr>wr_out = [], wr_plan = []\<rparr> (str_bytes dek) (Some sm) =
      (None, \<lparr>wr_out = str_bytes plain, wr_plan = []\<rparr>)"
    using stream_inverse [OF assms(1-3)] by blast
  have "DecryptStream (cr_C cr) (cr_config cr) src dst key (Some (decryptMetaFor m)) = DecryptStream (cr_C cr) (cr_config cr) src dst key (Some sm)" for src dst key
    using assms(4) e(2) by (simp add: DecryptStream_def decryptMetaFor_def Let_def)
  then show "snd (encrypt_pipe cr (Inr nonce) dek plain) = None"
    "decrypt_pipe cr' m dek (encrypt_pipe cr (Inr nonce) dek plain) = (plain, None)"
    using e assms(5,6) by (simp_all add: encrypt_pipe_def decrypt_pipe_def)
qed

end
