(* ===== verification/Object_Catalog.thy ===== *)
theory Object_Catalog
  imports Object_Manager Meta_Listing Envelope
begin

text \<open>
  Listings, versions, access control lists and metadata updates of the object manager,
  \<^verbatim>\<open>internal/object/manager.go\<close>.

  The listings filter what the metadata store returns: the store's own files, implicit folders and delete markers are hidden.
\<close>

section \<open>Listings\<close>

record list_objects_result =
  lr_Objects :: "object list"
  lr_CommonPrefixes :: "string list"
  lr_IsTruncated :: bool
  lr_NextMarker :: string
  lr_MaxKeys :: int
  lr_Prefix :: string
  lr_Delimiter :: string
  lr_Marker :: string

definition internal_key :: "string \<Rightarrow> bool" where
  "internal_key key \<longleftrightarrow> HasPrefix key ''.maxiofs-'' \<or> str_contains key ''/.maxiofs-''"

definition implicit_folder :: "object_metadata \<Rightarrow> bool" where
  "implicit_folder ob \<longleftrightarrow> map_of (om_Metadata ob) ''x-maxiofs-implicit-folder'' = Some ''true''"

definition listed :: "bool \<Rightarrow> object_metadata \<Rightarrow> bool" where
  "listed hideFolder ob \<longleftrightarrow> \<not> internal_key (om_Key ob) \<and> \<not> (implicit_folder ob \<and> hideFolder) \<and> \<not> (om_Size ob = 0 \<and> om_ETag ob = [])"

definition check_bucket :: "'db engine \<Rightarrow> string \<Rightarrow> 'db pstore \<Rightarrow> object_error option" where
  "check_bucket E bucket s = (let (tenantID, bucketName) = parseBucketPath bucket in
     case BucketExists E tenantID bucketName s of
       Inl e \<Rightarrow> Some (OMeta e) | Inr False \<Rightarrow> Some ObjectBucketNotFound | Inr True \<Rightarrow> None)"

definition OM_listObjectsDelimited :: "'db engine \<Rightarrow> string \<Rightarrow> string \<Rightarrow> string \<Rightarrow> string \<Rightarrow> int \<Rightarrow> 'db pstore \<Rightarrow> object_error + list_objects_result" where
  "OM_listObjectsDelimited E bucket prfx delimiter marker maxKeys s =
     (case ListObjectsDelimited E bucket prfx delimiter marker maxKeys s of
        Inl e \<Rightarrow> Inl (OMeta e)
      | Inr dlResult \<Rightarrow> Inr
          \<lparr>lr_Objects = map fromMetadataObject (filter (\<lambda>ob. listed (om_Key ob = prfx) ob) (dl_Objects dlResult)),
           lr_CommonPrefixes = dl_CommonPrefixes dlResult, lr_IsTruncated = dl_IsTruncated dlResult, lr_NextMarker = dl_NextMarker dlResult,
           lr_MaxKeys = maxKeys, lr_Prefix = prfx, lr_Delimiter = delimiter, lr_Marker = marker\<rparr>)"

definition OM_ListObjects :: "'db engine \<Rightarrow> string \<Rightarrow> string \<Rightarrow> string \<Rightarrow> string \<Rightarrow> int \<Rightarrow> 'db pstore \<Rightarrow> object_error + list_objects_result" where
  "OM_ListObjects E bucket prfx delimiter marker maxKeys s = (let maxKeys = defaultMaxKeys maxKeys in
     case check_bucket E bucket s of
       Some e \<Rightarrow> Inl e
     | None \<Rightarrow> if delimiter \<noteq> [] then OM_listObjectsDelimited E bucket prfx delimiter marker maxKeys s
         else (case ListObjects E bucket prfx marker maxKeys s of
           Inl e \<Rightarrow> Inl (OMeta e)
         | Inr (metadataObjects, nextMarker) \<Rightarrow> Inr
             \<lparr>lr_Objects = map fromMetadataObject (filter (listed True) metadataObjects), lr_CommonPrefixes = [],
              lr_IsTruncated = (nextMarker \<noteq> []), lr_NextMarker = nextMarker, lr_MaxKeys = maxKeys, lr_Prefix = prfx, lr_Delimiter = [],
              lr_Marker = marker\<rparr>))"

text \<open>\<^verbatim>\<open>b[len(b)-1]++\<close> on the bytes of the base.\<close>

definition advancePastPrefix :: "string \<Rightarrow> string \<Rightarrow> string" where
  "advancePastPrefix prfx delimiter =
     (if prfx = [] \<or> delimiter = [] then prfx
      else (let base = take (length prfx - length delimiter) prfx in
        if base = [] then prfx
        else if last base = CHR 0xFF then prfx
        else butlast base @ [char_of (of_char (last base) + 1 :: nat)]))"

text \<open>The objects and the set of common prefixes of a search; the prefixes are sorted afterwards.\<close>

fun search_items :: "string \<Rightarrow> string \<Rightarrow> object_metadata list \<Rightarrow> object list \<times> string list" where
  "search_items prfx delimiter [] = ([], [])"
| "search_items prfx delimiter (ob # obs) = (let (objects, prefixes) = search_items prfx delimiter obs; key = om_Key ob in
     if \<not> listed (delimiter = [] \<or> key = prfx) ob then (objects, prefixes)
     else (let remainingKey = drop (length prfx) key in
       case (if delimiter \<noteq> [] then str_index remainingKey delimiter else None) of
         Some i \<Rightarrow> (objects, (prfx @ take (i + length delimiter) remainingKey) # prefixes)
       | None \<Rightarrow> (fromMetadataObject ob # objects, prefixes)))"

definition OM_SearchObjects :: "'db engine \<Rightarrow> string \<Rightarrow> string \<Rightarrow> string \<Rightarrow> string \<Rightarrow> int \<Rightarrow> object_filter option \<Rightarrow> 'db pstore
    \<Rightarrow> object_error + list_objects_result" where
  "OM_SearchObjects E bucket prfx delimiter marker maxKeys flt s = (let maxKeys = defaultMaxKeys maxKeys in
     case check_bucket E bucket s of
       Some e \<Rightarrow> Inl e
     | None \<Rightarrow> (let scanLimit = (if delimiter \<noteq> [] then max (maxKeys * 10) 10000 else maxKeys) in
         case SearchObjects E bucket prfx marker scanLimit flt s of
           Inl e \<Rightarrow> Inl (OMeta e)
         | Inr (metadataObjects, nextMarker) \<Rightarrow> (let
             (objects, prefixes) = search_items prfx delimiter metadataObjects;
             commonPrefixes = sorted_list_of_set (set prefixes);
             marker1 = (if nextMarker \<noteq> [] \<and> delimiter \<noteq> [] then (case find (\<lambda>cp. HasPrefix nextMarker cp) commonPrefixes of
                 Some cp \<Rightarrow> advancePastPrefix cp delimiter | None \<Rightarrow> nextMarker) else nextMarker);
             over = (int (length objects + length commonPrefixes) > maxKeys);
             cut = over \<and> int (length commonPrefixes) > maxKeys;
             objects' = (if cut then [] else if over then take (nat maxKeys - length commonPrefixes) objects else objects);
             commonPrefixes' = (if cut then take (nat maxKeys) commonPrefixes else commonPrefixes);
             marker2 = (if cut then advancePastPrefix (last commonPrefixes') delimiter
               else if over \<and> objects' \<noteq> [] then ob_Key (last objects') else marker1)
           in Inr \<lparr>lr_Objects = objects', lr_CommonPrefixes = commonPrefixes', lr_IsTruncated = (nextMarker \<noteq> [] \<or> over), lr_NextMarker = marker2,
                lr_MaxKeys = maxKeys, lr_Prefix = prfx, lr_Delimiter = delimiter, lr_Marker = marker\<rparr>)))"

section \<open>Versions\<close>

record listed_version =
  lv_Object :: object
  lv_IsLatest :: bool
  lv_IsDeleteMarker :: bool

definition OM_GetObjectVersions :: "'db engine \<Rightarrow> string \<Rightarrow> string \<Rightarrow> 'db pstore \<Rightarrow> object_error + listed_version list" where
  "OM_GetObjectVersions E bucket key s = (case GetObjectVersions E bucket key s of
     Inl e \<Rightarrow> Inl (OMeta e)
   | Inr metaVersions \<Rightarrow> Inr (List.map_filter (\<lambda>metaVer. case GetObject E bucket key (ov_VersionID metaVer) s of
       Inl _ \<Rightarrow> None
     | Inr objMeta \<Rightarrow> Some \<lparr>lv_Object = fromMetadataObject objMeta, lv_IsLatest = ov_IsLatest metaVer,
         lv_IsDeleteMarker = (om_Size objMeta = 0 \<and> om_ETag objMeta = [])\<rparr>) metaVersions))"

section \<open>Access control lists\<close>

definition convertFromACLManagerType :: "acl \<Rightarrow> object_acl" where
  "convertFromACLManagerType a =
     \<lparr>oac_Owner = \<lparr>oo_ID = ow_ID (acl_Owner a), oo_DisplayName = ow_DisplayName (acl_Owner a)\<rparr>,
      oac_Grants = map (\<lambda>g. let ge = gr_Grantee g in
        \<lparr>ogr_Grantee = \<lparr>oge_Type = ge_Type ge, oge_ID = ge_ID ge, oge_DisplayName = ge_DisplayName ge, oge_EmailAddress = ge_EmailAddress ge,
           oge_URI = ge_URI ge\<rparr>, ogr_Permission = gr_Permission g\<rparr>) (acl_Grants a)\<rparr>"

definition convertToACLManagerType :: "object_acl \<Rightarrow> acl" where
  "convertToACLManagerType a =
     \<lparr>acl_Owner = \<lparr>ow_ID = oo_ID (oac_Owner a), ow_DisplayName = oo_DisplayName (oac_Owner a)\<rparr>,
      acl_Grants = map (\<lambda>g. let ge = ogr_Grantee g in
        \<lparr>gr_Grantee = \<lparr>ge_Type = oge_Type ge, ge_ID = oge_ID ge, ge_DisplayName = oge_DisplayName ge, ge_EmailAddress = oge_EmailAddress ge,
           ge_URI = oge_URI ge\<rparr>, gr_Permission = ogr_Permission g\<rparr>) (oac_Grants a), acl_CannedACL = []\<rparr>"

definition OM_GetObjectACL :: "('db, 'fs, 'au) om_env \<Rightarrow> string \<Rightarrow> string \<Rightarrow> string \<Rightarrow> ('db, 'fs, 'au) om_state \<Rightarrow> object_error + object_acl" where
  "OM_GetObjectACL env bucket key versionID sys = (case getObjectMetadataForVersion env bucket key versionID sys of
     Inl e \<Rightarrow> Inl e
   | Inr obj \<Rightarrow> (case ob_ACL obj of
       Some a \<Rightarrow> Inr a
     | None \<Rightarrow> if versionID \<noteq> [] then Inr (convertFromACLManagerType (CreateDefaultACL ''maxiofs'' ''MaxIOFS''))
         else (let (tenantID, bucketName) = parseBucketPath bucket in
           case GetObjectACL (pebble_kv (env_E env)) tenantID bucketName key (os_store sys) of
             Inl e \<Rightarrow> Inl (OAcl e) | Inr a \<Rightarrow> Inr (convertFromACLManagerType a))))"

definition OM_SetObjectACL :: "('db, 'fs, 'au) om_env \<Rightarrow> gotime \<Rightarrow> string \<Rightarrow> string \<Rightarrow> object_acl option \<Rightarrow> string
    \<Rightarrow> ('db, 'fs, 'au) om_state \<Rightarrow> object_error option \<times> ('db, 'fs, 'au) om_state" where
  "OM_SetObjectACL env now bucket key objectACL versionID sys = (case getObjectMetadataForVersion env bucket key versionID sys of
     Inl e \<Rightarrow> (Some e, sys)
   | Inr obj \<Rightarrow> (case saveObject env now (toMetadataObject (obj\<lparr>ob_ACL := objectACL\<rparr>)) sys of
       Inl e \<Rightarrow> (Some e, sys)
     | Inr sys \<Rightarrow> if versionID \<noteq> [] then (None, sys)
         else (let (tenantID, bucketName) = parseBucketPath bucket in
           case SetObjectACL (pebble_kv (env_E env)) tenantID bucketName key (map_option convertToACLManagerType objectACL) (os_store sys) of
             Inl e \<Rightarrow> (Some (OAcl e), sys) | Inr s \<Rightarrow> (None, sys\<lparr>os_store := s\<rparr>))))"

section \<open>Metadata updates\<close>

definition merged_sidecar :: "smap \<Rightarrow> smap \<Rightarrow> smap" where
  "merged_sidecar changes m = fold (\<lambda>(k, v) m. if isProtectedStorageMetadataKey k then m else AList.update k v m) changes m"

definition UpdateObjectMetadata :: "('db, 'fs, 'au) om_env \<Rightarrow> gotime \<Rightarrow> string \<Rightarrow> string \<Rightarrow> smap \<Rightarrow> ('db, 'fs, 'au) om_state
    \<Rightarrow> object_error option \<times> ('db, 'fs, 'au) om_state" where
  "UpdateObjectMetadata env now bucket key changes sys =
     (if \<not> validateObjectName key then (Some InvalidObjectName, sys)
      else (let
        objectPath = (case GetObject (env_E env) bucket key [] (os_store sys) of
            Inl _ \<Rightarrow> getObjectPath bucket key
          | Inr metaObj \<Rightarrow> if om_VersionID metaObj \<noteq> [] then getVersionedObjectPath bucket key (om_VersionID metaObj) else getObjectPath bucket key)
      in case be_Exists (env_B env) objectPath (os_fs sys) of
           Inl e \<Rightarrow> (Some (OStorage e), sys)
         | Inr False \<Rightarrow> (Some ObjectNotFound, sys)
         | Inr True \<Rightarrow> (case be_GetMetadata (env_B env) objectPath (os_fs sys) of
             Inl e \<Rightarrow> (Some (OStorage e), sys)
           | Inr existingMeta \<Rightarrow> (case be_SetMetadata (env_B env) objectPath (merged_sidecar changes existingMeta) (os_fs sys) of
               (Some e, fs) \<Rightarrow> (Some (OStorage e), sys\<lparr>os_fs := fs\<rparr>)
             | (None, fs) \<Rightarrow> (let sys = sys\<lparr>os_fs := fs\<rparr> in case GetObjectMetadata env bucket key sys of
                 Inl e \<Rightarrow> (Some e, sys)
               | Inr obj \<Rightarrow> (let
                   obj = obj\<lparr>ob_Metadata := fold (\<lambda>(k, v). AList.update k v) changes (ob_Metadata obj)\<rparr>;
                   obj = (case map_of changes ''content-type'' of None \<Rightarrow> obj | Some c \<Rightarrow> obj\<lparr>ob_ContentType := c\<rparr>)
                 in case saveObject env now (toMetadataObject obj) sys of
                      Inl e \<Rightarrow> (Some e, sys) | Inr sys \<Rightarrow> (None, sys)))))))"

end
