(* ===== verification/Object_Lock.thy ===== *)
theory Object_Lock
  imports Object_Multipart Object_Catalog Meta_Invariant
begin

text \<open>
  Object lock over whole runs. A version under retention until a date stays in the metadata store,
  with at least that retention, through every sequence of requests of the object manager before the date, deletions
  with the governance bypass excepted, whatever calls of the engine or of the data store fail on the way. What the
  lock does not cover, the bytes of the version, is at the end.
\<close>

section \<open>Requests\<close>

datatype om_op =
    ReqPut string string reader header
  | ReqDelete string string string
  | ReqRetention string string "retention_config option" string
  | ReqLegalHold string string "legal_hold_config option" string
  | ReqTagging string string "tag_set option" string
  | ReqUntag string string string
  | ReqRestore string string string "gotime option" string
  | ReqACL string string "object_acl option" string
  | ReqUpdate string string smap
  | ReqCreateUpload string string "string + string" header
  | ReqPart string int reader
  | ReqComplete string "multipart_part list"
  | ReqAbort string

definition kept :: "(object_error + ('db, 'fs, 'au) om_state) \<Rightarrow> ('db, 'fs, 'au) om_state \<Rightarrow> ('db, 'fs, 'au) om_state" where
  "kept r sys = (case r of Inl _ \<Rightarrow> sys | Inr sys' \<Rightarrow> sys')"

fun om_exec :: "('db, 'fs, 'au) om_env \<Rightarrow> request_context \<Rightarrow> om_op \<Rightarrow> ('db, 'fs, 'au) om_state \<Rightarrow> ('db, 'fs, 'au) om_state" where
  "om_exec env cx (ReqPut b k data h) sys = snd (OM_PutObject env cx b k data h sys)"
| "om_exec env cx (ReqDelete b k v) sys = snd (OM_DeleteObject env cx b k False v sys)"
| "om_exec env cx (ReqRetention b k c v) sys = kept (SetObjectRetention env (rx_now cx) b k c v sys) sys"
| "om_exec env cx (ReqLegalHold b k c v) sys = kept (SetObjectLegalHold env (rx_now cx) b k c v sys) sys"
| "om_exec env cx (ReqTagging b k t v) sys = kept (SetObjectTagging env (rx_now cx) b k t v sys) sys"
| "om_exec env cx (ReqUntag b k v) sys = kept (DeleteObjectTagging env (rx_now cx) b k v sys) sys"
| "om_exec env cx (ReqRestore b k st x v) sys = kept (SetRestoreStatus env (rx_now cx) b k st x v sys) sys"
| "om_exec env cx (ReqACL b k a v) sys = snd (OM_SetObjectACL env (rx_now cx) b k a v sys)"
| "om_exec env cx (ReqUpdate b k m) sys = snd (UpdateObjectMetadata env (rx_now cx) b k m sys)"
| "om_exec env cx (ReqCreateUpload b k rnd h) sys = snd (OM_CreateMultipartUpload env (rx_now cx) rnd b k h sys)"
| "om_exec env cx (ReqPart u n data) sys = snd (UploadPart env (rx_now cx) u n data sys)"
| "om_exec env cx (ReqComplete u parts) sys = snd (doCompleteMultipartUpload env cx u parts sys)"
| "om_exec env cx (ReqAbort u) sys = snd (OM_AbortMultipartUpload env u sys)"

fun om_run :: "('db, 'fs, 'au) om_env \<Rightarrow> (request_context \<times> om_op) list \<Rightarrow> ('db, 'fs, 'au) om_state \<Rightarrow> ('db, 'fs, 'au) om_state" where
  "om_run env [] sys = sys"
| "om_run env ((cx, op) # ops) sys = om_run env ops (om_exec env cx op sys)"

text \<open>The bucket a request names; those on an upload have the bucket of the upload.\<close>

fun op_bucket :: "om_op \<Rightarrow> string option" where
  "op_bucket (ReqPut b k data h) = Some b"
| "op_bucket (ReqDelete b k v) = Some b"
| "op_bucket (ReqRetention b k c v) = Some b"
| "op_bucket (ReqLegalHold b k c v) = Some b"
| "op_bucket (ReqTagging b k t v) = Some b"
| "op_bucket (ReqUntag b k v) = Some b"
| "op_bucket (ReqRestore b k st x v) = Some b"
| "op_bucket (ReqACL b k a v) = Some b"
| "op_bucket (ReqUpdate b k m) = Some b"
| "op_bucket (ReqCreateUpload b k rnd h) = Some b"
| "op_bucket _ = None"

definition lock_modes :: "string set" where
  "lock_modes = {''COMPLIANCE'', ''GOVERNANCE''}"

text \<open>
  The requests considered: before the date, on a bucket path without a colon, with a new version
  identifier that has no colon and is not the retained version's, so no replication request that pins it to that version, and with one
  of the two retention modes, which the handler of the request checks (\<^verbatim>\<open>pkg/s3compat/object_ops.go\<close>) and the manager does not.
\<close>

definition req_ok :: "string \<Rightarrow> gotime \<Rightarrow> request_context \<Rightarrow> om_op \<Rightarrow> bool" where
  "req_ok V D cx op \<longleftrightarrow> rx_now cx < D \<and> (case op_bucket op of None \<Rightarrow> True | Some b \<Rightarrow> b \<noteq> [] \<and> no_colon b) \<and>
     (case newVersionID cx of Inl _ \<Rightarrow> True | Inr w \<Rightarrow> w \<noteq> V \<and> no_colon w) \<and> generateVersionID cx \<noteq> V \<and>
     (case op of ReqRetention b k (Some c) v \<Rightarrow> rc_Mode c \<in> lock_modes | _ \<Rightarrow> True)"

section \<open>The invariant\<close>

definition protected_until :: "gotime \<Rightarrow> object_metadata \<Rightarrow> bool" where
  "protected_until D ob \<longleftrightarrow> (case om_Retention ob of None \<Rightarrow> False
     | Some r \<Rightarrow> rt_Mode r \<in> lock_modes \<and> D \<le> rt_RetainUntilDate r)"

definition is_target :: "string \<Rightarrow> string \<Rightarrow> string \<Rightarrow> object_metadata \<Rightarrow> bool" where
  "is_target B K V ob \<longleftrightarrow> om_Bucket ob = B \<and> om_Key ob = K \<and> om_VersionID ob = V"

definition good_object :: "string \<Rightarrow> string \<Rightarrow> string \<Rightarrow> gotime \<Rightarrow> object_metadata \<Rightarrow> bool" where
  "good_object B K V D ob \<longleftrightarrow> om_Bucket ob \<noteq> [] \<and> om_Key ob \<noteq> [] \<and> no_colon (om_Bucket ob) \<and> no_colon (om_VersionID ob) \<and>
     (is_target B K V ob \<longrightarrow> protected_until D ob)"

definition good_entry :: "string \<Rightarrow> string \<Rightarrow> string \<Rightarrow> gotime \<Rightarrow> string \<Rightarrow> kv_value \<Rightarrow> bool" where
  "good_entry B K V D x v \<longleftrightarrow> kv_typed x v \<and> (case decode_object v of None \<Rightarrow> True | Some ob \<Rightarrow> good_object B K V D ob) \<and>
     (case decode_upload v of None \<Rightarrow> True | Some u \<Rightarrow> um_Bucket u \<noteq> [] \<and> um_Key u \<noteq> [] \<and> no_colon (um_Bucket u))"

definition worm :: "string \<Rightarrow> string \<Rightarrow> string \<Rightarrow> gotime \<Rightarrow> contents \<Rightarrow> bool" where
  "worm B K V D m \<longleftrightarrow> (\<forall>x v. m x = Some v \<longrightarrow> good_entry B K V D x v) \<and> m (objectVersionKey B K V) \<noteq> None"

lemma wormI: "(\<And>x v. m x = Some v \<Longrightarrow> good_entry B K V D x v) \<Longrightarrow> m (objectVersionKey B K V) \<noteq> None \<Longrightarrow> worm B K V D m"
  by (simp add: worm_def)

lemma wormD: "worm B K V D m \<Longrightarrow> m x = Some v \<Longrightarrow> good_entry B K V D x v"
  by (simp add: worm_def)

lemma worm_object: "worm B K V D m \<Longrightarrow> m x = Some (JObject ob) \<Longrightarrow> good_object B K V D ob \<and> kv_typed x (JObject ob)"
  using wormD [of B K V D m x "JObject ob"] by (simp add: good_entry_def)

lemma worm_typed: "worm B K V D m \<Longrightarrow> typed m"
  by (simp add: worm_def typed_def good_entry_def)

lemma worm_set:
  assumes "worm B K V D m" "good_entry B K V D x v"
  shows "worm B K V D (m(x \<mapsto> v))"
  using assms by (auto simp: worm_def)

lemma worm_del:
  assumes "worm B K V D m" "x \<noteq> objectVersionKey B K V"
  shows "worm B K V D (m(x := None))"
  using assms by (auto simp: worm_def)

lemma worm_tags:
  assumes "worm B K V D m"
  shows "worm B K V D (apply_batch (tag_dels b k t) m)" "worm B K V D (apply_batch (tag_sets b k t) m)"
proof -
  have bytes: "good_entry B K V D x (Bytes [])" if "x \<in> tag_keys b k t" for x
    using that by (auto simp: good_entry_def tag_keys_def)
  show "worm B K V D (apply_batch (tag_dels b k t) m)"
    using assms by (auto simp: worm_def apply_tag_dels split: if_splits)
  show "worm B K V D (apply_batch (tag_sets b k t) m)"
    using assms bytes by (auto simp: worm_def apply_tag_sets split: if_splits)
qed

lemma worm_put_map:
  assumes "worm B K V D m" "good_object B K V D ob"
  shows "worm B K V D (put_object_map ob m)"
proof -
  have "good_entry B K V D (objectVersionKey (om_Bucket ob) (om_Key ob) (om_VersionID ob)) (JObject ob)"
    "good_entry B K V D (objectKey (om_Bucket ob) (om_Key ob)) (JObject ob)"
    using assms(2) by (simp_all add: good_entry_def good_object_def)
  then show ?thesis
    using assms(1) unfolding put_object_map_def Let_def by (auto intro!: worm_tags worm_set)
qed

lemma good_stamp [simp]: "good_object B K V D (stamp_object now ob) \<longleftrightarrow> good_object B K V D ob"
  by (simp add: good_object_def is_target_def protected_until_def)

lemma good_demote: "good_entry B K V D x v \<Longrightarrow> good_entry B K V D x (demote k v)"
  by (cases v) (auto simp: good_entry_def good_object_def is_target_def protected_until_def)

section \<open>The store's operations\<close>

context pebble_engine
begin

lemma worm_PutObject:
  assumes "worm B K V D (sto cont s)" "PutObject E now (Some ob) s = Inr s'" "good_object B K V D ob"
  shows "worm B K V D (sto cont s')"
  using PutObject_sound(4) [OF assms(2)] worm_put_map [OF assms(1), of "stamp_object now ob"] assms(3) by simp

lemma worm_PutObjectVersion:
  assumes "worm B K V D (sto cont s)" "PutObjectVersion E (Some ob) (Some ver) s = Inr s'"
    and "ov_IsLatest ver" "good_object B K V D (ob\<lparr>om_VersionID := ov_VersionID ver, om_IsLatest := True\<rparr>)"
  shows "worm B K V D (sto cont s')"
proof -
  note m' = PutObjectVersion_latest(1) [OF assms(2,3)]
  let ?new = "JObject (ob\<lparr>om_VersionID := ov_VersionID ver, om_IsLatest := True\<rparr>)"
  have new: "good_entry B K V D x ?new" if "x = objectKey (om_Bucket ob) (om_Key ob) \<or>
      x = objectVersionKey (om_Bucket ob) (om_Key ob) (ov_VersionID ver)" for x
    using that assms(4) by (auto simp: good_entry_def good_object_def)
  show ?thesis
  proof (rule wormI)
    fix x v assume "sto cont s' x = Some v"
    then show "good_entry B K V D x v"
      using m' [of x] new [of x] wormD [OF assms(1), of x] good_demote [of B K V D x]
      by (auto split: if_splits)
  next
    show "sto cont s' (objectVersionKey B K V) \<noteq> None"
      using m' [of "objectVersionKey B K V"] assms(1) by (auto simp: worm_def)
  qed
qed

lemma worm_UpdateBucketMetrics:
  assumes "worm B K V D (sto cont s)" "UpdateBucketMetrics E now t n dc ds s = Inr s'"
  shows "worm B K V D (sto cont s')"
proof -
  from UpdateBucketMetrics_sound [OF assms(2)] obtain b where b: "sto cont s (bucketKey t n) = Some (JBucket b)"
    "sto cont s' = (sto cont s)(bucketKey t n \<mapsto> JBucket (b\<lparr>
      bm_ObjectCount := clamp0 (add64 (bm_ObjectCount b) dc),
      bm_TotalSize := clamp0 (add64 (bm_TotalSize b) ds), bm_UpdatedAt := now\<rparr>))" by blast
  show ?thesis
    unfolding b(2) using wormD [OF assms(1) b(1)] by (intro worm_set [OF assms(1)]) (simp add: good_entry_def)
qed

lemma worm_try:
  assumes "worm B K V D (sto cont s)" "\<And>s'. r = Inr s' \<Longrightarrow> worm B K V D (sto cont s')"
  shows "worm B K V D (sto cont (try_store r s))"
  using assms by (cases r) (simp_all add: try_store_def)

lemma worm_counts:
  assumes "worm B K V D (sto cont s)"
  shows "worm B K V D (sto cont (try_store (IncrementObjectCount E now t n z s) s))"
    "worm B K V D (sto cont (try_store (DecrementObjectCount E now t n z s) s))"
    "worm B K V D (sto cont (try_store (AdjustBucketSize E now t n z s) s))"
  unfolding IncrementObjectCount_def DecrementObjectCount_def AdjustBucketSize_def
  by (rule worm_try [OF assms], rule worm_UpdateBucketMetrics [OF assms], assumption)+

lemma worm_DeleteObject:
  assumes "worm B K V D (sto cont s)" "DeleteObject E b k [] s = Inr s'"
  shows "worm B K V D (sto cont s')"
proof -
  from DeleteObject_sound [OF assms(2)] obtain ob :: object_metadata where
    "sto cont s' = (apply_batch (tag_dels b k (om_Tags ob)) (sto cont s))(objectKey b k := None)"
    by (auto simp: objKeyFor_def)
  then show ?thesis using worm_tags(1) [OF assms(1)] worm_del by simp
qed

lemma worm_DeleteObjectVersion:
  assumes "worm B K V D (sto cont s)" "DeleteObjectVersion E b k v s = Inr s'"
    "objectVersionKey b k v \<noteq> objectVersionKey B K V"
  shows "worm B K V D (sto cont s')"
  using DeleteObjectVersion_sound [OF assms(2)] worm_del [OF assms(1,3)] by simp

text \<open>Every document read is a good one; under a plain version identifier it is the version asked for.\<close>

lemma worm_GetObject:
  assumes "worm B K V D (sto cont s)" "GetObject E b k v s = Inr ob"
  shows "good_object B K V D ob"
    "no_colon b \<Longrightarrow> v \<noteq> [] \<Longrightarrow> no_colon v \<Longrightarrow> om_Bucket ob = b \<and> om_Key ob = k \<and> om_VersionID ob = v"
    "no_colon b \<Longrightarrow> v = [] \<Longrightarrow> om_Bucket ob = b \<and> om_Key ob = k"
proof -
  from GetObject_sound [OF assms(2)] obtain ob' where ob': "sto cont s (objKeyFor b k v) = Some (JObject ob')" "ob = fill_object b k ob'"
    by blast
  have "good_object B K V D ob'" using worm_object [OF assms(1) ob'(1)] by simp
  then have ob: "ob = ob'" "good_object B K V D ob" using ob'(2) by (simp_all add: good_object_def)
  then show "good_object B K V D ob" by simp
  show "om_Bucket ob = b \<and> om_Key ob = k \<and> om_VersionID ob = v" if "no_colon b" "v \<noteq> []" "no_colon v"
    using typed_version [OF worm_typed [OF assms(1)], of b k v] ob'(1) that ob(1) by (auto simp: objKeyFor_def)
  show "om_Bucket ob = b \<and> om_Key ob = k" if "no_colon b" "v = []"
    using typed_object [OF worm_typed [OF assms(1)], of b k] ob'(1) that ob(1) by (auto simp: objKeyFor_def)
qed

lemma worm_versions:
  assumes "worm B K V D (sto cont s)" "GetObjectVersions E b k s = Inr vs" "ver \<in> set vs"
  shows "no_colon (ov_VersionID ver)"
proof -
  from assms(2) obtain kvs where it: "pebbleIter E (versionScanPrefix b k) s = Inr (kvs, None)"
    and vs: "vs = sort_key (\<lambda>v. - ov_LastModified v) (map to_version (filter (\<lambda>obj. om_Key obj = k) (List.map_filter (\<lambda>(k, v). decode_object v) kvs)))"
    by (auto simp: GetObjectVersions_def Let_def split: sum.splits prod.splits option.splits)
  from assms(3) obtain ob :: object_metadata and x v where "ver = to_version ob" "(x, v) \<in> set kvs" "decode_object v = Some ob"
    by (auto simp: vs List.map_filter_def)
  moreover from this have "good_object B K V D ob"
    using pebbleIter_member [OF it] wormD [OF assms(1)] by (fastforce simp: good_entry_def)
  ultimately show ?thesis by (simp add: good_object_def to_version_def)
qed

end

section \<open>The manager's operations\<close>

lemma good_setter:
  assumes "good_object B K V D ob" "V \<noteq> []"
    "ob_Bucket o' = om_Bucket ob" "ob_Key o' = om_Key ob" "ob_VersionID o' = om_VersionID ob"
    and "is_target B K V ob \<Longrightarrow> (case ob_Retention o' of None \<Rightarrow> False
       | Some r \<Rightarrow> rc_Mode r \<in> lock_modes \<and> D \<le> rc_RetainUntilDate r)"
  shows "good_object B K V D (toMetadataObject o')"
  using assms by (auto simp: good_object_def is_target_def protected_until_def toMetadataObject_def split: option.splits)

lemma from_fields [simp]:
  "ob_Bucket (fromMetadataObject ob) = om_Bucket ob" "ob_Key (fromMetadataObject ob) = om_Key ob"
  "ob_VersionID (fromMetadataObject ob) = om_VersionID ob" "ob_Size (fromMetadataObject ob) = om_Size ob"
  "ob_Retention (fromMetadataObject ob) = map_option (\<lambda>r. \<lparr>rc_Mode = rt_Mode r, rc_RetainUntilDate = rt_RetainUntilDate r\<rparr>) (om_Retention ob)"
  by (simp_all add: fromMetadataObject_def)

lemma protected_from: "protected_until D ob \<longleftrightarrow> (case ob_Retention (fromMetadataObject ob) of None \<Rightarrow> False
    | Some r \<Rightarrow> rc_Mode r \<in> lock_modes \<and> D \<le> rc_RetainUntilDate r)"
  by (simp add: protected_until_def split: option.splits)

lemma protected_locked: "protected_until D ob \<Longrightarrow> now < D \<Longrightarrow> lock_check False now (fromMetadataObject ob) \<noteq> None"
  by (auto simp: protected_until_def lock_modes_def lock_check_def split: option.splits)

lemma pick_latest_in: "pick_latest w vs = Some x \<Longrightarrow> x \<in> set vs"
proof -
  have "foldl (\<lambda>next ver. if ov_VersionID ver \<noteq> w \<and> (case next of None \<Rightarrow> True | Some u \<Rightarrow> ov_LastModified u < ov_LastModified ver)
     then Some ver else next) acc vs = Some x \<Longrightarrow> acc = Some x \<or> x \<in> set vs" for acc
  proof (induction vs arbitrary: acc)
    case (Cons a vs)
    from Cons.IH [OF Cons.prems [unfolded foldl_Cons]] show ?case by (simp split: if_splits) blast+
  qed simp
  then show "pick_latest w vs = Some x \<Longrightarrow> x \<in> set vs" by (auto simp: pick_latest_def)
qed

lemma not_target_version: "good_object B K V D ob \<Longrightarrow> om_VersionID ob \<noteq> V \<or> protected_until D ob \<or> om_Bucket ob \<noteq> B \<or> om_Key ob \<noteq> K"
  by (auto simp: good_object_def is_target_def)

lemma no_colon_show: "no_colon (show_int64 n)"
  by (simp add: show_int64_def no_colon_def)

lemma no_colon_hex: "no_colon (EncodeToString s)"
proof -
  have "list_all (\<lambda>n. hex_digit n \<noteq> CHR '':'') [0..<16]" by code_simp
  then have "CHR '':'' \<noteq> hex_digit n" if "n < 16" for n using that by (fastforce simp: list_all_iff)
  moreover have "of_char c div 16 < (16 :: nat)" for c :: char using nat_of_char_less_256 [of c] by linarith
  ultimately show ?thesis by (induction s) (simp_all add: no_colon_def)
qed

lemma no_colon_generated: "no_colon (generateVersionID cx)"
  using no_colon_show [of "wrap64 (rx_now cx)"] no_colon_hex
  by (auto simp: generateVersionID_def Let_def no_colon_def split: option.splits)

context pebble_engine
begin

lemma worm_promote:
  assumes w: "worm B K V D (sto cont s)" and b: "b \<noteq> []" "k \<noteq> []" "no_colon b" and V: "V \<noteq> []"
    and vs: "\<And>ver. ver \<in> set allVersions \<Longrightarrow> no_colon (ov_VersionID ver)"
  shows "worm B K V D (sto cont (promote_next E b k v allVersions s))"
proof -
  define fresh where "fresh = (case GetObjectVersions E b k s of Inl _ \<Rightarrow> allVersions | Inr vs \<Rightarrow> vs)"
  have fresh: "no_colon (ov_VersionID ver)" if "ver \<in> set fresh" for ver
    using that vs worm_versions [OF w] by (auto simp: fresh_def split: sum.splits)
  have put: "worm B K V D (sto cont s')"
    if p: "pick_latest v fresh = Some nx" and g: "GetObject E b k (ov_VersionID nx) s = Inr ob"
      and r: "PutObjectVersion E (Some ob) (Some (nx\<lparr>ov_IsLatest := True\<rparr>)) s = Inr s'" for nx ob s'
  proof (rule worm_PutObjectVersion [OF w r])
    have nc: "no_colon (ov_VersionID nx)" using fresh pick_latest_in [OF p] by blast
    show "ov_IsLatest (nx\<lparr>ov_IsLatest := True\<rparr>)" by simp
    have same: "om_VersionID ob = ov_VersionID nx \<or> ov_VersionID nx = []"
      using worm_GetObject(2) [OF w g b(3)] nc by blast
    note good = worm_GetObject(1) [OF w g]
    have "is_target B K V (ob\<lparr>om_VersionID := ov_VersionID nx, om_IsLatest := True\<rparr>) \<Longrightarrow> ov_VersionID nx = V"
      by (simp add: is_target_def)
    then show "good_object B K V D (ob\<lparr>om_VersionID := ov_VersionID (nx\<lparr>ov_IsLatest := True\<rparr>), om_IsLatest := True\<rparr>)"
      using good same nc V by (auto simp: good_object_def is_target_def protected_until_def)
  qed
  have ne: "om_Bucket ob \<noteq> [] \<and> om_Key ob \<noteq> []" if "GetObject E b k u s = Inr ob" for u ob
    using worm_GetObject(1) [OF w that] by (simp add: good_object_def)
  show ?thesis
  proof (cases "fresh = []")
    case True
    then show ?thesis
      by (simp add: promote_next_def fresh_def [symmetric] worm_try [OF w worm_DeleteObject [OF w]])
  next
    case False
    then show ?thesis
      by (auto simp: promote_next_def fresh_def [symmetric] ne w intro: worm_try [OF w put] split: option.splits sum.splits)
  qed
qed

lemma worm_count_version_delete:
  "worm B K V D (sto cont s) \<Longrightarrow> worm B K V D (sto cont (count_version_delete E now b v ob z vs s))"
  by (auto simp: count_version_delete_def Let_def intro: worm_counts split: prod.splits)

lemma worm_deleteSpecificVersion:
  assumes w: "worm B K V D (sto cont (os_store sys))" and E: "env_E env = E"
    and b: "b \<noteq> []" "k \<noteq> []" "no_colon b" and V: "V \<noteq> []" "no_colon B" "no_colon V" and v: "v \<noteq> []" and now: "now < D"
  shows "worm B K V D (sto cont (os_store (snd (deleteSpecificVersion env now b k v False sys))))"
proof -
  let ?s = "os_store sys"
  have del: "worm B K V D (sto cont s1)"
    if vs: "GetObjectVersions E b k ?s = Inr vs" "find (\<lambda>ver. ov_VersionID ver = v) vs = Some x"
      and g: "GetObject E b k v ?s = Inr ob" "lock_check False now (fromMetadataObject ob) = None"
      and d: "DeleteObjectVersion E b k v ?s = Inr s1" for vs x ob s1
  proof (rule worm_DeleteObjectVersion [OF w d])
    have nc: "no_colon v" using worm_versions [OF w vs(1)] vs(2) by (auto simp: find_Some_iff)
    have f: "om_Bucket ob = b \<and> om_Key ob = k \<and> om_VersionID ob = v" using worm_GetObject(2) [OF w g(1) b(3) v nc] .
    have "\<not> protected_until D ob" using protected_locked [OF _ now, of ob] g(2) by blast
    then have "\<not> is_target B K V ob" using worm_GetObject(1) [OF w g(1)] by (simp add: good_object_def)
    then show "objectVersionKey b k v \<noteq> objectVersionKey B K V"
      using f nc b V objectVersionKey_inj [of b B v V k K] by (auto simp: is_target_def)
  qed
  have promote: "worm B K V D (sto cont (count_version_delete E now b v ob z vs (promote_next E b k v vs s1)))"
    if "GetObjectVersions E b k ?s = Inr vs" "worm B K V D (sto cont s1)" for vs s1 ob z
    using worm_count_version_delete [OF worm_promote [OF that(2) b V(1)]] worm_versions [OF w that(1)] by blast
  show ?thesis
    by (auto simp: deleteSpecificVersion_def Let_def E w intro: promote dest: del split: sum.splits option.splits prod.splits)
qed

lemma worm_createDeleteMarker:
  assumes w: "worm B K V D (sto cont (os_store sys))" and E: "env_E env = E"
    and b: "b \<noteq> []" "k \<noteq> []" "no_colon b" and id: "\<And>u. newVersionID cx = Inr u \<Longrightarrow> u \<noteq> V \<and> no_colon u"
  shows "worm B K V D (sto cont (os_store (snd (createDeleteMarker env cx b k sys))))"
proof -
  have put: "worm B K V D (sto cont s1)"
    if "newVersionID cx = Inr u" "PutObjectVersion E (Some ob) (Some ver) (os_store sys) = Inr s1"
      "ov_IsLatest ver" "ov_VersionID ver = u" "om_Bucket ob = b" "om_Key ob = k" for u ob ver s1
    using worm_PutObjectVersion [OF w that(2,3)] id [OF that(1)] b that(4-6) by (simp add: good_object_def is_target_def)
  show ?thesis
    by (auto simp: createDeleteMarker_def Let_def E w intro: worm_counts dest!: put split: sum.splits prod.splits)
qed

lemma worm_deletePermanently:
  assumes w: "worm B K V D (sto cont (os_store sys))" and E: "env_E env = E"
  shows "worm B K V D (sto cont (os_store (snd (deletePermanently env now b k False sys))))"
  by (auto simp: deletePermanently_def Let_def E w intro: worm_counts worm_DeleteObject [OF w] split: sum.splits prod.splits option.splits)

lemma worm_OM_DeleteObject:
  assumes w: "worm B K V D (sto cont (os_store sys))" and E: "env_E env = E"
    and b: "b \<noteq> []" "no_colon b" and V: "V \<noteq> []" "no_colon B" "no_colon V" and now: "rx_now cx < D"
    and id: "\<And>u. newVersionID cx = Inr u \<Longrightarrow> u \<noteq> V \<and> no_colon u"
  shows "worm B K V D (sto cont (os_store (snd (OM_DeleteObject env cx b k False v sys))))"
proof -
  have "resolveFolderDeleteKey E b k s \<noteq> []" if "validateObjectName k" for s
    using that by (auto simp: resolveFolderDeleteKey_def validateObjectName_def split: sum.splits)
  then show ?thesis
    using worm_deleteSpecificVersion [OF w E b(1) _ b(2) V _ now] worm_createDeleteMarker [OF w E b(1) _ b(2) id] worm_deletePermanently [OF w E]
    by (simp add: OM_DeleteObject_def Let_def E w split_def)
qed

text \<open>The setters write back the object they read.\<close>

lemma worm_view:
  assumes w: "worm B K V D (sto cont (os_store sys))" and E: "env_E env = E" and b: "b \<noteq> []" "no_colon b" and V: "V \<noteq> []"
    and g: "getObjectMetadataForVersion env b k v sys = Inr obj"
  shows "good_object B K V D (toMetadataObject obj)"
proof -
  have stored: "good_object B K V D (toMetadataObject (fromMetadataObject ob))" if "GetObject E b k u (os_store sys) = Inr ob" for u ob
    using worm_GetObject(1) [OF w that]
    by (rule good_setter) (use V worm_GetObject(1) [OF w that] in \<open>auto simp: good_object_def protected_from\<close>)
  have cases: "(\<exists>u ob. GetObject E b k u (os_store sys) = Inr ob \<and> obj = fromMetadataObject ob) \<or>
      k \<noteq> [] \<and> ob_Bucket obj = b \<and> ob_Key obj = k \<and> ob_VersionID obj = []"
    using g by (auto simp: getObjectMetadataForVersion_def GetObjectMetadata_def Let_def E validateObjectName_def blank_object_def
        split: sum.splits if_splits bool.splits)
  then show ?thesis
    using stored b V by (elim disjE exE) (auto simp: good_object_def is_target_def toMetadataObject_def)
qed

lemma good_view_fields:
  "good_object B K V D (toMetadataObject (obj\<lparr>ob_LegalHold := h\<rparr>)) = good_object B K V D (toMetadataObject obj)"
  "good_object B K V D (toMetadataObject (obj\<lparr>ob_Tags := t\<rparr>)) = good_object B K V D (toMetadataObject obj)"
  "good_object B K V D ((toMetadataObject obj)\<lparr>om_RestoreStatus := st, om_RestoreExpiresAt := x\<rparr>) = good_object B K V D (toMetadataObject obj)"
  by (simp_all add: good_object_def is_target_def protected_until_def toMetadataObject_def)

lemma good_retention:
  assumes "good_object B K V D (toMetadataObject obj)" "now < D" "case c of None \<Rightarrow> True | Some c \<Rightarrow> rc_Mode c \<in> lock_modes"
    and "case ob_Retention obj of None \<Rightarrow> True
      | Some r \<Rightarrow> \<not> (now < rc_RetainUntilDate r \<and> (case c of None \<Rightarrow> True | Some c \<Rightarrow> rc_RetainUntilDate c < rc_RetainUntilDate r))"
  shows "good_object B K V D (toMetadataObject (obj\<lparr>ob_Retention := c\<rparr>))"
  using assms by (auto simp: good_object_def is_target_def protected_until_def toMetadataObject_def split: option.splits)

lemma worm_saveObject:
  assumes w: "worm B K V D (sto cont (os_store sys))" and E: "env_E env = E" and "good_object B K V D ob"
  shows "worm B K V D (sto cont (os_store (kept (saveObject env now ob sys) sys)))"
  using assms worm_PutObject [OF w] by (auto simp: saveObject_def kept_def split: sum.splits)

lemma worm_setters:
  assumes w: "worm B K V D (sto cont (os_store sys))" and E: "env_E env = E" and b: "b \<noteq> []" "no_colon b" and V: "V \<noteq> []"
  shows "worm B K V D (sto cont (os_store (kept (SetObjectLegalHold env now b k h v sys) sys)))"
    "worm B K V D (sto cont (os_store (kept (SetObjectTagging env now b k t v sys) sys)))"
    "worm B K V D (sto cont (os_store (kept (DeleteObjectTagging env now b k v sys) sys)))"
    "worm B K V D (sto cont (os_store (kept (SetRestoreStatus env now b k st x v sys) sys)))"
    "now < D \<Longrightarrow> (case c of None \<Rightarrow> True | Some c \<Rightarrow> rc_Mode c \<in> lock_modes) \<Longrightarrow>
       worm B K V D (sto cont (os_store (kept (SetObjectRetention env now b k c v sys) sys)))"
proof -
  have failed [simp]: "kept (Inl e) sys = sys" for e by (simp add: kept_def)
  note view = worm_view [OF w E b V] and save = worm_saveObject [OF w E]
  show "worm B K V D (sto cont (os_store (kept (SetObjectLegalHold env now b k h v sys) sys)))"
    by (auto simp: SetObjectLegalHold_def w good_view_fields intro!: save dest: view split: sum.splits)
  show "worm B K V D (sto cont (os_store (kept (SetObjectTagging env now b k t v sys) sys)))"
    by (auto simp: SetObjectTagging_def w good_view_fields intro!: save dest: view split: sum.splits)
  show "worm B K V D (sto cont (os_store (kept (DeleteObjectTagging env now b k v sys) sys)))"
    by (auto simp: DeleteObjectTagging_def w good_view_fields intro!: save dest: view split: sum.splits)
  show "worm B K V D (sto cont (os_store (kept (SetRestoreStatus env now b k st x v sys) sys)))"
    by (auto simp: SetRestoreStatus_def w good_view_fields intro!: save dest: view split: sum.splits)
  assume "now < D" "case c of None \<Rightarrow> True | Some c \<Rightarrow> rc_Mode c \<in> lock_modes"
  note ret = good_retention [OF view this]
  show "worm B K V D (sto cont (os_store (kept (SetObjectRetention env now b k c v sys) sys)))"
  proof (cases "getObjectMetadataForVersion env b k v sys")
    case (Inr obj)
    with ret [OF this] show ?thesis by (auto simp: SetObjectRetention_def w intro!: save split: option.splits)
  qed (simp add: SetObjectRetention_def w)
qed

text \<open>Uploads.\<close>

lemma worm_ensureImplicitFolders:
  assumes "worm B K V D (sto cont s)" "b \<noteq> []" "no_colon b" "V \<noteq> []"
  shows "worm B K V D (sto cont (ensureImplicitFolders E now b k s))"
proof -
  have "worm B K V D (sto cont (fold (ensure_folder E now b) fs s))" if "\<And>f. f \<in> set fs \<Longrightarrow> f \<noteq> []" for fs
    using that assms(1)
  proof (induction fs arbitrary: s)
    case (Cons f fs)
    have "good_object B K V D (folder_object now b f)"
      using Cons.prems(1) [of f] assms(2-4) by (simp add: good_object_def is_target_def folder_object_def zero_object_def)
    then have "worm B K V D (sto cont (ensure_folder E now b f s))"
      using Cons.prems(2) by (auto simp: ensure_folder_def intro: worm_try worm_PutObject split: sum.splits)
    then show ?case using Cons by simp
  qed simp
  moreover have "f \<noteq> []" if "f \<in> set (folder_paths p parts)" for f p parts
    using that by (induction parts arbitrary: p) (auto simp: Let_def split: if_splits)
  ultimately show ?thesis using assms(1) by (auto simp: ensureImplicitFolders_def Let_def)
qed

lemma worm_updateBucketMetricsAfterPut:
  "worm B K V D (sto cont s) \<Longrightarrow> worm B K V D (sto cont (updateBucketMetricsAfterPut E now t n z ve ex s))"
  by (auto simp: updateBucketMetricsAfterPut_def Let_def intro: worm_counts split: option.splits)

lemma worm_save_put:
  assumes w: "worm B K V D (sto cont (os_store sys))" and E: "env_E env = E" and V: "V \<noteq> []"
    and obj: "ob_Bucket obj \<noteq> []" "ob_Key obj \<noteq> []" "no_colon (ob_Bucket obj)" "no_colon (ob_VersionID obj)" "ob_VersionID obj \<noteq> V"
  shows "worm B K V D (sto cont (os_store (snd (save_put env now ve obj sys))))"
proof -
  have good: "good_object B K V D (toMetadataObject obj)"
    "good_object B K V D ((toMetadataObject obj)\<lparr>om_VersionID := ob_VersionID obj, om_IsLatest := True\<rparr>)"
    using obj by (simp_all add: good_object_def is_target_def toMetadataObject_def)
  have fin: "worm B K V D (sto cont (updateBucketMetricsAfterPut E now t n z x ex (ensureImplicitFolders E now (ob_Bucket obj) k s1)))"
    if "worm B K V D (sto cont s1)" for t n z x ex k s1
    using worm_updateBucketMetricsAfterPut worm_ensureImplicitFolders [OF that obj(1,3) V] by blast
  have version: "worm B K V D (sto cont s1)"
    if "PutObjectVersion E (Some (toMetadataObject obj)) (Some ver) (os_store sys) = Inr s1"
      "ov_IsLatest ver" "ov_VersionID ver = ob_VersionID obj" for ver s1
    using worm_PutObjectVersion [OF w that(1,2)] that(3) good(2) by simp
  note plain = worm_PutObject [OF w _ good(1)]
  show ?thesis
    by (cases ve) (auto simp: save_put_def Let_def E w intro!: fin dest: version plain split: sum.splits prod.splits)
qed

lemma applyDefaultRetention_fields [simp]:
  "ob_Bucket (applyDefaultRetention E obj s) = ob_Bucket obj" "ob_Key (applyDefaultRetention E obj s) = ob_Key obj"
  "ob_VersionID (applyDefaultRetention E obj s) = ob_VersionID obj" "ob_Size (applyDefaultRetention E obj s) = ob_Size obj"
  by (simp_all add: applyDefaultRetention_def split: sum.splits option.splits)

lemma put_object_record_fields [simp]:
  "ob_Bucket (put_object_record cx b k v sz et sm um fm al cv) = b" "ob_Key (put_object_record cx b k v sz et sm um fm al cv) = k"
  "ob_VersionID (put_object_record cx b k v sz et sm um fm al cv) = v" "ob_Size (put_object_record cx b k v sz et sm um fm al cv) = sz"
  by (simp_all add: put_object_record_def Let_def)

lemma worm_OM_PutObject:
  assumes w: "worm B K V D (sto cont (os_store sys))" and E: "env_E env = E" and V: "V \<noteq> []"
    and b: "b \<noteq> []" "no_colon b" and id: "\<And>u. newVersionID cx = Inr u \<Longrightarrow> u \<noteq> V \<and> no_colon u"
  shows "worm B K V D (sto cont (os_store (snd (OM_PutObject env cx b k data h sys))))"
proof -
  have save: "worm B K V D (sto cont (os_store (snd (save_put env now ve (applyDefaultRetention E (put_object_record cx b k u sz et sm um fm al cv) (os_store sys))
      (sys\<lparr>os_fs := fs\<rparr>)))))"
    if "validateObjectName k" "u = [] \<or> newVersionID cx = Inr u" for now ve u sz et sm um fm al cv fs
    by (rule worm_save_put) (use w E V b id that in \<open>auto simp: validateObjectName_def\<close>)
  have data: "worm B K V D (sto cont (os_store (snd (case put_data env k p temp sm (os_fs sys) of
      (Some e, fs) \<Rightarrow> (Inl e, sys\<lparr>os_fs := fs\<rparr>)
    | (None, fs) \<Rightarrow> (case be_GetMetadata (env_B env) p fs of
        Inl e \<Rightarrow> (Inl (OStorage e), sys\<lparr>os_fs := fs\<rparr>)
      | Inr fm \<Rightarrow> save_put env now ve (applyDefaultRetention E (put_object_record cx b k u sz et sm um fm al cv) (os_store sys))
          (sys\<lparr>os_fs := fs\<rparr>))))))"
    if "validateObjectName k" "u = [] \<or> newVersionID cx = Inr u" for p temp sm now ve u sz et um al cv
    using w save [OF that] by (auto split: prod.splits option.splits sum.splits)
  show ?thesis
  proof (cases "validateObjectName k")
    case True
    note data = data [OF True]
    obtain sm um where h: "extractMetadataFromHeaders h = (sm, um)" by (cases "extractMetadataFromHeaders h")
    show ?thesis
      by (auto simp: OM_PutObject_def Let_def E w True h simp del: split_paired_All intro!: data split: sum.split option.split)
  qed (simp add: OM_PutObject_def w)
qed

text \<open>Lists and metadata updates.\<close>

lemma worm_PutRaw_acl:
  assumes "worm B K V D (sto cont s)" "PutRaw E (objectACLKey t n k) (JAcl a) s = Inr s'"
  shows "worm B K V D (sto cont s')"
  using setNoSync_sound [OF assms(2) [unfolded PutRaw_def]] worm_set [OF assms(1), of "objectACLKey t n k" "JAcl a"]
  by (simp add: good_entry_def objectACLKey_def reserved_key_def HasPrefix_def)

lemma kept_save: "saveObject env now ob sys = Inr sys' \<Longrightarrow> kept (saveObject env now ob sys) sys = sys'"
  by (simp add: kept_def)

lemma worm_OM_SetObjectACL:
  assumes w: "worm B K V D (sto cont (os_store sys))" and E: "env_E env = E" and b: "b \<noteq> []" "no_colon b" and V: "V \<noteq> []"
  shows "worm B K V D (sto cont (os_store (snd (OM_SetObjectACL env now b k a v sys))))"
proof (cases "getObjectMetadataForVersion env b k v sys")
  case (Inr obj)
  have "good_object B K V D (toMetadataObject (obj\<lparr>ob_ACL := a\<rparr>))"
    using worm_view [OF w E b V Inr] by (simp add: good_object_def is_target_def protected_until_def toMetadataObject_def)
  from worm_saveObject [OF w E this, of now]
  have saved: "worm B K V D (sto cont (os_store sys'))" if "saveObject env now (toMetadataObject (obj\<lparr>ob_ACL := a\<rparr>)) sys = Inr sys'" for sys'
    using kept_save [OF that] by simp
  show ?thesis
    by (auto simp: OM_SetObjectACL_def Inr w SetObjectACL_def pebble_kv_def E saved split: sum.splits prod.splits option.splits
        intro: saved worm_PutRaw_acl)
qed (simp add: OM_SetObjectACL_def w)

lemma worm_UpdateObjectMetadata:
  assumes w: "worm B K V D (sto cont (os_store sys))" and E: "env_E env = E" and b: "b \<noteq> []" "no_colon b" and V: "V \<noteq> []"
  shows "worm B K V D (sto cont (os_store (snd (UpdateObjectMetadata env now b k m sys))))"
proof -
  define upd where "upd obj = (let obj = obj\<lparr>ob_Metadata := fold (\<lambda>(k, v). AList.update k v) m (ob_Metadata obj)\<rparr>
     in case map_of m ''content-type'' of None \<Rightarrow> obj | Some c \<Rightarrow> obj\<lparr>ob_ContentType := c\<rparr>)" for obj :: object
  have saved: "worm B K V D (sto cont (os_store sys2))"
    if "GetObjectMetadata env b k (sys\<lparr>os_fs := fs\<rparr>) = Inr obj" "saveObject env now (toMetadataObject (upd obj)) (sys\<lparr>os_fs := fs\<rparr>) = Inr sys2" for fs obj sys2
  proof -
    have w': "worm B K V D (sto cont (os_store (sys\<lparr>os_fs := fs\<rparr>)))" using w by simp
    have "good_object B K V D (toMetadataObject obj)"
      using worm_view [OF w' E b V, of k "[]" obj] that(1) by (simp add: getObjectMetadataForVersion_def)
    then have "good_object B K V D (toMetadataObject (upd obj))"
      by (simp add: upd_def Let_def good_object_def is_target_def protected_until_def toMetadataObject_def split: option.splits)
    from worm_saveObject [OF w' E this, of now] kept_save [OF that(2)] show ?thesis by simp
  qed
  have step: "worm B K V D (sto cont (os_store (snd (case GetObjectMetadata env b k (sys\<lparr>os_fs := fs\<rparr>) of
        Inl e \<Rightarrow> (Some e, sys\<lparr>os_fs := fs\<rparr>)
      | Inr obj \<Rightarrow> (case saveObject env now (toMetadataObject (upd obj)) (sys\<lparr>os_fs := fs\<rparr>) of
          Inl e \<Rightarrow> (Some e, sys\<lparr>os_fs := fs\<rparr>) | Inr sys \<Rightarrow> (None, sys))))))" for fs
    using saved w by (auto split: sum.splits)
  define p where "p = (case GetObject (env_E env) b k [] (os_store sys) of Inl _ \<Rightarrow> getObjectPath b k
    | Inr metaObj \<Rightarrow> if om_VersionID metaObj \<noteq> [] then getVersionedObjectPath b k (om_VersionID metaObj) else getObjectPath b k)"
  note defs = UpdateObjectMetadata_def Let_def p_def [symmetric]
  show ?thesis
  proof (cases "validateObjectName k \<and> be_Exists (env_B env) p (os_fs sys) = Inr True")
    case True
    show ?thesis
    proof (cases "be_GetMetadata (env_B env) p (os_fs sys)")
      case (Inr em)
      obtain r fs where s: "be_SetMetadata (env_B env) p (merged_sidecar m em) (os_fs sys) = (r, fs)" by fastforce
      show ?thesis
        unfolding defs using True Inr s step [unfolded upd_def Let_def, of fs] w by (cases r) simp_all
    qed (use True w in \<open>simp add: defs\<close>)
  next
    case False
    then show ?thesis unfolding defs using w by (auto split: sum.splits bool.splits)
  qed
qed

text \<open>Uploads in parts.\<close>

lemma worm_CreateMultipartUpload:
  assumes w: "worm B K V D (sto cont (os_store sys))" and E: "env_E env = E" and b: "b \<noteq> []" "no_colon b"
  shows "worm B K V D (sto cont (os_store (snd (OM_CreateMultipartUpload env now rnd b k h sys))))"
proof -
  have "worm B K V D (sto cont s')" if k: "validateObjectName k" and id: "generateUploadID rnd = Inr u"
    and c: "CreateMultipartUpload E now (Some up) (os_store sys) = Inr s'" and up: "um_UploadID up = u" "um_Bucket up = b" "um_Key up = k" for u up s'
  proof -
    obtain tm where s': "sto cont s' = (sto cont (os_store sys))(multipartUploadKey u \<mapsto> JUpload (up\<lparr>um_Initiated := tm\<rparr>), multipartIndexKey b u \<mapsto> Bytes [])"
      using CreateMultipartUpload_sound [OF c] up by auto
    have "no_colon u" using id by (auto simp: generateUploadID_def no_colon_hex split: sum.splits)
    then have "good_entry B K V D (multipartUploadKey u) (JUpload (up\<lparr>um_Initiated := tm\<rparr>))"
      using up b k by (auto simp: good_entry_def validateObjectName_def)
    moreover have "good_entry B K V D (multipartIndexKey b u) (Bytes [])" by (simp add: good_entry_def)
    ultimately show ?thesis unfolding s' by (intro worm_set [OF worm_set [OF w]])
  qed
  then show ?thesis
    by (auto simp: OM_CreateMultipartUpload_def Let_def E w toMetadataMultipartUpload_def split: sum.splits)
qed

lemma worm_upload:
  assumes w: "worm B K V D (sto cont s)" and g: "GetMultipartUpload E u s = Inr up"
  shows "no_colon u" "um_Bucket up \<noteq> []" "um_Key up \<noteq> []" "no_colon (um_Bucket up)"
proof -
  obtain v where v: "sto cont s (multipartUploadKey u) = Some v" "decode_upload v = Some up"
    using GetMultipartUpload_sound [OF g] by (auto simp: upload_at_def bind_eq_Some_conv)
  then show "um_Bucket up \<noteq> []" "um_Key up \<noteq> []" "no_colon (um_Bucket up)" using wormD [OF w v(1)] by (simp_all add: good_entry_def)
  obtain x where "v = JUpload x" "um_UploadID x = u" using typed_upload [OF worm_typed [OF w] v(1)] by blast
  then show "no_colon u" using typedD [OF worm_typed [OF w] v(1)] by simp
qed

lemma worm_UploadPart:
  assumes w: "worm B K V D (sto cont (os_store sys))" and E: "env_E env = E"
  shows "worm B K V D (sto cont (os_store (snd (UploadPart env now u n data sys))))"
proof -
  have "worm B K V D (sto cont s')" if "GetMultipartUpload E u (os_store sys) = Inr up" "PutPart E now (Some pt) (os_store sys) = Inr s'" "pt_UploadID pt = u" for up pt s'
    unfolding PutPart_sound(3) [OF that(2)] using worm_upload(1) [OF w that(1)] that(3)
    by (intro worm_set [OF w]) (simp add: good_entry_def)
  then show ?thesis
    by (auto simp: UploadPart_def Let_def E w split: sum.splits prod.splits option.splits)
qed

lemma worm_AbortMultipartUpload:
  assumes "worm B K V D (sto cont s)" "AbortMultipartUpload E u s = Inr s'"
  shows "worm B K V D (sto cont s')"
  using assms(1) unfolding AbortMultipartUpload_sound(2) [OF assms(2)]
  by (auto simp: worm_def drop_upload_def owned_def split: option.splits if_splits)

lemma worm_OM_AbortMultipartUpload:
  assumes w: "worm B K V D (sto cont (os_store sys))" and E: "env_E env = E"
  shows "worm B K V D (sto cont (os_store (snd (OM_AbortMultipartUpload env u sys))))"
  by (auto simp: OM_AbortMultipartUpload_def Let_def E w intro: worm_AbortMultipartUpload [OF w] split: sum.splits)

lemma worm_save_multipart:
  assumes w: "worm B K V D (sto cont s)" and E: "env_E env = E" and save: "save_multipart env now ve obj s = Inr s'"
    and obj: "ob_Bucket obj \<noteq> []" "ob_Key obj \<noteq> []" "no_colon (ob_Bucket obj)" "no_colon (ob_VersionID obj)" "ob_VersionID obj \<noteq> V"
  shows "worm B K V D (sto cont s')"
proof -
  have good: "good_object B K V D (toMetadataObject obj)"
    "good_object B K V D ((toMetadataObject obj)\<lparr>om_VersionID := ob_VersionID obj, om_IsLatest := True\<rparr>)"
    using obj by (simp_all add: good_object_def is_target_def toMetadataObject_def)
  show ?thesis
  proof (cases ve)
    case True
    then show ?thesis using worm_PutObjectVersion [OF w] save good(2) by (auto simp: save_multipart_def E)
  next
    case False
    then show ?thesis using worm_PutObject [OF w _ good(1)] save by (auto simp: save_multipart_def E)
  qed
qed

lemma worm_cleanup_multipart:
  assumes w: "worm B K V D (sto cont (os_store sys))" and E: "env_E env = E"
  shows "worm B K V D (sto cont (os_store (updateMetricsAndCleanupMultipart env now b u n ex parts ve sys)))"
proof -
  have aborted: "worm B K V D (sto cont (try_store (AbortMultipartUpload E u s) s))" if "worm B K V D (sto cont s)" for s
    using that worm_AbortMultipartUpload [OF that] by (rule worm_try)
  obtain t c where "parseBucketPath b = (t, c)" by fastforce
  then show ?thesis
    using aborted [OF worm_updateBucketMetricsAfterPut [OF w]] by (simp add: updateMetricsAndCleanupMultipart_def E Let_def)
qed

lemma multipart_object_fields [simp]:
  "ob_Bucket (multipart_object mu v n t e) = mu_Bucket mu" "ob_Key (multipart_object mu v n t e) = mu_Key mu"
  "ob_VersionID (multipart_object mu v n t e) = v"
  by (simp_all add: multipart_object_def Let_def)

lemma worm_doCompleteMultipartUpload:
  assumes w: "worm B K V D (sto cont (os_store sys))" and E: "env_E env = E" and V: "V \<noteq> []" and id: "generateVersionID cx \<noteq> V" "no_colon (generateVersionID cx)"
  shows "worm B K V D (sto cont (os_store (snd (doCompleteMultipartUpload env cx u parts sys))))"
proof (cases "GetMultipartUpload E u (os_store sys)")
  case (Inr um)
  note up = worm_upload(2-4) [OF w Inr]
  let ?mu = "fromMetadataMultipartUpload um"
  have mu: "mu_Bucket ?mu = um_Bucket um" "mu_Key ?mu = um_Key um" by (simp_all add: fromMetadataMultipartUpload_def)
  have saved: "worm B K V D (sto cont (os_store (updateMetricsAndCleanupMultipart env now (um_Bucket um) u n ex parts ve (sys\<lparr>os_store := s, os_fs := fs\<rparr>))))"
    if "save_multipart env now ve (multipart_object ?mu (if ve then generateVersionID cx else []) n t e) (os_store sys) = Inr s" for now ve n t e s fs ex
    using worm_save_multipart [OF w E that] up id V by (intro worm_cleanup_multipart) (auto simp: mu E no_colon_def)
  show ?thesis
    by (auto simp: doCompleteMultipartUpload_def E Inr w mu Let_def split: sum.split prod.split option.split intro: saved)
qed (simp add: doCompleteMultipartUpload_def E w)

lemma worm_exec:
  assumes w: "worm B K V D (sto cont (os_store sys))" and E: "env_E env = E" and V: "V \<noteq> []" "no_colon B" "no_colon V"
    and ok: "req_ok V D cx op"
  shows "worm B K V D (sto cont (os_store (om_exec env cx op sys)))"
proof -
  have id: "\<And>u. newVersionID cx = Inr u \<Longrightarrow> u \<noteq> V \<and> no_colon u" and now: "rx_now cx < D"
    and gen: "generateVersionID cx \<noteq> V" and b: "\<And>b. op_bucket op = Some b \<Longrightarrow> b \<noteq> []" "\<And>b. op_bucket op = Some b \<Longrightarrow> no_colon b"
    using ok by (auto simp: req_ok_def)
  show ?thesis
  proof (cases op)
    case (ReqPut b' k data h)
    then show ?thesis using worm_OM_PutObject [OF w E V(1) _ _ id] b by simp
  next
    case (ReqDelete b' k v)
    then show ?thesis using worm_OM_DeleteObject [OF w E _ _ V now id] b by simp
  next
    case (ReqRetention b' k c v)
    then show ?thesis using worm_setters(5) [OF w E _ _ V(1) now] b ok by (auto simp: req_ok_def split: option.splits)
  next
    case (ReqComplete u parts)
    then show ?thesis using worm_doCompleteMultipartUpload [OF w E V(1) gen no_colon_generated] by simp
  qed (use worm_setters(1-4) [OF w E _ _ V(1)] worm_OM_SetObjectACL [OF w E _ _ V(1)] worm_UpdateObjectMetadata [OF w E _ _ V(1)]
      worm_CreateMultipartUpload [OF w E] worm_UploadPart [OF w E] worm_OM_AbortMultipartUpload [OF w E] b in simp_all)
qed

lemma worm_run:
  assumes "worm B K V D (sto cont (os_store sys))" "env_E env = E" "V \<noteq> []" "no_colon B" "no_colon V"
    and "list_all (\<lambda>(cx, op). req_ok V D cx op) ops"
  shows "worm B K V D (sto cont (os_store (om_run env ops sys)))"
  using assms(1,6)
proof (induction ops arbitrary: sys)
  case (Cons r ops)
  obtain cx op where r: "r = (cx, op)" by (cases r)
  show ?case
    using Cons.IH [OF worm_exec [OF Cons.prems(1) assms(2-5), of cx op]] Cons.prems(2) by (simp add: r)
qed simp

lemma worm_retained:
  assumes w: "worm B K V D (sto cont s)" and B: "no_colon B" "no_colon V"
  shows "\<exists>ob. sto cont s (objectVersionKey B K V) = Some (JObject ob) \<and> protected_until D ob"
proof -
  obtain v where v: "sto cont s (objectVersionKey B K V) = Some v" using w by (auto simp: worm_def)
  then obtain ob where ob: "v = JObject ob" "om_Bucket ob = B \<and> om_Key ob = K \<and> om_VersionID ob = V"
    using typed_version [OF worm_typed [OF w] _ B] by blast
  then have "protected_until D ob"
    using worm_object [OF w] v by (auto simp: good_object_def is_target_def)
  then show ?thesis using v ob(1) by blast
qed

end

section \<open>The property\<close>

text \<open>
  C1. Retention survives every run of requests that do not name the version as new. The store holds the version V of the object K in the bucket B,
  every document of that version is retained until at least D in compliance or governance mode, and
  each document lies under its own keys. Then after any sequence of uploads, at once or in parts, deletions without the
  governance bypass (of any key, with or without a version identifier, so promotions of the next version and
  delete markers included) and changes of retention, legal hold, tags, restore status, access control lists and
  metadata, all before D, the version is still there and still retained until at least D. No request is a replication request pinned to the
  identifier V, and retention requests ask for one of the two modes. The engine and the data
  store may fail at any call.
\<close>

theorem retained_version_survives:
  assumes "pebble_engine (env_E env) cont" "worm B K V D (sto cont (os_store sys))"
    and "V \<noteq> []" "no_colon B" "no_colon V" "list_all (\<lambda>(cx, op). req_ok V D cx op) ops"
  shows "\<exists>ob. sto cont (os_store (om_run env ops sys)) (objectVersionKey B K V) = Some (JObject ob) \<and> protected_until D ob"
  using pebble_engine.worm_retained [OF assms(1) pebble_engine.worm_run [OF assms(1,2) refl assms(3-6)] assms(4,5)] .

definition locked_object :: object_metadata where
  "locked_object = zero_object\<lparr>om_Bucket := ''t1/photos'', om_Key := ''cat.jpg'', om_Size := 3, om_ETag := ''e'',
     om_VersionID := ''v1'', om_IsLatest := True,
     om_Retention := Some \<lparr>rt_Mode = ''COMPLIANCE'', rt_RetainUntilDate = 100, rt_Days = None, rt_Years = None\<rparr>\<rparr>"

definition locked_store :: "(string \<times> kv_value) list pstore" where
  "locked_store = NewPebbleStore [(bucketKey ''t1'' ''photos'', JBucket (photos_bucket\<lparr>bm_Versioning :=
       Some \<lparr>vm_Enabled = True, vm_Status = ''Enabled'', vm_MFADelete = False\<rparr>\<rparr>)),
     (objectKey ''t1/photos'' ''cat.jpg'', JObject locked_object),
     (objectVersionKey ''t1/photos'' ''cat.jpg'' ''v1'', JObject locked_object)]"

definition memory_env :: "((string \<times> kv_value) list, unit, int) om_env" where
  "memory_env = \<lparr>env_E = mem_engine, env_B = null_backend None, env_inc = \<lambda>t z au. au + z, env_dec = \<lambda>t z au. au - z,
     env_quota = \<lambda>t z au. None, env_cleanup = \<lambda>b k fs. fs, env_stage = \<lambda>r fs. snd r, env_open = \<lambda>fs. None,
     env_envelope = Inr ([], []), env_encrypt = \<lambda>k p. (p, None), env_md5 = \<lambda>p. ''d'' @ p, env_checksum = \<lambda>a p. None\<rparr>"

definition plain_context :: "gotime \<Rightarrow> request_context" where
  "plain_context now = \<lparr>rx_now = now, rx_rand = None, rx_versionID = None, rx_lastModified = None, rx_bypassQuota = False\<rparr>"

lemma locked_store_worm: "worm ''t1/photos'' ''cat.jpg'' ''v1'' 90 (sto map_of locked_store)"
proof -
  have "good_object ''t1/photos'' ''cat.jpg'' ''v1'' 90 locked_object"
    by (simp add: good_object_def locked_object_def protected_until_def lock_modes_def)
  then show ?thesis
    by (auto simp: worm_def locked_store_def good_entry_def photos_bucket_def locked_object_def split: if_splits)
qed

lemma request_times:
  "show_int64 (wrap64 5) = ''5''" "show_int64 (wrap64 6) = ''6''" "show_int64 (wrap64 7) = ''7''" "show_int64 (wrap64 8) = ''8''"
  by code_simp+

theorem retained_version_survives_witness:
  "\<exists>ob. sto map_of (os_store (om_run memory_env
      [(plain_context 5, ReqDelete ''t1/photos'' ''cat.jpg'' ''v1''),
       (plain_context 6, ReqPut ''t1/photos'' ''cat.jpg'' (''new'', None) []),
       (plain_context 7, ReqRetention ''t1/photos'' ''cat.jpg'' (Some \<lparr>rc_Mode = ''GOVERNANCE'', rc_RetainUntilDate = 200\<rparr>) ''v1''),
       (plain_context 8, ReqUpdate ''t1/photos'' ''cat.jpg'' [(''colour'', ''blue'')]),
       (plain_context 8, ReqComplete ''u'' []),
       (plain_context 8, ReqDelete ''t1/photos'' ''cat.jpg'' [])]
      \<lparr>os_store = locked_store, os_fs = (), os_tenants = 0\<rparr>))
     (objectVersionKey ''t1/photos'' ''cat.jpg'' ''v1'') = Some (JObject ob) \<and> protected_until 90 ob"
proof (rule retained_version_survives)
  show "pebble_engine (env_E memory_env) map_of"
    by (simp add: memory_env_def mem.pebble_engine_axioms)
qed (simp_all add: locked_store_worm req_ok_def plain_context_def newVersionID_def replicatedVersionIDFromContext_def
      generateVersionID_def lock_modes_def request_times)

section \<open>What the lock does not cover\<close>

text \<open>
  The lock protects the metadata. The bytes lie in the data store under a path that a key of the same
  bucket can spell: in a bucket with versioning suspended an upload or a deletion of that key goes to the
  bytes of the locked version. The tenant part of a path is likewise a possible bucket name.
\<close>

lemma version_path_spelled:
  "getObjectPath b (''.versions/'' @ k @ ''/'' @ v) = getVersionedObjectPath b k v"
  "validateObjectName ''.versions/cat.jpg/v1''"
  by (simp add: getObjectPath_def getVersionedObjectPath_def, code_simp)

lemma tenant_path_spelled:
  "getObjectPath t (b @ ''/'' @ k) = getObjectPath (t @ ''/'' @ b) k"
  by (simp add: getObjectPath_def)

text \<open>
  The two conditions on requests are needed. A replication request that is pinned to the retained version replaces its document by
  one without retention, and the manager stores a retention of any mode, of which the lock knows two.
\<close>

definition locked_system :: "((string \<times> kv_value) list, unit, int) om_state" where
  "locked_system = \<lparr>os_store = locked_store, os_fs = (), os_tenants = 0\<rparr>"

definition locked_entry :: "(request_context \<times> om_op) list \<Rightarrow> object_metadata option" where
  "locked_entry ops = Option.bind (sto map_of (os_store (om_run memory_env ops locked_system)) (objectVersionKey ''t1/photos'' ''cat.jpg'' ''v1'')) decode_object"

lemma pinned_upload_lifts_lock:
  "map_option om_Retention (locked_entry [((plain_context 5)\<lparr>rx_versionID := Some ''v1''\<rparr>, ReqPut ''t1/photos'' ''cat.jpg'' (''new'', None) [])]) = Some None"
  by code_simp

lemma unknown_mode_lifts_lock:
  "locked_entry [(plain_context 5, ReqRetention ''t1/photos'' ''cat.jpg'' (Some \<lparr>rc_Mode = ''X'', rc_RetainUntilDate = 200\<rparr>) ''v1''),
     (plain_context 6, ReqDelete ''t1/photos'' ''cat.jpg'' ''v1'')] = None"
  by code_simp

text \<open>
  A compliance retention may be replaced by a governance one of the same date, which the bypass then
  overrides.
\<close>

lemma compliance_downgraded:
  assumes "getObjectMetadataForVersion env b k v sys = Inr obj"
    and "ob_Retention obj = Some \<lparr>rc_Mode = ''COMPLIANCE'', rc_RetainUntilDate = d\<rparr>" "ob_LegalHold obj = None"
  shows "SetObjectRetention env now b k (Some \<lparr>rc_Mode = ''GOVERNANCE'', rc_RetainUntilDate = d\<rparr>) v sys =
      saveObject env now (toMetadataObject (obj\<lparr>ob_Retention := Some \<lparr>rc_Mode = ''GOVERNANCE'', rc_RetainUntilDate = d\<rparr>\<rparr>)) sys"
    and "now < d \<Longrightarrow> lock_check True now obj \<noteq> None"
    and "lock_check True now (obj\<lparr>ob_Retention := Some \<lparr>rc_Mode = ''GOVERNANCE'', rc_RetainUntilDate = d\<rparr>\<rparr>) = None"
  using assms by (simp_all add: SetObjectRetention_def lock_check_def)

end
