(* ===== verification/Go_Path.thy ===== *)
theory Go_Path
  imports Prelude
begin

text \<open>
  \<^verbatim>\<open>path/filepath\<close> of the Go library on Unix, as the filesystem backend uses it: \<open>Clean\<close>, \<open>Join\<close> of
  two elements and \<open>Dir\<close>. The lemmas describe a clean rooted path by its segments.
\<close>

section \<open>The library functions\<close>

fun join_slash :: "string list \<Rightarrow> string" where
  "join_slash [] = []"
| "join_slash [x] = x"
| "join_slash (x # y # xs) = x @ ''/'' @ join_slash (y # xs)"

text \<open>The segments of a cleaned path; the second argument is the stack of segments kept so far.\<close>

fun clean_segs :: "bool \<Rightarrow> string list \<Rightarrow> string list \<Rightarrow> string list" where
  "clean_segs rooted st [] = rev st"
| "clean_segs rooted st (x # xs) =
     (if x = [] \<or> x = ''.'' then clean_segs rooted st xs
      else if x = ''..'' then (case st of
          [] \<Rightarrow> clean_segs rooted (if rooted then [] else [x]) xs
        | t # ts \<Rightarrow> clean_segs rooted (if t = ''..'' then x # st else ts) xs)
      else clean_segs rooted (x # st) xs)"

definition path_Clean :: "string \<Rightarrow> string" where
  "path_Clean p =
     (if p = [] then ''.''
      else (let rooted = HasPrefix p ''/''; body = join_slash (clean_segs rooted [] (split_char CHR ''/'' p))
        in if rooted then ''/'' @ body else if body = [] then ''.'' else body))"

definition path_Join :: "string \<Rightarrow> string \<Rightarrow> string" where
  "path_Join a b = (if a \<noteq> [] then path_Clean (a @ ''/'' @ b) else if b \<noteq> [] then path_Clean b else [])"

definition path_Dir :: "string \<Rightarrow> string" where
  "path_Dir p = path_Clean (rev (dropWhile (\<lambda>c. c \<noteq> CHR ''/'') (rev p)))"

section \<open>Segments\<close>

definition plain_seg :: "string \<Rightarrow> bool" where
  "plain_seg x \<longleftrightarrow> x \<noteq> [] \<and> x \<noteq> ''.'' \<and> x \<noteq> ''..'' \<and> CHR ''/'' \<notin> set x"

definition path_segments :: "string \<Rightarrow> string list" where
  "path_segments p = filter (\<lambda>x. x \<noteq> [] \<and> x \<noteq> ''.'') (split_char CHR ''/'' p)"

lemma split_char_sep: "split_char c (p @ c # s) = split_char c p @ split_char c s"
  by (induction p) (auto split: list.splits)

lemma split_char_free: "x \<in> set (split_char c s) \<Longrightarrow> c \<notin> set x"
  by (induction s arbitrary: x) (auto split: if_splits list.splits)

lemma split_join: "xs \<noteq> [] \<Longrightarrow> \<forall>x\<in>set xs. CHR ''/'' \<notin> set x \<Longrightarrow> split_char CHR ''/'' (join_slash xs) = xs"
  by (induction xs rule: join_slash.induct) (auto simp: split_char_none split_char_sep)

lemma join_split [simp]: "join_slash (split_char CHR ''/'' s) = s"
proof (induction s)
  case (Cons a s)
  then show ?case by (cases "split_char CHR ''/'' s" rule: join_slash.cases) auto
qed simp

lemma join_append: "xs \<noteq> [] \<Longrightarrow> ys \<noteq> [] \<Longrightarrow> join_slash (xs @ ys) = join_slash xs @ ''/'' @ join_slash ys"
  by (induction xs rule: join_slash.induct) (auto simp: neq_Nil_conv)

lemma clean_segs_append: "clean_segs r st (xs @ ys) = clean_segs r (rev (clean_segs r st xs)) ys"
  by (induction r st xs rule: clean_segs.induct) (auto split: list.splits)

lemma clean_segs_no_dots:
  "''..'' \<notin> set xs \<Longrightarrow> clean_segs r st xs = rev st @ filter (\<lambda>x. x \<noteq> [] \<and> x \<noteq> ''.'') xs"
  by (induction xs arbitrary: st) auto

lemma clean_segs_skip: "y = [] \<or> y = ''.'' \<Longrightarrow> clean_segs r st (y # ys) = clean_segs r st ys"
  by (rule disjE) simp_all

lemma clean_segs_pop: "list_all plain_seg st \<Longrightarrow> clean_segs True st (''..'' # ys) = clean_segs True (tl st) ys"
  by (cases st) (simp_all add: plain_seg_def)

lemma clean_segs_plain:
  "list_all plain_seg st \<Longrightarrow> \<forall>x\<in>set xs. CHR ''/'' \<notin> set x \<Longrightarrow> list_all plain_seg (clean_segs True st xs)"
proof (induction xs arbitrary: st)
  case (Cons y ys)
  have ys: "\<forall>x\<in>set ys. CHR ''/'' \<notin> set x" "CHR ''/'' \<notin> set y"
    using Cons.prems(2) by simp_all
  have tl: "list_all plain_seg (tl st)"
    using Cons.prems(1) by (cases st) simp_all
  consider "y = [] \<or> y = ''.''" | "y = ''..''" | "y \<noteq> []" "y \<noteq> ''.''" "y \<noteq> ''..''" by blast
  then show ?case
  proof cases
    case 1
    then show ?thesis using Cons.IH [OF Cons.prems(1) ys(1)] by (simp only: clean_segs_skip)
  next
    case 2
    then show ?thesis using Cons.IH [OF tl ys(1)] by (simp only: clean_segs_pop [OF Cons.prems(1)])
  next
    case 3
    then have "plain_seg y" using ys(2) by (simp add: plain_seg_def)
    then have "list_all plain_seg (y # st)" using Cons.prems(1) by simp
    then show ?thesis using Cons.IH [of "y # st", OF _ ys(1)] 3 by simp
  qed
qed (simp add: list_all_iff)

lemma clean_segs_id: "\<forall>x\<in>set xs. plain_seg x \<Longrightarrow> clean_segs r st xs = rev st @ xs"
  by (induction xs arbitrary: st) (auto simp: plain_seg_def)

section \<open>Clean rooted paths\<close>

text \<open>A clean absolute path below the file system root: what \<open>Clean\<close> leaves unchanged.\<close>

definition clean_path :: "string \<Rightarrow> bool" where
  "clean_path p \<longleftrightarrow> HasPrefix p ''/'' \<and> p \<noteq> ''/'' \<and> path_Clean p = p"

lemma HasPrefix_one [simp]: "HasPrefix p [c] \<longleftrightarrow> p \<noteq> [] \<and> hd p = c"
  by (cases p) (auto simp: HasPrefix_def)

lemma rooted_Clean:
  "HasPrefix p ''/'' \<Longrightarrow> path_Clean p = CHR ''/'' # join_slash (clean_segs True [] (split_char CHR ''/'' p))"
  by (auto simp: path_Clean_def Let_def)

lemma clean_path_iff:
  "clean_path p \<longleftrightarrow> (\<exists>xs. xs \<noteq> [] \<and> (\<forall>x\<in>set xs. plain_seg x) \<and> p = CHR ''/'' # join_slash xs)"
proof
  assume "clean_path p"
  then have p: "p = CHR ''/'' # join_slash (clean_segs True [] (split_char CHR ''/'' p))" "p \<noteq> ''/''"
    by (auto simp: clean_path_def rooted_Clean)
  moreover have "list_all plain_seg (clean_segs True [] (split_char CHR ''/'' p))"
    by (rule clean_segs_plain) (auto dest: split_char_free)
  ultimately show "\<exists>xs. xs \<noteq> [] \<and> (\<forall>x\<in>set xs. plain_seg x) \<and> p = CHR ''/'' # join_slash xs"
    by (metis join_slash.simps(1) list_all_iff)
next
  assume "\<exists>xs. xs \<noteq> [] \<and> (\<forall>x\<in>set xs. plain_seg x) \<and> p = CHR ''/'' # join_slash xs"
  then obtain xs where xs: "xs \<noteq> []" "\<forall>x\<in>set xs. plain_seg x" and p: "p = CHR ''/'' # join_slash xs"
    by blast
  have "split_char CHR ''/'' p = [] # xs"
    using xs by (simp add: p split_join plain_seg_def)
  moreover have "join_slash xs \<noteq> []"
    using xs by (cases xs rule: join_slash.cases) (auto simp: plain_seg_def)
  ultimately show "clean_path p"
    using xs by (simp add: clean_path_def rooted_Clean p clean_segs_id)
qed

lemma join_inj:
  "xs \<noteq> [] \<Longrightarrow> ys \<noteq> [] \<Longrightarrow> \<forall>x\<in>set xs. CHR ''/'' \<notin> set x \<Longrightarrow> \<forall>x\<in>set ys. CHR ''/'' \<notin> set x
    \<Longrightarrow> join_slash xs = join_slash ys \<longleftrightarrow> xs = ys"
  by (metis split_join)

lemma path_segments_plain:
  "''..'' \<notin> set (split_char CHR ''/'' p) \<Longrightarrow> x \<in> set (path_segments p) \<Longrightarrow> plain_seg x"
  by (auto simp: path_segments_def plain_seg_def dest: split_char_free)

text \<open>Joining a clean root with a path free of dot-dot segments.\<close>

lemma Join_root:
  assumes "clean_path root" "''..'' \<notin> set (split_char CHR ''/'' p)"
  shows "path_Join root p = (if path_segments p = [] then root else root @ ''/'' @ join_slash (path_segments p))"
proof -
  obtain rs where rs: "rs \<noteq> []" "\<forall>x\<in>set rs. plain_seg x" and r: "root = CHR ''/'' # join_slash rs"
    using assms(1) clean_path_iff by blast
  have "split_char CHR ''/'' root = [] # rs"
    using rs by (simp add: r split_join plain_seg_def)
  then have "clean_segs True [] (split_char CHR ''/'' (root @ CHR ''/'' # p)) = rs @ path_segments p"
    using rs assms(2)
    by (simp add: split_char_sep clean_segs_append clean_segs_id clean_segs_no_dots path_segments_def)
  then have "path_Join root p = CHR ''/'' # join_slash (rs @ path_segments p)"
    by (simp add: path_Join_def r rooted_Clean)
  then show ?thesis
    using rs by (simp add: r join_append)
qed

section \<open>The parent is a smaller path\<close>

definition segs_weight :: "string list \<Rightarrow> nat" where
  "segs_weight xs = sum_list (map (\<lambda>x. Suc (length x)) xs)"

definition dir_rank :: "string \<Rightarrow> nat" where
  "dir_rank c = (if c = [] then 3 else 2 * length c + (if c = ''.'' then 0 else 1))"

lemma segs_weight_simps [simp]:
  "segs_weight [] = 0" "segs_weight (x # xs) = Suc (length x) + segs_weight xs"
  "segs_weight (xs @ ys) = segs_weight xs + segs_weight ys" "segs_weight (rev xs) = segs_weight xs"
  by (simp_all add: segs_weight_def rev_map [symmetric])

lemma length_join: "length (join_slash xs) = segs_weight xs - 1"
  by (induction xs rule: join_slash.induct) auto

lemma weight_split: "segs_weight (split_char c s) = Suc (length s)"
  by (induction s) (auto split: list.splits)

lemma weight_clean:
  "segs_weight (clean_segs r st xs) \<le> segs_weight st + segs_weight (filter (\<lambda>x. x \<noteq> []) xs)"
proof (induction xs arbitrary: st)
  case (Cons y ys)
  have IH: "segs_weight (clean_segs r st' ys) \<le> segs_weight st' + segs_weight (filter (\<lambda>x. x \<noteq> []) ys)" for st'
    by (rule Cons.IH)
  consider "y = []" | "y = ''.''" | "y = ''..''" | "y \<noteq> []" "y \<noteq> ''.''" "y \<noteq> ''..''" by blast
  then show ?case
  proof cases
    case 3
    show ?thesis
    proof (cases st)
      case Nil
      then show ?thesis using 3 IH [of "[]"] IH [of "[''..'']"] by (cases r) simp_all
    next
      case (Cons t ts)
      then show ?thesis using 3 IH [of ts] IH [of "''..'' # t # ts"] by (cases "t = ''..''") simp_all
    qed
  next
    case 4
    then show ?thesis using IH [of "y # st"] by simp
  qed (use IH [of st] in simp_all)
qed simp

lemma weight_no_empty:
  "segs_weight (filter (\<lambda>x. x \<noteq> []) xs) + length (filter (\<lambda>x. x = []) xs) = segs_weight xs"
  by (induction xs) auto

lemma length_Clean_slash:
  assumes "s = s0 @ ''/''" "s \<noteq> ''/''"
  shows "length (path_Clean s) < length s"
proof -
  have sp: "split_char CHR ''/'' s = split_char CHR ''/'' s0 @ [[]]"
    using split_char_sep [of "CHR ''/''" s0 "[]"] assms by simp
  have s0: "s0 \<noteq> []" using assms by auto
  let ?w = "segs_weight (clean_segs (HasPrefix s ''/'') [] (split_char CHR ''/'' s))"
  have w: "?w + length (filter (\<lambda>x. x = []) (split_char CHR ''/'' s)) \<le> Suc (length s)"
    using weight_clean [of "HasPrefix s ''/''" "[]" "split_char CHR ''/'' s"]
      weight_no_empty [of "split_char CHR ''/'' s"] by (simp add: weight_split)
  have "length (filter (\<lambda>x. x = []) (split_char CHR ''/'' s)) \<ge> (if HasPrefix s ''/'' then 2 else 1)"
  proof -
    have "HasPrefix s ''/'' \<longleftrightarrow> hd s0 = CHR ''/''" using s0 assms(1) by simp
    then show ?thesis unfolding sp using s0 by (cases s0) simp_all
  qed
  then have "?w \<le> (if HasPrefix s ''/'' then length s - 1 else length s)"
    using w by (auto split: if_splits)
  moreover have "length s \<ge> 2" using s0 assms(1) by (cases s0) auto
  ultimately show ?thesis
    by (auto simp: path_Clean_def Let_def length_join split: if_splits)
qed

lemma path_Dir_less: "path_Dir c \<noteq> c \<Longrightarrow> dir_rank (path_Dir c) < dir_rank c"
proof -
  assume ne: "path_Dir c \<noteq> c"
  define s where "s = rev (dropWhile (\<lambda>c. c \<noteq> CHR ''/'') (rev c))"
  obtain t where c: "c = s @ t"
    by (metis rev_append rev_rev_ident s_def takeWhile_dropWhile_id)
  have d: "path_Dir c = path_Clean s" by (simp add: path_Dir_def s_def)
  consider "s = []" | "s = ''/''" | s0 where "s = s0 @ ''/''" "s \<noteq> ''/''"
  proof -
    have "s \<noteq> [] \<Longrightarrow> last s = CHR ''/''"
      using hd_dropWhile [of "\<lambda>c. c \<noteq> CHR ''/''" "rev c"] by (simp add: s_def last_rev)
    then show ?thesis using that by (metis append_butlast_last_id)
  qed
  then show ?thesis
  proof cases
    case 1
    then have "path_Dir c = ''.''" by (simp add: d path_Clean_def)
    then show ?thesis using ne by (cases c) (auto simp: dir_rank_def)
  next
    case 2
    then have "path_Dir c = ''/''" by (simp add: d path_Clean_def)
    then show ?thesis using ne c 2 by (cases t) (auto simp: dir_rank_def)
  next
    case 3
    then have "length (path_Clean s) < length s" by (rule length_Clean_slash)
    then have "length (path_Dir c) < length c" unfolding d by (simp add: c)
    moreover have "path_Dir c \<noteq> []"
      by (auto simp: d path_Clean_def Let_def)
    moreover have "c \<noteq> ''.''" "c \<noteq> []" using 3(1) c by (cases s0; simp)+
    ultimately show ?thesis by (simp add: dir_rank_def)
  qed
qed

text \<open>The parent of a clean path drops its last segment.\<close>

lemma clean_path_split:
  assumes "clean_path p"
  obtains ys x where "p = CHR ''/'' # join_slash (ys @ [x])" "\<forall>y\<in>set ys. plain_seg y" "plain_seg x"
proof -
  obtain xs where xs: "xs \<noteq> []" "\<forall>x\<in>set xs. plain_seg x" "p = CHR ''/'' # join_slash xs"
    using assms clean_path_iff by blast
  then show thesis
    using that [of "butlast xs" "last xs"] by (simp add: in_set_butlastD)
qed

lemma plain_no_slash: "plain_seg x \<Longrightarrow> CHR ''/'' \<notin> set x"
  by (simp add: plain_seg_def)

lemma path_Dir_clean:
  assumes ys: "\<forall>y\<in>set ys. plain_seg y" and x: "plain_seg x"
  shows "path_Dir (CHR ''/'' # join_slash (ys @ [x])) = CHR ''/'' # join_slash ys"
proof -
  let ?pre = "if ys = [] then ''/'' else CHR ''/'' # join_slash ys @ ''/''"
  have "CHR ''/'' # join_slash (ys @ [x]) = ?pre @ x"
    by (simp add: join_append)
  moreover have "rev (dropWhile (\<lambda>c. c \<noteq> CHR ''/'') (rev (?pre @ x))) = ?pre"
  proof -
    have "dropWhile (\<lambda>c. c \<noteq> CHR ''/'') (rev x @ rev ?pre) = dropWhile (\<lambda>c. c \<noteq> CHR ''/'') (rev ?pre)"
      using plain_no_slash [OF x] by (subst dropWhile_append2) auto
    also have "\<dots> = rev ?pre" by simp
    finally show ?thesis by simp
  qed
  ultimately have d: "path_Dir (CHR ''/'' # join_slash (ys @ [x])) = path_Clean ?pre"
    by (simp only: path_Dir_def)
  show ?thesis
  proof (cases "ys = []")
    case False
    have "split_char CHR ''/'' (join_slash ys @ [CHR ''/'']) = ys @ [[]]"
      using False ys split_char_sep [of "CHR ''/''" "join_slash ys" "[]"] by (simp add: split_join plain_no_slash)
    then have "clean_segs True [] (split_char CHR ''/'' ?pre) = ys"
      using False clean_segs_id [OF ys, of True "[]"] by (simp add: clean_segs_append)
    then show ?thesis unfolding d using False by (subst rooted_Clean) simp_all
  next
    case True
    have "path_Clean ''/'' = ''/''" by (simp add: path_Clean_def)
    then show ?thesis unfolding d using True by simp
  qed
qed

lemma length_path_Dir:
  assumes "clean_path p"
  shows "length (path_Dir p) < length p"
proof -
  obtain ys x where p: "p = CHR ''/'' # join_slash (ys @ [x])" "\<forall>y\<in>set ys. plain_seg y" "plain_seg x"
    using assms by (rule clean_path_split)
  then show ?thesis
    by (cases x) (simp_all add: path_Dir_clean length_join plain_seg_def)
qed

end
