(* ===== verification/Go_Os.thy ===== *)
theory Go_Os
  imports Go_Path "HOL-Library.AList" "HOL-Library.State_Monad"
begin

text \<open>
  The file system calls of Go's \<^verbatim>\<open>os\<close> package that the backend makes, as state transformers of a disk.
  A disk is a finite map from clean absolute names to directories and files. Each call meets the next
  entry of a plan: it works, it fails, or the process crashes in it; after a crash no call has an
  effect. A failed or crashed write may have written a part of its bytes, a removal of a whole directory a part of its entries, and
  any other call that does not work has no effect, as a rename is atomic. A crash is one of the process, so what a call wrote
  stays written. A handle of an open file is the file's content when it was opened, since the backend
  never writes a file in place.
\<close>

section \<open>Disk, faults and the state\<close>

datatype node = Dir | File (bytes: string) (modTime: int)

type_synonym disk = "(string \<times> node) list"

datatype fault = Works | Fails nat | Crash nat | Down

record io =
  io_disk :: disk
  io_plan :: "fault list"
  io_rand :: "string list"
  io_now :: int

datatype os_error = NotExist | IOError

definition next_fault :: "(io, fault) state" where
  "next_fault = State (\<lambda>s. case io_plan s of
     [] \<Rightarrow> (Works, s)
   | Crash k # p \<Rightarrow> (Crash k, s\<lparr>io_plan := [Down]\<rparr>)
   | Down # p \<Rightarrow> (Down, s)
   | f # p \<Rightarrow> (f, s\<lparr>io_plan := p\<rparr>))"

definition os_call :: "(io \<Rightarrow> os_error + 'a \<times> disk) \<Rightarrow> (io, os_error + 'a) state" where
  "os_call f = do {
     ft \<leftarrow> next_fault;
     State (\<lambda>s. if ft = Works then (case f s of Inl e \<Rightarrow> (Inl e, s) | Inr (a, d) \<Rightarrow> (Inr a, s\<lparr>io_disk := d\<rparr>))
                else (Inl IOError, s)) }"

section \<open>Calls\<close>

text \<open>\<open>beneath p q\<close>: the chain of parents of \<open>q\<close> passes through \<open>p\<close>.\<close>

function beneath :: "string \<Rightarrow> string \<Rightarrow> bool" where
  "beneath p q = (if q = p then True else if path_Dir q = q then False else beneath p (path_Dir q))"
  by pat_completeness auto
termination
  by (relation "measure (\<lambda>(p, q). dir_rank q)") (auto intro: path_Dir_less)

declare beneath.simps [simp del]

definition os_Stat :: "string \<Rightarrow> (io, os_error + node) state" where
  "os_Stat p = os_call (\<lambda>s. case map_of (io_disk s) p of None \<Rightarrow> Inl NotExist | Some n \<Rightarrow> Inr (n, io_disk s))"

definition os_Open :: "string \<Rightarrow> (io, os_error + node) state" where
  "os_Open p = os_Stat p"

definition io_ReadAll :: "node \<Rightarrow> (io, os_error + string) state" where
  "io_ReadAll n = os_call (\<lambda>s. case n of Dir \<Rightarrow> Inl IOError | File b t \<Rightarrow> Inr (b, io_disk s))"

definition os_ReadFile :: "string \<Rightarrow> (io, os_error + string) state" where
  "os_ReadFile p = os_call (\<lambda>s. case map_of (io_disk s) p of
     None \<Rightarrow> Inl NotExist | Some Dir \<Rightarrow> Inl IOError | Some (File b t) \<Rightarrow> Inr (b, io_disk s))"

text \<open>The backend renames files only.\<close>

definition os_Rename :: "string \<Rightarrow> string \<Rightarrow> (io, os_error + unit) state" where
  "os_Rename a b = os_call (\<lambda>s. let d = io_disk s in case map_of d a of
     None \<Rightarrow> Inl NotExist
   | Some Dir \<Rightarrow> Inl IOError
   | Some (File x t) \<Rightarrow>
       if map_of d b = Some Dir then Inl IOError
       else if map_of d (path_Dir b) \<noteq> Some Dir then Inl NotExist
       else Inr ((), AList.update b (File x t) (AList.delete a d)))"

definition os_Remove :: "string \<Rightarrow> (io, os_error + unit) state" where
  "os_Remove p = os_call (\<lambda>s. let d = io_disk s in case map_of d p of
     None \<Rightarrow> Inl NotExist
   | Some Dir \<Rightarrow> if list_ex (\<lambda>(q, n). q \<noteq> p \<and> path_Dir q = p) d then Inl IOError else Inr ((), AList.delete p d)
   | Some (File b t) \<Rightarrow> Inr ((), AList.delete p d))"

text \<open>
  \<^verbatim>\<open>os.RemoveAll\<close> removes entry by entry, a directory after what is in it. A call that does not work has removed some of them:
  the binary digits of \<open>k\<close> say which entries it came to, and one whose own entries are not all gone stays.
\<close>

definition remove_some :: "nat \<Rightarrow> string \<Rightarrow> disk \<Rightarrow> disk" where
  "remove_some k p d = (let
     names = remdups (map fst (filter (\<lambda>(q, n). beneath p q) d));
     reached = map snd (filter (\<lambda>(i, q). odd (k div 2 ^ i)) (enumerate 0 names));
     gone = (\<lambda>q. list_all (\<lambda>q'. \<not> beneath q q' \<or> List.member reached q') names)
   in filter (\<lambda>(q, n). \<not> (beneath p q \<and> gone q)) d)"

definition os_RemoveAll :: "string \<Rightarrow> (io, os_error + unit) state" where
  "os_RemoveAll p = do {
     ft \<leftarrow> next_fault;
     State (\<lambda>s. case ft of
         Works \<Rightarrow> (Inr (), s\<lparr>io_disk := filter (\<lambda>(q, n). \<not> beneath p q) (io_disk s)\<rparr>)
       | Fails k \<Rightarrow> (Inl IOError, s\<lparr>io_disk := remove_some k p (io_disk s)\<rparr>)
       | Crash k \<Rightarrow> (Inl IOError, s\<lparr>io_disk := remove_some k p (io_disk s)\<rparr>)
       | Down \<Rightarrow> (Inl IOError, s)) }"

definition os_Create :: "string \<Rightarrow> (io, os_error + unit) state" where
  "os_Create p = os_call (\<lambda>s. let d = io_disk s in
     if map_of d p = Some Dir then Inl IOError
     else if map_of d (path_Dir p) \<noteq> Some Dir then Inl NotExist
     else Inr ((), AList.update p (File [] (io_now s)) d))"

text \<open>\<^verbatim>\<open>os.CreateTemp\<close> tries random names until one is free.\<close>

definition temp_name :: "string \<Rightarrow> string \<Rightarrow> string \<Rightarrow> string" where
  "temp_name dir prefix r = dir @ ''/'' @ prefix @ r"

definition os_CreateTemp :: "string \<Rightarrow> string \<Rightarrow> (io, os_error + string) state" where
  "os_CreateTemp dir prefix = os_call (\<lambda>s. let d = io_disk s in
     case find (\<lambda>r. map_of d (temp_name dir prefix r) = None) (io_rand s) of
       None \<Rightarrow> Inl IOError
     | Some r \<Rightarrow> if map_of d (path_Dir (temp_name dir prefix r)) \<noteq> Some Dir then Inl NotExist
         else Inr (temp_name dir prefix r, AList.update (temp_name dir prefix r) (File [] (io_now s)) d))"

text \<open>
  Writing the bytes of a new file through its handle; a write that does not work leaves a part of them.
  The bytes of a file that has lost its name are not on the disk.
\<close>

definition write_file :: "string \<Rightarrow> string \<Rightarrow> int \<Rightarrow> disk \<Rightarrow> disk" where
  "write_file p b now d = (case map_of d p of Some (File x t) \<Rightarrow> AList.update p (File b now) d | _ \<Rightarrow> d)"

definition os_Write :: "string \<Rightarrow> string \<Rightarrow> (io, os_error + unit) state" where
  "os_Write p b = do {
     ft \<leftarrow> next_fault;
     State (\<lambda>s. let put = (\<lambda>x. s\<lparr>io_disk := write_file p x (io_now s) (io_disk s)\<rparr>) in
       case ft of Works \<Rightarrow> (Inr (), put b) | Fails k \<Rightarrow> (Inl IOError, put (take k b))
       | Crash k \<Rightarrow> (Inl IOError, put (take k b)) | Down \<Rightarrow> (Inl IOError, s)) }"

text \<open>\<^verbatim>\<open>os.MkdirAll\<close> makes the missing directories from the top down.\<close>

definition ancestors :: "string \<Rightarrow> string list" where
  "ancestors p = (let segs = path_segments p; root = (if HasPrefix p ''/'' then ''/'' else []) in
     (if root = [] then [] else [root]) @ map (\<lambda>k. root @ join_slash (take (Suc k) segs)) [0..<length segs])"

definition os_Mkdir :: "string \<Rightarrow> (io, os_error + unit) state" where
  "os_Mkdir p = os_call (\<lambda>s. let d = io_disk s in case map_of d p of
     Some Dir \<Rightarrow> Inr ((), d)
   | Some (File b t) \<Rightarrow> Inl IOError
   | None \<Rightarrow> if p = ''/'' \<or> map_of d (path_Dir p) = Some Dir then Inr ((), AList.update p Dir d) else Inl NotExist)"

fun mkdir_chain :: "string list \<Rightarrow> (io, os_error + unit) state" where
  "mkdir_chain [] = State_Monad.return (Inr ())"
| "mkdir_chain (p # ps) = do {
     r \<leftarrow> os_Mkdir p;
     case r of Inl e \<Rightarrow> State_Monad.return (Inl e) | Inr _ \<Rightarrow> mkdir_chain ps }"

definition os_MkdirAll :: "string \<Rightarrow> (io, os_error + unit) state" where
  "os_MkdirAll p = mkdir_chain (ancestors p)"

end
