(* ===== verification/Filesystem.thy ===== *)
theory Filesystem
  imports Go_Os Storage_Backend
begin

text \<open>
  The filesystem backend, \<^verbatim>\<open>internal/storage/filesystem.go\<close> and \<^verbatim>\<open>filesystem_markers.go\<close>, on Unix: an
  object is a data file with a JSON sidecar of its metadata beside it, and \<open>FS_Put\<close> commits the pair
  through a staged sidecar that the next access repairs after a crash. Each operation is a state
  transformer of the disk with its fault plan. The root directory, the MD5 digest in hexadecimal, the
  JSON form of a string map and the size and time the system reports of a directory are parameters. The operations
  on a path run one after another. The path lock ensures that for the commit of \<open>FS_Put\<close>, \<open>FS_SetMetadata\<close> and the repair that a
  read begins with. The rest of a read, \<open>FS_Delete\<close> and the directory operations take no lock in the source, so interleavings of these with a
  put are outside the model; \<open>Filesystem_Props\<close> shows one of them from the parts of a deletion.
\<close>

section \<open>Parameters and paths\<close>

record fs_env =
  fe_root :: string
  fe_md5 :: "string \<Rightarrow> string"
  fe_json :: "smap \<Rightarrow> string"
  fe_unjson :: "string \<Rightarrow> smap option"
  fe_dirStat :: "string \<Rightarrow> int \<times> int"

definition ErrInvalidPath :: storage_error where
  "ErrInvalidPath = StorageError ''InvalidPath''"

definition isDriveQualifiedPath :: "string \<Rightarrow> bool" where
  "isDriveQualifiedPath path =
     (if length path < 2 \<or> path ! 1 \<noteq> CHR '':'' then False
      else (let first = path ! 0 in
        (CHR ''A'' \<le> first \<and> first \<le> CHR ''Z'') \<or> (CHR ''a'' \<le> first \<and> first \<le> CHR ''z'')))"

definition getFullPath :: "string \<Rightarrow> string \<Rightarrow> string" where
  "getFullPath root path = path_Join root path"

definition validatePath :: "string \<Rightarrow> string \<Rightarrow> bool" where
  "validatePath root path =
     (if path = [] then False
      else if str_contains path [char_of (92 :: nat)] then False
      else if HasPrefix path ''/'' \<or> HasPrefix path [char_of (92 :: nat)] then False
      else if isDriveQualifiedPath path then False
      else if list_ex (\<lambda>segment. segment = ''..'') (split_char CHR ''/'' path) then False
      else HasPrefix (path_Clean (path_Join root path)) (path_Clean root @ ''/''))"

definition metadataStagingSuffix :: string where
  "metadataStagingSuffix = ''-staging''"

definition getMetadataPath :: "string \<Rightarrow> string \<Rightarrow> string" where
  "getMetadataPath root path = getFullPath root path @ ''.metadata''"

definition getStagingMetadataPath :: "string \<Rightarrow> string \<Rightarrow> string" where
  "getStagingMetadataPath root path = getMetadataPath root path @ metadataStagingSuffix"

section \<open>Folder markers\<close>

text \<open>From \<open>current\<close> up to the root, every directory without a marker gets one.\<close>

function marker_loop :: "string \<Rightarrow> string \<Rightarrow> (io, unit) state" where
  "marker_loop root current =
     (if current = root \<or> current = path_Dir current then State_Monad.return ()
      else do {
        st \<leftarrow> os_Stat (path_Join current ''.maxiofs-folder'');
        _ \<leftarrow> (if st = Inl NotExist then os_Create (path_Join current ''.maxiofs-folder'') else State_Monad.return (Inr ()));
        marker_loop root (path_Dir current) })"
  by pat_completeness auto
termination
  by (relation "measure (\<lambda>(root, current). dir_rank current)") (auto intro: path_Dir_less)

declare marker_loop.simps [simp del]

definition ensureFolderMarkersInPath :: "string \<Rightarrow> string \<Rightarrow> (io, unit) state" where
  "ensureFolderMarkersInPath root dir =
     (if \<not> HasPrefix dir root then State_Monad.return () else marker_loop root dir)"

section \<open>Sidecars and the staged commit\<close>

definition repairStagedCommit :: "fs_env \<Rightarrow> string \<Rightarrow> (io, unit) state" where
  "repairStagedCommit env path = (let
     stagingPath = getStagingMetadataPath (fe_root env) path;
     fullPath = getFullPath (fe_root env) path;
     discard = (do { _ \<leftarrow> os_Remove stagingPath; State_Monad.return () })
   in do {
     data \<leftarrow> os_ReadFile stagingPath;
     case data of
       Inl _ \<Rightarrow> State_Monad.return ()
     | Inr b \<Rightarrow> (case fe_unjson env b of
         None \<Rightarrow> discard
       | Some staged \<Rightarrow>
           if map_get staged ''etag'' = [] then discard
           else do {
             info \<leftarrow> os_Stat fullPath;
             case info of
               Inl _ \<Rightarrow> discard
             | Inr Dir \<Rightarrow> discard
             | Inr (File stored t) \<Rightarrow>
                 if (case ParseInt (map_get staged ''size'') of None \<Rightarrow> False | Some n \<Rightarrow> n \<noteq> int (length stored)) then discard
                 else do {
                   f \<leftarrow> os_Open fullPath;
                   case f of
                     Inl _ \<Rightarrow> State_Monad.return ()
                   | Inr h \<Rightarrow> do {
                       c \<leftarrow> io_ReadAll h;
                       case c of
                         Inl _ \<Rightarrow> State_Monad.return ()
                       | Inr x \<Rightarrow>
                           if fe_md5 env x = map_get staged ''etag''
                           then do { _ \<leftarrow> os_Rename stagingPath (getMetadataPath (fe_root env) path); State_Monad.return () }
                           else discard } } }) })"

definition maybeRepair :: "fs_env \<Rightarrow> string \<Rightarrow> (io, unit) state" where
  "maybeRepair env path = do {
     st \<leftarrow> os_Stat (getStagingMetadataPath (fe_root env) path);
     case st of Inl _ \<Rightarrow> State_Monad.return () | Inr _ \<Rightarrow> repairStagedCommit env path }"

definition prepareMetadataTemp :: "fs_env \<Rightarrow> string \<Rightarrow> smap \<Rightarrow> (io, storage_error + string) state" where
  "prepareMetadataTemp env path metadata = (let dir = path_Dir (getMetadataPath (fe_root env) path) in do {
     r \<leftarrow> os_MkdirAll dir;
     case r of
       Inl _ \<Rightarrow> State_Monad.return (Inl (StorageError ''CreateMetadataDirectory''))
     | Inr _ \<Rightarrow> do {
         t \<leftarrow> os_CreateTemp dir ''.metadata-tmp-'';
         case t of
           Inl _ \<Rightarrow> State_Monad.return (Inl (StorageError ''CreateMetadataTempFile''))
         | Inr tempPath \<Rightarrow> do {
             w \<leftarrow> os_Write tempPath (fe_json env metadata);
             case w of
               Inl _ \<Rightarrow> State_Monad.return (Inl (StorageError ''WriteMetadata''))
             | Inr _ \<Rightarrow> State_Monad.return (Inr tempPath) } } })"

definition saveMetadata :: "fs_env \<Rightarrow> string \<Rightarrow> smap \<Rightarrow> (io, storage_error option) state" where
  "saveMetadata env path metadata = do {
     m \<leftarrow> prepareMetadataTemp env path metadata;
     case m of
       Inl e \<Rightarrow> State_Monad.return (Some e)
     | Inr tempPath \<Rightarrow> do {
         r \<leftarrow> os_Rename tempPath (getMetadataPath (fe_root env) path);
         _ \<leftarrow> os_Remove tempPath;
         State_Monad.return (case r of Inl _ \<Rightarrow> Some (StorageError ''AtomicMetadataMove'') | Inr _ \<Rightarrow> None) } }"

section \<open>Put\<close>

text \<open>
  The three renames: stage the sidecar, commit the data, commit the sidecar. The deferred removals of
  the temporary files run in the callers.
\<close>

definition put_renames :: "fs_env \<Rightarrow> string \<Rightarrow> string \<Rightarrow> string \<Rightarrow> (io, storage_error option) state" where
  "put_renames env path temp metadataTempPath = (let
     root = fe_root env; stagingPath = getStagingMetadataPath root path
   in do {
     r1 \<leftarrow> os_Rename metadataTempPath stagingPath;
     case r1 of
       Inl _ \<Rightarrow> State_Monad.return (Some (StorageError ''StageMetadata''))
     | Inr _ \<Rightarrow> do {
         r2 \<leftarrow> os_Rename temp (getFullPath root path);
         case r2 of
           Inl _ \<Rightarrow> do { _ \<leftarrow> os_Remove stagingPath; State_Monad.return (Some (StorageError ''AtomicMove'')) }
         | Inr _ \<Rightarrow> do {
             r3 \<leftarrow> os_Rename stagingPath (getMetadataPath root path);
             case r3 of
               Inl _ \<Rightarrow> State_Monad.return (Some (StorageError ''AtomicMetadataMove''))
             | Inr _ \<Rightarrow> State_Monad.return None } } })"

text \<open>The metadata of the data written: its size, digest and time replace what the caller gave.\<close>

definition stored_metadata :: "fs_env \<Rightarrow> string \<Rightarrow> int \<Rightarrow> smap \<Rightarrow> smap" where
  "stored_metadata env b now metadata =
     AList.update ''last_modified'' (show_int64 now)
       (AList.update ''etag'' (fe_md5 env b) (AList.update ''size'' (show_int64 (int (length b))) metadata))"

definition io_Copy :: "string \<Rightarrow> reader \<Rightarrow> (io, bool) state" where
  "io_Copy temp data = do {
     w \<leftarrow> os_Write temp (fst data);
     State_Monad.return (case w of Inl _ \<Rightarrow> False | Inr _ \<Rightarrow> snd data = None) }"

definition put_finish :: "fs_env \<Rightarrow> string \<Rightarrow> string \<Rightarrow> string \<Rightarrow> (io, storage_error option) state" where
  "put_finish env path temp metadataTempPath = do {
     r \<leftarrow> put_renames env path temp metadataTempPath;
     _ \<leftarrow> os_Remove metadataTempPath;
     State_Monad.return r }"

definition put_sidecar :: "fs_env \<Rightarrow> string \<Rightarrow> string \<Rightarrow> smap \<Rightarrow> (io, storage_error option) state" where
  "put_sidecar env path temp metadata = do {
     m \<leftarrow> prepareMetadataTemp env path metadata;
     case m of Inl e \<Rightarrow> State_Monad.return (Some e) | Inr metadataTempPath \<Rightarrow> put_finish env path temp metadataTempPath }"

definition put_commit :: "fs_env \<Rightarrow> string \<Rightarrow> string \<Rightarrow> reader \<Rightarrow> smap \<Rightarrow> (io, storage_error option) state" where
  "put_commit env path temp data metadata = do {
     copied \<leftarrow> io_Copy temp data;
     if \<not> copied then State_Monad.return (Some (StorageError ''WriteData''))
     else do {
       s \<leftarrow> State_Monad.get;
       _ \<leftarrow> repairStagedCommit env path;
       put_sidecar env path temp (stored_metadata env (fst data) (io_now s) metadata) } }"

definition put_in_dir :: "fs_env \<Rightarrow> string \<Rightarrow> reader \<Rightarrow> smap \<Rightarrow> (io, storage_error option) state" where
  "put_in_dir env path data metadata = (let dir = path_Dir (getFullPath (fe_root env) path) in do {
     _ \<leftarrow> ensureFolderMarkersInPath (fe_root env) dir;
     t \<leftarrow> os_CreateTemp dir ''.tmp_'';
     case t of
       Inl _ \<Rightarrow> State_Monad.return (Some (StorageError ''CreateTempFile''))
     | Inr temp \<Rightarrow> do {
         r \<leftarrow> put_commit env path temp data metadata;
         _ \<leftarrow> os_Remove temp;
         State_Monad.return r } })"

definition put_file :: "fs_env \<Rightarrow> string \<Rightarrow> reader \<Rightarrow> smap \<Rightarrow> (io, storage_error option) state" where
  "put_file env path data metadata = (let dir = path_Dir (getFullPath (fe_root env) path) in do {
     r \<leftarrow> os_MkdirAll dir;
     case r of
       Inl _ \<Rightarrow> State_Monad.return (Some (StorageError ''CreateDirectory''))
     | Inr _ \<Rightarrow> put_in_dir env path data metadata })"

text \<open>A folder marker: every file on the way is removed with its sidecar to make room for a directory.\<close>

fun files_to_dirs :: "string \<Rightarrow> string list \<Rightarrow> (io, unit) state" where
  "files_to_dirs currentPath [] = State_Monad.return ()"
| "files_to_dirs currentPath (part # parts) = (let
     currentPath = (if currentPath \<noteq> [] then path_Join currentPath part else part)
   in do {
     info \<leftarrow> os_Stat currentPath;
     _ \<leftarrow> (case info of
         Inr (File b t) \<Rightarrow> do { _ \<leftarrow> os_Remove currentPath; os_Remove (currentPath @ ''.metadata'') }
       | _ \<Rightarrow> State_Monad.return (Inr ()));
     files_to_dirs currentPath parts })"

definition put_folder :: "fs_env \<Rightarrow> string \<Rightarrow> smap \<Rightarrow> (io, storage_error option) state" where
  "put_folder env path metadata = (let
     fullPath = getFullPath (fe_root env) path;
     parts = split_char CHR ''/'' (TrimSuffix fullPath ''/'')
   in do {
     _ \<leftarrow> (if HasPrefix fullPath ''/'' then files_to_dirs (hd parts @ ''/'') (tl parts) else files_to_dirs [] parts);
     r \<leftarrow> os_MkdirAll fullPath;
     case r of
       Inl _ \<Rightarrow> State_Monad.return (Some (StorageError ''CreateDirectory''))
     | Inr _ \<Rightarrow> do {
         c \<leftarrow> os_Create (path_Join fullPath ''.maxiofs-folder'');
         case c of
           Inl _ \<Rightarrow> State_Monad.return (Some (StorageError ''CreateFolderMarker''))
         | Inr _ \<Rightarrow> do {
             s \<leftarrow> State_Monad.get;
             saveMetadata env path (AList.update ''content-type'' ''application/x-directory''
               (AList.update ''last_modified'' (show_int64 (io_now s))
                 (AList.update ''etag'' ''d41d8cd98f00b204e9800998ecf8427e'' (AList.update ''size'' ''0'' metadata)))) } } })"

definition FS_Put :: "fs_env \<Rightarrow> string \<Rightarrow> reader \<Rightarrow> smap \<Rightarrow> (io, storage_error option) state" where
  "FS_Put env path data metadata =
     (if \<not> validatePath (fe_root env) path then State_Monad.return (Some ErrInvalidPath)
      else if HasSuffix path ''/'' then put_folder env path metadata
      else put_file env path data metadata)"

section \<open>Reads\<close>

definition generateBasicMetadata :: "fs_env \<Rightarrow> string \<Rightarrow> (io, storage_error + smap) state" where
  "generateBasicMetadata env path = (let fullPath = getFullPath (fe_root env) path in do {
     stat \<leftarrow> os_Stat fullPath;
     case stat of
       Inl NotExist \<Rightarrow> State_Monad.return (Inl StorageNotFound)
     | Inl IOError \<Rightarrow> State_Monad.return (Inl (StorageError ''StatFile''))
     | Inr n \<Rightarrow> (let
         (size, mtime) = (case n of Dir \<Rightarrow> fe_dirStat env fullPath | File b t \<Rightarrow> (int (length b), t));
         metadata = [(''size'', show_int64 size), (''last_modified'', show_int64 mtime)]
       in do {
         file \<leftarrow> os_Open fullPath;
         case file of
           Inl _ \<Rightarrow> State_Monad.return (Inr metadata)
         | Inr h \<Rightarrow> do {
             c \<leftarrow> io_ReadAll h;
             State_Monad.return (Inr (case c of Inl _ \<Rightarrow> metadata
               | Inr x \<Rightarrow> AList.update ''etag'' (fe_md5 env x) metadata)) } }) })"

definition FS_GetMetadata :: "fs_env \<Rightarrow> string \<Rightarrow> (io, storage_error + smap) state" where
  "FS_GetMetadata env path =
     (if \<not> validatePath (fe_root env) path then State_Monad.return (Inl ErrInvalidPath)
      else (let metadataPath = getMetadataPath (fe_root env) path in do {
        _ \<leftarrow> maybeRepair env path;
        st \<leftarrow> os_Stat metadataPath;
        if st = Inl NotExist then generateBasicMetadata env path
        else do {
          data \<leftarrow> os_ReadFile metadataPath;
          State_Monad.return (case data of
            Inl _ \<Rightarrow> Inl (StorageError ''ReadMetadata'')
          | Inr b \<Rightarrow> (case fe_unjson env b of None \<Rightarrow> Inl (StorageError ''ParseMetadata'') | Some m \<Rightarrow> Inr m)) } }))"

text \<open>\<^verbatim>\<open>Get\<close>: the open file first, its metadata second.\<close>

definition get_open :: "fs_env \<Rightarrow> string \<Rightarrow> (io, storage_error + node) state" where
  "get_open env path =
     (if \<not> validatePath (fe_root env) path then State_Monad.return (Inl ErrInvalidPath)
      else (let fullPath = getFullPath (fe_root env) path in do {
        _ \<leftarrow> maybeRepair env path;
        st \<leftarrow> os_Stat fullPath;
        case st of
          Inl NotExist \<Rightarrow> State_Monad.return (Inl StorageNotFound)
        | Inl IOError \<Rightarrow> State_Monad.return (Inl (StorageError ''StatFile''))
        | Inr _ \<Rightarrow> do {
            file \<leftarrow> os_Open fullPath;
            State_Monad.return (case file of Inl _ \<Rightarrow> Inl (StorageError ''OpenFile'') | Inr h \<Rightarrow> Inr h) } }))"

definition FS_Get :: "fs_env \<Rightarrow> string \<Rightarrow> (io, storage_error + node \<times> smap) state" where
  "FS_Get env path = do {
     file \<leftarrow> get_open env path;
     case file of
       Inl e \<Rightarrow> State_Monad.return (Inl e)
     | Inr h \<Rightarrow> do {
         metadata \<leftarrow> FS_GetMetadata env path;
         State_Monad.return (case metadata of Inl e \<Rightarrow> Inl e | Inr m \<Rightarrow> Inr (h, m)) } }"

definition FS_Exists :: "fs_env \<Rightarrow> string \<Rightarrow> (io, storage_error + bool) state" where
  "FS_Exists env path =
     (if \<not> validatePath (fe_root env) path then State_Monad.return (Inl ErrInvalidPath)
      else do {
        st \<leftarrow> os_Stat (getFullPath (fe_root env) path);
        State_Monad.return (case st of Inl NotExist \<Rightarrow> Inr False | Inl IOError \<Rightarrow> Inl (StorageError ''StatFile'') | Inr _ \<Rightarrow> Inr True) })"

section \<open>Other writes\<close>

definition FS_SetMetadata :: "fs_env \<Rightarrow> string \<Rightarrow> smap \<Rightarrow> (io, storage_error option) state" where
  "FS_SetMetadata env path metadata =
     (if \<not> validatePath (fe_root env) path then State_Monad.return (Some ErrInvalidPath)
      else do { _ \<leftarrow> repairStagedCommit env path; saveMetadata env path metadata })"

text \<open>The removal is tried up to five times.\<close>

fun remove_retry :: "nat \<Rightarrow> string \<Rightarrow> (io, bool) state" where
  "remove_retry 0 p = State_Monad.return False"
| "remove_retry (Suc n) p = do {
     r \<leftarrow> os_Remove p;
     case r of Inl _ \<Rightarrow> remove_retry n p | Inr _ \<Rightarrow> State_Monad.return True }"

definition delete_sidecars :: "fs_env \<Rightarrow> string \<Rightarrow> (io, storage_error option) state" where
  "delete_sidecars env path = (let metadataPath = getMetadataPath (fe_root env) path in do {
     st \<leftarrow> os_Stat metadataPath;
     _ \<leftarrow> (case st of Inl _ \<Rightarrow> State_Monad.return (Inr ()) | Inr _ \<Rightarrow> os_Remove metadataPath);
     _ \<leftarrow> os_Remove (getStagingMetadataPath (fe_root env) path);
     State_Monad.return None })"

definition FS_Delete :: "fs_env \<Rightarrow> string \<Rightarrow> (io, storage_error option) state" where
  "FS_Delete env path =
     (if \<not> validatePath (fe_root env) path then State_Monad.return (Some ErrInvalidPath)
      else (let fullPath = getFullPath (fe_root env) path in do {
        info \<leftarrow> os_Stat fullPath;
        case info of
          Inl NotExist \<Rightarrow> State_Monad.return (Some StorageNotFound)
        | Inl IOError \<Rightarrow> State_Monad.return (Some (StorageError ''StatFile''))
        | Inr Dir \<Rightarrow> do {
            r \<leftarrow> os_RemoveAll fullPath;
            case r of Inl _ \<Rightarrow> State_Monad.return (Some (StorageError ''DeleteDirectory'')) | Inr _ \<Rightarrow> delete_sidecars env path }
        | Inr (File b t) \<Rightarrow> do {
            ok \<leftarrow> remove_retry 5 fullPath;
            if \<not> ok then State_Monad.return (Some (StorageError ''DeleteFile'')) else delete_sidecars env path } }))"

definition FS_RemoveDirectory :: "fs_env \<Rightarrow> string \<Rightarrow> (io, storage_error option) state" where
  "FS_RemoveDirectory env path =
     (if \<not> validatePath (fe_root env) path then State_Monad.return (Some ErrInvalidPath)
      else (let fullPath = getFullPath (fe_root env) path in do {
        info \<leftarrow> os_Stat fullPath;
        case info of
          Inl NotExist \<Rightarrow> State_Monad.return None
        | Inl IOError \<Rightarrow> State_Monad.return (Some (StorageError ''StatDirectory''))
        | Inr (File b t) \<Rightarrow> State_Monad.return (Some (StorageError ''path is not a directory''))
        | Inr Dir \<Rightarrow> do {
            r \<leftarrow> os_RemoveAll fullPath;
            State_Monad.return (case r of Inl _ \<Rightarrow> Some (StorageError ''RemoveDirectory'') | Inr _ \<Rightarrow> None) } }))"

section \<open>Listing\<close>

text \<open>
  \<^verbatim>\<open>filepath.Walk\<close> visits what is below its root in the lexical order of the path segments; the names and
  nodes are those of the disk at its start. \<open>list_visit\<close> is the function it calls on each, with the
  entry to append, and \<open>list_walk\<close> the whole walk.
\<close>

definition walk_entries :: "disk \<Rightarrow> string \<Rightarrow> (string \<times> node) list" where
  "walk_entries d searchPath =
     sort_key (\<lambda>(p, n). path_segments p) (filter (\<lambda>(p, n). beneath searchPath p) (AList.clearjunk d))"

definition path_Rel :: "string \<Rightarrow> string \<Rightarrow> string" where
  "path_Rel root p = (if p = root then ''.'' else drop (length root + 1) p)"

definition count_slashes :: "string \<Rightarrow> nat" where
  "count_slashes s = length (filter (\<lambda>c. c = CHR ''/'') s)"

definition list_folder :: "fs_env \<Rightarrow> string \<Rightarrow> bool \<Rightarrow> string \<Rightarrow> string \<Rightarrow> (io, object_info list) state" where
  "list_folder env prefix recursive path relPath = do {
     mk \<leftarrow> os_Stat (path_Join path ''.maxiofs-folder'');
     case mk of
       Inl _ \<Rightarrow> State_Monad.return []
     | Inr _ \<Rightarrow> (let folderPath = (if HasSuffix relPath ''/'' then relPath else relPath @ ''/'') in do {
         md \<leftarrow> os_Stat (path_Join path ''.maxiofs-folder.metadata'');
         case md of
           Inl _ \<Rightarrow> State_Monad.return []
         | Inr _ \<Rightarrow>
             if \<not> recursive \<and> count_slashes (TrimPrefix folderPath prefix) > 1 then State_Monad.return []
             else do {
               m \<leftarrow> FS_GetMetadata env folderPath;
               State_Monad.return [\<lparr>oi_Path = folderPath, oi_Size = 0, oi_LastModified = snd (fe_dirStat env path),
                 oi_ETag = ''d41d8cd98f00b204e9800998ecf8427e'', oi_Metadata = (case m of Inl _ \<Rightarrow> [] | Inr x \<Rightarrow> x)\<rparr>] } }) }"

definition list_visit :: "fs_env \<Rightarrow> string \<Rightarrow> bool \<Rightarrow> string \<times> node \<Rightarrow> (io, object_info list) state" where
  "list_visit env prefix recursive entry = (case entry of (path, n) \<Rightarrow>
     if HasSuffix path ''.metadata'' \<or> HasSuffix path (''.metadata'' @ metadataStagingSuffix) then State_Monad.return []
     else if HasSuffix path ''.maxiofs-folder'' then State_Monad.return []
     else (let relPath = path_Rel (fe_root env) path in
       if \<not> HasPrefix relPath prefix then State_Monad.return []
       else (case n of
         Dir \<Rightarrow> list_folder env prefix recursive path relPath
       | File b t \<Rightarrow>
           if \<not> recursive \<and> str_contains (TrimPrefix relPath prefix) ''/'' then State_Monad.return []
           else do {
             m \<leftarrow> FS_GetMetadata env relPath;
             State_Monad.return [\<lparr>oi_Path = relPath, oi_Size = int (length b), oi_LastModified = t,
               oi_ETag = (case m of Inl _ \<Rightarrow> [] | Inr x \<Rightarrow> map_get x ''etag''),
               oi_Metadata = (case m of Inl _ \<Rightarrow> [] | Inr x \<Rightarrow> x)\<rparr>] })))"

fun list_walk :: "fs_env \<Rightarrow> string \<Rightarrow> bool \<Rightarrow> (string \<times> node) list \<Rightarrow> (io, object_info list) state" where
  "list_walk env prefix recursive [] = State_Monad.return []"
| "list_walk env prefix recursive (entry # entries) = do {
     x \<leftarrow> list_visit env prefix recursive entry;
     xs \<leftarrow> list_walk env prefix recursive entries;
     State_Monad.return (x @ xs) }"

definition FS_List :: "fs_env \<Rightarrow> string \<Rightarrow> bool \<Rightarrow> (io, storage_error + object_info list) state" where
  "FS_List env prefix recursive =
     (if prefix \<noteq> [] \<and> \<not> validatePath (fe_root env) prefix then State_Monad.return (Inl ErrInvalidPath)
      else do {
        s \<leftarrow> State_Monad.get;
        xs \<leftarrow> list_walk env prefix recursive (walk_entries (io_disk s) (getFullPath (fe_root env) prefix));
        State_Monad.return (Inr xs) })"

section \<open>Sequences of calls\<close>

text \<open>An operation, run by a process that may be a restarted one: the plan of faults is set for each call.\<close>

datatype fs_op =
    OpPut string reader smap
  | OpGet string
  | OpExists string
  | OpList string bool
  | OpGetMetadata string
  | OpSetMetadata string smap
  | OpDelete string
  | OpRemoveDirectory string

definition drop_result :: "(io, 'a) state \<Rightarrow> (io, unit) state" where
  "drop_result m = do { _ \<leftarrow> m; State_Monad.return () }"

fun fs_exec :: "fs_env \<Rightarrow> fs_op \<Rightarrow> (io, unit) state" where
  "fs_exec env (OpPut path data m) = drop_result (FS_Put env path data m)"
| "fs_exec env (OpGet path) = drop_result (FS_Get env path)"
| "fs_exec env (OpExists path) = drop_result (FS_Exists env path)"
| "fs_exec env (OpList prefix recursive) = drop_result (FS_List env prefix recursive)"
| "fs_exec env (OpGetMetadata path) = drop_result (FS_GetMetadata env path)"
| "fs_exec env (OpSetMetadata path m) = drop_result (FS_SetMetadata env path m)"
| "fs_exec env (OpDelete path) = drop_result (FS_Delete env path)"
| "fs_exec env (OpRemoveDirectory path) = drop_result (FS_RemoveDirectory env path)"

fun fs_run :: "fs_env \<Rightarrow> (fs_op \<times> fault list) list \<Rightarrow> io \<Rightarrow> io" where
  "fs_run env [] s = s"
| "fs_run env ((op, plan) # ops) s = fs_run env ops (snd (run_state (fs_exec env op) (s\<lparr>io_plan := plan\<rparr>)))"

end
