(* ===== verification/Filesystem_Props.thy ===== *)
theory Filesystem_Props
  imports Filesystem
begin

text \<open>
  Properties of the filesystem backend. Triples over the disk carry a sequence of calls through every
  fault: \<open>hoare R N P m Q\<close> says that from a disk with \<open>P\<close> the call \<open>m\<close> ends in a result and a disk with
  \<open>Q\<close>, whatever the plan of faults is. With them an interrupted put leaves the old pair or the new one.
\<close>

section \<open>Triples\<close>

definition hoare :: "string list \<Rightarrow> int \<Rightarrow> ((string \<rightharpoonup> node) \<Rightarrow> bool) \<Rightarrow> (io, 'a) state
    \<Rightarrow> ('a \<Rightarrow> (string \<rightharpoonup> node) \<Rightarrow> bool) \<Rightarrow> bool" where
  "hoare R N P m Q \<longleftrightarrow> (\<forall>s. io_rand s = R \<and> io_now s = N \<and> P (map_of (io_disk s)) \<longrightarrow>
     (case run_state m s of (a, s') \<Rightarrow> io_rand s' = R \<and> io_now s' = N \<and> Q a (map_of (io_disk s'))))"

lemma hoareD:
  assumes "hoare R N P m Q" "io_rand s = R" "io_now s = N" "P (map_of (io_disk s))" "run_state m s = (a, s')"
  shows "io_rand s' = R" "io_now s' = N" "Q a (map_of (io_disk s'))"
  using assms unfolding hoare_def by fastforce+

lemma hoareI:
  assumes "\<And>s a s'. io_rand s = R \<Longrightarrow> io_now s = N \<Longrightarrow> P (map_of (io_disk s)) \<Longrightarrow> run_state m s = (a, s')
      \<Longrightarrow> io_rand s' = R \<and> io_now s' = N \<and> Q a (map_of (io_disk s'))"
  shows "hoare R N P m Q"
  using assms unfolding hoare_def by (auto split: prod.splits)

lemma hoare_return: "(\<And>d. P d \<Longrightarrow> Q a d) \<Longrightarrow> hoare R N P (State_Monad.return a) Q"
  by (rule hoareI) auto

lemma hoare_bind:
  assumes "hoare R N P m Q" "\<And>a. hoare R N (Q a) (f a) T"
  shows "hoare R N P (State_Monad.bind m f) T"
proof (rule hoareI)
  fix s a s'
  assume s: "io_rand s = R" "io_now s = N" "P (map_of (io_disk s))" and r: "run_state (State_Monad.bind m f) s = (a, s')"
  obtain b t where b: "run_state m s = (b, t)" by fastforce
  have "run_state (f b) t = (a, s')" using r b by simp
  then show "io_rand s' = R \<and> io_now s' = N \<and> T a (map_of (io_disk s'))"
    using hoareD [OF assms(1) s b] hoareD [OF assms(2) [of b]] by blast
qed

lemma hoare_post: "hoare R N P m Q \<Longrightarrow> (\<And>a d. Q a d \<Longrightarrow> Q' a d) \<Longrightarrow> hoare R N P m Q'"
  unfolding hoare_def by fastforce

lemma hoare_pre: "hoare R N P m Q \<Longrightarrow> (\<And>d. P' d \<Longrightarrow> P d) \<Longrightarrow> hoare R N P' m Q"
  unfolding hoare_def by fastforce

lemma hoare_sum:
  assumes "\<And>e. r = Inl e \<Longrightarrow> hoare R N P (f e) Q" "\<And>x. r = Inr x \<Longrightarrow> hoare R N P (g x) Q"
  shows "hoare R N P (case r of Inl e \<Rightarrow> f e | Inr x \<Rightarrow> g x) Q"
  using assms by (cases r) auto

lemma hoare_fact: "(\<And>d. P d \<Longrightarrow> H) \<Longrightarrow> (H \<Longrightarrow> hoare R N P m Q) \<Longrightarrow> hoare R N P m Q"
  unfolding hoare_def by fastforce

section \<open>One rule per call\<close>

lemma hoare_os_call:
  assumes "\<And>d. P d \<Longrightarrow> Q (Inl IOError) d"
    and "\<And>s e. io_rand s = R \<Longrightarrow> io_now s = N \<Longrightarrow> P (map_of (io_disk s)) \<Longrightarrow> f s = Inl e \<Longrightarrow> Q (Inl e) (map_of (io_disk s))"
    and "\<And>s a d'. io_rand s = R \<Longrightarrow> io_now s = N \<Longrightarrow> P (map_of (io_disk s)) \<Longrightarrow> f s = Inr (a, d') \<Longrightarrow> Q (Inr a) (map_of d')"
  shows "hoare R N P (os_call f) Q"
proof (rule hoareI)
  fix s a s'
  assume s: "io_rand s = R" "io_now s = N" "P (map_of (io_disk s))" and r: "run_state (os_call f) s = (a, s')"
  obtain ft u where u: "run_state next_fault s = (ft, u)" by fastforce
  then have same: "io_rand u = R" "io_now u = N" "io_disk u = io_disk s"
    using s by (auto simp: next_fault_def split: list.splits fault.splits)
  have "(if ft = Works then (case f u of Inl e \<Rightarrow> (Inl e, u) | Inr (a, d) \<Rightarrow> (Inr a, u\<lparr>io_disk := d\<rparr>)) else (Inl IOError, u)) = (a, s')"
    using r u by (simp add: os_call_def)
  then show "io_rand s' = R \<and> io_now s' = N \<and> Q a (map_of (io_disk s'))"
    using same s assms(1) assms(2,3) [of u] by (auto split: if_splits sum.splits prod.splits)
qed

lemma hoare_Stat:
  "hoare R N P (os_Stat p) (\<lambda>r d. P d \<and> (case r of Inl e \<Rightarrow> e = NotExist \<longrightarrow> d p = None | Inr n \<Rightarrow> d p = Some n))"
  unfolding os_Stat_def by (rule hoare_os_call) (auto split: option.splits)

lemma hoare_ReadAll: "hoare R N P (io_ReadAll n) (\<lambda>r d. P d)"
  unfolding io_ReadAll_def by (rule hoare_os_call) (auto split: node.splits)

lemma hoare_ReadFile:
  "hoare R N P (os_ReadFile p) (\<lambda>r d. P d \<and> (case r of Inl _ \<Rightarrow> True | Inr b \<Rightarrow> d p \<noteq> None))"
  unfolding os_ReadFile_def by (rule hoare_os_call) (auto split: option.splits node.splits)

lemma hoare_Rename:
  "hoare R N P (os_Rename a b) (\<lambda>r d'. case r of Inl _ \<Rightarrow> P d'
     | Inr _ \<Rightarrow> (\<exists>d x. P d \<and> d a = Some x \<and> d' = d(a := None, b := Some x)))"
  unfolding os_Rename_def
proof (rule hoare_os_call)
  fix s x d'
  assume P: "P (map_of (io_disk s))"
    and r: "(let d = io_disk s in case map_of d a of None \<Rightarrow> Inl NotExist | Some Dir \<Rightarrow> Inl IOError
      | Some (File x t) \<Rightarrow> if map_of d b = Some Dir then Inl IOError
          else if map_of d (path_Dir b) \<noteq> Some Dir then Inl NotExist
          else Inr ((), AList.update b (File x t) (AList.delete a d))) = Inr (x, d')"
  then obtain c t where "map_of (io_disk s) a = Some (File c t)" "d' = AList.update b (File c t) (AList.delete a (io_disk s))"
    by (auto simp: Let_def split: option.splits node.splits if_splits)
  then show "case Inr x of Inl _ \<Rightarrow> P (map_of d')
     | Inr _ \<Rightarrow> (\<exists>d x. P d \<and> d a = Some x \<and> map_of d' = d(a := None, b := Some x))"
    using P by (auto simp: update_conv' delete_conv')
qed auto

lemma hoare_Remove: "hoare R N P (os_Remove p) (\<lambda>r d'. P d' \<or> (\<exists>d. P d \<and> d' = d(p := None)))"
  unfolding os_Remove_def
  by (rule hoare_os_call) (auto simp: Let_def delete_conv' split: option.splits node.splits if_splits)

lemma hoare_Create: "hoare R N P (os_Create p) (\<lambda>r d'. P d' \<or> (\<exists>d. P d \<and> d' = d(p := Some (File [] N))))"
  unfolding os_Create_def by (rule hoare_os_call) (auto simp: Let_def update_conv' split: if_splits)

lemma hoare_CreateTemp:
  "hoare R N P (os_CreateTemp dir pre) (\<lambda>r d'. case r of Inl _ \<Rightarrow> P d'
     | Inr T \<Rightarrow> (\<exists>d x. x \<in> set R \<and> T = temp_name dir pre x \<and> P d \<and> d T = None \<and> d' = d(T := Some (File [] N))))"
  unfolding os_CreateTemp_def
proof (rule hoare_os_call)
  fix s a d'
  assume s: "io_rand s = R" "io_now s = N" "P (map_of (io_disk s))"
    and r: "(let d = io_disk s in case find (\<lambda>r. map_of d (temp_name dir pre r) = None) (io_rand s) of
        None \<Rightarrow> Inl IOError
      | Some r \<Rightarrow> if map_of d (path_Dir (temp_name dir pre r)) \<noteq> Some Dir then Inl NotExist
          else Inr (temp_name dir pre r, AList.update (temp_name dir pre r) (File [] (io_now s)) d)) = Inr (a, d')"
  then obtain x where f: "find (\<lambda>r. map_of (io_disk s) (temp_name dir pre r) = None) (io_rand s) = Some x"
    and x: "a = temp_name dir pre x" "d' = AList.update a (File [] N) (io_disk s)"
    by (auto simp: Let_def split: option.splits if_splits)
  have "x \<in> set R" "map_of (io_disk s) a = None"
    using f s(1) x(1) by (auto simp: find_Some_iff)
  then show "case Inr a of Inl _ \<Rightarrow> P (map_of d')
     | Inr T \<Rightarrow> (\<exists>d x. x \<in> set R \<and> T = temp_name dir pre x \<and> P d \<and> d T = None \<and> map_of d' = d(T := Some (File [] N)))"
    using s(3) x by (auto simp: update_conv')
qed (auto simp: Let_def split: option.splits if_splits)

lemma hoare_Write:
  "hoare R N P (os_Write p b) (\<lambda>r d'. \<exists>d. P d \<and> (d' = d \<and> (r = Inr () \<longrightarrow> (\<forall>x t. d p \<noteq> Some (File x t))) \<or>
     (\<exists>x. d' = d(p := Some (File x N)) \<and> (r = Inr () \<longrightarrow> x = b) \<and> (\<exists>y t. d p = Some (File y t)))))"
proof (rule hoareI)
  fix s a s'
  assume s: "io_rand s = R" "io_now s = N" "P (map_of (io_disk s))" and r: "run_state (os_Write p b) s = (a, s')"
  obtain ft u where u: "run_state next_fault s = (ft, u)" by fastforce
  then have same: "io_rand u = R" "io_now u = N" "io_disk u = io_disk s"
    using s by (auto simp: next_fault_def split: list.splits fault.splits)
  then have s': "io_rand s' = R" "io_now s' = N" "io_disk s' = io_disk s \<and> a \<noteq> Inr () \<or>
      (\<exists>x. io_disk s' = write_file p x N (io_disk s) \<and> (a = Inr () \<longrightarrow> x = b))"
    using r u by (cases ft; auto simp: os_Write_def Let_def)+
  let ?d = "map_of (io_disk s)"
  have "map_of (write_file p x N (io_disk s)) = ?d \<and> (\<forall>x t. ?d p \<noteq> Some (File x t)) \<or>
      map_of (write_file p x N (io_disk s)) = ?d(p := Some (File x N)) \<and> (\<exists>y t. ?d p = Some (File y t))" for x
    by (auto simp: write_file_def update_conv' split: option.splits node.splits)
  with s' have "map_of (io_disk s') = ?d \<and> (a = Inr () \<longrightarrow> (\<forall>x t. ?d p \<noteq> Some (File x t))) \<or>
      (\<exists>x. map_of (io_disk s') = ?d(p := Some (File x N)) \<and> (a = Inr () \<longrightarrow> x = b) \<and> (\<exists>y t. ?d p = Some (File y t)))"
    by metis
  with s'(1,2) s(3) show "io_rand s' = R \<and> io_now s' = N \<and> (\<exists>d. P d \<and> (map_of (io_disk s') = d \<and> (a = Inr () \<longrightarrow> (\<forall>x t. d p \<noteq> Some (File x t))) \<or>
     (\<exists>x. map_of (io_disk s') = d(p := Some (File x N)) \<and> (a = Inr () \<longrightarrow> x = b) \<and> (\<exists>y t. d p = Some (File y t)))))"
    by blast
qed

lemma hoare_Mkdir: "hoare R N P (os_Mkdir p) (\<lambda>r d'. P d' \<or> (\<exists>d. P d \<and> d p = None \<and>
    (p = ''/'' \<or> d (path_Dir p) = Some Dir) \<and> d' = d(p := Some Dir)))"
  unfolding os_Mkdir_def
  by (rule hoare_os_call) (auto simp: Let_def update_conv' split: option.splits node.splits if_splits)

section \<open>What a call keeps\<close>

text \<open>
  \<open>agrees X e d\<close>: the disk \<open>d\<close> has at the names \<open>X\<close> what \<open>e\<close> has. A set of names is solid when every
  name in it that is not one of \<open>own\<close> is taken, so that a call that only adds names keeps it.
\<close>

definition agrees :: "string set \<Rightarrow> (string \<rightharpoonup> node) \<Rightarrow> (string \<rightharpoonup> node) \<Rightarrow> bool" where
  "agrees X e d \<longleftrightarrow> (\<forall>q\<in>X. d q = e q)"

definition solid :: "string set \<Rightarrow> string set \<Rightarrow> (string \<rightharpoonup> node) \<Rightarrow> bool" where
  "solid own X e \<longleftrightarrow> (\<forall>q\<in>X. q \<in> own \<or> e q \<noteq> None)"

lemma agrees_upd: "agrees X e d \<Longrightarrow> agrees X (e(a := v)) (d(a := v))"
  by (auto simp: agrees_def)

lemma agrees_other: "agrees X e d \<Longrightarrow> a \<notin> X \<Longrightarrow> agrees X e (d(a := v))"
  by (auto simp: agrees_def)

lemma agrees_insert: "agrees X e d \<Longrightarrow> agrees (insert a X) (e(a := v)) (d(a := v))"
  by (auto simp: agrees_def)

lemma solid_fresh: "solid own X e \<Longrightarrow> agrees X e d \<Longrightarrow> d p = None \<Longrightarrow> p \<notin> own \<Longrightarrow> p \<notin> X"
  by (auto simp: agrees_def solid_def)

lemma solid_insert: "solid own X e \<Longrightarrow> solid own (insert a X) (e(a := Some n))"
  by (auto simp: solid_def)

lemma keep_Remove: "p \<notin> X \<Longrightarrow> hoare R N (agrees X e) (os_Remove p) (\<lambda>r. agrees X e)"
  by (rule hoare_post [OF hoare_Remove]) (auto intro: agrees_other)

lemma keep_mkdir_chain:
  assumes "solid own X e" "\<forall>p\<in>set ps. p \<notin> own"
  shows "hoare R N (agrees X e) (mkdir_chain ps) (\<lambda>r. agrees X e)"
  using assms(2)
proof (induction ps)
  case Nil
  show ?case by (simp add: hoare_return)
next
  case (Cons p ps)
  have "hoare R N (agrees X e) (os_Mkdir p) (\<lambda>r. agrees X e)"
    using Cons.prems solid_fresh [OF assms(1)]
    by (intro hoare_post [OF hoare_Mkdir]) (auto intro: agrees_other)
  moreover have "hoare R N (agrees X e) (mkdir_chain ps) (\<lambda>r. agrees X e)"
    using Cons by simp
  ultimately show ?case
    by (auto intro!: hoare_bind hoare_sum hoare_return)
qed

lemma keep_MkdirAll:
  assumes "solid own X e" "\<forall>p\<in>set (ancestors dir). p \<notin> own"
  shows "hoare R N (agrees X e) (os_MkdirAll dir) (\<lambda>r. agrees X e)"
  unfolding os_MkdirAll_def by (rule keep_mkdir_chain [OF assms])

definition marker :: string where
  "marker = ''.maxiofs-folder''"

lemma Join_suffix:
  assumes "plain_seg x"
  shows "HasSuffix (path_Join c x) x"
proof -
  have x: "split_char CHR ''/'' x = [x]" using assms by (simp add: plain_seg_def split_char_none)
  have last: "clean_segs r st (xs @ [x]) = clean_segs r st xs @ [x]" for r st xs
    using assms by (simp add: clean_segs_append plain_seg_def)
  have join: "HasSuffix (join_slash (xs @ [x])) x" for xs
    by (cases "xs = []") (auto simp: join_append HasSuffix_iff)
  have "HasSuffix (path_Clean (c @ ''/'' @ x)) x"
  proof -
    have "clean_segs r [] (split_char CHR ''/'' (c @ ''/'' @ x)) = clean_segs r [] (split_char CHR ''/'' c) @ [x]" for r
      using split_char_sep [of "CHR ''/''" c x] by (simp add: x last)
    moreover have "join_slash (ys @ [x]) \<noteq> []" for ys
      using assms by (cases "ys = []") (auto simp: join_append plain_seg_def)
    moreover have "HasSuffix t x \<Longrightarrow> HasSuffix (CHR ''/'' # t) x" for t
      by (metis HasSuffix_iff append_Cons)
    ultimately show ?thesis
      using join by (simp add: path_Clean_def Let_def)
  qed
  moreover have "path_Clean x = x"
    using assms by (cases x) (auto simp: path_Clean_def Let_def plain_seg_def split_char_none)
  ultimately show ?thesis
    by (auto simp: path_Join_def HasSuffix_iff)
qed

lemma keep_marker_loop:
  assumes "solid own X e" "\<forall>p\<in>own. \<not> HasSuffix p marker"
  shows "hoare R N (agrees X e) (marker_loop root c) (\<lambda>r. agrees X e)"
proof (induction root c rule: marker_loop.induct)
  case (1 root c)
  let ?m = "path_Join c ''.maxiofs-folder''"
  have "HasSuffix ?m marker"
    unfolding marker_def by (rule Join_suffix) (simp add: plain_seg_def)
  then have m: "?m \<notin> own" using assms(2) by blast
  have create: "hoare R N (\<lambda>d. agrees X e d \<and> d ?m = None) (os_Create ?m) (\<lambda>r. agrees X e)"
    using solid_fresh [OF assms(1) _ _ m]
    by (intro hoare_post [OF hoare_Create]) (auto intro: agrees_other)
  show ?case
  proof (cases "c = root \<or> c = path_Dir c")
    case True
    then show ?thesis by (subst marker_loop.simps) (auto intro: hoare_return)
  next
    case False
    have stat: "hoare R N (agrees X e) (os_Stat ?m) (\<lambda>st d. agrees X e d \<and> (st = Inl NotExist \<longrightarrow> d ?m = None))"
      by (rule hoare_post [OF hoare_Stat]) auto
    have step: "hoare R N (\<lambda>d. agrees X e d \<and> (st = Inl NotExist \<longrightarrow> d ?m = None))
        (if st = Inl NotExist then os_Create ?m else State_Monad.return (Inr ())) (\<lambda>r. agrees X e)"
      for st :: "os_error + node"
      using hoare_pre [OF create] by (auto intro: hoare_return)
    show ?thesis
      using False 1 [OF False]
      by (subst marker_loop.simps) (auto intro!: hoare_bind [OF stat] hoare_bind [OF step])
  qed
qed

section \<open>The names of an object\<close>

lemma full_path_shape:
  assumes "clean_path root" "validatePath root path"
  obtains ys x where "getFullPath root path = CHR ''/'' # join_slash (ys @ [x])" "\<forall>y\<in>set ys. plain_seg y" "plain_seg x"
    "\<exists>k. path_segments path = drop k (ys @ [x])"
proof -
  have dots: "''..'' \<notin> set (split_char CHR ''/'' path)"
    using assms(2) by (auto simp: validatePath_def list_ex_iff split: if_splits)
  have in_root: "HasPrefix (path_Clean (path_Join root path)) (path_Clean root @ ''/'')"
    using assms(2) by (auto simp: validatePath_def split: if_splits)
  obtain rs where rs: "rs \<noteq> []" "\<forall>x\<in>set rs. plain_seg x" and r: "root = CHR ''/'' # join_slash rs"
    using assms(1) clean_path_iff by blast
  have root: "path_Clean root = root" using assms(1) by (simp add: clean_path_def)
  have "path_segments path \<noteq> []"
  proof
    assume "path_segments path = []"
    then have "path_Join root path = root" using Join_root [OF assms(1) dots] by simp
    then show False using in_root root by (auto simp: HasPrefix_def)
  qed
  then have j: "getFullPath root path = CHR ''/'' # join_slash (rs @ path_segments path)"
    using rs Join_root [OF assms(1) dots] by (simp add: getFullPath_def join_append) (simp add: r)
  let ?zs = "rs @ path_segments path"
  have zs: "?zs \<noteq> []" "\<forall>x\<in>set ?zs. plain_seg x"
    using rs path_segments_plain [OF dots] by auto
  have split: "?zs = butlast ?zs @ [last ?zs]" by (rule append_butlast_last_id [OF zs(1), symmetric])
  show thesis
  proof (rule that)
    show "getFullPath root path = CHR ''/'' # join_slash (butlast ?zs @ [last ?zs])"
      unfolding j by (rule arg_cong [OF split])
    show "\<forall>y\<in>set (butlast ?zs). plain_seg y" using zs(2) by (meson in_set_butlastD)
    show "plain_seg (last ?zs)" using zs by (meson last_in_set)
    show "\<exists>k. path_segments path = drop k (butlast ?zs @ [last ?zs])"
      using split by (metis append_eq_conv_conj)
  qed
qed

lemma join_snoc_append: "join_slash (ys @ [x]) @ t = join_slash (ys @ [x @ t])"
  by (cases "ys = []") (simp_all add: join_append)

lemma plain_seg_append: "plain_seg x \<Longrightarrow> 2 \<le> length t \<Longrightarrow> CHR ''/'' \<notin> set t \<Longrightarrow> plain_seg (x @ t)"
  by (cases x; cases t; cases "tl t") (auto simp: plain_seg_def)

lemma path_Dir_sidecar:
  assumes "clean_path root" "validatePath root path"
  shows "path_Dir (getMetadataPath root path) = path_Dir (getFullPath root path)"
    "path_Dir (getStagingMetadataPath root path) = path_Dir (getFullPath root path)"
proof -
  obtain ys x where f: "getFullPath root path = CHR ''/'' # join_slash (ys @ [x])" "\<forall>y\<in>set ys. plain_seg y" "plain_seg x"
    "\<exists>k. path_segments path = drop k (ys @ [x])"
    by (rule full_path_shape [OF assms])
  have tail: "path_Dir (getFullPath root path @ t) = path_Dir (getFullPath root path)"
    if t: "2 \<le> length t" "CHR ''/'' \<notin> set t" for t
  proof -
    have "getFullPath root path @ t = CHR ''/'' # join_slash (ys @ [x @ t])"
      unfolding f(1) append_Cons join_snoc_append ..
    then show ?thesis
      by (simp only: f(1) path_Dir_clean [OF f(2) plain_seg_append [OF f(3) t]] path_Dir_clean [OF f(2,3)])
  qed
  show "path_Dir (getMetadataPath root path) = path_Dir (getFullPath root path)"
    unfolding getMetadataPath_def by (rule tail) simp_all
  show "path_Dir (getStagingMetadataPath root path) = path_Dir (getFullPath root path)"
    unfolding getStagingMetadataPath_def getMetadataPath_def metadataStagingSuffix_def append_assoc by (rule tail) simp_all
qed

lemma segs_weight_take: "segs_weight (take k ys) \<le> segs_weight ys"
  by (metis append_take_drop_id le_add1 segs_weight_simps(3))

lemma path_segments_rooted:
  assumes "\<forall>y\<in>set ys. plain_seg y"
  shows "path_segments (CHR ''/'' # join_slash ys) = ys"
proof (cases "ys = []")
  case False
  then have "split_char CHR ''/'' (join_slash ys) = ys"
    using assms by (simp add: split_join plain_no_slash)
  then show ?thesis using assms by (auto simp: path_segments_def plain_seg_def intro: filter_True)
qed (simp add: path_segments_def)

lemma ancestors_short:
  assumes "\<forall>y\<in>set ys. plain_seg y" "p \<in> set (ancestors (CHR ''/'' # join_slash ys))"
  shows "length p \<le> length (CHR ''/'' # join_slash ys)"
proof -
  obtain k where "p = ''/'' \<or> p = CHR ''/'' # join_slash (take k ys)"
    using assms(2) path_segments_rooted [OF assms(1)] by (auto simp: ancestors_def Let_def)
  then show ?thesis
    using segs_weight_take [of k ys] by (auto simp: length_join intro: diff_le_mono)
qed

definition own_names :: "string \<Rightarrow> string \<Rightarrow> string set" where
  "own_names root path = {getFullPath root path, getMetadataPath root path, getStagingMetadataPath root path}"

lemma ancestors_not_own:
  assumes "clean_path root" "validatePath root path" "p \<in> set (ancestors (path_Dir (getFullPath root path)))"
  shows "p \<notin> own_names root path"
proof -
  obtain ys x where f: "getFullPath root path = CHR ''/'' # join_slash (ys @ [x])" "\<forall>y\<in>set ys. plain_seg y" "plain_seg x"
    "\<exists>k. path_segments path = drop k (ys @ [x])"
    by (rule full_path_shape [OF assms(1,2)])
  have "p \<in> set (ancestors (CHR ''/'' # join_slash ys))"
    using assms(3) by (simp only: f(1) path_Dir_clean [OF f(2,3)])
  then have "length p \<le> length (CHR ''/'' # join_slash ys)" by (rule ancestors_short [OF f(2)])
  moreover have "x \<noteq> []" using f(3) by (simp add: plain_seg_def)
  ultimately have "length p < length (getFullPath root path)"
    by (cases x) (simp_all add: f(1) length_join)
  then show ?thesis
    by (auto simp: own_names_def getMetadataPath_def getStagingMetadataPath_def)
qed

lemma sidecars_not_markers:
  "\<not> HasSuffix (getFullPath root path) marker \<Longrightarrow> \<forall>p\<in>own_names root path. \<not> HasSuffix p marker"
  by (auto simp: own_names_def getMetadataPath_def getStagingMetadataPath_def metadataStagingSuffix_def marker_def
      HasSuffix_def HasPrefix_def)

lemma own_distinct:
  "getFullPath root path \<noteq> getMetadataPath root path" "getMetadataPath root path \<noteq> getFullPath root path"
  "getFullPath root path \<noteq> getStagingMetadataPath root path" "getStagingMetadataPath root path \<noteq> getFullPath root path"
  "getMetadataPath root path \<noteq> getStagingMetadataPath root path" "getStagingMetadataPath root path \<noteq> getMetadataPath root path"
  by (simp_all add: getMetadataPath_def getStagingMetadataPath_def metadataStagingSuffix_def)

section \<open>An interrupted put\<close>

text \<open>
  What a put leaves at the object's three names, for the data file \<open>fb\<close> and the sidecar file \<open>js\<close> it
  writes over a disk \<open>e\<close>: the old pair, with or without a staged sidecar; the new data with the old
  sidecar and the staged one; or the new pair, which is the only outcome of a put that succeeds.
\<close>

definition put_leaves :: "string \<Rightarrow> string \<Rightarrow> node \<Rightarrow> node \<Rightarrow> (string \<rightharpoonup> node) \<Rightarrow> storage_error option \<Rightarrow> (string \<rightharpoonup> node) \<Rightarrow> bool" where
  "put_leaves root path fb js e r d \<longleftrightarrow> (let F = getFullPath root path; M = getMetadataPath root path; S = getStagingMetadataPath root path in
     d F = e F \<and> d M = e M \<and> (d S = None \<or> d S = Some js) \<and> r \<noteq> None \<or>
     d F = Some fb \<and> d M = e M \<and> d S = Some js \<and> r \<noteq> None \<or>
     d F = Some fb \<and> d M = Some js \<and> d S = None)"

definition put_post :: "string \<Rightarrow> string \<Rightarrow> string set \<Rightarrow> node \<Rightarrow> node \<Rightarrow> (string \<rightharpoonup> node) \<Rightarrow> storage_error option \<Rightarrow> (string \<rightharpoonup> node) \<Rightarrow> bool" where
  "put_post root path X fb js e r d \<longleftrightarrow> agrees (X - own_names root path) e d \<and> put_leaves root path fb js e r d"

lemma put_leaves_cong:
  assumes "\<And>q. q \<in> own_names root path \<Longrightarrow> d' q = d q"
  shows "put_leaves root path fb js e r d' \<longleftrightarrow> put_leaves root path fb js e r d"
  using assms [of "getFullPath root path"] assms [of "getMetadataPath root path"] assms [of "getStagingMetadataPath root path"]
  by (simp add: put_leaves_def Let_def own_names_def)

lemma put_post_old:
  assumes "agrees X e d" "own_names root path \<subseteq> X" "e (getStagingMetadataPath root path) = None"
  shows "put_post root path X fb js e (Some x) d"
proof -
  have "put_leaves root path fb js e (Some x) e" using assms(3) by (simp add: put_leaves_def Let_def)
  moreover have "d q = e q" if "q \<in> own_names root path" for q
    using assms(1,2) that unfolding agrees_def by blast
  ultimately have "put_leaves root path fb js e (Some x) d" using put_leaves_cong by blast
  moreover have "agrees (X - own_names root path) e d" using assms(1) unfolding agrees_def by blast
  ultimately show ?thesis by (simp add: put_post_def)
qed

lemma put_post_upd:
  assumes "p \<notin> X" "own_names root path \<subseteq> X" "put_post root path X fb js e r d"
  shows "put_post root path X fb js e r (d(p := v))"
proof -
  have "(d(p := v)) q = d q" if "q \<in> own_names root path" for q
    using assms(1,2) that by (metis fun_upd_apply subsetD)
  then have "put_leaves root path fb js e r (d(p := v))"
    using put_leaves_cong assms(3) unfolding put_post_def by blast
  moreover have "agrees (X - own_names root path) e (d(p := v))"
    using assms(1,3) unfolding put_post_def by (intro agrees_other) auto
  ultimately show ?thesis by (simp add: put_post_def)
qed

lemma keep_put_post:
  assumes "p \<notin> X" "own_names root path \<subseteq> X"
  shows "hoare R N (put_post root path X fb js e r) (os_Remove p) (\<lambda>_. put_post root path X fb js e r)"
  by (rule hoare_post [OF hoare_Remove]) (use put_post_upd [OF assms] in blast)

text \<open>The disks between the renames, from \<open>A\<close> where both temporary files are complete.\<close>

definition staged_disk :: "string \<Rightarrow> string \<Rightarrow> string \<Rightarrow> node \<Rightarrow> (string \<rightharpoonup> node) \<Rightarrow> (string \<rightharpoonup> node)" where
  "staged_disk root path MT js A = A(MT := None, getStagingMetadataPath root path := Some js)"

definition data_disk :: "string \<Rightarrow> string \<Rightarrow> string \<Rightarrow> node \<Rightarrow> (string \<rightharpoonup> node) \<Rightarrow> (string \<rightharpoonup> node)" where
  "data_disk root path T fb B = B(T := None, getFullPath root path := Some fb)"

definition done_disk :: "string \<Rightarrow> string \<Rightarrow> node \<Rightarrow> (string \<rightharpoonup> node) \<Rightarrow> (string \<rightharpoonup> node)" where
  "done_disk root path js C = C(getStagingMetadataPath root path := None, getMetadataPath root path := Some js)"

lemma put_post_agrees:
  assumes "agrees Y Z d" "X \<subseteq> Y" "own_names root path \<subseteq> X" "put_leaves root path fb js e r Z"
    "agrees (X - own_names root path) e Z"
  shows "put_post root path X fb js e r d"
proof -
  have at: "d q = Z q" if "q \<in> X" for q using assms(1,2) that unfolding agrees_def by blast
  then have "put_leaves root path fb js e r d" using put_leaves_cong assms(3,4) by (metis subsetD)
  moreover have "agrees (X - own_names root path) e d" using at assms(5) unfolding agrees_def by simp
  ultimately show ?thesis by (simp add: put_post_def)
qed

lemma own_in: "getFullPath root path \<in> own_names root path" "getMetadataPath root path \<in> own_names root path"
    "getStagingMetadataPath root path \<in> own_names root path"
  by (simp_all add: own_names_def)

text \<open>Each of these disks is one that a put may leave.\<close>

lemma rename_disks:
  fixes fb js :: node and e :: "string \<rightharpoonup> node" and T MT root path :: string
  assumes out: "T \<notin> X" "MT \<notin> X" "T \<noteq> MT" and own: "own_names root path \<subseteq> X"
    and S: "e (getStagingMetadataPath root path) = None"
  defines "A \<equiv> e(T := Some fb, MT := Some js)"
  defines "B \<equiv> staged_disk root path MT js A"
  defines "C \<equiv> data_disk root path T fb B"
  shows "put_leaves root path fb js e (Some x) A" "put_leaves root path fb js e (Some x) B"
    "put_leaves root path fb js e (Some x) (B(getStagingMetadataPath root path := None))"
    "put_leaves root path fb js e (Some x) C" "put_leaves root path fb js e None (done_disk root path js C)"
proof -
  have ne: "T \<noteq> q" "q \<noteq> T" "MT \<noteq> q" "q \<noteq> MT" if "q \<in> own_names root path" for q using out own that by blast+
  note names = own_distinct ne [OF own_in(1)] ne [OF own_in(2)] ne [OF own_in(3)]
  show "put_leaves root path fb js e (Some x) A"
    by (simp add: put_leaves_def A_def names S)
  show "put_leaves root path fb js e (Some x) B"
    by (simp add: put_leaves_def B_def staged_disk_def A_def names S)
  show "put_leaves root path fb js e (Some x) (B(getStagingMetadataPath root path := None))"
    by (simp add: put_leaves_def B_def staged_disk_def A_def names S)
  show "put_leaves root path fb js e (Some x) C"
    by (simp add: put_leaves_def C_def data_disk_def B_def staged_disk_def A_def names S)
  show "put_leaves root path fb js e None (done_disk root path js C)"
    by (simp add: put_leaves_def done_disk_def C_def data_disk_def B_def staged_disk_def A_def names S)
qed

lemma rename_disks_frame:
  fixes fb js :: node and e :: "string \<rightharpoonup> node" and T MT root path :: string
  assumes out: "T \<notin> X" "MT \<notin> X"
  defines "A \<equiv> e(T := Some fb, MT := Some js)"
  defines "B \<equiv> staged_disk root path MT js A"
  defines "C \<equiv> data_disk root path T fb B"
  shows "agrees (X - own_names root path) e A" "agrees (X - own_names root path) e B"
    "agrees (X - own_names root path) e (B(getStagingMetadataPath root path := None))"
    "agrees (X - own_names root path) e C" "agrees (X - own_names root path) e (done_disk root path js C)"
proof -
  have ne: "q \<noteq> T \<and> q \<noteq> MT \<and> q \<noteq> getFullPath root path \<and> q \<noteq> getMetadataPath root path \<and> q \<noteq> getStagingMetadataPath root path"
    if "q \<in> X - own_names root path" for q
    using out that own_in by (metis DiffE)
  show "agrees (X - own_names root path) e A" "agrees (X - own_names root path) e B"
    "agrees (X - own_names root path) e (B(getStagingMetadataPath root path := None))"
    "agrees (X - own_names root path) e C" "agrees (X - own_names root path) e (done_disk root path js C)"
    unfolding agrees_def A_def B_def C_def staged_disk_def data_disk_def done_disk_def using ne by simp_all
qed

lemma agrees_Rename:
  assumes "a \<in> Y" "Z a = Some x"
  shows "hoare R N (agrees Y Z) (os_Rename a b)
    (\<lambda>r. case r of Inl _ \<Rightarrow> agrees Y Z | Inr _ \<Rightarrow> agrees Y (Z(a := None, b := Some x)))"
proof (rule hoare_post [OF hoare_Rename])
  fix r :: "os_error + unit" and d'
  assume *: "case r of Inl _ \<Rightarrow> agrees Y Z d'
    | Inr _ \<Rightarrow> \<exists>d y. agrees Y Z d \<and> d a = Some y \<and> d' = d(a := None, b := Some y)"
  show "(case r of Inl _ \<Rightarrow> agrees Y Z | Inr _ \<Rightarrow> agrees Y (Z(a := None, b := Some x))) d'"
  proof (cases r)
    case (Inr u)
    then obtain d y where d: "agrees Y Z d" "d a = Some y" "d' = d(a := None, b := Some y)" using * by auto
    then have "y = x" using assms by (auto simp: agrees_def)
    then show ?thesis using d Inr agrees_upd [OF agrees_upd] by simp
  qed (use * in simp)
qed

lemma put_renames_spec:
  assumes out: "T \<notin> X" "MT \<notin> X" "T \<noteq> MT" and own: "own_names (fe_root env) path \<subseteq> X"
    and S: "e (getStagingMetadataPath (fe_root env) path) = None"
  shows "hoare R N (agrees (insert MT (insert T X)) (e(T := Some fb, MT := Some js))) (put_renames env path T MT)
    (put_post (fe_root env) path X fb js e)"
proof -
  let ?Y = "insert MT (insert T X)" and ?root = "fe_root env"
  let ?S = "getStagingMetadataPath ?root path" and ?F = "getFullPath ?root path" and ?M = "getMetadataPath ?root path"
  define A where "A = e(T := Some fb, MT := Some js)"
  define B where "B = staged_disk ?root path MT js A"
  define C where "C = data_disk ?root path T fb B"
  define D where "D = done_disk ?root path js C"
  have ne: "T \<noteq> q" "q \<noteq> T" "MT \<noteq> q" "q \<in> ?Y" if "q \<in> own_names ?root path" for q using out own that by blast+
  note names = own_distinct ne [OF own_in(1)] ne [OF own_in(2)] ne [OF own_in(3)]
  note leaves = rename_disks [where e = e and fb = fb and js = js, OF out own S, folded A_def, folded B_def, folded C_def, folded D_def]
  note frame = rename_disks_frame [where e = e and fb = fb and js = js and root = ?root and path = path, OF out(1,2), folded A_def, folded B_def, folded C_def, folded D_def]
  have sub: "X \<subseteq> ?Y" by blast
  note post = put_post_agrees [OF _ sub own]
  have r1: "hoare R N (agrees ?Y A) (os_Rename MT ?S) (\<lambda>r. case r of Inl _ \<Rightarrow> agrees ?Y A | Inr _ \<Rightarrow> agrees ?Y B)"
    unfolding B_def staged_disk_def by (rule agrees_Rename) (simp_all add: A_def)
  have r2: "hoare R N (agrees ?Y B) (os_Rename T ?F) (\<lambda>r. case r of Inl _ \<Rightarrow> agrees ?Y B | Inr _ \<Rightarrow> agrees ?Y C)"
    unfolding C_def data_disk_def
    by (rule agrees_Rename) (simp_all add: B_def staged_disk_def A_def names out)
  have r3: "hoare R N (agrees ?Y C) (os_Rename ?S ?M) (\<lambda>r. case r of Inl _ \<Rightarrow> agrees ?Y C | Inr _ \<Rightarrow> agrees ?Y D)"
    unfolding D_def done_disk_def
    by (rule agrees_Rename) (simp_all add: C_def data_disk_def B_def staged_disk_def A_def names out del: insert_iff)
  have rm: "hoare R N (agrees ?Y B) (os_Remove ?S) (\<lambda>_ d. agrees ?Y B d \<or> agrees ?Y (B(?S := None)) d)"
    by (rule hoare_post [OF hoare_Remove]) (auto intro: agrees_upd)
  show ?thesis
    unfolding put_renames_def Let_def A_def [symmetric]
    by (rule hoare_bind [OF r1], rule hoare_sum, simp, rule hoare_return, rule post, assumption, rule leaves, rule frame,
        simp, rule hoare_bind [OF r2], rule hoare_sum, simp, rule hoare_bind [OF rm], rule hoare_return,
        blast intro: post leaves frame, simp, rule hoare_bind [OF r3], rule hoare_sum, simp, rule hoare_return,
        rule post, assumption, rule leaves, rule frame, simp, rule hoare_return, rule post, assumption, rule leaves, rule frame)
qed

text \<open>The calls before the renames keep what the object's names and every taken name hold.\<close>

lemma hoare_get: "(\<And>s. io_now s = N \<Longrightarrow> hoare R N P (f s) Q) \<Longrightarrow> hoare R N P (State_Monad.bind State_Monad.get f) Q"
  unfolding hoare_def by (simp add: split_beta)

lemma keep_repair_unstaged:
  assumes "getStagingMetadataPath (fe_root env) path \<in> X" "e (getStagingMetadataPath (fe_root env) path) = None"
  shows "hoare R N (agrees X e) (repairStagedCommit env path) (\<lambda>_. agrees X e)"
proof -
  have no: "agrees X e d \<Longrightarrow> d (getStagingMetadataPath (fe_root env) path) = None" for d
    using assms by (simp add: agrees_def)
  show ?thesis
    unfolding repairStagedCommit_def Let_def
  proof (rule hoare_bind [OF hoare_ReadFile], rule hoare_sum)
    show "hoare R N (\<lambda>d. agrees X e d \<and> (case a of Inl _ \<Rightarrow> True
        | Inr b \<Rightarrow> d (getStagingMetadataPath (fe_root env) path) \<noteq> None)) (State_Monad.return ()) (\<lambda>_. agrees X e)"
      for a :: "os_error + string"
      by (rule hoare_return) simp
  qed (rule hoare_fact [where H = False], auto dest: no)
qed

definition temps_clear :: "string list \<Rightarrow> string \<Rightarrow> string \<Rightarrow> bool" where
  "temps_clear R root path \<longleftrightarrow> (\<forall>r\<in>set R. \<forall>pre\<in>{''.tmp_'', ''.metadata-tmp-''}.
     temp_name (path_Dir (getFullPath root path)) pre r \<notin> own_names root path)"

lemma agrees_CreateTemp:
  assumes "solid own X e" "\<forall>r\<in>set R. temp_name dir pre r \<notin> own"
  shows "hoare R N (agrees X e) (os_CreateTemp dir pre) (\<lambda>r d. case r of Inl _ \<Rightarrow> agrees X e d
    | Inr T \<Rightarrow> T \<notin> X \<and> agrees (insert T X) (e(T := Some (File [] N))) d)"
proof (rule hoare_post [OF hoare_CreateTemp])
  fix r d'
  assume *: "case r of Inl _ \<Rightarrow> agrees X e d' | Inr T \<Rightarrow>
    \<exists>d x. x \<in> set R \<and> T = temp_name dir pre x \<and> agrees X e d \<and> d T = None \<and> d' = d(T := Some (File [] N))"
  show "case r of Inl _ \<Rightarrow> agrees X e d' | Inr T \<Rightarrow> T \<notin> X \<and> agrees (insert T X) (e(T := Some (File [] N))) d'"
  proof (cases r)
    case (Inr T)
    then obtain d x where "x \<in> set R" "T = temp_name dir pre x" "agrees X e d" "d T = None" "d' = d(T := Some (File [] N))"
      using * by auto
    then show ?thesis
      using Inr assms(2) solid_fresh [OF assms(1)] agrees_insert by auto
  qed (use * in simp)
qed

lemma agrees_Write:
  assumes "T \<notin> X"
  shows "hoare R N (agrees (insert T X) (e(T := Some (File y t)))) (os_Write T b)
    (\<lambda>r d. agrees X e d \<and> (r = Inr () \<longrightarrow> agrees (insert T X) (e(T := Some (File b N))) d))"
proof (rule hoare_post [OF hoare_Write])
  fix r :: "os_error + unit" and d'
  assume "\<exists>d. agrees (insert T X) (e(T := Some (File y t))) d \<and> (d' = d \<and> (r = Inr () \<longrightarrow> (\<forall>x t. d T \<noteq> Some (File x t))) \<or>
     (\<exists>x. d' = d(T := Some (File x N)) \<and> (r = Inr () \<longrightarrow> x = b) \<and> (\<exists>y t. d T = Some (File y t))))"
  then obtain d where d: "agrees (insert T X) (e(T := Some (File y t))) d" "\<forall>q. q \<noteq> T \<longrightarrow> d' q = d q"
      "r = Inr () \<longrightarrow> d' T = Some (File b N) \<or> (\<forall>x t. d T \<noteq> Some (File x t))"
    by (metis fun_upd_apply)
  moreover have "d T = Some (File y t)" using d(1) by (simp add: agrees_def)
  ultimately have "r = Inr () \<longrightarrow> d' T = Some (File b N)" by blast
  then show "agrees X e d' \<and> (r = Inr () \<longrightarrow> agrees (insert T X) (e(T := Some (File b N))) d')"
    using assms d(1,2) unfolding agrees_def by (metis fun_upd_apply insertCI insertE)
qed

lemma agrees_prepareMetadataTemp:
  assumes v: "clean_path (fe_root env)" "validatePath (fe_root env) path" and R: "temps_clear R (fe_root env) path"
    and X: "solid (own_names (fe_root env) path) X e"
  shows "hoare R N (agrees X e) (prepareMetadataTemp env path m) (\<lambda>r d. case r of Inl _ \<Rightarrow> agrees X e d
    | Inr MT \<Rightarrow> MT \<notin> X \<and> agrees (insert MT X) (e(MT := Some (File (fe_json env m) N))) d)"
proof -
  let ?root = "fe_root env"
  let ?dir = "path_Dir (getFullPath ?root path)"
  have anc: "\<forall>p\<in>set (ancestors ?dir). p \<notin> own_names ?root path" using ancestors_not_own [OF v] by blast
  have tmp: "\<forall>r\<in>set R. temp_name ?dir ''.metadata-tmp-'' r \<notin> own_names ?root path" using R by (simp add: temps_clear_def)
  note create = agrees_CreateTemp [OF X tmp]
  have wr: "hoare R N (\<lambda>d. T \<notin> X \<and> agrees (insert T X) (e(T := Some (File [] N))) d)
      (State_Monad.bind (os_Write T (fe_json env m)) (\<lambda>w. case w of
         Inl _ \<Rightarrow> State_Monad.return (Inl (StorageError ''WriteMetadata'')) | Inr _ \<Rightarrow> State_Monad.return (Inr T)))
      (\<lambda>r d. case r of Inl _ \<Rightarrow> agrees X e d
        | Inr MT \<Rightarrow> MT \<notin> X \<and> agrees (insert MT X) (e(MT := Some (File (fe_json env m) N))) d)" for T
  proof (rule hoare_fact [where H = "T \<notin> X"])
    assume T: "T \<notin> X"
    have "hoare R N (\<lambda>d. T \<notin> X \<and> agrees (insert T X) (e(T := Some (File [] N))) d) (os_Write T (fe_json env m))
      (\<lambda>r d. agrees X e d \<and> (r = Inr () \<longrightarrow> agrees (insert T X) (e(T := Some (File (fe_json env m) N))) d))"
      by (rule hoare_pre [OF agrees_Write [OF T, where y = "[]" and t = N]]) simp
    then show ?thesis by (rule hoare_bind) (auto split: sum.splits intro!: hoare_return simp: T)
  qed simp
  show ?thesis
    unfolding prepareMetadataTemp_def Let_def path_Dir_sidecar(1) [OF v]
    by (rule hoare_bind [OF keep_MkdirAll [OF X anc]], rule hoare_sum, rule hoare_return, simp,
        rule hoare_bind [OF create], rule hoare_sum, rule hoare_return, simp, simp add: wr)
qed

definition new_sidecar :: "fs_env \<Rightarrow> string \<Rightarrow> int \<Rightarrow> smap \<Rightarrow> node" where
  "new_sidecar env b now m = File (fe_json env (stored_metadata env b now m)) now"

lemma agrees_Copy:
  assumes "T \<notin> X"
  shows "hoare R N (agrees (insert T X) (e(T := Some (File y t)))) (io_Copy T data)
    (\<lambda>ok d. agrees X e d \<and> (ok \<longrightarrow> agrees (insert T X) (e(T := Some (File (fst data) N))) d))"
  unfolding io_Copy_def
  by (rule hoare_bind [OF agrees_Write [OF assms]]) (auto intro!: hoare_return split: sum.splits)

lemma put_finish_spec:
  assumes out: "T \<notin> X" and own: "own_names (fe_root env) path \<subseteq> X"
    and S: "e (getStagingMetadataPath (fe_root env) path) = None"
  shows "hoare R N (\<lambda>d. MT \<notin> insert T X \<and> agrees (insert MT (insert T X)) (e(T := Some fb, MT := Some js)) d)
    (put_finish env path T MT) (put_post (fe_root env) path X fb js e)"
proof (rule hoare_fact [where H = "MT \<notin> insert T X"])
  assume "MT \<notin> insert T X"
  then have ne: "T \<noteq> MT" "MT \<notin> X" by auto
  have ren: "hoare R N (\<lambda>d. MT \<notin> insert T X \<and> agrees (insert MT (insert T X)) (e(T := Some fb, MT := Some js)) d)
      (put_renames env path T MT) (put_post (fe_root env) path X fb js e)"
    by (rule hoare_pre [OF put_renames_spec [where e = e, OF out ne(2,1) own S]]) simp
  show "hoare R N (\<lambda>d. MT \<notin> insert T X \<and> agrees (insert MT (insert T X)) (e(T := Some fb, MT := Some js)) d)
      (put_finish env path T MT) (put_post (fe_root env) path X fb js e)"
    unfolding put_finish_def
    by (rule hoare_bind [OF ren], rule hoare_bind [OF keep_put_post [OF ne(2) own]], rule hoare_return)
qed simp

lemma put_commit_spec:
  assumes v: "clean_path (fe_root env)" "validatePath (fe_root env) path" and R: "temps_clear R (fe_root env) path"
    and X: "solid (own_names (fe_root env) path) X e" "own_names (fe_root env) path \<subseteq> X"
    and S: "e (getStagingMetadataPath (fe_root env) path) = None" and T: "T \<notin> X"
  shows "hoare R N (agrees (insert T X) (e(T := Some (File [] N)))) (put_commit env path T data m)
    (put_post (fe_root env) path X (File (fst data) N) (new_sidecar env (fst data) N m) e)"
proof -
  let ?root = "fe_root env" and ?e = "e(T := Some (File (fst data) N))" and ?Y = "insert T X"
  let ?post = "put_post ?root path X (File (fst data) N) (new_sidecar env (fst data) N m) e"
  have Ssub: "getStagingMetadataPath ?root path \<in> ?Y" "?e (getStagingMetadataPath ?root path) = None"
    using X(2) T S own_in(3) [of ?root path] by auto
  have repair: "hoare R N (agrees ?Y ?e) (repairStagedCommit env path) (\<lambda>_. agrees ?Y ?e)"
    by (rule keep_repair_unstaged) (rule Ssub)+
  have down: "agrees X e d" if "agrees ?Y ?e d" for d
    using that T unfolding agrees_def by (metis fun_upd_apply insertCI)
  have old: "?post (Some x) d" if "agrees X e d" for d x
    by (rule put_post_old [where e = e, OF that X(2) S])
  note prep = agrees_prepareMetadataTemp [OF v R solid_insert [OF X(1)], of N T "File (fst data) N"
      "stored_metadata env (fst data) N m", folded new_sidecar_def]
  note finish = put_finish_spec [where e = e, OF T X(2) S]
  have rest: "hoare R N (agrees ?Y ?e) (put_sidecar env path T (stored_metadata env (fst data) N m)) ?post"
    unfolding put_sidecar_def
    by (rule hoare_bind [OF prep], rule hoare_sum, rule hoare_return, simp add: old down, simp only: sum.case, rule finish)
  show ?thesis
    unfolding put_commit_def
  proof (rule hoare_bind [OF agrees_Copy [OF T]])
    fix ok
    have "hoare R N (\<lambda>d. agrees X e d \<and> (True \<longrightarrow> agrees ?Y ?e d)) (State_Monad.bind State_Monad.get (\<lambda>s.
        State_Monad.bind (repairStagedCommit env path) (\<lambda>_. put_sidecar env path T (stored_metadata env (fst data) (io_now s) m)))) ?post"
      by (rule hoare_get, simp only:, rule hoare_pre [OF hoare_bind [OF repair rest]]) simp
    then show "hoare R N (\<lambda>d. agrees X e d \<and> (ok \<longrightarrow> agrees ?Y ?e d))
       (if \<not> ok then State_Monad.return (Some (StorageError ''WriteData''))
        else State_Monad.bind State_Monad.get (\<lambda>s. State_Monad.bind (repairStagedCommit env path)
          (\<lambda>_. put_sidecar env path T (stored_metadata env (fst data) (io_now s) m)))) ?post"
      by (cases ok) (auto intro!: hoare_return old)
  qed
qed

lemma put_in_dir_spec:
  assumes v: "clean_path (fe_root env)" "validatePath (fe_root env) path" and R: "temps_clear R (fe_root env) path"
    and X: "solid (own_names (fe_root env) path) X e" "own_names (fe_root env) path \<subseteq> X"
    and S: "e (getStagingMetadataPath (fe_root env) path) = None" and F: "\<not> HasSuffix (getFullPath (fe_root env) path) marker"
  shows "hoare R N (agrees X e) (put_in_dir env path data m)
    (put_post (fe_root env) path X (File (fst data) N) (new_sidecar env (fst data) N m) e)"
proof -
  let ?root = "fe_root env" and ?dir = "path_Dir (getFullPath (fe_root env) path)"
  let ?post = "put_post ?root path X (File (fst data) N) (new_sidecar env (fst data) N m) e"
  have tmp: "\<forall>r\<in>set R. temp_name ?dir ''.tmp_'' r \<notin> own_names ?root path" using R by (simp add: temps_clear_def)
  have markers: "hoare R N (agrees X e) (ensureFolderMarkersInPath ?root ?dir) (\<lambda>_. agrees X e)"
    using keep_marker_loop [OF X(1) sidecars_not_markers [OF F]]
    by (auto simp: ensureFolderMarkersInPath_def intro: hoare_return)
  have tail: "hoare R N (\<lambda>d. T \<notin> X \<and> agrees (insert T X) (e(T := Some (File [] N))) d)
      (State_Monad.bind (put_commit env path T data m) (\<lambda>r. State_Monad.bind (os_Remove T) (\<lambda>_. State_Monad.return r))) ?post" for T
  proof (rule hoare_fact [where H = "T \<notin> X"])
    assume T: "T \<notin> X"
    have c: "hoare R N (\<lambda>d. T \<notin> X \<and> agrees (insert T X) (e(T := Some (File [] N))) d) (put_commit env path T data m) ?post"
      by (rule hoare_pre [OF put_commit_spec [where e = e, OF v R X S T]]) simp
    show ?thesis
      by (rule hoare_bind [OF c], rule hoare_bind [OF keep_put_post [OF T X(2)]], rule hoare_return)
  qed simp
  show ?thesis
    unfolding put_in_dir_def Let_def
    by (rule hoare_bind [OF markers], rule hoare_bind [OF agrees_CreateTemp [OF X(1) tmp]], rule hoare_sum, rule hoare_return,
        rule put_post_old [where e = e, OF _ X(2) S], simp, simp add: tail)
qed

section \<open>Reading after a restart\<close>

text \<open>The calls of a process that meets no fault.\<close>

lemma run_os_call:
  "io_plan s = [] \<Longrightarrow> run_state (os_call f) s = (case f s of Inl e \<Rightarrow> (Inl e, s) | Inr (a, d) \<Rightarrow> (Inr a, s\<lparr>io_disk := d\<rparr>))"
  by (simp add: os_call_def next_fault_def)

lemma run_Stat:
  "io_plan s = [] \<Longrightarrow> run_state (os_Stat p) s = (case map_of (io_disk s) p of None \<Rightarrow> Inl NotExist | Some n \<Rightarrow> Inr n, s)"
  by (simp add: os_Stat_def run_os_call split: option.splits)

lemma run_Open:
  "io_plan s = [] \<Longrightarrow> run_state (os_Open p) s = (case map_of (io_disk s) p of None \<Rightarrow> Inl NotExist | Some n \<Rightarrow> Inr n, s)"
  by (simp add: os_Open_def run_Stat)

lemma run_ReadAll:
  "io_plan s = [] \<Longrightarrow> run_state (io_ReadAll n) s = (case n of Dir \<Rightarrow> Inl IOError | File b t \<Rightarrow> Inr b, s)"
  by (simp add: io_ReadAll_def run_os_call split: node.splits)

lemma run_ReadFile:
  "io_plan s = [] \<Longrightarrow> run_state (os_ReadFile p) s =
    (case map_of (io_disk s) p of None \<Rightarrow> Inl NotExist | Some Dir \<Rightarrow> Inl IOError | Some (File b t) \<Rightarrow> Inr b, s)"
  by (simp add: os_ReadFile_def run_os_call split: option.splits node.splits)

lemma run_Remove_file:
  "io_plan s = [] \<Longrightarrow> map_of (io_disk s) p = Some (File b t) \<Longrightarrow>
    run_state (os_Remove p) s = (Inr (), s\<lparr>io_disk := AList.delete p (io_disk s)\<rparr>)"
  by (simp add: os_Remove_def run_os_call Let_def)

lemma run_Rename_file:
  "io_plan s = [] \<Longrightarrow> map_of (io_disk s) a = Some (File x t) \<Longrightarrow> map_of (io_disk s) b \<noteq> Some Dir
    \<Longrightarrow> map_of (io_disk s) (path_Dir b) = Some Dir \<Longrightarrow>
    run_state (os_Rename a b) s = (Inr (), s\<lparr>io_disk := AList.update b (File x t) (AList.delete a (io_disk s))\<rparr>)"
  by (simp add: os_Rename_def run_os_call Let_def)

lemmas run_calls = run_Stat run_Open run_ReadAll run_ReadFile

text \<open>What a read returns, as a function of the data file and the sidecar.\<close>

definition basic_view :: "fs_env \<Rightarrow> string \<Rightarrow> node \<Rightarrow> smap" where
  "basic_view env fullPath n = (case n of
     Dir \<Rightarrow> (case fe_dirStat env fullPath of (sz, t) \<Rightarrow> [(''size'', show_int64 sz), (''last_modified'', show_int64 t)])
   | File b t \<Rightarrow> AList.update ''etag'' (fe_md5 env b) [(''size'', show_int64 (int (length b))), (''last_modified'', show_int64 t)])"

definition pair_view :: "fs_env \<Rightarrow> string \<Rightarrow> node option \<Rightarrow> node option \<Rightarrow> storage_error + node \<times> smap" where
  "pair_view env fullPath f m = (case f of
     None \<Rightarrow> Inl StorageNotFound
   | Some n \<Rightarrow> (case m of
       None \<Rightarrow> Inr (n, basic_view env fullPath n)
     | Some Dir \<Rightarrow> Inl (StorageError ''ReadMetadata'')
     | Some (File b t) \<Rightarrow> (case fe_unjson env b of None \<Rightarrow> Inl (StorageError ''ParseMetadata'') | Some x \<Rightarrow> Inr (n, x))))"

lemma run_basic:
  assumes "io_plan s = []" "map_of (io_disk s) (getFullPath (fe_root env) path) = Some n"
  shows "run_state (generateBasicMetadata env path) s = (Inr (basic_view env (getFullPath (fe_root env) path) n), s)"
  using assms by (cases n)
    (auto simp: generateBasicMetadata_def basic_view_def Let_def run_calls split: prod.splits)

lemma maybeRepair_unstaged:
  "io_plan s = [] \<Longrightarrow> map_of (io_disk s) (getStagingMetadataPath (fe_root env) path) = None
    \<Longrightarrow> run_state (maybeRepair env path) s = ((), s)"
  by (simp add: maybeRepair_def run_Stat)

lemma run_GetMetadata:
  assumes "validatePath (fe_root env) path" "io_plan s = []" "run_state (maybeRepair env path) s = ((), s)"
    "map_of (io_disk s) (getFullPath (fe_root env) path) = Some n"
  shows "run_state (FS_GetMetadata env path) s = (case pair_view env (getFullPath (fe_root env) path) (Some n)
      (map_of (io_disk s) (getMetadataPath (fe_root env) path)) of Inl e \<Rightarrow> Inl e | Inr (h, m) \<Rightarrow> Inr m, s)"
proof (cases "map_of (io_disk s) (getMetadataPath (fe_root env) path)")
  case None
  then show ?thesis using assms by (simp add: FS_GetMetadata_def Let_def run_calls run_basic pair_view_def)
next
  case (Some m)
  then show ?thesis using assms
    by (cases m) (simp_all add: FS_GetMetadata_def Let_def run_calls pair_view_def split: option.splits)
qed

text \<open>When the repair ends in a disk without a staged sidecar, a read returns what that disk holds.\<close>

lemma run_Get:
  assumes v: "validatePath (fe_root env) path" and s: "run_state (maybeRepair env path) s = ((), s')" "io_plan s' = []"
    and S: "map_of (io_disk s') (getStagingMetadataPath (fe_root env) path) = None"
  shows "fst (run_state (FS_Get env path) s) = pair_view env (getFullPath (fe_root env) path)
    (map_of (io_disk s') (getFullPath (fe_root env) path)) (map_of (io_disk s') (getMetadataPath (fe_root env) path))"
proof (cases "map_of (io_disk s') (getFullPath (fe_root env) path)")
  case None
  then show ?thesis using s v by (simp add: FS_Get_def get_open_def Let_def run_calls pair_view_def)
next
  case (Some n)
  note meta = run_GetMetadata [OF v s(2) maybeRepair_unstaged [OF s(2) S] Some]
  let ?view = "pair_view env (getFullPath (fe_root env) path) (Some n) (map_of (io_disk s') (getMetadataPath (fe_root env) path))"
  have "h = n" if "?view = Inr (h, m)" for h m
    using that by (auto simp: pair_view_def split: option.splits node.splits)
  then show ?thesis
    using s v Some meta by (cases ?view) (auto simp: FS_Get_def get_open_def Let_def run_calls)
qed

definition rolls_forward :: "fs_env \<Rightarrow> smap \<Rightarrow> node option \<Rightarrow> bool" where
  "rolls_forward env staged f = (case f of
     Some (File b t) \<Rightarrow> (case ParseInt (map_get staged ''size'') of None \<Rightarrow> True | Some n \<Rightarrow> n = int (length b)) \<and>
       fe_md5 env b = map_get staged ''etag''
   | _ \<Rightarrow> False)"

lemma repair_staged:
  assumes plan: "io_plan s = []" and S: "map_of (io_disk s) (getStagingMetadataPath (fe_root env) path) = Some (File j t)"
    and st: "fe_unjson env j = Some staged" "map_get staged ''etag'' \<noteq> []"
    and M: "map_of (io_disk s) (getMetadataPath (fe_root env) path) \<noteq> Some Dir"
      "map_of (io_disk s) (path_Dir (getMetadataPath (fe_root env) path)) = Some Dir"
  obtains s' where "run_state (maybeRepair env path) s = ((), s')" "io_plan s' = []"
    "map_of (io_disk s') = (if rolls_forward env staged (map_of (io_disk s) (getFullPath (fe_root env) path))
      then (map_of (io_disk s))(getStagingMetadataPath (fe_root env) path := None, getMetadataPath (fe_root env) path := Some (File j t))
      else (map_of (io_disk s))(getStagingMetadataPath (fe_root env) path := None))"
proof -
  let ?f = "map_of (io_disk s) (getFullPath (fe_root env) path)"
  define gone where "gone = s\<lparr>io_disk := AList.delete (getStagingMetadataPath (fe_root env) path) (io_disk s)\<rparr>"
  define rolled where "rolled = s\<lparr>io_disk := AList.update (getMetadataPath (fe_root env) path) (File j t)
    (AList.delete (getStagingMetadataPath (fe_root env) path) (io_disk s))\<rparr>"
  note rm = run_Remove_file [OF plan S, folded gone_def]
  note ren = run_Rename_file [OF plan S M, folded rolled_def]
  have "run_state (maybeRepair env path) s = ((), if rolls_forward env staged ?f then rolled else gone)"
  proof (cases ?f)
    case None
    then show ?thesis using plan S st
      by (simp add: maybeRepair_def repairStagedCommit_def Let_def run_calls rm rolls_forward_def)
  next
    case (Some n)
    then show ?thesis using plan S st
      by (cases n) (auto simp: maybeRepair_def repairStagedCommit_def Let_def run_calls rm ren rolls_forward_def split: option.splits)
  qed
  then show thesis
    by (rule that) (simp_all add: gone_def rolled_def plan update_conv' delete_conv')
qed

section \<open>The parent directory\<close>

lemma hoare_Mkdir_dir: "hoare R N P (os_Mkdir p) (\<lambda>r d'. r = Inr () \<longrightarrow> d' p = Some Dir)"
  unfolding os_Mkdir_def
  by (rule hoare_os_call) (auto simp: Let_def update_conv' split: option.splits node.splits if_splits)

lemma mkdir_chain_last: "hoare R N P (mkdir_chain ps) (\<lambda>r d. r = Inr () \<longrightarrow> ps \<noteq> [] \<longrightarrow> d (last ps) = Some Dir)"
proof (induction ps arbitrary: P)
  case Nil
  show ?case by (simp add: hoare_return)
next
  case (Cons p ps)
  show ?case
  proof (cases "ps = []")
    case True
    have "hoare R N P (os_Mkdir p) (\<lambda>r d'. r = Inr () \<longrightarrow> d' p = Some Dir)" by (rule hoare_Mkdir_dir)
    then show ?thesis
      unfolding mkdir_chain.simps True by (rule hoare_bind) (auto split: sum.splits intro!: hoare_return)
  next
    case False
    then show ?thesis
      unfolding mkdir_chain.simps
      by (intro hoare_bind [OF hoare_Mkdir] hoare_sum hoare_return) (auto intro: hoare_post [OF Cons.IH])
  qed
qed

lemma hoare_conj:
  assumes "hoare R N P m Q" "hoare R N P m Q'"
  shows "hoare R N P m (\<lambda>r d. Q r d \<and> Q' r d)"
  by (rule hoareI) (use hoareD [OF assms(1)] hoareD [OF assms(2)] in blast)

lemma last_ancestors:
  assumes "\<forall>y\<in>set ys. plain_seg y"
  shows "ancestors (CHR ''/'' # join_slash ys) \<noteq> []" "last (ancestors (CHR ''/'' # join_slash ys)) = CHR ''/'' # join_slash ys"
proof -
  have "path_segments (CHR ''/'' # join_slash ys) = ys" using assms by (rule path_segments_rooted)
  then show "ancestors (CHR ''/'' # join_slash ys) \<noteq> []" "last (ancestors (CHR ''/'' # join_slash ys)) = CHR ''/'' # join_slash ys"
    by (cases ys rule: rev_cases; simp add: ancestors_def Let_def)+
qed

lemma parent_not_own:
  assumes "clean_path root" "validatePath root path"
  shows "path_Dir (getFullPath root path) \<notin> own_names root path"
proof -
  obtain ys x where f: "getFullPath root path = CHR ''/'' # join_slash (ys @ [x])" "\<forall>y\<in>set ys. plain_seg y" "plain_seg x"
    "\<exists>k. path_segments path = drop k (ys @ [x])"
    by (rule full_path_shape [OF assms])
  have "path_Dir (getFullPath root path) \<in> set (ancestors (path_Dir (getFullPath root path)))"
    unfolding f(1) path_Dir_clean [OF f(2,3)] using last_ancestors [OF f(2)] by (metis last_in_set)
  then show ?thesis by (rule ancestors_not_own [OF assms])
qed

lemma MkdirAll_parent:
  assumes "clean_path root" "validatePath root path"
  shows "hoare R N P (os_MkdirAll (path_Dir (getFullPath root path)))
    (\<lambda>r d. r = Inr () \<longrightarrow> d (path_Dir (getFullPath root path)) = Some Dir)"
proof -
  obtain ys x where f: "getFullPath root path = CHR ''/'' # join_slash (ys @ [x])" "\<forall>y\<in>set ys. plain_seg y" "plain_seg x"
    "\<exists>k. path_segments path = drop k (ys @ [x])"
    by (rule full_path_shape [OF assms])
  show ?thesis
    unfolding os_MkdirAll_def f(1) path_Dir_clean [OF f(2,3)]
    by (rule hoare_post [OF mkdir_chain_last]) (simp add: last_ancestors [OF f(2)])
qed

lemma put_file_spec:
  assumes v: "clean_path (fe_root env)" "validatePath (fe_root env) path" and R: "temps_clear R (fe_root env) path"
    and X: "solid (own_names (fe_root env) path) X e" "own_names (fe_root env) path \<subseteq> X"
    and S: "e (getStagingMetadataPath (fe_root env) path) = None" and F: "\<not> HasSuffix (getFullPath (fe_root env) path) marker"
  shows "hoare R N (agrees X e) (put_file env path data m)
    (\<lambda>r d. put_post (fe_root env) path X (File (fst data) N) (new_sidecar env (fst data) N m) e r d \<and>
      (d (getStagingMetadataPath (fe_root env) path) \<noteq> None \<longrightarrow> d (path_Dir (getFullPath (fe_root env) path)) = Some Dir))"
    (is "hoare R N _ _ ?Q")
proof -
  let ?root = "fe_root env" and ?dir = "path_Dir (getFullPath (fe_root env) path)"
  let ?e = "e(?dir := Some Dir)" and ?X = "insert ?dir X"
  let ?fb = "File (fst data) N" and ?js = "new_sidecar env (fst data) N m"
  have anc: "\<forall>p\<in>set (ancestors ?dir). p \<notin> own_names ?root path" using ancestors_not_own [OF v] by blast
  have dir: "?dir \<notin> own_names ?root path" using parent_not_own [OF v] .
  have X': "solid (own_names ?root path) ?X ?e" "own_names ?root path \<subseteq> ?X" "?e (getStagingMetadataPath ?root path) = None"
    using solid_insert [OF X(1)] X(2) S dir own_in(3) [of ?root path] by auto
  note mk = hoare_conj [OF keep_MkdirAll [OF X(1) anc] MkdirAll_parent [OF v]]
  have body: "hoare R N (\<lambda>d. agrees X e d \<and> d ?dir = Some Dir) (put_in_dir env path data m) ?Q"
  proof (rule hoare_fact [where H = "agrees X e ?e"])
    show "agrees X e ?e" if "agrees X e d \<and> d ?dir = Some Dir" for d
      using that unfolding agrees_def by (metis fun_upd_apply)
    assume same: "agrees X e ?e"
    have up: "hoare R N (\<lambda>d. agrees X e d \<and> d ?dir = Some Dir) (put_in_dir env path data m) (put_post ?root path ?X ?fb ?js ?e)"
      by (rule hoare_pre [OF put_in_dir_spec [where e = ?e, OF v R X' F]]) (auto simp: agrees_def)
    have "?Q r d" if p: "put_post ?root path ?X ?fb ?js ?e r d" for r d
    proof -
      have leaves: "put_leaves ?root path ?fb ?js e r d"
        using p dir by (auto simp: put_post_def put_leaves_def Let_def own_names_def)
      have at: "d q = ?e q" if "q \<in> insert ?dir X" "q \<notin> own_names ?root path" for q
        using p that unfolding put_post_def agrees_def by blast
      have "agrees (X - own_names ?root path) e d"
        using at same unfolding agrees_def by (metis DiffE insertCI)
      then show ?thesis using leaves at [of ?dir] dir by (simp add: put_post_def)
    qed
    then show "hoare R N (\<lambda>d. agrees X e d \<and> d ?dir = Some Dir) (put_in_dir env path data m) ?Q"
      by (rule hoare_post [OF up])
  qed
  have old: "?Q (Some x) d" if "agrees X e d" for d x
    using put_post_old [where e = e, OF that X(2) S] that S X(2) own_in(3) [of ?root path] by (auto simp: agrees_def)
  show ?thesis
    unfolding put_file_def Let_def
  proof (rule hoare_bind [OF mk], rule hoare_sum)
    show "hoare R N (\<lambda>d. agrees X e d \<and> (a = Inr () \<longrightarrow> d ?dir = Some Dir)) (State_Monad.return (Some (StorageError ''CreateDirectory''))) ?Q"
      for a :: "os_error + unit"
      by (rule hoare_return) (use old in blast)
    show "hoare R N (\<lambda>d. agrees X e d \<and> (a = Inr () \<longrightarrow> d ?dir = Some Dir)) (put_in_dir env path data m) ?Q"
      if "a = Inr x" for a :: "os_error + unit" and x
      by (rule hoare_pre [OF body]) (use that in auto)
  qed
qed

section \<open>Crash safety\<close>

definition restart :: "io \<Rightarrow> io" where
  "restart s = s\<lparr>io_plan := []\<rparr>"

definition content :: "node \<Rightarrow> string option" where
  "content n = (case n of Dir \<Rightarrow> None | File b t \<Rightarrow> Some b)"

definition read_view :: "(storage_error + node \<times> smap) \<Rightarrow> storage_error + string option \<times> (string \<rightharpoonup> string)" where
  "read_view r = (case r of Inl e \<Rightarrow> Inl e | Inr (h, m) \<Rightarrow> Inr (content h, map_of m))"

text \<open>What a client reads from a disk, after a restart of the process.\<close>

definition read_back :: "fs_env \<Rightarrow> string \<Rightarrow> io \<Rightarrow> storage_error + string option \<times> (string \<rightharpoonup> string)" where
  "read_back env path s = read_view (fst (run_state (FS_Get env path) (restart s)))"

text \<open>What the backend relies on: the JSON round trip of a string map, and digests that are not empty.\<close>

definition codec_ok :: "fs_env \<Rightarrow> bool" where
  "codec_ok env \<longleftrightarrow> (\<forall>m. \<exists>m'. fe_unjson env (fe_json env m) = Some m' \<and> map_of m' = map_of m) \<and> (\<forall>b. fe_md5 env b \<noteq> [])"

lemma stored_fields:
  "map_of (stored_metadata env b now m) ''etag'' = Some (fe_md5 env b)"
  "map_of (stored_metadata env b now m) ''size'' = Some (show_int64 (int (length b)))"
  by (simp_all add: stored_metadata_def update_conv')

lemma pair_view_None: "map_of (io_disk (restart s)) = map_of (io_disk s)" "io_plan (restart s) = []"
  by (simp_all add: restart_def)

lemma read_back_unstaged:
  assumes "validatePath (fe_root env) path" "map_of (io_disk s) (getStagingMetadataPath (fe_root env) path) = None"
  shows "read_back env path s = read_view (pair_view env (getFullPath (fe_root env) path)
    (map_of (io_disk s) (getFullPath (fe_root env) path)) (map_of (io_disk s) (getMetadataPath (fe_root env) path)))"
  using run_Get [OF assms(1) maybeRepair_unstaged, of "restart s"] assms(2)
  by (simp add: read_back_def pair_view_None)

lemma new_pair_view:
  assumes "codec_ok env"
  shows "read_view (pair_view env p (Some (File b t)) (Some (new_sidecar env b now m))) =
    Inr (Some b, map_of (stored_metadata env b now m))"
proof -
  obtain m' where "fe_unjson env (fe_json env (stored_metadata env b now m)) = Some m'" "map_of m' = map_of (stored_metadata env b now m)"
    using assms unfolding codec_ok_def by blast
  then show ?thesis by (simp add: pair_view_def new_sidecar_def read_view_def content_def)
qed

text \<open>A staged sidecar of the new data is rolled forward over that data and discarded over any other.\<close>

lemma read_back_staged:
  assumes v: "clean_path (fe_root env)" "validatePath (fe_root env) path" and ok: "codec_ok env"
    and len: "length b < 2 ^ 63"
    and S: "map_of (io_disk s) (getStagingMetadataPath (fe_root env) path) = Some (new_sidecar env b now m)"
    and M: "map_of (io_disk s) (getMetadataPath (fe_root env) path) \<noteq> Some Dir"
    and dir: "map_of (io_disk s) (path_Dir (getFullPath (fe_root env) path)) = Some Dir"
    and coll: "\<And>x t. map_of (io_disk s) (getFullPath (fe_root env) path) = Some (File x t) \<Longrightarrow> fe_md5 env x = fe_md5 env b \<Longrightarrow> x = b"
  shows "read_back env path s = (if (\<exists>t. map_of (io_disk s) (getFullPath (fe_root env) path) = Some (File b t))
    then Inr (Some b, map_of (stored_metadata env b now m))
    else read_view (pair_view env (getFullPath (fe_root env) path)
      (map_of (io_disk s) (getFullPath (fe_root env) path)) (map_of (io_disk s) (getMetadataPath (fe_root env) path))))"
proof -
  let ?d = "map_of (io_disk s)" and ?F = "getFullPath (fe_root env) path" and ?M = "getMetadataPath (fe_root env) path"
  obtain st where st: "fe_unjson env (fe_json env (stored_metadata env b now m)) = Some st" "map_of st = map_of (stored_metadata env b now m)"
    using ok unfolding codec_ok_def by blast
  have fields: "map_get st ''etag'' = fe_md5 env b" "ParseInt (map_get st ''size'') = Some (int (length b))"
    using len by (simp_all add: map_get_def st(2) stored_fields ParseInt_show i64_def)
  have rolls: "rolls_forward env st (?d ?F) \<longleftrightarrow> (\<exists>t. ?d ?F = Some (File b t))"
    using coll by (auto simp: rolls_forward_def fields split: option.splits node.splits)
  obtain s' where s': "run_state (maybeRepair env path) (restart s) = ((), s')" "io_plan s' = []"
    "map_of (io_disk s') = (if rolls_forward env st (?d ?F) then ?d(getStagingMetadataPath (fe_root env) path := None, ?M := ?d (getStagingMetadataPath (fe_root env) path))
      else ?d(getStagingMetadataPath (fe_root env) path := None))"
    by (rule repair_staged [of "restart s" env path "fe_json env (stored_metadata env b now m)" now st])
      (use S M dir st fields ok in \<open>auto simp: pair_view_None new_sidecar_def codec_ok_def path_Dir_sidecar [OF v]\<close>)
  have "map_of (io_disk s') (getStagingMetadataPath (fe_root env) path) = None" by (simp add: s'(3) own_distinct)
  then have get: "read_back env path s = read_view (pair_view env ?F (map_of (io_disk s') ?F) (map_of (io_disk s') ?M))"
    using run_Get [OF v(2) s'(1,2)] by (simp add: read_back_def)
  show ?thesis
  proof (cases "\<exists>t. ?d ?F = Some (File b t)")
    case True
    then show ?thesis using S rolls new_pair_view [OF ok] by (auto simp: get s'(3) own_distinct)
  next
    case False
    then show ?thesis using rolls by (simp add: get s'(3) own_distinct)
  qed
qed

text \<open>Each outcome of a put reads as the old object or as the new one.\<close>

lemma read_back_after_put:
  fixes env :: fs_env and s s' :: io and path b :: string and now :: int and m :: smap
  defines "F \<equiv> getFullPath (fe_root env) path" and "M \<equiv> getMetadataPath (fe_root env) path"
    and "S \<equiv> getStagingMetadataPath (fe_root env) path"
  assumes v: "clean_path (fe_root env)" "validatePath (fe_root env) path" and ok: "codec_ok env" and len: "length b < 2 ^ 63"
    and old: "map_of (io_disk s) S = None" "map_of (io_disk s) M \<noteq> Some Dir"
    and coll: "\<forall>x t. map_of (io_disk s) F = Some (File x t) \<longrightarrow> fe_md5 env x = fe_md5 env b \<longrightarrow> x = b"
    and leaves: "put_leaves (fe_root env) path (File b now) (new_sidecar env b now m) (map_of (io_disk s)) r (map_of (io_disk s'))"
    and dir: "map_of (io_disk s') S \<noteq> None \<longrightarrow> map_of (io_disk s') (path_Dir F) = Some Dir"
  shows "read_back env path s' = read_back env path s \<and> r \<noteq> None \<or>
    read_back env path s' = Inr (Some b, map_of (stored_metadata env b now m))"
proof -
  let ?e = "map_of (io_disk s)" and ?d = "map_of (io_disk s')"
  have was: "read_back env path s = read_view (pair_view env F (?e F) (?e M))"
    using read_back_unstaged [OF v(2), of s] old(1) by (simp add: F_def M_def S_def)
  have is_now: "?d S = None \<Longrightarrow> read_back env path s' = read_view (pair_view env F (?d F) (?d M))"
    using read_back_unstaged [OF v(2), of s'] by (simp add: F_def M_def S_def)
  have repaired: "read_back env path s' = (if \<exists>t. ?d F = Some (File b t) then Inr (Some b, map_of (stored_metadata env b now m))
      else read_view (pair_view env F (?d F) (?d M)))"
    if "?d S = Some (new_sidecar env b now m)" "?d M \<noteq> Some Dir"
      "\<And>x t. ?d F = Some (File x t) \<Longrightarrow> fe_md5 env x = fe_md5 env b \<Longrightarrow> x = b"
    using read_back_staged [OF v ok len, of s' now m] that dir by (simp add: F_def M_def S_def)
  consider (old) "?d F = ?e F" "?d M = ?e M" "?d S = None" "r \<noteq> None"
    | (staged) "?d F = ?e F" "?d M = ?e M" "?d S = Some (new_sidecar env b now m)" "r \<noteq> None"
    | (data) "?d F = Some (File b now)" "?d M = ?e M" "?d S = Some (new_sidecar env b now m)"
    | (new) "?d F = Some (File b now)" "?d M = Some (new_sidecar env b now m)" "?d S = None"
    using leaves unfolding put_leaves_def Let_def F_def [symmetric] M_def [symmetric] S_def [symmetric] by (elim disjE conjE) simp_all
  then show ?thesis
  proof cases
    case old
    then show ?thesis using is_now was by simp
  next
    case staged
    have same: "x = b" if "?d F = Some (File x t)" "fe_md5 env x = fe_md5 env b" for x t
      using coll that staged(1) by metis
    have M: "?d M \<noteq> Some Dir" using old(2) staged(2) by simp
    have "read_back env path s' = (if \<exists>t. ?d F = Some (File b t) then Inr (Some b, map_of (stored_metadata env b now m))
      else read_view (pair_view env F (?d F) (?d M)))"
      by (rule repaired [OF staged(3) M same])
    then show ?thesis using staged was by (auto split: if_splits)
  next
    case data
    then have "read_back env path s' = (if \<exists>t. ?d F = Some (File b t) then Inr (Some b, map_of (stored_metadata env b now m))
      else read_view (pair_view env F (?d F) (?d M)))"
      using old(2) by (intro repaired) auto
    then show ?thesis using data by simp
  next
    case new
    then show ?thesis using is_now new_pair_view [OF ok] by simp
  qed
qed

lemma put_atomic:
  assumes v: "clean_path (fe_root env)" "validatePath (fe_root env) path"
    and key: "\<not> HasSuffix path ''/''" "\<not> HasSuffix (getFullPath (fe_root env) path) ''.maxiofs-folder''"
    and ok: "codec_ok env" and len: "length (fst data) < 2 ^ 63" and temps: "temps_clear (io_rand s) (fe_root env) path"
    and S: "map_of (io_disk s) (getStagingMetadataPath (fe_root env) path) = None"
    and M: "map_of (io_disk s) (getMetadataPath (fe_root env) path) \<noteq> Some Dir"
    and coll: "\<forall>b t. map_of (io_disk s) (getFullPath (fe_root env) path) = Some (File b t) \<longrightarrow>
      fe_md5 env b = fe_md5 env (fst data) \<longrightarrow> b = fst data"
    and run: "run_state (FS_Put env path data m) s = (r, s')"
  shows "(read_back env path s' = read_back env path s \<and> r \<noteq> None \<or>
      read_back env path s' = Inr (Some (fst data), map_of (stored_metadata env (fst data) (io_now s) m))) \<and>
    (\<forall>q. q \<notin> own_names (fe_root env) path \<longrightarrow> map_of (io_disk s) q \<noteq> None \<longrightarrow> map_of (io_disk s') q = map_of (io_disk s) q)"
proof -
  let ?e = "map_of (io_disk s)" and ?d = "map_of (io_disk s')"
  let ?X = "own_names (fe_root env) path \<union> dom ?e"
  have X: "solid (own_names (fe_root env) path) ?X ?e" "own_names (fe_root env) path \<subseteq> ?X" "agrees ?X ?e ?e"
    by (auto simp: solid_def agrees_def)
  have F: "\<not> HasSuffix (getFullPath (fe_root env) path) marker" using key(2) by (simp add: marker_def)
  have "run_state (put_file env path data m) s = (r, s')"
    using run v key(1) by (simp add: FS_Put_def)
  note post = hoareD(3) [OF put_file_spec [where e = ?e, OF v temps X(1,2) S F] refl refl X(3) this]
  then have leaves: "put_leaves (fe_root env) path (File (fst data) (io_now s)) (new_sidecar env (fst data) (io_now s) m) ?e r ?d"
    and dir: "?d (getStagingMetadataPath (fe_root env) path) \<noteq> None \<longrightarrow> ?d (path_Dir (getFullPath (fe_root env) path)) = Some Dir"
    by (simp_all add: put_post_def)
  have "?d q = ?e q" if "q \<notin> own_names (fe_root env) path" "?e q \<noteq> None" for q
    using post that unfolding put_post_def agrees_def by blast
  then show ?thesis
    using read_back_after_put [OF v ok len S M coll leaves dir] by blast
qed

text \<open>
  C4. A put of an object that is not a folder, with no staged sidecar left by an earlier put, is atomic for readers whatever fails or
  crashes. After any fault plan, a read of the object
  following a restart returns the bytes and metadata from before the put or exactly the new bytes with
  the new metadata, never a mixture; a put that reported success reads back as the new object; and no
  other file that existed is changed. The digest distinguishes the stored bytes from the new ones, the
  object's own names are not among the random temporary names, and no directory has the name of its sidecar. The conditions on the
  path and on the staged sidecar are needed, as the lemmas below show.
\<close>

theorem put_crash_atomic:
  assumes v: "clean_path (fe_root env)" "validatePath (fe_root env) path"
    and key: "\<not> HasSuffix path ''/''" "\<not> HasSuffix (getFullPath (fe_root env) path) ''.maxiofs-folder''"
    and ok: "codec_ok env" and len: "length (fst data) < 2 ^ 63" and temps: "temps_clear (io_rand s) (fe_root env) path"
    and S: "map_of (io_disk s) (getStagingMetadataPath (fe_root env) path) = None"
    and M: "map_of (io_disk s) (getMetadataPath (fe_root env) path) \<noteq> Some Dir"
    and coll: "\<forall>b t. map_of (io_disk s) (getFullPath (fe_root env) path) = Some (File b t) \<longrightarrow>
      fe_md5 env b = fe_md5 env (fst data) \<longrightarrow> b = fst data"
    and run: "run_state (FS_Put env path data m) s = (r, s')"
  shows "(read_back env path s' = read_back env path s \<and> r \<noteq> None \<or>
      read_back env path s' = Inr (Some (fst data), map_of (stored_metadata env (fst data) (io_now s) m))) \<and>
    (\<forall>q. q \<notin> own_names (fe_root env) path \<longrightarrow> map_of (io_disk s) q \<noteq> None \<longrightarrow> map_of (io_disk s') q = map_of (io_disk s) q)"
  by (rule put_atomic [OF v key ok len temps S M coll run])

text \<open>A concrete string-map codec and a disk with one object, overwritten by a put that dies before its last rename.\<close>

definition pack_string :: "string \<Rightarrow> string" where
  "pack_string s = concat (map (\<lambda>c. [CHR ''x'', c]) s) @ ''.''"

fun unpack_strings :: "string \<Rightarrow> string \<Rightarrow> string list" where
  "unpack_strings acc [] = []"
| "unpack_strings acc [c] = [acc]"
| "unpack_strings acc (a # c # r) = (if a = CHR ''x'' then unpack_strings (acc @ [c]) r else acc # unpack_strings [] (c # r))"

fun pair_up :: "string list \<Rightarrow> smap" where
  "pair_up (k # v # r) = (k, v) # pair_up r"
| "pair_up _ = []"

definition demo_env :: fs_env where
  "demo_env = \<lparr>fe_root = ''/data'', fe_md5 = \<lambda>b. CHR ''h'' # b,
     fe_json = \<lambda>m. concat (map (\<lambda>(k, v). pack_string k @ pack_string v) m),
     fe_unjson = \<lambda>j. Some (pair_up (unpack_strings [] j)), fe_dirStat = \<lambda>_. (0, 0)\<rparr>"

definition demo_disk :: io where
  "demo_disk = \<lparr>io_disk = [(''/'', Dir), (''/data'', Dir), (''/data/b'', Dir), (''/data/b/.maxiofs-folder'', File [] 0),
       (''/data/b/k'', File ''old'' 5), (''/data/b/k.metadata'', File (pack_string ''etag'' @ pack_string ''hold'') 5)],
     io_plan = replicate 14 Works @ [Crash 0], io_rand = [''1'', ''2''], io_now = 9\<rparr>"

lemma unpack_pack: "unpack_strings acc (pack_string s @ r) = (acc @ s) # unpack_strings [] r"
proof (induction s arbitrary: acc)
  case Nil
  show ?case by (cases r) (simp_all add: pack_string_def)
qed (simp add: pack_string_def)

lemma demo_codec: "codec_ok demo_env"
proof -
  have "pair_up (unpack_strings [] (concat (map (\<lambda>(k, v). pack_string k @ pack_string v) m))) = m" for m
    by (induction m) (auto simp: unpack_pack)
  then show ?thesis by (simp add: codec_ok_def demo_env_def)
qed

theorem put_crash_atomic_witness:
  "case run_state (FS_Put demo_env ''b/k'' (''fresh'', None) []) demo_disk of (r, s') \<Rightarrow>
    r = Some (StorageError ''AtomicMetadataMove'') \<and>
    (read_back demo_env ''b/k'' s' = read_back demo_env ''b/k'' demo_disk \<and> r \<noteq> None \<or>
     read_back demo_env ''b/k'' s' = Inr (Some ''fresh'', map_of (stored_metadata demo_env ''fresh'' 9 [])))"
proof -
  obtain r s' where run: "run_state (FS_Put demo_env ''b/k'' (''fresh'', None) []) demo_disk = (r, s')" by fastforce
  have v: "clean_path (fe_root demo_env)" "validatePath (fe_root demo_env) ''b/k''" "\<not> HasSuffix ''b/k'' ''/''"
    "\<not> HasSuffix (getFullPath (fe_root demo_env) ''b/k'') ''.maxiofs-folder''"
    by code_simp+
  have d: "temps_clear (io_rand demo_disk) (fe_root demo_env) ''b/k''"
    "map_of (io_disk demo_disk) (getStagingMetadataPath (fe_root demo_env) ''b/k'') = None"
    "map_of (io_disk demo_disk) (getMetadataPath (fe_root demo_env) ''b/k'') \<noteq> Some Dir"
    by code_simp+
  have len: "length (fst (''fresh'', None :: string option)) < 2 ^ 63" by simp
  have coll: "\<forall>b t. map_of (io_disk demo_disk) (getFullPath (fe_root demo_env) ''b/k'') = Some (File b t) \<longrightarrow>
      fe_md5 demo_env b = fe_md5 demo_env (fst (''fresh'', None :: string option)) \<longrightarrow> b = fst (''fresh'', None :: string option)"
    by (simp add: demo_env_def)
  have "fst (run_state (FS_Put demo_env ''b/k'' (''fresh'', None) []) demo_disk) = Some (StorageError ''AtomicMetadataMove'')"
    by code_simp
  then show ?thesis
    using put_crash_atomic [OF v demo_codec len d coll run] run by (simp add: demo_disk_def)
qed

section \<open>Where a put is not atomic\<close>

text \<open>
  A put died between its two commits: the data is new, its sidecar is staged, the final sidecar is the one from before. A read would
  complete that put. The next put cannot read the stage, goes on and replaces it by its own, and dies before its data is in place. The sidecar of
  the stored bytes is lost, and they are read with the sidecar of the bytes before them.
\<close>

definition half_put_disk :: io where
  "half_put_disk = demo_disk\<lparr>io_disk := (''/data/b/k.metadata-staging'', File (fe_json demo_env (stored_metadata demo_env ''fresh'' 7 [(''key'', ''2'')])) 7) #
       AList.update ''/data/b/k'' (File ''fresh'' 7) (io_disk demo_disk),
     io_plan := replicate 6 Works @ [Fails 0] @ replicate 6 Works @ [Crash 0]\<rparr>"

lemma stage_overwritten_mixes:
  "(case read_back demo_env ''b/k'' half_put_disk of Inl _ \<Rightarrow> False | Inr (b, m) \<Rightarrow> b = Some ''fresh'' \<and> m ''key'' = Some ''2'')"
  "(case read_back demo_env ''b/k'' (snd (run_state (FS_Put demo_env ''b/k'' (''third'', None) []) half_put_disk)) of
     Inl _ \<Rightarrow> False | Inr (b, m) \<Rightarrow> b = Some ''fresh'' \<and> m ''etag'' = Some ''hold'' \<and> m ''key'' = None)"
  by code_simp+

text \<open>The repair itself discards the stage when it cannot examine the data file, so one failed call of a read is enough.\<close>

lemma failed_stat_discards_stage:
  "(case read_back demo_env ''b/k'' (snd (run_state (FS_Get demo_env ''b/k'') (half_put_disk\<lparr>io_plan := [Works, Works, Fails 0]\<rparr>))) of
     Inl _ \<Rightarrow> False | Inr (b, m) \<Rightarrow> b = Some ''fresh'' \<and> m ''etag'' = Some ''hold'' \<and> m ''key'' = None)"
  by code_simp

text \<open>A put of a folder removes the files on its path, and a crash after that leaves neither.\<close>

lemma folder_put_removes_file:
  "(case run_state (FS_Put demo_env ''b/k/'' ([], None) []) (demo_disk\<lparr>io_plan := replicate 7 Works @ [Crash 0]\<rparr>) of (r, s') \<Rightarrow>
     r \<noteq> None \<and> map_of (io_disk demo_disk) ''/data/b/k'' \<noteq> None \<and> map_of (io_disk s') ''/data/b/k'' = None)"
  by code_simp

text \<open>
  A deletion takes no path lock. When a put of the same path runs between the two parts of a deletion, the removal of the data and that of
  the sidecar, the put succeeds and its bytes stay, but its entries are gone: for an encrypted object the data key.
\<close>

definition delete_around_put :: "(io, storage_error option) state" where
  "delete_around_put = do {
     _ \<leftarrow> remove_retry 5 (getFullPath (fe_root demo_env) ''b/k'');
     r \<leftarrow> FS_Put demo_env ''b/k'' (''fresh'', None) [(''key'', ''2'')];
     _ \<leftarrow> delete_sidecars demo_env ''b/k'';
     State_Monad.return r }"

lemma delete_around_put_loses_entries:
  "(case run_state delete_around_put (demo_disk\<lparr>io_plan := []\<rparr>) of (r, s') \<Rightarrow> r = None \<and>
     (case read_back demo_env ''b/k'' s' of Inl _ \<Rightarrow> False | Inr (b, m) \<Rightarrow> b = Some ''fresh'' \<and> m ''key'' = None))"
  by code_simp

section \<open>Where names collide\<close>

text \<open>
  An object key with a segment that ends in \<^verbatim>\<open>.metadata\<close> passes validation: after a put of
  \<^verbatim>\<open>k.metadata/x\<close> the directory \<^verbatim>\<open>k.metadata\<close> takes the name of the sidecar of \<^verbatim>\<open>k\<close>, whose put then
  fails after its data is committed and which can no longer be read.
\<close>

definition empty_bucket :: io where
  "empty_bucket = \<lparr>io_disk = [(''/'', Dir), (''/data'', Dir), (''/data/b'', Dir)], io_plan = [], io_rand = [''1'', ''2''], io_now = 9\<rparr>"

lemma sidecar_name_collision:
  "(let s = fs_run demo_env [(OpPut ''b/k.metadata/x'' (''one'', None) [], [])] empty_bucket;
        (r, s') = run_state (FS_Put demo_env ''b/k'' (''two'', None) []) s
    in r = Some (StorageError ''AtomicMetadataMove'') \<and>
       fst (run_state (FS_Get demo_env ''b/k'') s') = Inl (StorageError ''ReadMetadata''))"
  by code_simp

text \<open>A folder marker that a client creates is never listed: its sidecar is written beside the folder and looked for inside.\<close>

lemma explicit_folder_not_listed:
  "(let s = fs_run demo_env [(OpPut ''b/f/'' ([], None) [], [])] empty_bucket
    in map_of (io_disk s) ''/data/b/f'' = Some Dir \<and> fst (run_state (FS_List demo_env ''b/'' True) s) = Inr [])"
  by code_simp

end
