(* ===== verification/Data_Store.thy ===== *)
theory Data_Store
  imports Filesystem_Props
begin

text \<open>
  What the object manager relies on of its data store, as a locale: a successful write makes the bytes and
  the sidecar readable, a new sidecar keeps the bytes, and removing another path keeps both. The filesystem backend satisfies it for a
  valid path without a left-over staging file.
\<close>

section \<open>The interface\<close>

definition stamped_keys :: "string set" where
  "stamped_keys = {''size'', ''etag'', ''last_modified''}"

locale data_store =
  fixes B :: "'fs backend"
    and fit :: "string \<Rightarrow> string \<Rightarrow> 'fs \<Rightarrow> bool"
    and holds :: "string \<Rightarrow> string \<Rightarrow> smap \<Rightarrow> 'fs \<Rightarrow> bool"
    and apart :: "string \<Rightarrow> string \<Rightarrow> bool"
  assumes put_holds: "fit p d fs \<Longrightarrow> be_Put B p (d, None) m fs = (None, fs') \<Longrightarrow>
      \<exists>m'. holds p d m' fs' \<and> (\<forall>k. k \<notin> stamped_keys \<longrightarrow> map_of m' k = map_of m k) \<and> map_of m' ''size'' = Some (show_int64 (int (length d)))"
    and holds_get: "holds p d m fs \<Longrightarrow> be_Get B p fs = Inr ((d, None), m)"
    and holds_meta: "holds p d m fs \<Longrightarrow> be_GetMetadata B p fs = Inr m"
    and set_holds: "fit p d fs \<Longrightarrow> holds p d m fs \<Longrightarrow> be_SetMetadata B p n fs = (None, fs') \<Longrightarrow> \<exists>m'. holds p d m' fs' \<and> map_of m' = map_of n"
    and delete_keeps: "holds p d m fs \<Longrightarrow> apart p q \<Longrightarrow> be_Delete B q fs = (r, fs') \<Longrightarrow> holds p d m fs'"
begin

lemma delete_fold_keeps:
  assumes "holds p d m fs" "\<And>q. q \<in> set qs \<Longrightarrow> apart p q"
  shows "holds p d m (fold (\<lambda>q fs. snd (be_Delete B q fs)) qs fs)"
  using assms
proof (induction qs arbitrary: fs)
  case (Cons q qs)
  then have "holds p d m (snd (be_Delete B q fs))"
    using delete_keeps [of p d m fs q "fst (be_Delete B q fs)"] by simp
  with Cons show ?case by simp
qed simp

end

section \<open>The filesystem\<close>

text \<open>
  Reads of the record return no new state: what a read repairs on the disk is repaired again by the next one. They
  see the disk without faults, a failing read being an error of the download, not of what is stored.
\<close>

definition fs_handle :: "node \<Rightarrow> reader" where
  "fs_handle n = (case n of File b t \<Rightarrow> (b, None) | Dir \<Rightarrow> ([], Some ''is a directory''))"

definition fs_backend :: "fs_env \<Rightarrow> io backend" where
  "fs_backend env = \<lparr>be_Put = \<lambda>p d m. run_state (FS_Put env p d m),
     be_Get = \<lambda>p s. (case fst (run_state (FS_Get env p) (restart s)) of Inl e \<Rightarrow> Inl e | Inr (h, m) \<Rightarrow> Inr (fs_handle h, m)),
     be_Delete = \<lambda>p. run_state (FS_Delete env p), be_Exists = \<lambda>p s. fst (run_state (FS_Exists env p) (restart s)),
     be_List = \<lambda>p r s. fst (run_state (FS_List env p r) (restart s)), be_GetMetadata = \<lambda>p s. fst (run_state (FS_GetMetadata env p) (restart s)),
     be_SetMetadata = \<lambda>p m. run_state (FS_SetMetadata env p m), be_RemoveDirectory = \<lambda>p s. snd (run_state (FS_RemoveDirectory env p) s)\<rparr>"

definition fs_fit :: "fs_env \<Rightarrow> string \<Rightarrow> string \<Rightarrow> io \<Rightarrow> bool" where
  "fs_fit env path d s \<longleftrightarrow> clean_path (fe_root env) \<and> validatePath (fe_root env) path \<and> \<not> HasSuffix path ''/'' \<and>
     \<not> HasSuffix (getFullPath (fe_root env) path) ''.maxiofs-folder'' \<and> codec_ok env \<and>
     temps_clear (io_rand s) (fe_root env) path \<and> map_of (io_disk s) (getStagingMetadataPath (fe_root env) path) = None"

definition fs_holds :: "fs_env \<Rightarrow> string \<Rightarrow> string \<Rightarrow> smap \<Rightarrow> io \<Rightarrow> bool" where
  "fs_holds env path d m s \<longleftrightarrow> validatePath (fe_root env) path \<and> (\<exists>t j t'. map_of (io_disk s) (getFullPath (fe_root env) path) = Some (File d t) \<and>
     map_of (io_disk s) (getMetadataPath (fe_root env) path) = Some (File j t') \<and> fe_unjson env j = Some m) \<and>
     map_of (io_disk s) (getStagingMetadataPath (fe_root env) path) = None"

definition fs_apart :: "fs_env \<Rightarrow> string \<Rightarrow> string \<Rightarrow> bool" where
  "fs_apart env p q \<longleftrightarrow> own_names (fe_root env) p \<inter> own_names (fe_root env) q = {} \<and>
     (\<forall>x\<in>own_names (fe_root env) p. \<not> beneath (getFullPath (fe_root env) q) x)"

lemma fs_put_holds:
  assumes fit: "fs_fit env p d s" and put: "be_Put (fs_backend env) p (d, None) m s = (None, s')"
  shows "\<exists>m'. fs_holds env p d m' s' \<and> (\<forall>k. k \<notin> stamped_keys \<longrightarrow> map_of m' k = map_of m k) \<and> map_of m' ''size'' = Some (show_int64 (int (length d)))"
proof -
  let ?e = "map_of (io_disk s)" and ?d = "map_of (io_disk s')" and ?own = "own_names (fe_root env) p"
  let ?X = "?own \<union> dom ?e"
  have X: "solid ?own ?X ?e" "?own \<subseteq> ?X" "agrees ?X ?e ?e" by (auto simp: solid_def agrees_def)
  have v: "clean_path (fe_root env)" "validatePath (fe_root env) p" "temps_clear (io_rand s) (fe_root env) p"
    "?e (getStagingMetadataPath (fe_root env) p) = None" "\<not> HasSuffix (getFullPath (fe_root env) p) marker" "codec_ok env"
    using fit by (simp_all add: fs_fit_def marker_def)
  have "run_state (put_file env p (d, None) m) s = (None, s')"
    using fit put by (simp add: fs_fit_def fs_backend_def FS_Put_def)
  from hoareD(3) [OF put_file_spec [where e = ?e, OF v(1,2,3) X(1,2) v(4,5)] refl refl X(3) this]
  have "?d (getFullPath (fe_root env) p) = Some (File d (io_now s))" "?d (getMetadataPath (fe_root env) p) = Some (new_sidecar env d (io_now s) m)"
    "?d (getStagingMetadataPath (fe_root env) p) = None"
    by (simp_all add: put_post_def put_leaves_def Let_def)
  moreover obtain m' where "fe_unjson env (fe_json env (stored_metadata env d (io_now s) m)) = Some m'"
    "map_of m' = map_of (stored_metadata env d (io_now s) m)"
    using v(6) unfolding codec_ok_def by blast
  ultimately show ?thesis
    by (intro exI [of _ m']) (auto simp: fs_holds_def new_sidecar_def v(2) stored_fields stamped_keys_def stored_metadata_def update_conv')
qed

lemma fs_holds_view:
  assumes "fs_holds env p d m s"
  obtains t where "pair_view env (getFullPath (fe_root env) p) (map_of (io_disk s) (getFullPath (fe_root env) p))
    (map_of (io_disk s) (getMetadataPath (fe_root env) p)) = Inr (File d t, m)"
  using assms by (auto simp: fs_holds_def pair_view_def)

lemma fs_holds_get:
  assumes h: "fs_holds env p d m s"
  shows "be_Get (fs_backend env) p s = Inr ((d, None), m)" "be_GetMetadata (fs_backend env) p s = Inr m"
proof -
  obtain t where view: "pair_view env (getFullPath (fe_root env) p) (map_of (io_disk s) (getFullPath (fe_root env) p))
    (map_of (io_disk s) (getMetadataPath (fe_root env) p)) = Inr (File d t, m)" by (rule fs_holds_view [OF h])
  have v: "validatePath (fe_root env) p" and S: "map_of (io_disk (restart s)) (getStagingMetadataPath (fe_root env) p) = None"
    using h by (simp_all add: fs_holds_def pair_view_None)
  note quiet = maybeRepair_unstaged [OF pair_view_None(2) S]
  show "be_Get (fs_backend env) p s = Inr ((d, None), m)"
    using run_Get [OF v quiet pair_view_None(2) S] view by (simp add: fs_backend_def fs_handle_def pair_view_None)
  have n: "map_of (io_disk (restart s)) (getFullPath (fe_root env) p) = Some (File d t)"
    using view h by (auto simp: fs_holds_def pair_view_None pair_view_def)
  show "be_GetMetadata (fs_backend env) p s = Inr m"
    using run_GetMetadata [OF v pair_view_None(2) quiet n] view n by (simp add: fs_backend_def pair_view_None)
qed

lemma SetMetadata_spec:
  assumes v: "clean_path (fe_root env)" "validatePath (fe_root env) path" and R: "temps_clear R (fe_root env) path"
    and X: "solid (own_names (fe_root env) path) X e" "own_names (fe_root env) path \<subseteq> X"
    and S: "e (getStagingMetadataPath (fe_root env) path) = None"
  shows "hoare R N (agrees X e) (FS_SetMetadata env path m)
    (\<lambda>r d. r = None \<longrightarrow> agrees X (e(getMetadataPath (fe_root env) path := Some (File (fe_json env m) N))) d)"
proof -
  let ?M = "getMetadataPath (fe_root env) path" and ?js = "File (fe_json env m) N"
  let ?e = "e(?M := Some ?js)"
  have repair: "hoare R N (agrees X e) (repairStagedCommit env path) (\<lambda>_. agrees X e)"
    using X(2) own_in(3) S by (intro keep_repair_unstaged) auto
  have tail: "hoare R N (\<lambda>d. T \<notin> X \<and> agrees (insert T X) (e(T := Some ?js)) d)
      (State_Monad.bind (os_Rename T ?M) (\<lambda>r. State_Monad.bind (os_Remove T) (\<lambda>_.
        State_Monad.return (case r of Inl _ \<Rightarrow> Some (StorageError ''AtomicMetadataMove'') | Inr _ \<Rightarrow> None))))
      (\<lambda>r d. r = None \<longrightarrow> agrees X ?e d)" for T
  proof (rule hoare_fact [where H = "T \<notin> X"])
    assume T: "T \<notin> X"
    have ren: "hoare R N (\<lambda>d. T \<notin> X \<and> agrees (insert T X) (e(T := Some ?js)) d) (os_Rename T ?M)
        (\<lambda>r. agrees X (case r of Inl _ \<Rightarrow> e | Inr _ \<Rightarrow> ?e))"
      by (rule hoare_post [OF hoare_pre [OF agrees_Rename [where Y = "insert T X" and Z = "e(T := Some ?js)" and x = ?js]]])
        (use T in \<open>auto simp: agrees_def split: sum.splits\<close>)
    show ?thesis
      by (rule hoare_bind [OF ren], rule hoare_bind [OF keep_Remove [OF T]], rule hoare_return) (auto split: sum.splits)
  qed simp
  show ?thesis
    unfolding FS_SetMetadata_def saveMetadata_def using v(2)
    by (simp, intro hoare_bind [OF repair] hoare_bind [OF agrees_prepareMetadataTemp [OF v R X(1)]] hoare_sum hoare_return)
      (simp_all add: tail)
qed

lemma fs_set_holds:
  assumes fit: "fs_fit env p d s" and h: "fs_holds env p d m s" and set: "be_SetMetadata (fs_backend env) p n s = (None, s')"
  shows "\<exists>m'. fs_holds env p d m' s' \<and> map_of m' = map_of n"
proof -
  let ?e = "map_of (io_disk s)" and ?own = "own_names (fe_root env) p"
  have X: "solid ?own (?own \<union> dom ?e) ?e" "?own \<subseteq> ?own \<union> dom ?e" "agrees (?own \<union> dom ?e) ?e ?e" by (auto simp: solid_def agrees_def)
  have v: "clean_path (fe_root env)" "validatePath (fe_root env) p" "temps_clear (io_rand s) (fe_root env) p"
    "?e (getStagingMetadataPath (fe_root env) p) = None" "codec_ok env"
    using fit by (simp_all add: fs_fit_def)
  have "agrees (?own \<union> dom ?e) (?e(getMetadataPath (fe_root env) p := Some (File (fe_json env n) (io_now s)))) (map_of (io_disk s'))"
    using hoareD(3) [OF SetMetadata_spec [where e = ?e, OF v(1-3) X(1,2) v(4)] refl refl X(3)] set by (auto simp: fs_backend_def)
  moreover obtain m' where "fe_unjson env (fe_json env n) = Some m'" "map_of m' = map_of n" using v(5) unfolding codec_ok_def by blast
  ultimately show ?thesis using h own_in [of "fe_root env" p] own_distinct [of "fe_root env" p]
    by (intro exI [of _ m']) (auto simp: fs_holds_def agrees_def)
qed

lemma keep_RemoveAll: "\<forall>x\<in>X. \<not> beneath q x \<Longrightarrow> hoare R N (agrees X e) (os_RemoveAll q) (\<lambda>r. agrees X e)"
proof -
  assume q: "\<forall>x\<in>X. \<not> beneath q x"
  have *: "map_of (filter (\<lambda>(x, n). \<not> (beneath q x \<and> P x)) d) x = map_of d x" if "\<not> beneath q x" for x P and d :: "(string \<times> node) list"
    using that by (induction d) auto
  then have "agrees X e (map_of (filter (\<lambda>(x, n). \<not> beneath q x) d))" "agrees X e (map_of (remove_some k q d))"
    if "agrees X e (map_of d)" for d k
    using that q * [where P = "\<lambda>_. True"] by (auto simp: agrees_def remove_some_def Let_def)
  then show ?thesis
    by (intro hoareI) (auto simp: os_RemoveAll_def next_fault_def split: list.splits fault.splits)
qed

lemma keep_remove_retry: "q \<notin> X \<Longrightarrow> hoare R N (agrees X e) (remove_retry n q) (\<lambda>r. agrees X e)"
  by (induction n) (auto intro!: hoare_return hoare_bind [OF keep_Remove] hoare_sum)

lemma keep_Stat: "hoare R N P (os_Stat q) (\<lambda>r. P)"
  by (rule hoare_post [OF hoare_Stat]) blast

lemma keep_delete_sidecars:
  assumes "own_names (fe_root env) q \<inter> X = {}"
  shows "hoare R N (agrees X e) (delete_sidecars env q) (\<lambda>r. agrees X e)"
proof -
  have "getMetadataPath (fe_root env) q \<notin> X" "getStagingMetadataPath (fe_root env) q \<notin> X"
    using assms by (auto simp: own_names_def)
  then show ?thesis
    unfolding delete_sidecars_def Let_def
    by (intro hoare_bind [OF keep_Stat] hoare_bind [where Q = "\<lambda>_. agrees X e"] hoare_sum hoare_return keep_Remove) auto
qed

lemma keep_Delete:
  assumes "own_names (fe_root env) q \<inter> X = {}" "\<forall>x\<in>X. \<not> beneath (getFullPath (fe_root env) q) x"
  shows "hoare R N (agrees X e) (FS_Delete env q) (\<lambda>r. agrees X e)"
proof -
  have F: "getFullPath (fe_root env) q \<notin> X" using assms(1) by (auto simp: own_names_def)
  note rules = hoare_bind [OF keep_Stat] hoare_bind [OF keep_RemoveAll [OF assms(2)]] hoare_bind [OF keep_remove_retry [OF F]]
    hoare_return keep_delete_sidecars [OF assms(1)]
  show ?thesis
    unfolding FS_Delete_def Let_def
    by (auto intro!: rules split: sum.splits os_error.splits node.splits)
qed

lemma fs_delete_keeps:
  assumes "fs_holds env p d m s" "fs_apart env p q" "be_Delete (fs_backend env) q s = (r, s')"
  shows "fs_holds env p d m s'"
proof -
  have "hoare (io_rand s) (io_now s) (agrees (own_names (fe_root env) p) (map_of (io_disk s))) (FS_Delete env q)
      (\<lambda>r. agrees (own_names (fe_root env) p) (map_of (io_disk s)))"
    using assms(2) by (intro keep_Delete) (auto simp: fs_apart_def)
  from hoareD(3) [OF this refl refl, of r s'] assms(3)
  have "agrees (own_names (fe_root env) p) (map_of (io_disk s)) (map_of (io_disk s'))"
    by (simp add: agrees_def fs_backend_def)
  then show ?thesis using assms(1) by (simp add: fs_holds_def agrees_def own_names_def)
qed

interpretation fsd: data_store "fs_backend env" "fs_fit env" "fs_holds env" "fs_apart env" for env
  by unfold_locales (rule fs_put_holds fs_holds_get fs_set_holds fs_delete_keeps; assumption)+

section \<open>An in-memory data store\<close>

definition mem_backend :: "(string \<times> string \<times> smap) list backend" where
  "mem_backend = \<lparr>be_Put = \<lambda>p d m fs. (case snd d of
       Some e \<Rightarrow> (Some (StorageError e), fs)
     | None \<Rightarrow> (None, AList.update p (fst d, AList.update ''size'' (show_int64 (int (length (fst d)))) m) fs)),
     be_Get = \<lambda>p fs. (case map_of fs p of None \<Rightarrow> Inl StorageNotFound | Some (d, m) \<Rightarrow> Inr ((d, None), m)),
     be_Delete = \<lambda>p fs. (None, AList.delete p fs), be_Exists = \<lambda>p fs. Inr (map_of fs p \<noteq> None), be_List = \<lambda>p r fs. Inr [],
     be_GetMetadata = \<lambda>p fs. (case map_of fs p of None \<Rightarrow> Inl StorageNotFound | Some (d, m) \<Rightarrow> Inr m),
     be_SetMetadata = \<lambda>p m fs. (case map_of fs p of None \<Rightarrow> (Some StorageNotFound, fs) | Some (d, _) \<Rightarrow> (None, AList.update p (d, m) fs)),
     be_RemoveDirectory = \<lambda>p fs. fs\<rparr>"

definition mem_holds :: "string \<Rightarrow> string \<Rightarrow> smap \<Rightarrow> (string \<times> string \<times> smap) list \<Rightarrow> bool" where
  "mem_holds p d m fs \<longleftrightarrow> map_of fs p = Some (d, m)"

interpretation memd: data_store mem_backend "\<lambda>_ _ _. True" mem_holds "(\<noteq>)"
  by unfold_locales (auto simp: mem_backend_def mem_holds_def stamped_keys_def update_conv' delete_conv')

end
