(* ===== verification/Object_Read.thy ===== *)
theory Object_Read
  imports Envelope Data_Store
begin

text \<open>
  Reading object data, \<^verbatim>\<open>GetObject\<close> of \<^verbatim>\<open>internal/object/manager.go\<close>, and the conversion of stored objects to envelope
  encryption, \<^verbatim>\<open>encryption_migration.go\<close>.

  The data store is behind the locale \<open>data_store\<close>. \<open>put_then_get\<close> composes the metadata store, the data store, the encrypted stream and the
  key store: what was uploaded is what is downloaded, also after the keys were rotated.
\<close>

section \<open>GetObject\<close>

text \<open>The metadata entry that decides the version to read, and that version.\<close>

definition get_target :: "'db engine \<Rightarrow> string \<Rightarrow> string \<Rightarrow> string \<Rightarrow> 'db pstore \<Rightarrow> object_error + object_metadata option \<times> string" where
  "get_target E bucket key versionID s =
     (if versionID \<noteq> [] then (case GetObject E bucket key versionID s of
          Inl e \<Rightarrow> Inl (if e = ErrObjectNotFound then ObjectNotFound else OMeta e)
        | Inr metaObj \<Rightarrow> Inr (Some metaObj, versionID))
      else (case GetObject E bucket key [] s of
          Inl _ \<Rightarrow> Inr (None, [])
        | Inr metaObj \<Rightarrow> Inr (Some metaObj, om_VersionID metaObj)))"

text \<open>The object of a file without a metadata entry, from its sidecar.\<close>

definition sidecar_object :: "string \<Rightarrow> string \<Rightarrow> smap \<Rightarrow> object" where
  "sidecar_object bucket key m = blank_object\<lparr>ob_Key := key, ob_Bucket := bucket,
     ob_Size := ParseInt64 (map_get m (if map_get m ''encrypted'' = ''true'' then ''original-size'' else ''size'')),
     ob_LastModified := seconds (ParseInt64 (map_get m ''last_modified'')),
     ob_ETag := map_get m (if map_get m ''encrypted'' = ''true'' then ''original-etag'' else ''etag''),
     ob_ContentType := map_get m ''content-type'', ob_ContentDisposition := map_get m ''content-disposition'',
     ob_ContentEncoding := map_get m ''content-encoding'', ob_CacheControl := map_get m ''cache-control'',
     ob_ContentLanguage := map_get m ''content-language'', ob_StorageClass := StorageClassStandard\<rparr>"

definition OM_GetObject :: "'k crypter \<Rightarrow> ('db, 'fs, 'au) om_env \<Rightarrow> string \<Rightarrow> string \<Rightarrow> string \<Rightarrow> ('db, 'fs, 'au) om_state
    \<Rightarrow> object_error + object \<times> reader" where
  "OM_GetObject cr env bucket key versionID sys =
     (if \<not> validateObjectName key then Inl InvalidObjectName
      else (case get_target (env_E env) bucket key versionID (os_store sys) of
        Inl e \<Rightarrow> Inl e
      | Inr (metaObj, requestedVersionID) \<Rightarrow> (let
          objectPath = (if requestedVersionID \<noteq> [] then getVersionedObjectPath bucket key requestedVersionID else getObjectPath bucket key)
        in case be_Get (env_B env) objectPath (os_fs sys) of
             Inl e \<Rightarrow> Inl (if e = StorageNotFound then ObjectNotFound else OStorage e)
           | Inr (encryptedReader, storageMetadata) \<Rightarrow> (let
               object = (case metaObj of Some ob \<Rightarrow> fromMetadataObject ob | None \<Rightarrow> sidecar_object bucket key storageMetadata);
               isEncrypted = (map_get storageMetadata ''encrypted'' = ''true'');
               object' = (if isEncrypted \<and> ob_SSEAlgorithm object = [] then object\<lparr>ob_SSEAlgorithm := ''AES256''\<rparr> else object)
             in if metaObj \<noteq> None \<and> ob_Size object = 0 \<and> ob_ETag object = [] \<and> requestedVersionID = [] then Inl ObjectNotFound
                else if isEncrypted then (case decryptionKeyFor cr storageMetadata of
                    Inl e \<Rightarrow> Inl (OMsg e)
                  | Inr decryptKey \<Rightarrow> Inr (object', decrypt_pipe cr storageMetadata decryptKey encryptedReader))
                else Inr (object', encryptedReader)))))"

section \<open>Conversion of stored objects\<close>

text \<open>
  \<open>verifyConvertedObject\<close> reads the file back; its error is \<open>Some\<close>. In \<open>convertPathToEnvelope\<close> the first check and the
  check under the lock read the same sidecar, since nothing runs in between in the model; the lock keeps other
  writers of the key out of the rest. \<open>stage\<close> is the outcome of writing the two staging files.
\<close>

definition verifyConvertedObject :: "'k crypter \<Rightarrow> ('db, 'fs, 'au) om_env \<Rightarrow> string \<Rightarrow> string \<Rightarrow> 'fs \<Rightarrow> string option" where
  "verifyConvertedObject cr env path expectedMD5 fs = (case be_Get (env_B env) path fs of
     Inl _ \<Rightarrow> Some ''readback failed''
   | Inr (rd, meta) \<Rightarrow>
       if map_get meta ''encrypted'' \<noteq> ''true'' then Some ''object is not marked encrypted after rewrite''
       else (case decryptionKeyFor cr meta of
         Inl _ \<Rightarrow> Some ''failed to resolve decryption key''
       | Inr decryptKey \<Rightarrow> (case decrypt_pipe cr meta decryptKey rd of
           (plain, Some _) \<Rightarrow> Some ''decryption failed''
         | (plain, None) \<Rightarrow> if env_md5 env plain \<noteq> expectedMD5 then Some ''plaintext MD5 mismatch after conversion'' else None)))"

definition staged_plaintext :: "'k crypter \<Rightarrow> smap \<Rightarrow> reader \<Rightarrow> string + string" where
  "staged_plaintext cr meta rd =
     (if map_get meta ''encrypted'' = ''true'' then (case decryptionKeyFor cr meta of
          Inl _ \<Rightarrow> Inl ''failed to resolve legacy decryption key''
        | Inr decryptKey \<Rightarrow> (case decrypt_pipe cr meta decryptKey rd of
            (plain, Some _) \<Rightarrow> Inl ''failed to decrypt legacy object for conversion''
          | (plain, None) \<Rightarrow> Inr plain))
      else (case rd of (plain, Some _) \<Rightarrow> Inl ''failed to stage plaintext'' | (plain, None) \<Rightarrow> Inr plain))"

definition converted_etag :: "('db, 'fs, 'au) om_env \<Rightarrow> smap \<Rightarrow> string \<Rightarrow> string" where
  "converted_etag env meta plain =
     (if map_get meta ''original-etag'' \<noteq> [] then map_get meta ''original-etag''
      else if map_get meta ''etag'' \<noteq> [] then map_get meta ''etag''
      else env_md5 env plain)"

definition convert_rewrite :: "'k crypter \<Rightarrow> ('db, 'fs, 'au) om_env \<Rightarrow> string \<Rightarrow> smap \<Rightarrow> reader \<Rightarrow> string \<Rightarrow> 'fs \<Rightarrow> (string + bool) \<times> 'fs" where
  "convert_rewrite cr env path meta rd plain fs =
     (case storeEncryptedObject env path plain meta (int (length plain)) (converted_etag env meta plain) fs of
        (Some _, fs) \<Rightarrow> (Inl ''failed to rewrite object encrypted'', fs)
      | (None, fs) \<Rightarrow> (case verifyConvertedObject cr env path (env_md5 env plain) fs of
          None \<Rightarrow> (Inr True, fs)
        | Some verifyErr \<Rightarrow> (let wroteDEK = (case env_envelope env of Inl _ \<Rightarrow> [] | Inr (dek, em) \<Rightarrow> map_get em ''wrapped-dek'') in
            if (case be_GetMetadata (env_B env) path fs of Inl _ \<Rightarrow> False
                | Inr cur \<Rightarrow> map_get cur ''wrapped-dek'' \<noteq> [] \<and> map_get cur ''wrapped-dek'' \<noteq> wroteDEK)
            then (Inr False, fs)
            else (case env_open env fs of
                Some _ \<Rightarrow> (Inl ''verification failed and restore failed'', fs)
              | None \<Rightarrow> (case be_Put (env_B env) path (fst rd, None) meta fs of
                  (Some _, fs) \<Rightarrow> (Inl ''verification failed and restore failed'', fs)
                | (None, fs) \<Rightarrow> (Inl ''verification failed, original restored'', fs))))))"

definition convertPathToEnvelope :: "'k crypter \<Rightarrow> ('db, 'fs, 'au) om_env \<Rightarrow> string + bytes \<Rightarrow> string \<Rightarrow> 'fs \<Rightarrow> (string + bool) \<times> 'fs" where
  "convertPathToEnvelope cr env rndIV path fs =
     (case be_Exists (env_B env) path fs of
        Inl _ \<Rightarrow> (Inr False, fs)
      | Inr False \<Rightarrow> (Inr False, fs)
      | Inr True \<Rightarrow> (case be_GetMetadata (env_B env) path fs of
          Inl _ \<Rightarrow> (Inr False, fs)
        | Inr meta \<Rightarrow>
            if map_get meta ''content-type'' = ''application/x-directory'' then (Inr False, fs)
            else (case migrationActionFor cr meta of
              MigrationSkip \<Rightarrow> (Inr False, fs)
            | MigrationRewrap \<Rightarrow> rewrapPathDEK cr (env_B env) rndIV path meta fs
            | MigrationEncrypt \<Rightarrow> (case be_Get (env_B env) path fs of
                Inl e \<Rightarrow> (if e = StorageNotFound then Inr False else Inl ''failed to open object for encryption'', fs)
              | Inr (rd, _) \<Rightarrow> (case env_stage env rd fs of
                  Some _ \<Rightarrow> (Inl ''failed to create staging file'', fs)
                | None \<Rightarrow> (case staged_plaintext cr meta rd of
                    Inl e \<Rightarrow> (Inl e, fs)
                  | Inr plain \<Rightarrow> convert_rewrite cr env path meta rd plain fs))))))"

text \<open>The files of a key: its current object and its stored versions, each once.\<close>

definition stored_paths :: "'db engine \<Rightarrow> string \<Rightarrow> string \<Rightarrow> 'db pstore \<Rightarrow> string list" where
  "stored_paths E bucket key s = remdups (
     (case GetObject E bucket key [] s of
        Inl _ \<Rightarrow> [getObjectPath bucket key]
      | Inr metaObj \<Rightarrow>
          if isMetadataDeleteMarker (Some metaObj) then []
          else if om_VersionID metaObj \<noteq> [] then [getVersionedObjectPath bucket key (om_VersionID metaObj)]
          else [getObjectPath bucket key]) @
     (case GetObjectVersions E bucket key s of
        Inl _ \<Rightarrow> []
      | Inr versions \<Rightarrow> map (\<lambda>v. getVersionedObjectPath bucket key (ov_VersionID v)) (filter (\<lambda>v. ov_VersionID v \<noteq> []) versions)))"

fun convert_paths :: "'k crypter \<Rightarrow> (nat \<Rightarrow> ('db, 'fs, 'au) om_env) \<Rightarrow> (nat \<Rightarrow> string + bytes) \<Rightarrow> nat \<Rightarrow> string list \<Rightarrow> int \<Rightarrow> int \<Rightarrow> 'fs
    \<Rightarrow> (int \<times> int \<times> string option) \<times> 'fs" where
  "convert_paths cr env rndIV i [] converted skipped fs = ((converted, skipped, None), fs)"
| "convert_paths cr env rndIV i (path # paths) converted skipped fs =
     (case convertPathToEnvelope cr (env i) (rndIV i) path fs of
        (Inl e, fs) \<Rightarrow> ((converted, skipped, Some e), fs)
      | (Inr True, fs) \<Rightarrow> convert_paths cr env rndIV (Suc i) paths (converted + 1) skipped fs
      | (Inr False, fs) \<Rightarrow> convert_paths cr env rndIV (Suc i) paths converted (skipped + 1) fs)"

text \<open>Each conversion draws its own random bytes, so the environment and the nonces are indexed.\<close>

definition EncryptExistingObject :: "'k crypter \<Rightarrow> (nat \<Rightarrow> ('db, 'fs, 'au) om_env) \<Rightarrow> (nat \<Rightarrow> string + bytes) \<Rightarrow> string \<Rightarrow> string
    \<Rightarrow> ('db, 'fs, 'au) om_state \<Rightarrow> (int \<times> int \<times> string option) \<times> 'fs" where
  "EncryptExistingObject cr env rndIV bucket key sys =
     (if HasSuffix key ''/'' then ((0, 1, None), os_fs sys)
      else convert_paths cr env rndIV 0 (stored_paths (env_E (env 0)) bucket key (os_store sys)) 0 0 (os_fs sys))"

section \<open>The entry an upload leaves\<close>

text \<open>Neither the parent folders nor the counters touch the entries of the object.\<close>

definition own_entry :: "string \<Rightarrow> string \<Rightarrow> string \<Rightarrow> bool" where
  "own_entry b k x \<longleftrightarrow> x = objectKey b k \<or> (\<exists>v. x = objectVersionKey b k v \<and> v \<noteq> [])"

lemma folder_paths_slash: "f \<in> set (folder_paths c parts) \<Longrightarrow> HasSuffix f ''/''"
  by (induction parts arbitrary: c) (auto simp: Let_def HasSuffix_def split: if_splits)

context pebble_engine
begin

lemma ensure_folder_own:
  assumes "own_entry b k x" "HasSuffix f ''/''" "\<not> HasSuffix k ''/''"
  shows "sto cont (ensure_folder E now b f s) x = sto cont s x"
proof -
  have ne: "x \<noteq> objectKey b f" "x \<notin> tag_keys b f t" for t
    using assms by (auto simp: own_entry_def objectKey_def tag_keys_def objectVersionKey_def tagIndexKey_def)
  have "put_object_map (stamp_object now (folder_object now b f)) m x = m x" for m
    using ne put_object_map_def [of "stamp_object now (folder_object now b f)" m]
    by (simp add: Let_def folder_object_def zero_object_def apply_tag_dels apply_tag_sets)
  then show ?thesis
    by (auto simp: ensure_folder_def try_store_def dest!: PutObject_sound(4) split: sum.splits)
qed

lemma ensureImplicitFolders_own:
  assumes "own_entry b k x"
  shows "sto cont (ensureImplicitFolders E now b k s) x = sto cont s x"
proof (cases "HasSuffix k ''/''")
  case False
  have "sto cont (fold (ensure_folder E now b) fs s) x = sto cont s x" if "\<And>f. f \<in> set fs \<Longrightarrow> HasSuffix f ''/''" for fs
    using that by (induction fs arbitrary: s) (simp_all add: ensure_folder_own [OF assms _ False])
  with folder_paths_slash show ?thesis by (auto simp: ensureImplicitFolders_def Let_def)
qed (simp add: ensureImplicitFolders_def)

lemma counts_own:
  assumes "own_entry b k x"
  shows "sto cont (updateBucketMetricsAfterPut E now t n z ve ex s) x = sto cont s x"
proof -
  have "x \<noteq> bucketKey t n" using assms by (auto simp: own_entry_def)
  then have "sto cont (try_store (UpdateBucketMetrics E now t n dc ds s) s) x = sto cont s x" for dc ds
    by (auto simp: try_store_def dest!: UpdateBucketMetrics_sound split: sum.splits)
  then show ?thesis
    by (auto simp: updateBucketMetricsAfterPut_def Let_def IncrementObjectCount_def AdjustBucketSize_def split: option.splits)
qed

lemma saved_entry:
  fixes obj :: object
  defines "b \<equiv> ob_Bucket obj" and "k \<equiv> ob_Key obj" and "ob0 \<equiv> toMetadataObject obj"
  assumes put: "(if ve then PutObjectVersion E (Some ob0) (Some ver) s else PutObject E now (Some ob0) s) = Inr s1"
    and ver: "ov_VersionID ver = ob_VersionID obj" "ov_IsLatest ver"
    and id: "ve \<longleftrightarrow> ob_VersionID obj \<noteq> []" and v: "v = [] \<or> v = ob_VersionID obj"
  obtains ob where "sto cont s1 (objKeyFor b k v) = Some (JObject ob)" "om_Bucket ob = b" "om_Key ob = k"
    "om_VersionID ob = ob_VersionID obj" "om_Size ob = ob_Size obj" "om_ETag ob = ob_ETag obj"
proof -
  have fields: "om_Bucket ob0 = b" "om_Key ob0 = k" "om_VersionID ob0 = ob_VersionID obj" "om_Size ob0 = ob_Size obj" "om_ETag ob0 = ob_ETag obj"
    by (simp_all add: toMetadataObject_def b_def k_def ob0_def)
  show thesis
  proof (cases ve)
    case True
    then have p: "PutObjectVersion E (Some ob0) (Some ver) s = Inr s1" using put by simp
    have "sto cont s1 (objKeyFor b k v) = Some (JObject (ob0\<lparr>om_VersionID := ob_VersionID obj, om_IsLatest := True\<rparr>))"
      using PutObjectVersion_latest(1) [OF p ver(2), of "objKeyFor b k v"] v fields ver(1) by (auto simp: objKeyFor_def)
    then show thesis using that fields by simp
  next
    case False
    then have p: "PutObject E now (Some ob0) s = Inr s1" and v0: "v = []" "ob_VersionID obj = []" using put id v by simp_all
    have "sto cont s1 (objKeyFor b k v) = Some (JObject (stamp_object now ob0))"
      using PutObject_sound(4) [OF p] put_object_map_object [of "stamp_object now ob0" "sto cont s"] fields v0
      by (simp add: objKeyFor_def)
    then show thesis using that fields by (auto simp: stamp_object_def Let_def)
  qed
qed

lemma own_objKeyFor: "own_entry b k (objKeyFor b k v)"
  by (auto simp: own_entry_def objKeyFor_def)

lemma save_put_entry:
  assumes sp: "save_put env now ve obj sys = (Inr obj', sys')" and E: "env_E env = E"
    and id: "ve \<longleftrightarrow> ob_VersionID obj \<noteq> []" and v: "v = [] \<or> v = ob_VersionID obj"
  shows "obj' = obj \<and> os_fs sys' = os_fs sys \<and>
    (\<exists>ob. sto cont (os_store sys') (objKeyFor (ob_Bucket obj) (ob_Key obj) v) = Some (JObject ob) \<and>
      om_Bucket ob = ob_Bucket obj \<and> om_Key ob = ob_Key obj \<and> om_VersionID ob = ob_VersionID obj \<and>
      om_Size ob = ob_Size obj \<and> om_ETag ob = ob_ETag obj)"
proof -
  let ?b = "ob_Bucket obj" and ?k = "ob_Key obj" and ?ob = "toMetadataObject obj"
  define ver where "ver = zero_version\<lparr>ov_VersionID := ob_VersionID obj, ov_IsLatest := True, ov_Key := ?k, ov_Size := ob_Size obj,
       ov_ETag := ob_ETag obj, ov_LastModified := ob_LastModified obj, ov_StorageClass := ob_StorageClass obj\<rparr>"
  obtain t n where tn: "parseBucketPath ?b = (t, n)" by (cases "parseBucketPath ?b")
  obtain s1 where s1: "(if ve then PutObjectVersion E (Some ?ob) (Some ver) (os_store sys) else PutObject E now (Some ?ob) (os_store sys)) = Inr s1"
    and r: "obj' = obj" "os_fs sys' = os_fs sys"
    "os_store sys' = updateBucketMetricsAfterPut E now t n (ob_Size obj) ve (existing_object E ?b ?k (os_store sys)) (ensureImplicitFolders E now ?b ?k s1)"
    using sp unfolding save_put_def Let_def E tn by (auto simp: ver_def split: sum.splits if_splits)
  have "sto cont (os_store sys') (objKeyFor ?b ?k v) = sto cont s1 (objKeyFor ?b ?k v)"
    by (simp add: r(3) counts_own [OF own_objKeyFor] ensureImplicitFolders_own [OF own_objKeyFor])
  then show ?thesis
    using r by (rule_tac saved_entry [OF s1 _ _ id v]) (auto simp: ver_def)
qed

end

section \<open>The stored bytes\<close>

text \<open>
  The manager with its crypter: the envelope and the stream of one request, with the random bytes it draws.
\<close>

definition sealing_env :: "'k crypter \<Rightarrow> string + bytes \<Rightarrow> string + bytes \<Rightarrow> bytes \<Rightarrow> ('db, 'fs, 'au) om_env \<Rightarrow> ('db, 'fs, 'au) om_env" where
  "sealing_env cr rndKey rndIV nonce env =
     env\<lparr>env_envelope := newEnvelope cr rndKey rndIV, env_encrypt := encrypt_pipe cr (Inr nonce)\<rparr>"

definition object_path :: "string \<Rightarrow> string \<Rightarrow> string \<Rightarrow> string" where
  "object_path bucket key versionID = (if versionID \<noteq> [] then getVersionedObjectPath bucket key versionID else getObjectPath bucket key)"

text \<open>What was sealed under an envelope opens with its sidecar entries, whatever the key store did since.\<close>

lemma sealed_opens:
  assumes laws: "key_table_laws T tab" "mirrors tab (cr_kek cr)" "aead_ok (cr_C cr)" "kdf_ok (cr_C cr)" "i64 (ks_current (cr_kek cr))"
    and nonce: "length nonce = NonceSize" and run: "list_all kek_op_ok ops" "fold (kek_exec T) ops (Up (cr_kek cr)) = Up kek'"
    and em: "newEnvelope cr r1 r2 = Inr (dek, em)" and m: "\<And>k. k \<in> fst ` set em \<Longrightarrow> map_get m k = map_get em k"
    and alg: "map_get m ''x-amz-server-side-encryption-algorithm'' = ''AES-256-GCM-STREAM''"
  shows "encrypt_pipe cr (Inr nonce) dek plain = (fst (encrypt_pipe cr (Inr nonce) dek plain), None)"
    and "decryptionKeyFor (cr\<lparr>cr_kek := kek'\<rparr>) m = Inr dek"
    and "decrypt_pipe (cr\<lparr>cr_kek := kek'\<rparr>) m dek (encrypt_pipe cr (Inr nonce) dek plain) = (plain, None)"
  using pipes_inverse [OF laws(3,4) nonce alg, of "cr\<lparr>cr_kek := kek'\<rparr>" dek plain] envelope_survives [OF laws em m run]
  by (simp_all add: prod_eq_iff)

lemma newEnvelope_entries:
  assumes "newEnvelope cr r1 r2 = Inr (dek, em)"
  obtains a b c where "em = [(''wrapped-dek'', a), (''wrapped-dek-iv'', b), (''kek-version'', c)]"
  using assms by (auto simp: newEnvelope_def Let_def split: prod.splits if_splits sum.splits)

context data_store
begin

lemma sealed_get:
  assumes laws: "key_table_laws T tab" "mirrors tab (cr_kek cr)" "aead_ok (cr_C cr)" "kdf_ok (cr_C cr)" "i64 (ks_current (cr_kek cr))"
    and nonce: "length nonce = NonceSize" and run: "list_all kek_op_ok ops" "fold (kek_exec T) ops (Up (cr_kek cr)) = Up kek'"
    and em: "newEnvelope cr r1 r2 = Inr (dek, em)" and fit: "fit p (fst (encrypt_pipe cr (Inr nonce) dek plain)) fs"
    and m: "\<And>k. k \<in> fst ` set em \<Longrightarrow> map_get m k = map_get em k" "map_get m ''encrypted'' = ''true''"
      "map_get m ''x-amz-server-side-encryption-algorithm'' = ''AES-256-GCM-STREAM''"
    and put: "be_Put B p (encrypt_pipe cr (Inr nonce) dek plain) m fs = (None, fs')"
  shows "\<exists>c m'. holds p c m' fs' \<and> map_get m' ''encrypted'' = ''true'' \<and>
    decryptionKeyFor (cr\<lparr>cr_kek := kek'\<rparr>) m' = Inr dek \<and> decrypt_pipe (cr\<lparr>cr_kek := kek'\<rparr>) m' dek (c, None) = (plain, None)"
proof -
  let ?c = "encrypt_pipe cr (Inr nonce) dek plain"
  note opens = sealed_opens [OF laws nonce run em]
  have c: "?c = (fst ?c, None)" by (rule opens(1) [OF m(1,3)])
  obtain m' where h: "holds p (fst ?c) m' fs'" and m': "\<And>k. k \<notin> stamped_keys \<Longrightarrow> map_of m' k = map_of m k"
    using put_holds [OF fit, of m fs'] put c by metis
  have same: "map_get m' k = map_get m k" if "k \<notin> stamped_keys" for k using m' [OF that] by (simp add: map_get_def)
  have "k \<notin> stamped_keys" if "k \<in> fst ` set em" for k
    by (rule newEnvelope_entries [OF em]) (use that in \<open>auto simp: stamped_keys_def\<close>)
  then have entries: "\<And>k. k \<in> fst ` set em \<Longrightarrow> map_get m' k = map_get em k" using same m(1) by simp
  have alg: "map_get m' ''x-amz-server-side-encryption-algorithm'' = ''AES-256-GCM-STREAM''" and enc: "map_get m' ''encrypted'' = ''true''"
    using same m(2,3) by (simp_all add: stamped_keys_def)
  have "decryptionKeyFor (cr\<lparr>cr_kek := kek'\<rparr>) m' = Inr dek" by (rule opens(2) [OF entries alg])
  moreover have "decrypt_pipe (cr\<lparr>cr_kek := kek'\<rparr>) m' dek (fst ?c, None) = (plain, None)"
    using opens(3) [OF entries alg, of plain] c by metis
  ultimately show ?thesis using h enc by blast
qed

lemma stored_get:
  assumes laws: "key_table_laws T tab" "mirrors tab (cr_kek cr)" "aead_ok (cr_C cr)" "kdf_ok (cr_C cr)" "i64 (ks_current (cr_kek cr))"
    and nonce: "length nonce = NonceSize" and run: "list_all kek_op_ok ops" "fold (kek_exec T) ops (Up (cr_kek cr)) = Up kek'"
    and B: "env_B env = B"
    and fit: "\<And>dek em. newEnvelope cr r1 r2 = Inr (dek, em) \<Longrightarrow> fit p (fst (encrypt_pipe cr (Inr nonce) dek plain)) fs"
    and st: "storeEncryptedObject (sealing_env cr r1 r2 nonce env) p plain sm n et fs = (None, fs')"
  shows "\<exists>c m dek. holds p c m fs' \<and> map_get m ''encrypted'' = ''true'' \<and>
    decryptionKeyFor (cr\<lparr>cr_kek := kek'\<rparr>) m = Inr dek \<and> decrypt_pipe (cr\<lparr>cr_kek := kek'\<rparr>) m dek (c, None) = (plain, None)"
proof -
  obtain dek em where em: "newEnvelope cr r1 r2 = Inr (dek, em)"
    using st by (cases "newEnvelope cr r1 r2") (auto simp: storeEncryptedObject_def sealing_env_def)
  obtain a b c where em_is: "em = [(''wrapped-dek'', a), (''wrapped-dek-iv'', b), (''kek-version'', c)]"
    by (rule newEnvelope_entries [OF em])
  define m where "m = AList.update ''kek-version'' c (AList.update ''wrapped-dek-iv'' b (AList.update ''wrapped-dek'' a
    (AList.update ''x-amz-server-side-encryption-algorithm'' ''AES-256-GCM-STREAM'' (AList.update ''x-amz-server-side-encryption'' ''AES256''
      (AList.update ''encrypted'' ''true'' (AList.update ''original-etag'' et (AList.update ''original-size'' (show_int64 n) sm)))))))"
  have "be_Put B p (encrypt_pipe cr (Inr nonce) dek plain) m fs = (None, fs')"
    using st B by (auto simp: storeEncryptedObject_def sealing_env_def em em_is m_def Let_def split: option.splits prod.splits)
  moreover have "map_get m k = map_get em k" if "k \<in> fst ` set em" for k
    using that by (auto simp: em_is m_def map_get_def update_conv')
  moreover have "map_get m ''encrypted'' = ''true''" "map_get m ''x-amz-server-side-encryption-algorithm'' = ''AES-256-GCM-STREAM''"
    by (simp_all add: m_def map_get_def update_conv')
  ultimately show ?thesis using sealed_get [OF laws nonce run em fit [OF em]] by blast
qed

end

section \<open>Upload and download\<close>

lemma newVersionID_nonempty: "newVersionID cx = Inr v \<Longrightarrow> v \<noteq> []"
  by (auto simp: newVersionID_def generateVersionID_def validateReplicatedVersionID_def Let_def split: option.splits if_splits)

lemma retention_keeps:
  "ob_Bucket (applyDefaultRetention E obj s) = ob_Bucket obj" "ob_Key (applyDefaultRetention E obj s) = ob_Key obj"
  "ob_VersionID (applyDefaultRetention E obj s) = ob_VersionID obj" "ob_Size (applyDefaultRetention E obj s) = ob_Size obj"
  "ob_ETag (applyDefaultRetention E obj s) = ob_ETag obj"
  by (auto simp: applyDefaultRetention_def Let_def split: sum.splits option.splits if_splits)

text \<open>The two writes of an upload that succeeds: the data, and the entry of the object.\<close>

lemma OM_PutObject_success:
  assumes "OM_PutObject env cx bucket key data headers sys = (Inr obj, sys')"
  obtains vs fs vid sm rec where "validateObjectName key" "vs \<longleftrightarrow> vid \<noteq> []"
    "put_data env key (object_path bucket key vid) (fst data) sm (os_fs sys) = (None, fs)"
    "save_put env (rx_now cx) vs rec (sys\<lparr>os_fs := fs\<rparr>) = (Inr obj, sys')"
    "ob_Bucket rec = bucket" "ob_Key rec = key" "ob_VersionID rec = vid" "ob_Size rec = int (length (fst data))" "ob_ETag rec = env_md5 env (fst data)"
proof -
  define vs where "vs = isBucketVersioningEnabled (env_E env) bucket (os_store sys)"
  obtain sm um where smum: "extractMetadataFromHeaders headers = (sm, um)" by (cases "extractMetadataFromHeaders headers")
  obtain vid where vid: "(if vs then newVersionID cx else Inr []) = Inr vid"
    using assms unfolding OM_PutObject_def Let_def smum vs_def [symmetric] by (auto split: if_splits sum.splits)
  have ne: "vs \<longleftrightarrow> vid \<noteq> []" using vid newVersionID_nonempty [of cx vid] by (cases vs) auto
  obtain fs fm ca cv where r: "put_data env key (object_path bucket key vid) (fst data) sm (os_fs sys) = (None, fs)"
    "save_put env (rx_now cx) vs (applyDefaultRetention (env_E env) (put_object_record cx bucket key vid (int (length (fst data)))
       (env_md5 env (fst data)) sm um fm ca cv) (os_store sys)) (sys\<lparr>os_fs := fs\<rparr>) = (Inr obj, sys')"
    using assms vid unfolding OM_PutObject_def Let_def smum vs_def [symmetric]
    by (auto simp: ne object_path_def split: if_splits sum.splits option.splits prod.splits)
  have "validateObjectName key" using assms by (auto simp: OM_PutObject_def split: if_splits)
  from that [OF this ne r] show thesis by (simp add: retention_keeps put_object_record_def blank_object_def)
qed

lemma get_target_saved:
  assumes "pebble_reliable E cont" "sto cont s (objKeyFor b k v) = Some (JObject ob)" "om_Bucket ob = b" "om_Key ob = k"
    and "b \<noteq> []" "k \<noteq> []" "v = [] \<or> v = om_VersionID ob"
  shows "get_target E b k v s = Inr (Some ob, om_VersionID ob)"
proof -
  have "GetObject E b k v s = Inr ob"
    using pebble_reliable.GetObject_ok [OF assms(1,2,5,6)] assms(3-6) by (simp add: fill_object_def)
  then show ?thesis using assms(7) by (auto simp: get_target_def)
qed

text \<open>The download of an object whose entry is saved and whose sealed bytes are held.\<close>

lemma download_sealed:
  assumes stores: "pebble_reliable (env_E env) cont" "data_store (env_B env) fit holds apart"
    and ob: "sto cont (os_store sys) (objKeyFor bucket key v) = Some (JObject ob)" "om_Bucket ob = bucket" "om_Key ob = key"
    and names: "bucket \<noteq> []" "validateObjectName key" "om_ETag ob \<noteq> []" "v = [] \<or> v = om_VersionID ob"
    and h: "holds (object_path bucket key (om_VersionID ob)) c m (os_fs sys)" "map_get m ''encrypted'' = ''true''"
    and key: "decryptionKeyFor cr m = Inr dek" "decrypt_pipe cr m dek (c, None) = (plain, None)"
  shows "\<exists>obj'. OM_GetObject cr env bucket key v sys = Inr (obj', (plain, None)) \<and> ob_Key obj' = key \<and>
    ob_VersionID obj' = om_VersionID ob \<and> ob_Size obj' = om_Size ob \<and> ob_ETag obj' = om_ETag ob"
proof -
  have "key \<noteq> []" using names(2) by (auto simp: validateObjectName_def)
  then have "get_target (env_E env) bucket key v (os_store sys) = Inr (Some ob, om_VersionID ob)"
    using get_target_saved [OF stores(1) ob names(1)] names(4) by simp
  moreover have "be_Get (env_B env) (object_path bucket key (om_VersionID ob)) (os_fs sys) = Inr ((c, None), m)"
    by (rule data_store.holds_get [OF stores(2) h(1)])
  ultimately show ?thesis
    using names(2,3) ob(3) h(2) key by (simp add: OM_GetObject_def object_path_def fromMetadataObject_def Let_def)
qed

text \<open>
  C2. What was uploaded is downloaded. When \<open>PutObject\<close> of a key that is no folder succeeds, then \<open>GetObject\<close> of
  the key or of the new version returns exactly the uploaded bytes, with their size and digest: through the
  envelope, the encrypted stream, the data store and the metadata store, and under whatever key store is
  up after any sequence of rotations, adoptions and restarts.
\<close>

theorem put_then_get:
  assumes stores: "pebble_reliable (env_E env) cont" "data_store (env_B env) fit holds apart"
    and laws: "key_table_laws T tab" "mirrors tab (cr_kek cr)" "aead_ok (cr_C cr)" "kdf_ok (cr_C cr)" "i64 (ks_current (cr_kek cr))"
    and nonce: "length nonce = NonceSize" and names: "bucket \<noteq> []" "\<not> HasSuffix key ''/''" "env_md5 env (fst data) \<noteq> []"
    and put: "OM_PutObject (sealing_env cr r1 r2 nonce env) cx bucket key data headers sys = (Inr obj, sys')"
    and fit: "\<forall>dek em. newEnvelope cr r1 r2 = Inr (dek, em) \<longrightarrow>
      fit (object_path bucket key (ob_VersionID obj)) (fst (encrypt_pipe cr (Inr nonce) dek (fst data))) (os_fs sys)"
    and run: "list_all kek_op_ok ops" "fold (kek_exec T) ops (Up (cr_kek cr)) = Up kek'" and v: "v = [] \<or> v = ob_VersionID obj"
  shows "\<exists>obj'. OM_GetObject (cr\<lparr>cr_kek := kek'\<rparr>) env bucket key v sys' = Inr (obj', (fst data, None)) \<and> ob_Key obj' = key \<and>
    ob_VersionID obj' = ob_VersionID obj \<and> ob_Size obj' = int (length (fst data)) \<and> ob_ETag obj' = env_md5 env (fst data)"
proof -
  let ?env = "sealing_env cr r1 r2 nonce env"
  have env: "env_E ?env = env_E env" "env_B ?env = env_B env" "env_md5 ?env = env_md5 env" by (simp_all add: sealing_env_def)
  obtain vs fs vid sm rec where p: "validateObjectName key" "vs \<longleftrightarrow> vid \<noteq> []"
    "put_data ?env key (object_path bucket key vid) (fst data) sm (os_fs sys) = (None, fs)"
    "save_put ?env (rx_now cx) vs rec (sys\<lparr>os_fs := fs\<rparr>) = (Inr obj, sys')"
    "ob_Bucket rec = bucket" "ob_Key rec = key" "ob_VersionID rec = vid" "ob_Size rec = int (length (fst data))" "ob_ETag rec = env_md5 env (fst data)"
    using OM_PutObject_success [OF put] env(3) by metis
  have eng: "pebble_engine (env_E env) cont" using stores(1) by (simp add: pebble_reliable_def)
  have obj: "obj = rec" using pebble_engine.save_put_entry [OF eng p(4) env(1), of "[]"] p(2,7) by simp
  from pebble_engine.save_put_entry [OF eng p(4) env(1), of v] v p(2,5-9) obj
  obtain ob where ob: "sto cont (os_store sys') (objKeyFor bucket key v) = Some (JObject ob)" "om_Bucket ob = bucket" "om_Key ob = key"
    "om_VersionID ob = vid" "om_Size ob = int (length (fst data))" "om_ETag ob = env_md5 env (fst data)" and fs': "os_fs sys' = fs" by auto
  have "storeEncryptedObject ?env (object_path bucket key vid) (fst data) sm (int (length (fst data))) (env_md5 env (fst data)) (os_fs sys) = (None, fs)"
    using p(3) names(2) env(3) by (simp add: put_data_def)
  from data_store.stored_get [OF stores(2) laws nonce run refl _ this] fit obj p(7)
  obtain c m dek where "holds (object_path bucket key vid) c m fs" "map_get m ''encrypted'' = ''true''"
    "decryptionKeyFor (cr\<lparr>cr_kek := kek'\<rparr>) m = Inr dek" "decrypt_pipe (cr\<lparr>cr_kek := kek'\<rparr>) m dek (c, None) = (fst data, None)" by auto
  then show ?thesis
    using download_sealed [OF stores ob(1-3) names(1) p(1), of c m] names(3) ob(4-6) fs' v obj p(7) by auto
qed

definition demo_crypter :: "kek_row list crypter" where
  "demo_crypter = \<lparr>cr_C = demo_ciphers, cr_config = DefaultEncryptionConfig, cr_kek = demo_kek\<rparr>"

definition disk_env :: "((string \<times> kv_value) list, io, int) om_env" where
  "disk_env = \<lparr>env_E = mem_engine, env_B = fs_backend demo_env, env_inc = \<lambda>t z au. au + z, env_dec = \<lambda>t z au. au - z,
     env_quota = \<lambda>t z au. None, env_cleanup = \<lambda>b k fs. fs, env_stage = \<lambda>r fs. snd r, env_open = \<lambda>fs. None,
     env_envelope = Inr ([], []), env_encrypt = \<lambda>k p. (p, None), env_md5 = fe_md5 demo_env, env_checksum = \<lambda>a p. None\<rparr>"

definition disk_system :: "((string \<times> kv_value) list, io, int) om_state" where
  "disk_system = \<lparr>os_store = NewPebbleStore [(bucketKey [] ''b'', JBucket (zero_bucket\<lparr>bm_Name := ''b'', bm_Versioning :=
       Some \<lparr>vm_Enabled = True, vm_Status = ''Enabled'', vm_MFADelete = False\<rparr>\<rparr>))],
     os_fs = empty_bucket, os_tenants = 0\<rparr>"

definition demo_context :: request_context where
  "demo_context = \<lparr>rx_now = 5, rx_rand = None, rx_versionID = None, rx_lastModified = None, rx_bypassQuota = False\<rparr>"

definition demo_dek :: string where
  "demo_dek = replicate 32 CHR 0x01"

definition demo_envelope :: smap where
  "demo_envelope = [(''wrapped-dek'', concat (replicate 32 ''01'') @ concat (replicate 16 ''78'')), (''wrapped-dek-iv'', concat (replicate 12 ''02'')),
     (''kek-version'', ''1'')]"

definition demo_sealed :: reader where
  "demo_sealed = (replicate 12 CHR 0x03 @ [CHR 0x00, CHR 0x00, CHR 0x00, CHR 0x12] @ ''hi'' @ replicate 16 CHR ''D'', None)"

lemma demo_new: "newEnvelope demo_crypter (Inr (replicate 32 1)) (Inr (replicate 12 2)) = Inr (demo_dek, demo_envelope)"
  by code_simp

lemma demo_pipe: "encrypt_pipe demo_crypter (Inr (replicate 12 3)) demo_dek ''hi'' = demo_sealed"
proof -
  have "ReadFull ([104, 105] :: bytes, None) gcmStreamChunkSize = ([104, 105], Some UnexpectedEOF, [], None)"
    by (simp add: ReadFull_def gcmStreamChunkSize_def)
  then have "encrypt_loop demo_ciphers key (replicate 12 3) ([104, 105], None) \<lparr>wr_out = replicate 12 3, wr_plan = []\<rparr> 0 0 =
    (Inr 2, \<lparr>wr_out = replicate 12 3 @ be32 18 @ gcm_Seal demo_ciphers key (chunkNonce (replicate 12 3) 0) [104, 105], wr_plan = []\<rparr>)" for key
    by (subst encrypt_loop.simps) (simp add: Write_ok demo_ciphers_def add64_def wrap64_def)
  then have "encrypt_pipe demo_crypter (Inr (replicate 12 3)) demo_dek ''hi'' = (bytes_str (replicate 12 3 @ be32 18 @
     gcm_Seal demo_ciphers (effective_key demo_ciphers DefaultEncryptionConfig (str_bytes demo_dek)) (chunkNonce (replicate 12 3) 0) [104, 105]), None)"
    by (simp add: encrypt_pipe_def demo_crypter_def EncryptStream_def effective_key_ok [OF demo_ciphers_ok(2)] Write_ok str_bytes_def)
  also have "\<dots> = demo_sealed" by code_simp
  finally show ?thesis .
qed

text \<open>The crypter with its one upload computed.\<close>

definition demo_encrypt :: "string \<Rightarrow> string \<Rightarrow> reader" where
  "demo_encrypt dek plain = (if dek = demo_dek \<and> plain = ''hi'' then demo_sealed else encrypt_pipe demo_crypter (Inr (replicate 12 3)) dek plain)"

definition demo_sealing :: "('db, 'fs, 'au) om_env \<Rightarrow> ('db, 'fs, 'au) om_env" where
  "demo_sealing = sealing_env demo_crypter (Inr (replicate 32 1)) (Inr (replicate 12 2)) (replicate 12 3)"

lemma demo_sealing_eq: "demo_sealing env = env\<lparr>env_envelope := Inr (demo_dek, demo_envelope), env_encrypt := demo_encrypt\<rparr>"
proof -
  have "encrypt_pipe demo_crypter (Inr (replicate 12 3)) = demo_encrypt"
    by (intro ext) (simp add: demo_encrypt_def demo_pipe)
  then show ?thesis by (simp add: demo_sealing_def sealing_env_def demo_new)
qed

definition demo_rotation :: "kek_op list" where
  "demo_rotation = [OpRotate (Inr (replicate 32 CHR ''r'')) False, OpEnsure (Inl ''no entropy'')]"

lemma demo_rotated: "\<exists>kek'. fold (kek_exec mem_table) demo_rotation (Up demo_kek) = Up kek' \<and> ks_current kek' = 2"
proof -
  have "case fold (kek_exec mem_table) demo_rotation (Up demo_kek) of Up s \<Rightarrow> ks_current s = 2 | Kek_Store.Down _ \<Rightarrow> False" by code_simp
  then show ?thesis by (auto split: kek_process.splits)
qed

lemma demo_put:
  "\<exists>obj sys'. OM_PutObject (demo_sealing disk_env) demo_context ''b'' ''k'' (''hi'', None) [] disk_system = (Inr obj, sys') \<and> ob_VersionID obj = ''5''"
proof -
  have "case OM_PutObject (disk_env\<lparr>env_envelope := Inr (demo_dek, demo_envelope), env_encrypt := demo_encrypt\<rparr>)
      demo_context ''b'' ''k'' (''hi'', None) [] disk_system of (Inr obj, _) \<Rightarrow> ob_VersionID obj = ''5'' | _ \<Rightarrow> False"
    by code_simp
  then show ?thesis unfolding demo_sealing_eq by (auto split: prod.splits sum.splits)
qed

lemma demo_fit: "fs_fit demo_env (object_path ''b'' ''k'' ''5'') d (os_fs disk_system)"
proof -
  have "clean_path (fe_root demo_env)" "validatePath (fe_root demo_env) (object_path ''b'' ''k'' ''5'')" "\<not> HasSuffix (object_path ''b'' ''k'' ''5'') ''/''"
    "\<not> HasSuffix (getFullPath (fe_root demo_env) (object_path ''b'' ''k'' ''5'')) ''.maxiofs-folder''"
    "temps_clear (io_rand (os_fs disk_system)) (fe_root demo_env) (object_path ''b'' ''k'' ''5'')"
    "map_of (io_disk (os_fs disk_system)) (getStagingMetadataPath (fe_root demo_env) (object_path ''b'' ''k'' ''5'')) = None"
    by code_simp+
  then show ?thesis by (simp add: fs_fit_def demo_codec)
qed

theorem put_then_get_witness:
  "\<exists>obj sys' kek' obj'. OM_PutObject (demo_sealing disk_env) demo_context ''b'' ''k'' (''hi'', None) [] disk_system = (Inr obj, sys') \<and>
     fold (kek_exec mem_table) demo_rotation (Up demo_kek) = Up kek' \<and> ks_current kek' = 2 \<and>
     OM_GetObject (demo_crypter\<lparr>cr_kek := kek'\<rparr>) disk_env ''b'' ''k'' [] sys' = Inr (obj', (''hi'', None)) \<and> ob_VersionID obj' = ''5''"
proof -
  obtain obj sys' where put: "OM_PutObject (demo_sealing disk_env) demo_context ''b'' ''k'' (''hi'', None) [] disk_system = (Inr obj, sys')"
    and v: "ob_VersionID obj = ''5''" using demo_put by blast
  obtain kek' where kek': "fold (kek_exec mem_table) demo_rotation (Up demo_kek) = Up kek'" "ks_current kek' = 2" using demo_rotated by blast
  have "pebble_reliable (env_E disk_env) map_of" "data_store (env_B disk_env) (fs_fit demo_env) (fs_holds demo_env) (fs_apart demo_env)"
    using mem.pebble_reliable_axioms fsd.data_store_axioms by (simp_all add: disk_env_def)
  moreover have "mirrors row_map (cr_kek demo_crypter)" using demo_kek_mirrors by (simp add: demo_crypter_def)
  moreover have "aead_ok (cr_C demo_crypter)" "kdf_ok (cr_C demo_crypter)" "i64 (ks_current (cr_kek demo_crypter))"
    "env_md5 disk_env (fst (''hi'', None :: string option)) \<noteq> []" "length (replicate 12 (3 :: 8 word)) = NonceSize"
    "fold (kek_exec mem_table) demo_rotation (Up (cr_kek demo_crypter)) = Up kek'"
    using kek' by (simp_all add: demo_crypter_def demo_ciphers_ok demo_kek_def i64_def disk_env_def demo_env_def NonceSize_def)
  moreover have "list_all kek_op_ok demo_rotation" "\<not> HasSuffix ''k'' ''/''" by code_simp+
  moreover have "\<forall>dek em. newEnvelope demo_crypter (Inr (replicate 32 1)) (Inr (replicate 12 2)) = Inr (dek, em) \<longrightarrow>
      fs_fit demo_env (object_path ''b'' ''k'' (ob_VersionID obj)) (fst (encrypt_pipe demo_crypter (Inr (replicate 12 3)) dek (fst (''hi'', None :: string option)))) (os_fs disk_system)"
    using demo_fit by (simp add: demo_new demo_pipe v)
  ultimately obtain obj' where "OM_GetObject (demo_crypter\<lparr>cr_kek := kek'\<rparr>) disk_env ''b'' ''k'' [] sys' = Inr (obj', (''hi'', None))" "ob_VersionID obj' = ''5''"
    using put_then_get [OF _ _ kek.key_table_laws_axioms _ _ _ _ _ _ _ _ put [unfolded demo_sealing_def], of map_of "fs_fit demo_env" "fs_holds demo_env" "fs_apart demo_env" demo_rotation kek' "[]"] v by auto
  with put kek' show ?thesis by blast
qed

end
