(* ===== verification/Multipart_Props.thy ===== *)
theory Multipart_Props
  imports Object_Multipart Object_Read
begin

text \<open>
  Properties of the multipart completion. \<open>complete_then_get\<close> composes it with the download: the object is the
  parts joined in the order of the request. What user metadata may do to the sidecar is at the end.
\<close>

section \<open>The combined parts\<close>

definition parts_held :: "(string \<Rightarrow> string \<Rightarrow> smap \<Rightarrow> 'fs \<Rightarrow> bool) \<Rightarrow> string \<Rightarrow> 'fs \<Rightarrow> multipart_part list \<Rightarrow> string list \<Rightarrow> bool" where
  "parts_held holds uploadID fs = list_all2 (\<lambda>part d. \<exists>m. holds (getMultipartPartPath uploadID (pa_PartNumber part)) d m fs)"

lemma multi_reader_whole: "multi_reader (map (\<lambda>d. (d, None)) ds) = (concat ds, None)"
  by (induction ds) auto

lemma metadata_fold:
  "map_of (fold (\<lambda>(k, v) m. if k \<noteq> ''content-type'' then AList.update k v m else m) u m) x =
    (if x = ''content-type'' then map_of m x else case map_of (rev u) x of None \<Rightarrow> map_of m x | Some v \<Rightarrow> Some v)"
  by (induction u arbitrary: m) (auto simp: update_conv' map_add_def split: option.splits)

text \<open>Unless the upload's metadata says otherwise, the sidecar carries the envelope.\<close>

lemma multipart_sidecar_entries:
  fixes n :: int and et :: string
  assumes "newEnvelope cr r1 r2 = Inr (dek, em)" and u: "\<And>k. k \<in> fst ` set (mu_Metadata mu) \<Longrightarrow> \<not> isProtectedStorageMetadataKey k"
  defines "m \<equiv> multipart_sidecar mu em n et"
  shows "k \<in> fst ` set em \<Longrightarrow> map_get m k = map_get em k" "map_get m ''encrypted'' = ''true''"
    "map_get m ''x-amz-server-side-encryption-algorithm'' = ''AES-256-GCM-STREAM''"
proof -
  obtain a b c where em: "em = [(''wrapped-dek'', a), (''wrapped-dek-iv'', b), (''kek-version'', c)]"
    by (rule newEnvelope_entries [OF assms(1)])
  obtain ct where m: "m = fold (\<lambda>(k, v) m. if k \<noteq> ''content-type'' then AList.update k v m else m) (mu_Metadata mu)
    (fold (\<lambda>(k, v). AList.update k v) em [(''original-size'', show_int64 n), (''original-etag'', et), (''encrypted'', ''true''),
       (''x-amz-server-side-encryption'', ''AES256''), (''x-amz-server-side-encryption-algorithm'', ''AES-256-GCM-STREAM''), (''content-type'', ct)])"
    unfolding m_def multipart_sidecar_def Let_def by blast
  have keep: "map_get m x = map_get (fold (\<lambda>(k, v). AList.update k v) em [(''original-size'', show_int64 n), (''original-etag'', et), (''encrypted'', ''true''),
       (''x-amz-server-side-encryption'', ''AES256''), (''x-amz-server-side-encryption-algorithm'', ''AES-256-GCM-STREAM''), (''content-type'', ct)]) x"
    if "isProtectedStorageMetadataKey x" for x
  proof -
    have "x \<notin> fst ` set (rev (mu_Metadata mu))" using u that by auto
    then have "map_of (rev (mu_Metadata mu)) x = None" by (simp add: map_of_eq_None_iff)
    then show ?thesis by (simp add: m map_get_def metadata_fold)
  qed
  have prot: "isProtectedStorageMetadataKey ''wrapped-dek''" "isProtectedStorageMetadataKey ''wrapped-dek-iv''" "isProtectedStorageMetadataKey ''kek-version''"
    "isProtectedStorageMetadataKey ''encrypted''" "isProtectedStorageMetadataKey ''x-amz-server-side-encryption-algorithm''"
    by (simp_all add: isProtectedStorageMetadataKey_def)
  have "map_get m ''wrapped-dek'' = map_get em ''wrapped-dek''" "map_get m ''wrapped-dek-iv'' = map_get em ''wrapped-dek-iv''"
    "map_get m ''kek-version'' = map_get em ''kek-version''"
    using keep [OF prot(1)] keep [OF prot(2)] keep [OF prot(3)] by (simp_all add: em map_get_def)
  then show "k \<in> fst ` set em \<Longrightarrow> map_get m k = map_get em k" by (auto simp: em)
  show "map_get m ''encrypted'' = ''true''" "map_get m ''x-amz-server-side-encryption-algorithm'' = ''AES-256-GCM-STREAM''"
    using keep [OF prot(4)] keep [OF prot(5)] by (simp_all add: em map_get_def)
qed

context data_store
begin

lemma open_parts_held:
  assumes "parts_held holds u fs parts ds"
  shows "open_parts B u parts fs = Inr (map (\<lambda>d. (d, None)) ds)"
  using assms unfolding parts_held_def
  by (induction rule: list_all2_induct) (auto simp: holds_get)

lemma combine_held:
  assumes "parts_held holds u fs parts ds" "env_B env = B" "combineMultipartParts env u parts p fs = (None, fs1)" "fit p (concat ds) fs"
  obtains m ct where "holds p (concat ds) m fs1" "map_of m ''size'' = Some (show_int64 (int (length (concat ds))))"
    "be_Put B p (concat ds, None) [(''content-type'', ct)] fs = (None, fs1)"
proof -
  obtain ct where "be_Put B p (concat ds, None) [(''content-type'', ct)] fs = (None, fs1)"
    using assms(2,3) open_parts_held [OF assms(1)]
    by (auto simp: combineMultipartParts_def Let_def multi_reader_whole split: if_splits prod.splits option.splits)
  with put_holds [OF assms(4) this] show thesis using that by blast
qed

end

section \<open>A completion that succeeds\<close>

lemma complete_success:
  assumes "doCompleteMultipartUpload env cx uploadID parts sys = (Inr obj, sys')"
    and "GetMultipartUpload (env_E env) uploadID (os_store sys) = Inr um"
  defines "mu \<equiv> fromMetadataMultipartUpload um"
  obtains vs vid etag fs1 fs2 n t s where "vs \<longleftrightarrow> vid \<noteq> []" "computeMultipartETag env uploadID parts (os_store sys) = Inr etag"
    "combineMultipartParts env uploadID parts (object_path (um_Bucket um) (um_Key um) vid) (os_fs sys) = (None, fs1)"
    "seal_combined env (object_path (um_Bucket um) (um_Key um) vid) mu fs1 = (Inr (n, t), fs2)"
    "obj = multipart_object mu vid n t etag" "save_multipart env (rx_now cx) vs obj (os_store sys) = Inr s"
    "sys' = updateMetricsAndCleanupMultipart env (rx_now cx) (um_Bucket um) uploadID n
      (existing_object (env_E env) (um_Bucket um) (um_Key um) (os_store sys)) parts vs (sys\<lparr>os_store := s, os_fs := fs2\<rparr>)"
proof -
  define vs where "vs = isBucketVersioningEnabled (env_E env) (um_Bucket um) (os_store sys)"
  define vid where "vid = (if vs then generateVersionID cx else [])"
  have ne: "vs \<longleftrightarrow> vid \<noteq> []" by (auto simp: vid_def generateVersionID_def Let_def split: option.splits)
  have mu: "mu_Bucket mu = um_Bucket um" "mu_Key mu = um_Key um" by (simp_all add: mu_def fromMetadataMultipartUpload_def)
  have path: "(if vs then getVersionedObjectPath (um_Bucket um) (um_Key um) vid else getObjectPath (um_Bucket um) (um_Key um)) =
      object_path (um_Bucket um) (um_Key um) vid" by (simp add: ne object_path_def)
  show thesis
    using assms(1) that [OF ne]
    unfolding doCompleteMultipartUpload_def assms(2) sum.case Let_def mu_def [symmetric] mu vs_def [symmetric] vid_def [symmetric] path
    by (auto split: sum.splits option.splits prod.splits)
qed

lemma seal_success:
  assumes "seal_combined env p mu fs1 = (Inr (n, t), fs2)" "be_GetMetadata (env_B env) p fs1 = Inr m" "be_Get (env_B env) p fs1 = Inr ((d, None), m)"
  obtains dek em where "env_envelope env = Inr (dek, em)" "n = ParseInt64 (map_get m ''size'')"
    "be_Put (env_B env) p (env_encrypt env dek d) (multipart_sidecar mu em n (map_get m ''etag'')) fs1 = (None, fs2)"
  using assms by (auto simp: seal_combined_def stagePlaintextToTemp_def storeEncryptedMultipartObject_def Let_def
      split: option.splits sum.splits prod.splits)

context pebble_engine
begin

lemma cleanup_keeps:
  assumes "own_entry b k x" "env_E env = E"
  shows "sto cont (os_store (updateMetricsAndCleanupMultipart env now b' u n ex parts vs sys)) x = sto cont (os_store sys) x"
proof -
  obtain t c where tc: "parseBucketPath b' = (t, c)" by fastforce
  have "\<not> owned m u x" for m
    using assms(1) by (auto simp: owned_def own_entry_def split: option.splits)
  then have "sto cont (try_store (AbortMultipartUpload E u s) s) x = sto cont s x" for s
    by (auto simp: try_store_def drop_upload_def dest!: AbortMultipartUpload_sound(2) split: sum.splits)
  then show ?thesis
    by (simp add: updateMetricsAndCleanupMultipart_def tc assms(2) Let_def counts_own [OF assms(1)])
qed

lemma multipart_entry:
  assumes "save_multipart env now vs obj s = Inr s'" "env_E env = E" "vs \<longleftrightarrow> ob_VersionID obj \<noteq> []" "v = [] \<or> v = ob_VersionID obj"
  shows "\<exists>ob. sto cont s' (objKeyFor (ob_Bucket obj) (ob_Key obj) v) = Some (JObject ob) \<and> om_Bucket ob = ob_Bucket obj \<and> om_Key ob = ob_Key obj \<and>
    om_VersionID ob = ob_VersionID obj \<and> om_Size ob = ob_Size obj \<and> om_ETag ob = ob_ETag obj"
  by (rule saved_entry [OF assms(1) [unfolded save_multipart_def assms(2)] _ _ assms(3,4)]) auto

end

lemma data_store_combined:
  assumes ds: "data_store (env_B env) fit holds apart"
    and laws: "key_table_laws T tab" "mirrors tab (cr_kek cr)" "aead_ok (cr_C cr)" "kdf_ok (cr_C cr)" "i64 (ks_current (cr_kek cr))"
    and nonce: "length nonce = NonceSize" and run: "list_all kek_op_ok ops" "fold (kek_exec T) ops (Up (cr_kek cr)) = Up kek'"
    and u: "\<forall>k\<in>fst ` set (mu_Metadata mu). \<not> isProtectedStorageMetadataKey k"
    and h: "holds p d m fs1" "map_of m ''size'' = Some (show_int64 (int (length d)))" and len: "length d < 2 ^ 63"
    and fit: "\<And>dek em. newEnvelope cr r1 r2 = Inr (dek, em) \<Longrightarrow> fit p (fst (encrypt_pipe cr (Inr nonce) dek d)) fs1"
    and seal: "seal_combined (sealing_env cr r1 r2 nonce env) p mu fs1 = (Inr (n, t), fs2)"
  shows "n = int (length d) \<and> (\<exists>c m' dek. holds p c m' fs2 \<and> map_get m' ''encrypted'' = ''true'' \<and>
    decryptionKeyFor (cr\<lparr>cr_kek := kek'\<rparr>) m' = Inr dek \<and> decrypt_pipe (cr\<lparr>cr_kek := kek'\<rparr>) m' dek (c, None) = (d, None))"
proof -
  let ?env = "sealing_env cr r1 r2 nonce env"
  have env: "env_B ?env = env_B env" "env_envelope ?env = newEnvelope cr r1 r2" "env_encrypt ?env = encrypt_pipe cr (Inr nonce)"
    by (simp_all add: sealing_env_def)
  obtain dek em where em: "newEnvelope cr r1 r2 = Inr (dek, em)" and n: "n = ParseInt64 (map_get m ''size'')"
    and put: "be_Put (env_B env) p (encrypt_pipe cr (Inr nonce) dek d) (multipart_sidecar mu em n (map_get m ''etag'')) fs1 = (None, fs2)"
    using seal_success [OF seal] data_store.holds_get [OF ds h(1)] data_store.holds_meta [OF ds h(1)] unfolding env by metis
  have "n = int (length d)" using n h(2) len by (simp add: map_get_def ParseInt64_show i64_def)
  moreover have u': "\<And>k. k \<in> fst ` set (mu_Metadata mu) \<Longrightarrow> \<not> isProtectedStorageMetadataKey k" using u by blast
  note side = multipart_sidecar_entries [OF em u', where n = n and et = "map_get m ''etag''"]
  have "\<exists>c m'. holds p c m' fs2 \<and> map_get m' ''encrypted'' = ''true'' \<and>
    decryptionKeyFor (cr\<lparr>cr_kek := kek'\<rparr>) m' = Inr dek \<and> decrypt_pipe (cr\<lparr>cr_kek := kek'\<rparr>) m' dek (c, None) = (d, None)"
    by (rule data_store.sealed_get [OF ds laws nonce run em fit [OF em] side put])
  ultimately show ?thesis by blast
qed

text \<open>
  C3. A completed multipart upload is its parts. When the completion of an upload succeeds whose metadata names none of the
  store's own sidecar entries, then \<open>GetObject\<close> of the key or of the new version returns the parts' bytes joined in the
  order of the request, with their total size and the multipart digest, under whatever key store is up after any
  sequence of rotations, adoptions and restarts.
\<close>

theorem complete_then_get:
  assumes stores: "pebble_reliable (env_E env) cont" "data_store (env_B env) fit holds apart"
    and laws: "key_table_laws T tab" "mirrors tab (cr_kek cr)" "aead_ok (cr_C cr)" "kdf_ok (cr_C cr)" "i64 (ks_current (cr_kek cr))"
    and nonce: "length nonce = NonceSize"
    and up: "GetMultipartUpload (env_E env) uploadID (os_store sys) = Inr um" "um_Bucket um \<noteq> []" "validateObjectName (um_Key um)"
      "\<forall>k\<in>fst ` set (um_Metadata um). \<not> isProtectedStorageMetadataKey k"
    and parts: "parts_held holds uploadID (os_fs sys) parts ds" "length (concat ds) < 2 ^ 63"
    and complete: "doCompleteMultipartUpload (sealing_env cr r1 r2 nonce env) cx uploadID parts sys = (Inr obj, sys')"
    and path: "\<forall>part\<in>set parts. apart (object_path (um_Bucket um) (um_Key um) (ob_VersionID obj)) (getMultipartPartPath uploadID (pa_PartNumber part))"
      "fit (object_path (um_Bucket um) (um_Key um) (ob_VersionID obj)) (concat ds) (os_fs sys)"
      "\<forall>m fs dek em. be_Put (env_B env) (object_path (um_Bucket um) (um_Key um) (ob_VersionID obj)) (concat ds, None) m (os_fs sys) = (None, fs) \<longrightarrow>
        newEnvelope cr r1 r2 = Inr (dek, em) \<longrightarrow>
        fit (object_path (um_Bucket um) (um_Key um) (ob_VersionID obj)) (fst (encrypt_pipe cr (Inr nonce) dek (concat ds))) fs"
    and run: "list_all kek_op_ok ops" "fold (kek_exec T) ops (Up (cr_kek cr)) = Up kek'" and v: "v = [] \<or> v = ob_VersionID obj"
  shows "\<exists>obj'. OM_GetObject (cr\<lparr>cr_kek := kek'\<rparr>) env (um_Bucket um) (um_Key um) v sys' = Inr (obj', (concat ds, None)) \<and>
    ob_Size obj' = int (length (concat ds)) \<and> computeMultipartETag env uploadID parts (os_store sys) = Inr (ob_ETag obj')"
proof -
  let ?env = "sealing_env cr r1 r2 nonce env" and ?mu = "fromMetadataMultipartUpload um" and ?p = "object_path (um_Bucket um) (um_Key um) (ob_VersionID obj)"
  have env: "env_E ?env = env_E env" "env_B ?env = env_B env" "computeMultipartETag ?env = computeMultipartETag env"
    by (auto simp: sealing_env_def computeMultipartETag_def fun_eq_iff split: sum.splits)
  have eng: "pebble_engine (env_E env) cont" using stores(1) by (simp add: pebble_reliable_def)
  obtain vs etag fs1 fs2 n t s where c: "vs \<longleftrightarrow> ob_VersionID obj \<noteq> []" "computeMultipartETag env uploadID parts (os_store sys) = Inr etag"
    "combineMultipartParts ?env uploadID parts ?p (os_fs sys) = (None, fs1)" "seal_combined ?env ?p ?mu fs1 = (Inr (n, t), fs2)"
    "obj = multipart_object ?mu (ob_VersionID obj) n t etag" "save_multipart ?env (rx_now cx) vs obj (os_store sys) = Inr s"
    "sys' = updateMetricsAndCleanupMultipart ?env (rx_now cx) (um_Bucket um) uploadID n
      (existing_object (env_E env) (um_Bucket um) (um_Key um) (os_store sys)) parts vs (sys\<lparr>os_store := s, os_fs := fs2\<rparr>)"
    by (rule complete_success [OF complete up(1) [folded env(1)], unfolded env])
      (auto simp: multipart_object_def Let_def)
  obtain m where m: "holds ?p (concat ds) m fs1" "map_of m ''size'' = Some (show_int64 (int (length (concat ds))))"
    "\<exists>ct. be_Put (env_B env) ?p (concat ds, None) [(''content-type'', ct)] (os_fs sys) = (None, fs1)"
    using data_store.combine_held [OF stores(2) parts(1) env(2) c(3) path(2)] by metis
  have "\<forall>k\<in>fst ` set (mu_Metadata ?mu). \<not> isProtectedStorageMetadataKey k" using up(4) by (simp add: fromMetadataMultipartUpload_def)
  from data_store_combined [OF stores(2) laws nonce run this m(1,2) parts(2) _ c(4)] path(3) m(3)
  obtain ct m' dek where n: "n = int (length (concat ds))" and h: "holds ?p ct m' fs2" and dec: "map_get m' ''encrypted'' = ''true''"
    "decryptionKeyFor (cr\<lparr>cr_kek := kek'\<rparr>) m' = Inr dek" "decrypt_pipe (cr\<lparr>cr_kek := kek'\<rparr>) m' dek (ct, None) = (concat ds, None)" by blast
  have "holds ?p ct m' (os_fs sys')"
    using data_store.delete_fold_keeps [OF stores(2) h, of "map (getMultipartPartPath uploadID \<circ> pa_PartNumber) parts"] path(1)
    by (auto simp: c(7) updateMetricsAndCleanupMultipart_def Let_def delete_part_files_def env fold_map comp_def split: prod.splits)
  moreover have fields: "ob_Bucket obj = um_Bucket um" "ob_Key obj = um_Key um" "ob_Size obj = n" "ob_ETag obj = etag"
    by (subst c(5), simp add: multipart_object_def fromMetadataMultipartUpload_def blank_object_def Let_def)+
  moreover obtain ob where ob: "sto cont (os_store sys') (objKeyFor (um_Bucket um) (um_Key um) v) = Some (JObject ob)" "om_Bucket ob = um_Bucket um"
    "om_Key ob = um_Key um" "om_VersionID ob = ob_VersionID obj" "om_Size ob = n" "om_ETag ob = etag"
    using pebble_engine.multipart_entry [OF eng c(6) env(1) c(1) v] fields
    by (auto simp: c(7) pebble_engine.cleanup_keeps [OF eng pebble_engine.own_objKeyFor [OF eng] env(1)])
  moreover have "etag \<noteq> []" using c(2) by (auto simp: computeMultipartETag_def split: sum.splits)
  ultimately have "\<exists>obj'. OM_GetObject (cr\<lparr>cr_kek := kek'\<rparr>) env (um_Bucket um) (um_Key um) v sys' = Inr (obj', (concat ds, None)) \<and>
    ob_Key obj' = um_Key um \<and> ob_VersionID obj' = om_VersionID ob \<and> ob_Size obj' = om_Size ob \<and> ob_ETag obj' = om_ETag ob"
    using v by (intro download_sealed [OF stores ob(1-3) up(2,3) _ _ _ dec]) simp_all
  then show ?thesis using c(2) ob(5,6) n by auto
qed

section \<open>An upload of two parts\<close>

definition demo_md5 :: "string \<Rightarrow> string" where
  "demo_md5 b = replicate 32 CHR ''a''"

definition memory_files :: "(string \<times> string \<times> smap) list" where
  "memory_files = [(getMultipartPartPath ''u'' 1, (''h'', [])), (getMultipartPartPath ''u'' 2, (''i'', []))]"

definition upload_entry :: upload_metadata where
  "upload_entry = \<lparr>um_UploadID = ''u'', um_Bucket = ''b'', um_Key = ''k'', um_Initiated = 1, um_StorageClass = ''STANDARD'',
     um_Metadata = [(''content-type'', ''text/plain'')], um_ContentType = [], um_TenantID = [], um_OwnerID = []\<rparr>"

definition part_entry :: "int \<Rightarrow> part_metadata" where
  "part_entry n = \<lparr>pt_UploadID = ''u'', pt_PartNumber = n, pt_Size = 1, pt_ETag = demo_md5 [], pt_LastModified = 1\<rparr>"

definition two_parts :: "multipart_part list" where
  "two_parts = map (\<lambda>n. \<lparr>pa_PartNumber = n, pa_ETag = demo_md5 [], pa_Size = 1, pa_LastModified = 1\<rparr>) [1, 2]"

definition upload_system :: "((string \<times> kv_value) list, (string \<times> string \<times> smap) list, int) om_state" where
  "upload_system = \<lparr>os_store = NewPebbleStore [(multipartUploadKey ''u'', JUpload upload_entry),
     (partKey ''u'' 1, JPart (part_entry 1)), (partKey ''u'' 2, JPart (part_entry 2))], os_fs = memory_files, os_tenants = 0\<rparr>"

definition files_env :: "((string \<times> kv_value) list, (string \<times> string \<times> smap) list, int) om_env" where
  "files_env = \<lparr>env_E = mem_engine, env_B = mem_backend, env_inc = \<lambda>t z au. au + z, env_dec = \<lambda>t z au. au - z,
     env_quota = \<lambda>t z au. None, env_cleanup = \<lambda>b k fs. fs, env_stage = \<lambda>r fs. snd r, env_open = \<lambda>fs. None,
     env_envelope = Inr ([], []), env_encrypt = \<lambda>k p. (p, None), env_md5 = demo_md5, env_checksum = \<lambda>a p. None\<rparr>"

lemma demo_complete:
  "\<exists>obj sys'. doCompleteMultipartUpload (demo_sealing files_env) demo_context ''u'' two_parts upload_system = (Inr obj, sys') \<and> ob_VersionID obj = []"
proof -
  have "case doCompleteMultipartUpload (files_env\<lparr>env_envelope := Inr (demo_dek, demo_envelope), env_encrypt := demo_encrypt\<rparr>)
      demo_context ''u'' two_parts upload_system of (Inr obj, _) \<Rightarrow> ob_VersionID obj = [] | _ \<Rightarrow> False"
    by code_simp
  then show ?thesis unfolding demo_sealing_eq by (auto split: prod.splits sum.splits)
qed

theorem complete_then_get_witness:
  "\<exists>obj sys' kek' obj'. doCompleteMultipartUpload (demo_sealing files_env) demo_context ''u'' two_parts upload_system = (Inr obj, sys') \<and>
     fold (kek_exec mem_table) demo_rotation (Up demo_kek) = Up kek' \<and> ks_current kek' = 2 \<and>
     OM_GetObject (demo_crypter\<lparr>cr_kek := kek'\<rparr>) files_env ''b'' ''k'' [] sys' = Inr (obj', (''hi'', None)) \<and> ob_Size obj' = 2"
proof -
  obtain obj sys' where complete: "doCompleteMultipartUpload (demo_sealing files_env) demo_context ''u'' two_parts upload_system = (Inr obj, sys')"
    and v: "ob_VersionID obj = []" using demo_complete by blast
  obtain kek' where kek': "fold (kek_exec mem_table) demo_rotation (Up demo_kek) = Up kek'" "ks_current kek' = 2" using demo_rotated by blast
  have "pebble_reliable (env_E files_env) map_of" "data_store (env_B files_env) (\<lambda>_ _ _. True) mem_holds (\<noteq>)"
    using mem.pebble_reliable_axioms memd.data_store_axioms by (simp_all add: files_env_def)
  moreover have "mirrors row_map (cr_kek demo_crypter)" using demo_kek_mirrors by (simp add: demo_crypter_def)
  moreover have "aead_ok (cr_C demo_crypter)" "kdf_ok (cr_C demo_crypter)" "i64 (ks_current (cr_kek demo_crypter))"
    "length (replicate 12 (3 :: 8 word)) = NonceSize" "fold (kek_exec mem_table) demo_rotation (Up (cr_kek demo_crypter)) = Up kek'"
    using kek' by (simp_all add: demo_crypter_def demo_ciphers_ok demo_kek_def i64_def NonceSize_def)
  moreover have "GetMultipartUpload (env_E files_env) ''u'' (os_store upload_system) = Inr upload_entry" by code_simp
  moreover have "um_Bucket upload_entry \<noteq> []" "validateObjectName (um_Key upload_entry)" "list_all kek_op_ok demo_rotation"
    "\<forall>k\<in>fst ` set (um_Metadata upload_entry). \<not> isProtectedStorageMetadataKey k"
    "\<forall>part\<in>set two_parts. object_path (um_Bucket upload_entry) (um_Key upload_entry) [] \<noteq> getMultipartPartPath ''u'' (pa_PartNumber part)"
    by code_simp+
  moreover have "getMultipartPartPath ''u'' 1 \<noteq> getMultipartPartPath ''u'' 2" by (simp add: getMultipartPartPath_def)
  then have "parts_held mem_holds ''u'' (os_fs upload_system) two_parts [''h'', ''i'']"
    by (auto simp: parts_held_def two_parts_def upload_system_def memory_files_def mem_holds_def)
  ultimately obtain obj' where "OM_GetObject (demo_crypter\<lparr>cr_kek := kek'\<rparr>) files_env (um_Bucket upload_entry) (um_Key upload_entry) [] sys' =
      Inr (obj', (concat [''h'', ''i''], None))" "ob_Size obj' = int (length (concat [''h'', ''i'']))"
    using complete_then_get [OF _ _ kek.key_table_laws_axioms _ _ _ _ _ _ _ _ _ _ _ complete [unfolded demo_sealing_def],
        of map_of "\<lambda>_ _ _. True" mem_holds "(\<noteq>)" upload_entry "[''h'', ''i'']" demo_rotation kek' "[]"] v by auto
  with complete kek' show ?thesis by (auto simp: upload_entry_def)
qed

section \<open>User metadata in the sidecar\<close>

text \<open>
  The completion copies the upload's metadata, user metadata included, over the encryption entries. An upload started with
  \<^verbatim>\<open>x-amz-meta-encrypted: false\<close> ends as an object that a download returns as ciphertext, and one with
  \<^verbatim>\<open>x-amz-meta-wrapped-dek\<close> as an object whose data key is lost.
\<close>

lemma user_entry_wins:
  assumes "map_of (mu_Metadata mu) k = Some v" "distinct (map fst (mu_Metadata mu))" "k \<noteq> ''content-type''"
  shows "map_get (multipart_sidecar mu em n et) k = v"
proof -
  have "map_of (rev (mu_Metadata mu)) k = Some v"
    using assms(1,2) by (intro map_of_is_SomeI) (auto simp: rev_map [symmetric] dest: map_of_SomeD)
  then show ?thesis using assms(3) by (simp add: multipart_sidecar_def Let_def map_get_def metadata_fold)
qed

lemma user_entry_named:
  "map_of (upload_metadata_of [(''X-Amz-Meta-Encrypted'', [''false''])]) ''encrypted'' = Some ''false''"
  by code_simp

end
