(* ===== verification/Completion_Flights.thy ===== *)
theory Completion_Flights
  imports Prelude "HOL-Library.AList"
begin

text \<open>
  The completions of multipart uploads that run at the same time, \<^verbatim>\<open>CompleteMultipartUpload\<close> of
  \<^verbatim>\<open>internal/object/manager.go\<close>, as an interleaved transition system. \<open>completion_single_flight\<close>: one run at a time per upload,
  and every caller gets the result of the run it joined.
\<close>

section \<open>The protocol\<close>

text \<open>
  The callers of \<^verbatim>\<open>CompleteMultipartUpload\<close>. One that finds no future for its upload in \<^verbatim>\<open>completions\<close> makes one and runs the
  completion; the others wait for the future they found until it is closed or their request is cancelled. The runner
  keeps the result in the future, removes the entry under the lock and then closes the future. A future is its
  index in \<open>fl_futures\<close>, which names the upload; \<open>fl_ran\<close> records the runs of the completion and their results.
\<close>

datatype 'r caller_phase =
    Arriving
  | Runs string nat
  | Ended string nat 'r
  | Closing string nat 'r
  | Waits string nat
  | Returns string nat 'r
  | Cancelled string

record 'r flights =
  fl_completions :: "(string \<times> nat) list"
  fl_futures :: "string list"
  fl_phase :: "nat \<Rightarrow> 'r caller_phase"
  fl_done :: "(nat \<times> 'r) list"
  fl_ran :: "(nat \<times> 'r) list"

inductive flight_step :: "'r flights \<Rightarrow> 'r flights \<Rightarrow> bool" where
  lead: "fl_phase w c = Arriving \<Longrightarrow> map_of (fl_completions w) u = None \<Longrightarrow> f = length (fl_futures w) \<Longrightarrow>
    flight_step w (w\<lparr>fl_completions := (u, f) # fl_completions w, fl_futures := fl_futures w @ [u], fl_phase := (fl_phase w)(c := Runs u f)\<rparr>)"
| join: "fl_phase w c = Arriving \<Longrightarrow> map_of (fl_completions w) u = Some f \<Longrightarrow> flight_step w (w\<lparr>fl_phase := (fl_phase w)(c := Waits u f)\<rparr>)"
| ran: "fl_phase w c = Runs u f \<Longrightarrow> flight_step w (w\<lparr>fl_ran := (f, r) # fl_ran w, fl_phase := (fl_phase w)(c := Ended u f r)\<rparr>)"
| unlist: "fl_phase w c = Ended u f r \<Longrightarrow>
    flight_step w (w\<lparr>fl_completions := AList.delete u (fl_completions w), fl_phase := (fl_phase w)(c := Closing u f r)\<rparr>)"
| close: "fl_phase w c = Closing u f r \<Longrightarrow> flight_step w (w\<lparr>fl_done := (f, r) # fl_done w, fl_phase := (fl_phase w)(c := Returns u f r)\<rparr>)"
| wake: "fl_phase w c = Waits u f \<Longrightarrow> map_of (fl_done w) f = Some r \<Longrightarrow> flight_step w (w\<lparr>fl_phase := (fl_phase w)(c := Returns u f r)\<rparr>)"
| cancel: "fl_phase w c = Waits u f \<Longrightarrow> flight_step w (w\<lparr>fl_phase := (fl_phase w)(c := Cancelled u)\<rparr>)"

definition no_flights :: "'r flights" where
  "no_flights = \<lparr>fl_completions = [], fl_futures = [], fl_phase = \<lambda>c. Arriving, fl_done = [], fl_ran = []\<rparr>"

section \<open>The invariant\<close>

fun attached :: "'r caller_phase \<Rightarrow> (string \<times> nat) option" where
  "attached (Runs u f) = Some (u, f)"
| "attached (Ended u f r) = Some (u, f)"
| "attached (Closing u f r) = Some (u, f)"
| "attached (Waits u f) = Some (u, f)"
| "attached (Returns u f r) = Some (u, f)"
| "attached _ = None"

fun working :: "'r caller_phase \<Rightarrow> (string \<times> nat) option" where
  "working (Runs u f) = Some (u, f)"
| "working (Ended u f r) = Some (u, f)"
| "working _ = None"

fun outcome :: "'r caller_phase \<Rightarrow> (nat \<times> 'r) option" where
  "outcome (Ended u f r) = Some (f, r)"
| "outcome (Closing u f r) = Some (f, r)"
| "outcome (Returns u f r) = Some (f, r)"
| "outcome _ = None"

text \<open>Every entry has one caller that works for it; every future is run at most once; every waiting caller has its entry, its
  result, or a caller about to close the future.\<close>

definition entries_ok :: "'r flights \<Rightarrow> bool" where
  "entries_ok w \<longleftrightarrow>
     (\<forall>c u f. working (fl_phase w c) = Some (u, f) \<longrightarrow> map_of (fl_completions w) u = Some f) \<and>
     (\<forall>u f. map_of (fl_completions w) u = Some f \<longrightarrow> (\<exists>c. working (fl_phase w c) = Some (u, f))) \<and>
     (\<forall>c d u f. working (fl_phase w c) = Some (u, f) \<longrightarrow> working (fl_phase w d) = Some (u, f) \<longrightarrow> c = d)"

definition futures_ok :: "'r flights \<Rightarrow> bool" where
  "futures_ok w \<longleftrightarrow>
     (\<forall>c u f. attached (fl_phase w c) = Some (u, f) \<longrightarrow> f < length (fl_futures w) \<and> fl_futures w ! f = u) \<and>
     (\<forall>c x. outcome (fl_phase w c) = Some x \<longrightarrow> x \<in> set (fl_ran w)) \<and> set (fl_done w) \<subseteq> set (fl_ran w) \<and>
     distinct (map fst (fl_ran w)) \<and> (\<forall>x \<in> set (fl_ran w). fst x < length (fl_futures w)) \<and>
     (\<forall>c u f. fl_phase w c = Runs u f \<longrightarrow> f \<notin> fst ` set (fl_ran w))"

definition served :: "'r flights \<Rightarrow> string \<Rightarrow> nat \<Rightarrow> bool" where
  "served w u f \<longleftrightarrow> map_of (fl_completions w) u = Some f \<or> map_of (fl_done w) f \<noteq> None \<or> (\<exists>d r. fl_phase w d = Closing u f r)"

definition waiting_ok :: "'r flights \<Rightarrow> bool" where
  "waiting_ok w \<longleftrightarrow> (\<forall>c u f. fl_phase w c = Waits u f \<longrightarrow> served w u f)"

lemma entries_same:
  assumes "entries_ok w" "fl_completions w' = fl_completions w" "\<And>d. working (fl_phase w' d) = working (fl_phase w d)"
  shows "entries_ok w'"
  using assms unfolding entries_ok_def by simp

lemma entries_step:
  assumes "flight_step w w'" "entries_ok w"
  shows "entries_ok w'"
  using assms(1)
proof cases
  case (lead c u f)
  have "working (fl_phase w d) \<noteq> Some (u, g)" for d g using assms(2) lead(3) unfolding entries_ok_def by fastforce
  moreover have "\<exists>d. d \<noteq> c \<and> working (fl_phase w d) = Some (v, g)" if "map_of (fl_completions w) v = Some g" for v g
    using assms(2) lead(2) that unfolding entries_ok_def by (metis option.distinct(1) working.simps(3))
  ultimately show ?thesis using assms(2) unfolding entries_ok_def lead(1) by auto metis
next
  case (unlist c u f r)
  have "working (fl_phase w d) = Some (u, g) \<Longrightarrow> d = c" for d g
    using assms(2) unlist(2) unfolding entries_ok_def by (metis option.inject working.simps(2))
  moreover have "\<exists>d. d \<noteq> c \<and> working (fl_phase w d) = Some (v, g)" if "map_of (fl_completions w) v = Some g" "v \<noteq> u" for v g
    using assms(2) unlist(2) that unfolding entries_ok_def by (metis option.inject prod.inject working.simps(2))
  ultimately show ?thesis using assms(2) unfolding entries_ok_def unlist(1) by (auto simp: delete_conv') metis+
qed (rule entries_same [OF assms(2)]; simp)+

lemma futures_okD:
  assumes "futures_ok w"
  shows "attached (fl_phase w c) = Some (u, f) \<Longrightarrow> f < length (fl_futures w) \<and> fl_futures w ! f = u"
    "outcome (fl_phase w c) = Some x \<Longrightarrow> x \<in> set (fl_ran w)" "set (fl_done w) \<subseteq> set (fl_ran w)"
    "distinct (map fst (fl_ran w))" "x \<in> set (fl_ran w) \<Longrightarrow> fst x < length (fl_futures w)"
    "fl_phase w c = Runs u f \<Longrightarrow> f \<notin> fst ` set (fl_ran w)"
  using assms unfolding futures_ok_def by (iprover, iprover, iprover, iprover, simp, iprover)

lemma futures_update:
  assumes ok: "futures_ok w" and other: "\<And>d. d \<noteq> c \<Longrightarrow> fl_phase w' d = fl_phase w d"
    and futures: "length (fl_futures w) \<le> length (fl_futures w')" "\<And>f. f < length (fl_futures w) \<Longrightarrow> fl_futures w' ! f = fl_futures w ! f"
    and ran: "set (fl_ran w) \<subseteq> set (fl_ran w')" "set (fl_done w') \<subseteq> set (fl_ran w')" "distinct (map fst (fl_ran w'))"
      "\<forall>x\<in>set (fl_ran w'). fst x < length (fl_futures w')"
    and runs: "\<And>d u f. fl_phase w' d = Runs u f \<Longrightarrow> f \<notin> fst ` set (fl_ran w')"
    and caller: "\<And>u f. attached (fl_phase w' c) = Some (u, f) \<Longrightarrow> f < length (fl_futures w') \<and> fl_futures w' ! f = u"
      "\<And>x. outcome (fl_phase w' c) = Some x \<Longrightarrow> x \<in> set (fl_ran w')"
  shows "futures_ok w'"
proof -
  have "f < length (fl_futures w') \<and> fl_futures w' ! f = u" if "attached (fl_phase w' d) = Some (u, f)" for d u f
    using that caller(1) futures_okD(1) [OF ok, of d u f] other [of d] futures(1) futures(2) [of f] by (cases "d = c") auto
  moreover have "x \<in> set (fl_ran w')" if "outcome (fl_phase w' d) = Some x" for d x
    using that caller(2) futures_okD(2) [OF ok, of d x] other [of d] ran(1) by (cases "d = c") auto
  ultimately show ?thesis unfolding futures_ok_def using ran runs by blast
qed

lemma working_attached: "working p = Some x \<Longrightarrow> attached p = Some x"
  by (cases p) auto

lemma futures_caller:
  assumes ok: "futures_ok w" and w': "fl_phase w' = (fl_phase w)(c := p)" "fl_futures w' = fl_futures w" "fl_ran w' = fl_ran w" "fl_done w' = fl_done w"
    and p: "\<And>u f. p \<noteq> Runs u f" "\<And>u f. attached p = Some (u, f) \<Longrightarrow> f < length (fl_futures w) \<and> fl_futures w ! f = u"
      "\<And>x. outcome p = Some x \<Longrightarrow> x \<in> set (fl_ran w)"
  shows "futures_ok w'"
proof (rule futures_update [OF ok, of c])
  show "f \<notin> fst ` set (fl_ran w')" if "fl_phase w' d = Runs u f" for d u f
    using that futures_okD(6) [OF ok, of d u f] p(1) [of u f] w' by (simp split: if_splits)
  show "\<forall>x\<in>set (fl_ran w'). fst x < length (fl_futures w')" using futures_okD(5) [OF ok] w' by simp
qed (use w' p(2,3) futures_okD(3,4) [OF ok] in simp_all)

lemma futures_step:
  assumes "flight_step w w'" and entries: "entries_ok w" and ok: "futures_ok w"
  shows "futures_ok w'"
  using assms(1)
proof cases
  case (lead c u f)
  have n: "\<forall>x\<in>set (fl_ran w). fst x < length (fl_futures w)" using futures_okD(5) [OF ok] by simp
  show ?thesis
  proof (rule futures_update [OF ok, of c])
    have "f \<notin> fst ` set (fl_ran w)" using n lead(4) by auto
    then show "g \<notin> fst ` set (fl_ran w')" if "fl_phase w' d = Runs v g" for d v g
      using that futures_okD(6) [OF ok, of d v g] lead(1) by (simp split: if_splits)
    show "\<forall>x\<in>set (fl_ran w'). fst x < length (fl_futures w')" using n lead(1) by (auto simp: less_Suc_eq)
  qed (use lead(1,4) futures_okD(3,4) [OF ok] in \<open>simp_all add: nth_append\<close>)
next
  case (join c u f)
  have "f < length (fl_futures w) \<and> fl_futures w ! f = u"
    using entries join(3) futures_okD(1) [OF ok working_attached] unfolding entries_ok_def by metis
  then show ?thesis using join(1) by (intro futures_caller [OF ok, of _ c "Waits u f"]) simp_all
next
  case (ran c u f r)
  have f: "f \<notin> fst ` set (fl_ran w)" "f < length (fl_futures w)" "fl_futures w ! f = u"
    using futures_okD(6) [OF ok ran(2)] futures_okD(1) [OF ok, of c u f] ran(2) by auto
  have one: "d = c" if "fl_phase w d = Runs v f" for d v
  proof -
    have "v = u" using futures_okD(1) [OF ok, of d v f] that f(3) by simp
    then show "d = c" using entries that ran(2) unfolding entries_ok_def by (metis working.simps(1))
  qed
  show ?thesis
  proof (rule futures_update [OF ok, of c])
    show "g \<notin> fst ` set (fl_ran w')" if "fl_phase w' d = Runs v g" for d v g
      using that futures_okD(6) [OF ok, of d v g] one [of d v] ran(1) by (auto split: if_splits)
    show "\<forall>x\<in>set (fl_ran w'). fst x < length (fl_futures w')" using futures_okD(5) [OF ok] f(2) ran(1) by simp
  qed (use ran(1) f futures_okD(3,4) [OF ok] in auto)
next
  case (wake c u f r)
  have "(f, r) \<in> set (fl_ran w)" using futures_okD(3) [OF ok] map_of_SomeD [OF wake(3)] by auto
  then show ?thesis using futures_okD(1) [OF ok, of c u f] wake(1,2) by (intro futures_caller [OF ok, of _ c "Returns u f r"]) simp_all
next
  case (unlist c u f r)
  then show ?thesis using futures_okD(1) [OF ok, of c u f] futures_okD(2) [OF ok, of c "(f, r)"]
    by (intro futures_caller [OF ok, of _ c "Closing u f r"]) simp_all
next
  case (close c u f r)
  have *: "f < length (fl_futures w) \<and> fl_futures w ! f = u" "(f, r) \<in> set (fl_ran w)"
    using close(2) futures_okD(1) [OF ok, of c u f] futures_okD(2) [OF ok, of c "(f, r)"] by simp_all
  then have "futures_ok (w\<lparr>fl_done := (f, r) # fl_done w\<rparr>)" using ok unfolding futures_ok_def by simp
  from futures_caller [OF this, of w' c "Returns u f r"] show ?thesis using * close(1) by simp
next
  case (cancel c u f)
  then show ?thesis by (intro futures_caller [OF ok, of _ c "Cancelled u"]) simp_all
qed

lemma waiting_update:
  assumes "waiting_ok w" and w': "fl_phase w' = (fl_phase w)(c := p)" and p: "\<And>u f. p = Waits u f \<Longrightarrow> served w' u f"
    and kept: "\<And>u f. served w u f \<Longrightarrow> served w' u f"
  shows "waiting_ok w'"
  unfolding waiting_ok_def
proof (intro allI impI)
  fix d u f
  assume "fl_phase w' d = Waits u f"
  then show "served w' u f" using assms(1) w' p [of u f] kept [of u f] unfolding waiting_ok_def by (cases "d = c") auto
qed

lemma served_caller:
  assumes "served w u f" "fl_phase w' = (fl_phase w)(c := p)" "\<And>u f r. fl_phase w c \<noteq> Closing u f r"
    "map_of (fl_completions w) u = Some f \<Longrightarrow> map_of (fl_completions w') u = Some f" "fl_done w' = fl_done w"
  shows "served w' u f"
  using assms unfolding served_def by (metis fun_upd_other)

lemma waiting_step:
  assumes "flight_step w w'" and entries: "entries_ok w" and ok: "waiting_ok w"
  shows "waiting_ok w'"
  using assms(1)
proof cases
  case (unlist c u f r)
  have *: "map_of (fl_completions w) u = Some f" using entries unlist(2) unfolding entries_ok_def by (metis working.simps(2))
  have "served w' u f" unfolding served_def unlist(1) by auto
  moreover have "served w' v g" if "served w v g" "v \<noteq> u \<or> g \<noteq> f" for v g
    using that(2) * unlist by (intro served_caller [OF that(1), of w' c "Closing u f r"]) (auto simp: delete_conv')
  ultimately have "served w v g \<Longrightarrow> served w' v g" for v g by metis
  then show ?thesis using unlist(1) by (intro waiting_update [OF ok, of w' c "Closing u f r"]) simp_all
next
  case (close c u f r)
  have "served w v g \<Longrightarrow> served w' v g" for v g
    unfolding served_def close(1) using close(2) by (auto; metis caller_phase.inject(3))
  then show ?thesis using close(1) by (intro waiting_update [OF ok, of w' c "Returns u f r"]) simp_all
next
  case (lead c u f)
  show ?thesis using lead by (intro waiting_update [OF ok, of w' c "Runs u f"] served_caller [of w _ _ w' c "Runs u f"]) auto
next
  case (join c u f)
  have "served w u f" unfolding served_def using join(3) by simp
  then show ?thesis using join by (intro waiting_update [OF ok, of w' c "Waits u f"] served_caller [of w _ _ w' c "Waits u f"]) auto
next
  case (ran c u f r)
  show ?thesis using ran by (intro waiting_update [OF ok, of w' c "Ended u f r"] served_caller [of w _ _ w' c "Ended u f r"]) auto
next
  case (wake c u f r)
  show ?thesis using wake by (intro waiting_update [OF ok, of w' c "Returns u f r"] served_caller [of w _ _ w' c "Returns u f r"]) auto
next
  case (cancel c u f)
  show ?thesis using cancel by (intro waiting_update [OF ok, of w' c "Cancelled u"] served_caller [of w _ _ w' c "Cancelled u"]) auto
qed

lemma flights_invariant:
  assumes "flight_step\<^sup>*\<^sup>* no_flights w"
  shows "entries_ok w \<and> futures_ok w \<and> waiting_ok w"
  using assms
proof (induction rule: rtranclp_induct)
  case base
  show ?case by (simp add: entries_ok_def futures_ok_def waiting_ok_def no_flights_def)
qed (metis entries_step futures_step waiting_step)

section \<open>Single flight\<close>

text \<open>
  C10. One completion at a time. However the callers of the completion arrive, are scheduled and are cancelled: two callers never
  run the completion of the same upload at the same time; each future is run at most once; a caller that returns from
  its future returns the result of the one run of its own upload; and a caller that waits has a future that is
  closed, or that another caller works for and will close.
\<close>

theorem completion_single_flight:
  assumes "flight_step\<^sup>*\<^sup>* no_flights w"
  shows "(\<forall>c d u f g. fl_phase w c = Runs u f \<longrightarrow> fl_phase w d = Runs u g \<longrightarrow> c = d) \<and> distinct (map fst (fl_ran w)) \<and>
    (\<forall>c u f r. fl_phase w c = Returns u f r \<longrightarrow> map_of (fl_ran w) f = Some r \<and> fl_futures w ! f = u) \<and>
    (\<forall>c u f. fl_phase w c = Waits u f \<longrightarrow> map_of (fl_done w) f \<noteq> None \<or>
      (\<exists>d r. fl_phase w d = Runs u f \<or> fl_phase w d = Ended u f r \<or> fl_phase w d = Closing u f r))"
proof (intro conjI allI impI)
  have ok: "entries_ok w" "futures_ok w" "waiting_ok w" using flights_invariant [OF assms] by auto
  show "distinct (map fst (fl_ran w))" by (rule futures_okD(4) [OF ok(2)])
  show "c = d" if "fl_phase w c = Runs u f" "fl_phase w d = Runs u g" for c d u f g
    using ok(1) that unfolding entries_ok_def by (metis option.inject working.simps(1))
  show "map_of (fl_ran w) f = Some r" if "fl_phase w c = Returns u f r" for c u f r
    using futures_okD(2) [OF ok(2), of c "(f, r)"] futures_okD(4) [OF ok(2)] that by simp
  show "fl_futures w ! f = u" if "fl_phase w c = Returns u f r" for c u f r
    using futures_okD(1) [OF ok(2), of c u f] that by simp
  show "map_of (fl_done w) f \<noteq> None \<or> (\<exists>d r. fl_phase w d = Runs u f \<or> fl_phase w d = Ended u f r \<or> fl_phase w d = Closing u f r)"
    if "fl_phase w c = Waits u f" for c u f
  proof -
    have "served w u f" using ok(3) that unfolding waiting_ok_def by blast
    moreover have "\<exists>r. fl_phase w d = Runs u f \<or> fl_phase w d = Ended u f r" if "working (fl_phase w d) = Some (u, f)" for d
      using that by (cases "fl_phase w d") auto
    ultimately show ?thesis using ok(1) unfolding served_def entries_ok_def by metis
  qed
qed

text \<open>Two callers of one upload: the second waits, the first has run and removed the entry, and a third starts a new run.\<close>

definition demo_flights :: "int flights" where
  "demo_flights = \<lparr>fl_completions = [(''u'', 1)], fl_futures = [''u'', ''u''],
     fl_phase = (\<lambda>c. Arriving)(0 := Closing ''u'' 0 7, 1 := Waits ''u'' 0, 2 := Runs ''u'' 1), fl_done = [], fl_ran = [(0, 7)]\<rparr>"

lemma demo_flights_reachable: "flight_step\<^sup>*\<^sup>* no_flights demo_flights"
proof -
  let ?w1 = "no_flights\<lparr>fl_completions := [(''u'', 0)], fl_futures := [''u''], fl_phase := (\<lambda>c. Arriving)(0 := Runs ''u'' 0)\<rparr> :: int flights"
  let ?w2 = "?w1\<lparr>fl_phase := (\<lambda>c. Arriving)(0 := Runs ''u'' 0, 1 := Waits ''u'' 0)\<rparr>"
  let ?w3 = "?w2\<lparr>fl_ran := [(0, 7)], fl_phase := (\<lambda>c. Arriving)(0 := Ended ''u'' 0 7, 1 := Waits ''u'' 0)\<rparr>"
  let ?w4 = "?w3\<lparr>fl_completions := [], fl_phase := (\<lambda>c. Arriving)(0 := Closing ''u'' 0 7, 1 := Waits ''u'' 0)\<rparr>"
  have "flight_step no_flights ?w1" using flight_step.lead [of "no_flights :: int flights" 0 "''u''" 0] by (simp add: no_flights_def)
  moreover have "flight_step ?w1 ?w2" using flight_step.join [of ?w1 1 "''u''" 0] by (simp add: no_flights_def)
  moreover have "flight_step ?w2 ?w3" using flight_step.ran [of ?w2 0 "''u''" 0 7] by (simp add: no_flights_def fun_upd_twist)
  moreover have "flight_step ?w3 ?w4" using flight_step.unlist [of ?w3 0 "''u''" 0 7] by (simp add: no_flights_def fun_upd_twist)
  moreover have "flight_step ?w4 demo_flights" using flight_step.lead [of ?w4 2 "''u''" 1] by (simp add: no_flights_def demo_flights_def)
  ultimately show ?thesis by (meson converse_rtranclp_into_rtranclp rtranclp.rtrancl_refl)
qed

theorem completion_single_flight_witness:
  "flight_step\<^sup>*\<^sup>* no_flights demo_flights \<and> fl_phase demo_flights 1 = Waits ''u'' 0 \<and>
   (\<exists>d r. fl_phase demo_flights d = Runs ''u'' 0 \<or> fl_phase demo_flights d = Ended ''u'' 0 r \<or> fl_phase demo_flights d = Closing ''u'' 0 r)"
proof -
  have "fl_phase demo_flights 1 = Waits ''u'' 0" "map_of (fl_done demo_flights) 0 = None" by (simp_all add: demo_flights_def)
  then show ?thesis using completion_single_flight [OF demo_flights_reachable] demo_flights_reachable by blast
qed

end
