(* ===== verification/Catalog_Props.thy ===== *)
theory Catalog_Props
  imports Object_Catalog Object_Read Meta_Listing_Props
begin

text \<open>
  Properties of the listings, access control lists and metadata updates of the object manager. \<open>update_keeps_data\<close>: a
  metadata update cannot make an object unreadable or touch its bytes, whatever entries the caller names.
\<close>

section \<open>Metadata updates\<close>

lemma map_of_merged:
  "map_of (merged_sidecar changes m) x = (if isProtectedStorageMetadataKey x then map_of m x
     else case map_of (rev changes) x of None \<Rightarrow> map_of m x | Some v \<Rightarrow> Some v)"
proof (induction changes rule: rev_induct)
  case (snoc c changes)
  obtain k v where c: "c = (k, v)" by force
  have "merged_sidecar (changes @ [c]) m = (if isProtectedStorageMetadataKey k then merged_sidecar changes m
      else AList.update k v (merged_sidecar changes m))"
    by (simp add: merged_sidecar_def c)
  then show ?case using snoc by (auto simp: c update_conv')
qed (simp add: merged_sidecar_def)

text \<open>Which key and which algorithm decrypt a file is decided by protected entries only.\<close>

lemma opens_alike:
  assumes "\<And>k. isProtectedStorageMetadataKey k \<Longrightarrow> map_of m' k = map_of m k"
  shows "map_get m' ''encrypted'' = map_get m ''encrypted''" "decryptionKeyFor cr m' = decryptionKeyFor cr m"
    "decrypt_pipe cr m' dek = decrypt_pipe cr m dek"
proof -
  have same: "map_get m' k = map_get m k" if "isProtectedStorageMetadataKey k" for k using assms [OF that] by (simp add: map_get_def)
  have keys: "isProtectedStorageMetadataKey ''encrypted''" "isProtectedStorageMetadataKey ''wrapped-dek''"
    "isProtectedStorageMetadataKey ''wrapped-dek-iv''" "isProtectedStorageMetadataKey ''kek-version''"
    "isProtectedStorageMetadataKey ''x-amz-server-side-encryption-algorithm''"
    by (simp_all add: isProtectedStorageMetadataKey_def)
  show "map_get m' ''encrypted'' = map_get m ''encrypted''" using same keys(1) .
  show "decryptionKeyFor cr m' = decryptionKeyFor cr m" unfolding decryptionKeyFor_def by (simp only: same [OF keys(2)] same [OF keys(3)] same [OF keys(4)])
  show "decrypt_pipe cr m' dek = decrypt_pipe cr m dek"
    by (rule ext) (simp only: decrypt_pipe_def decryptMetaFor_def same [OF keys(5)])
qed

definition updated_object :: "smap \<Rightarrow> object \<Rightarrow> object" where
  "updated_object changes obj = (let obj = obj\<lparr>ob_Metadata := fold (\<lambda>(k, v). AList.update k v) changes (ob_Metadata obj)\<rparr>
     in case map_of changes ''content-type'' of None \<Rightarrow> obj | Some c \<Rightarrow> obj\<lparr>ob_ContentType := c\<rparr>)"

lemma updated_fields [simp]:
  "ob_Bucket (updated_object changes obj) = ob_Bucket obj" "ob_Key (updated_object changes obj) = ob_Key obj"
  "ob_VersionID (updated_object changes obj) = ob_VersionID obj" "ob_Size (updated_object changes obj) = ob_Size obj"
  "ob_ETag (updated_object changes obj) = ob_ETag obj" "ob_IsLatest (updated_object changes obj) = ob_IsLatest obj"
  "ob_Retention (updated_object changes obj) = ob_Retention obj" "ob_LegalHold (updated_object changes obj) = ob_LegalHold obj"
  by (auto simp: updated_object_def Let_def split: option.splits)

text \<open>The three writes of an update that succeeds.\<close>

lemma UpdateObjectMetadata_success:
  assumes upd: "UpdateObjectMetadata env now b k changes sys = (None, sys')" and ob: "GetObject (env_E env) b k [] (os_store sys) = Inr ob"
    and m: "be_GetMetadata (env_B env) (object_path b k (om_VersionID ob)) (os_fs sys) = Inr m"
  obtains fs where "validateObjectName k" "be_SetMetadata (env_B env) (object_path b k (om_VersionID ob)) (merged_sidecar changes m) (os_fs sys) = (None, fs)"
    "PutObject (env_E env) now (Some (toMetadataObject (updated_object changes (fromMetadataObject ob)))) (os_store sys) = Inr (os_store sys')"
    "os_fs sys' = fs"
proof -
  have v: "validateObjectName k" using upd by (auto simp: UpdateObjectMetadata_def split: if_splits)
  have p: "(if om_VersionID ob \<noteq> [] then getVersionedObjectPath b k (om_VersionID ob) else getObjectPath b k) = object_path b k (om_VersionID ob)"
    by (simp add: object_path_def)
  have ex: "be_Exists (env_B env) (object_path b k (om_VersionID ob)) (os_fs sys) = Inr True"
    using upd unfolding UpdateObjectMetadata_def Let_def ob sum.case p by (auto simp: v split: sum.splits if_splits bool.splits)
  obtain fs where set: "be_SetMetadata (env_B env) (object_path b k (om_VersionID ob)) (merged_sidecar changes m) (os_fs sys) = (None, fs)"
    using upd unfolding UpdateObjectMetadata_def Let_def ob sum.case p by (simp add: v ex m split: prod.splits option.splits)
  have upd2: "(case GetObjectMetadata env b k (sys\<lparr>os_fs := fs\<rparr>) of
      Inl e \<Rightarrow> (Some e, sys\<lparr>os_fs := fs\<rparr>)
    | Inr obj \<Rightarrow> (case saveObject env now (toMetadataObject (updated_object changes obj)) (sys\<lparr>os_fs := fs\<rparr>) of
        Inl e \<Rightarrow> (Some e, sys\<lparr>os_fs := fs\<rparr>) | Inr s \<Rightarrow> (None, s))) = (None, sys')"
    using upd unfolding UpdateObjectMetadata_def Let_def ob sum.case p updated_object_def by (simp add: v ex m set)
  have "GetObjectMetadata env b k (sys\<lparr>os_fs := fs\<rparr>) = Inr (fromMetadataObject ob)"
    using upd2 by (auto simp: GetObjectMetadata_def v ob p Let_def split: sum.splits bool.splits)
  with upd2 have "PutObject (env_E env) now (Some (toMetadataObject (updated_object changes (fromMetadataObject ob)))) (os_store sys) = Inr (os_store sys')"
    "os_fs sys' = fs"
    by (auto simp: saveObject_def split: sum.splits)
  with that v set show thesis by blast
qed

definition marked_object :: "smap \<Rightarrow> object \<Rightarrow> object" where
  "marked_object m obj = (if map_get m ''encrypted'' = ''true'' \<and> ob_SSEAlgorithm obj = [] then obj\<lparr>ob_SSEAlgorithm := ''AES256''\<rparr> else obj)"

lemma marked_fields [simp]:
  "ob_Size (marked_object m obj) = ob_Size obj" "ob_ETag (marked_object m obj) = ob_ETag obj" "ob_VersionID (marked_object m obj) = ob_VersionID obj"
  "ob_Retention (marked_object m obj) = ob_Retention obj" "ob_LegalHold (marked_object m obj) = ob_LegalHold obj"
  "ob_Metadata (marked_object m obj) = ob_Metadata obj"
  by (simp_all add: marked_object_def)

lemma get_object_eval:
  assumes "GetObject (env_E env) b k [] (os_store sys) = Inr ob" "be_Get (env_B env) (object_path b k (om_VersionID ob)) (os_fs sys) = Inr (d, m)"
  shows "OM_GetObject cr env b k [] sys =
    (if \<not> validateObjectName k then Inl InvalidObjectName
     else if om_Size ob = 0 \<and> om_ETag ob = [] \<and> om_VersionID ob = [] then Inl ObjectNotFound
     else if map_get m ''encrypted'' = ''true'' then (case decryptionKeyFor cr m of Inl e \<Rightarrow> Inl (OMsg e)
       | Inr dek \<Rightarrow> Inr (marked_object m (fromMetadataObject ob), decrypt_pipe cr m dek d))
     else Inr (marked_object m (fromMetadataObject ob), d))"
proof -
  have "ob_Size (fromMetadataObject ob) = om_Size ob" "ob_ETag (fromMetadataObject ob) = om_ETag ob"
    by (simp_all add: fromMetadataObject_def)
  then show ?thesis using assms(2) by (simp add: OM_GetObject_def get_target_def assms(1) object_path_def marked_object_def Let_def cong: if_cong split: sum.split)
qed

lemma get_object_alike:
  assumes get: "OM_GetObject cr env b k [] sys = Inr (obj, body)"
    and ob: "GetObject (env_E env) b k [] (os_store sys) = Inr ob" "GetObject (env_E env) b k [] (os_store sys') = Inr ob'"
    and same: "om_VersionID ob' = om_VersionID ob" "om_Size ob' = om_Size ob" "om_ETag ob' = om_ETag ob"
    and rd: "be_Get (env_B env) (object_path b k (om_VersionID ob)) (os_fs sys) = Inr (d, m)"
      "be_Get (env_B env) (object_path b k (om_VersionID ob)) (os_fs sys') = Inr (d, m')"
    and m': "\<And>x. isProtectedStorageMetadataKey x \<Longrightarrow> map_of m' x = map_of m x"
  shows "OM_GetObject cr env b k [] sys' = Inr (marked_object m' (fromMetadataObject ob'), body)" "obj = marked_object m (fromMetadataObject ob)"
proof -
  have opens: "map_get m' ''encrypted'' = map_get m ''encrypted''" "decryptionKeyFor cr m' = decryptionKeyFor cr m" "decrypt_pipe cr m' dek = decrypt_pipe cr m dek"
    for dek by (rule opens_alike, erule m')+
  note g = get [unfolded get_object_eval [where env = env, OF ob(1) rd(1)]]
  show "OM_GetObject cr env b k [] sys' = Inr (marked_object m' (fromMetadataObject ob'), body)"
    using g by (simp add: get_object_eval [where env = env, OF ob(2) rd(2) [folded same(1)]] opens same split: if_splits sum.splits)
  show "obj = marked_object m (fromMetadataObject ob)" using g by (auto split: if_splits sum.splits)
qed

lemma map_of_updates: "map_of (fold (\<lambda>(k, v). AList.update k v) changes l) = map_of l ++ map_of (rev changes)"
proof (induction changes arbitrary: l)
  case (Cons c changes)
  obtain k v where "c = (k, v)" by force
  with Cons show ?case by (auto simp: update_conv' fun_eq_iff map_add_def split: option.split)
qed simp

lemma stamp_fields:
  "om_Bucket (stamp_object now x) = om_Bucket x" "om_Key (stamp_object now x) = om_Key x" "om_VersionID (stamp_object now x) = om_VersionID x"
  "om_Size (stamp_object now x) = om_Size x" "om_ETag (stamp_object now x) = om_ETag x" "om_IsLatest (stamp_object now x) = om_IsLatest x"
  "om_Retention (stamp_object now x) = om_Retention x" "om_LegalHold (stamp_object now x) = om_LegalHold x" "om_Metadata (stamp_object now x) = om_Metadata x"
  by (simp_all add: stamp_object_def Let_def)

lemma updated_metadata: "ob_Metadata (updated_object changes obj) = fold (\<lambda>(k, v). AList.update k v) changes (ob_Metadata obj)"
  by (simp add: updated_object_def Let_def split: option.split)

lemma saved_update:
  fixes now :: gotime and changes :: smap and ob :: object_metadata
  defines "x \<equiv> stamp_object now (toMetadataObject (updated_object changes (fromMetadataObject ob)))"
  shows "om_Bucket x = om_Bucket ob" "om_Key x = om_Key ob" "om_VersionID x = om_VersionID ob" "om_Size x = om_Size ob"
    "om_ETag x = om_ETag ob" "om_IsLatest x = om_IsLatest ob" "ob_Retention (fromMetadataObject x) = ob_Retention (fromMetadataObject ob)"
    "ob_LegalHold (fromMetadataObject x) = ob_LegalHold (fromMetadataObject ob)"
    "om_Metadata x = fold (\<lambda>(k, v). AList.update k v) changes (om_Metadata ob)"
  unfolding x_def
  by (simp_all add: stamp_fields toMetadataObject_def fromMetadataObject_def updated_metadata option.map_comp comp_def split: option.split)

lemma put_object_map_current:
  assumes "om_Bucket x = b" "om_Key x = k" "m (objectKey b k) = Some (JObject ob')"
  shows "\<exists>y. put_object_map x m (objKeyFor b k []) = Some (JObject y) \<and> (y = ob' \<or> y = x) \<and> (om_VersionID x = [] \<or> om_IsLatest x \<longrightarrow> y = x)"
  using assms put_object_map_object [of x m] by (auto simp: objKeyFor_def)

text \<open>
  C9. A metadata update keeps the data. When the metadata store has an entry for the object, its file is in place and the update of
  its metadata succeeds, a download still returns the same bytes, with the same size, digest, version, retention and legal hold, whatever entries the caller names: the entries that
  decide how the file is decrypted cannot be overridden. The new entries are in the object unless its own
  entry is a version that is not the latest. The engine does not fail. An object that has a file but no entry is not covered: see
  \<open>orphan_download\<close> and \<open>sidecar_only_update\<close>.
\<close>

theorem update_keeps_data:
  assumes stores: "pebble_reliable (env_E env) cont" "data_store (env_B env) fit holds apart"
    and ob: "GetObject (env_E env) b k [] (os_store sys) = Inr ob" "om_Bucket ob = b" "om_Key ob = k"
    and path: "holds (object_path b k (om_VersionID ob)) d m (os_fs sys)" "fit (object_path b k (om_VersionID ob)) d (os_fs sys)"
    and get: "OM_GetObject cr env b k [] sys = Inr (obj, body)"
    and upd: "UpdateObjectMetadata env now b k changes sys = (None, sys')"
  shows "\<exists>obj'. OM_GetObject cr env b k [] sys' = Inr (obj', body) \<and> ob_Size obj' = ob_Size obj \<and> ob_ETag obj' = ob_ETag obj \<and>
    ob_VersionID obj' = ob_VersionID obj \<and> ob_Retention obj' = ob_Retention obj \<and> ob_LegalHold obj' = ob_LegalHold obj \<and>
    (om_VersionID ob = [] \<or> om_IsLatest ob \<longrightarrow> map_of (ob_Metadata obj') = map_of (ob_Metadata obj) ++ map_of (rev changes))"
proof -
  let ?p = "object_path b k (om_VersionID ob)" and ?x = "stamp_object now (toMetadataObject (updated_object changes (fromMetadataObject ob)))"
  have eng: "pebble_engine (env_E env) cont" using stores(1) by (simp add: pebble_reliable_def)
  have m: "be_GetMetadata (env_B env) ?p (os_fs sys) = Inr m" by (rule data_store.holds_meta [OF stores(2) path(1)])
  obtain fs where u: "validateObjectName k" "be_SetMetadata (env_B env) ?p (merged_sidecar changes m) (os_fs sys) = (None, fs)"
    "PutObject (env_E env) now (Some (toMetadataObject (updated_object changes (fromMetadataObject ob)))) (os_store sys) = Inr (os_store sys')"
    "os_fs sys' = fs" by (rule UpdateObjectMetadata_success [OF upd ob(1) m])
  obtain m' where h: "holds ?p d m' (os_fs sys')" "map_of m' = map_of (merged_sidecar changes m)"
    using data_store.set_holds [OF stores(2) path(2,1) u(2)] u(4) by blast
  have prot: "map_of m' x = map_of m x" if "isProtectedStorageMetadataKey x" for x using h(2) that by (simp add: map_of_merged)
  note x = saved_update [of now changes ob, unfolded ob(2,3)]
  note metadata = map_of_updates [of changes]
  obtain o' where o': "sto cont (os_store sys) (objectKey b k) = Some (JObject o')" "ob = fill_object b k o'"
    using pebble_engine.GetObject_sound [OF eng ob(1)] by (auto simp: objKeyFor_def)
  obtain y where y: "sto cont (os_store sys') (objKeyFor b k []) = Some (JObject y)" "y = o' \<or> y = ?x" "om_VersionID ?x = [] \<or> om_IsLatest ?x \<longrightarrow> y = ?x"
    using put_object_map_current [where m = "sto cont (os_store sys)", OF x(1,2) o'(1)] pebble_engine.PutObject_sound(4) [OF eng u(3)] by metis
  have ne: "b \<noteq> []" "k \<noteq> []" using pebble_engine.PutObject_sound(1,2) [OF eng u(3)] ob(2,3) by (simp_all add: toMetadataObject_def fromMetadataObject_def)
  have ob': "GetObject (env_E env) b k [] (os_store sys') = Inr (fill_object b k y)" by (rule pebble_reliable.GetObject_ok [OF stores(1) y(1) ne])
  define z where "z = fill_object b k y"
  have "fill_object b k ?x = ?x" using x(1,2) ne by (simp add: fill_object_def)
  then have z: "z = ob \<or> z = ?x" "om_VersionID ob = [] \<or> om_IsLatest ob \<Longrightarrow> z = ?x"
    using y(2,3) o'(2) x(3,6) unfolding z_def by metis+
  have same: "om_VersionID z = om_VersionID ob" "om_Size z = om_Size ob" "om_ETag z = om_ETag ob"
    "ob_Retention (fromMetadataObject z) = ob_Retention (fromMetadataObject ob)" "ob_LegalHold (fromMetadataObject z) = ob_LegalHold (fromMetadataObject ob)"
    using z(1) x(3-5,7,8) by metis+
  note alike = get_object_alike [OF get ob(1) ob' [folded z_def] same(1-3) data_store.holds_get [OF stores(2) path(1)] data_store.holds_get [OF stores(2) h(1)] prot]
  have fields: "ob_Size (fromMetadataObject w) = om_Size w" "ob_ETag (fromMetadataObject w) = om_ETag w" "ob_VersionID (fromMetadataObject w) = om_VersionID w"
    "ob_Metadata (fromMetadataObject w) = om_Metadata w" for w by (simp_all add: fromMetadataObject_def)
  have "om_VersionID ob = [] \<or> om_IsLatest ob \<Longrightarrow> map_of (om_Metadata z) = map_of (om_Metadata ob) ++ map_of (rev changes)"
    using z(2) x(9) metadata by simp
  then show ?thesis by (intro exI [of _ "marked_object m' (fromMetadataObject z)"]) (simp add: alike fields same)
qed

text \<open>An encrypted object in memory, and an update that tries to mark it as plain.\<close>

definition catalog_env :: "((string \<times> kv_value) list, (string \<times> string \<times> smap) list, int) om_env" where
  "catalog_env = \<lparr>env_E = mem_engine, env_B = mem_backend, env_inc = \<lambda>t z au. au + z, env_dec = \<lambda>t z au. au - z,
     env_quota = \<lambda>t z au. None, env_cleanup = \<lambda>b k fs. fs, env_stage = \<lambda>r fs. snd r, env_open = \<lambda>fs. None,
     env_envelope = Inr ([], []), env_encrypt = \<lambda>k p. (p, None), env_md5 = \<lambda>b. ''d'', env_checksum = \<lambda>a p. None\<rparr>"

definition sealed_sidecar :: smap where
  "sealed_sidecar = (''encrypted'', ''true'') # (''x-amz-server-side-encryption-algorithm'', ''AES-256-GCM-STREAM'') # demo_envelope"

definition sealed_entry :: object_metadata where
  "sealed_entry = zero_object\<lparr>om_Bucket := ''b'', om_Key := ''k'', om_Size := 2, om_ETag := ''d''\<rparr>"

definition sealed_system :: "((string \<times> kv_value) list, (string \<times> string \<times> smap) list, int) om_state" where
  "sealed_system = \<lparr>os_store = NewPebbleStore [(objectKey ''b'' ''k'', JObject sealed_entry)],
     os_fs = [(getObjectPath ''b'' ''k'', (fst demo_sealed, sealed_sidecar))], os_tenants = 0\<rparr>"

definition plain_claim :: smap where
  "plain_claim = [(''encrypted'', ''false''), (''colour'', ''blue'')]"

lemma demo_update:
  "\<exists>sys'. UpdateObjectMetadata catalog_env 9 ''b'' ''k'' plain_claim sealed_system = (None, sys')"
proof -
  have "fst (UpdateObjectMetadata catalog_env 9 ''b'' ''k'' plain_claim sealed_system) = None" by code_simp
  then show ?thesis by (metis prod.collapse)
qed

lemma sealed_download:
  "OM_GetObject demo_crypter catalog_env ''b'' ''k'' [] sealed_system = Inr (marked_object sealed_sidecar (fromMetadataObject sealed_entry), (''hi'', None))"
proof -
  have "GetObject (env_E catalog_env) ''b'' ''k'' [] (os_store sealed_system) = Inr sealed_entry"
    "be_Get (env_B catalog_env) (object_path ''b'' ''k'' (om_VersionID sealed_entry)) (os_fs sealed_system) = Inr ((fst demo_sealed, None), sealed_sidecar)"
    by code_simp+
  moreover have "decryptionKeyFor demo_crypter sealed_sidecar = Inr demo_dek" "validateObjectName ''k''" "om_ETag sealed_entry \<noteq> []"
    "map_get sealed_sidecar ''encrypted'' = ''true''"
    by code_simp+
  moreover have alg: "map_get sealed_sidecar ''x-amz-server-side-encryption-algorithm'' = ''AES-256-GCM-STREAM''" by code_simp
  moreover have "decrypt_pipe demo_crypter sealed_sidecar demo_dek (fst demo_sealed, None) = (''hi'', None)"
  proof -
    have "aead_ok (cr_C demo_crypter)" "kdf_ok (cr_C demo_crypter)" "length (replicate 12 (3 :: 8 word)) = NonceSize"
      by (simp_all add: demo_crypter_def demo_ciphers_ok NonceSize_def)
    from pipes_inverse(2) [OF this alg refl refl, of demo_dek "''hi''"] show ?thesis
      unfolding demo_pipe by (simp add: demo_sealed_def)
  qed
  ultimately show ?thesis by (simp add: get_object_eval)
qed

theorem update_keeps_data_witness:
  "\<exists>sys' obj'. UpdateObjectMetadata catalog_env 9 ''b'' ''k'' plain_claim sealed_system = (None, sys') \<and>
     OM_GetObject demo_crypter catalog_env ''b'' ''k'' [] sys' = Inr (obj', (''hi'', None)) \<and> map_of (ob_Metadata obj') ''colour'' = Some ''blue''"
proof -
  obtain sys' where upd: "UpdateObjectMetadata catalog_env 9 ''b'' ''k'' plain_claim sealed_system = (None, sys')" using demo_update by blast
  have "pebble_reliable (env_E catalog_env) map_of" "data_store (env_B catalog_env) (\<lambda>_ _ _. True) mem_holds (\<noteq>)"
    using mem.pebble_reliable_axioms memd.data_store_axioms by (simp_all add: catalog_env_def)
  moreover have "GetObject (env_E catalog_env) ''b'' ''k'' [] (os_store sealed_system) = Inr sealed_entry" by code_simp
  moreover have "om_Bucket sealed_entry = ''b''" "om_Key sealed_entry = ''k''" "om_VersionID sealed_entry = []"
    by (simp_all add: sealed_entry_def zero_object_def)
  moreover have "mem_holds (object_path ''b'' ''k'' (om_VersionID sealed_entry)) (fst demo_sealed) sealed_sidecar (os_fs sealed_system)"
    by (simp add: mem_holds_def sealed_system_def object_path_def sealed_entry_def zero_object_def)
  ultimately obtain obj' where "OM_GetObject demo_crypter catalog_env ''b'' ''k'' [] sys' = Inr (obj', (''hi'', None))"
    "map_of (ob_Metadata obj') = map_of (ob_Metadata (marked_object sealed_sidecar (fromMetadataObject sealed_entry))) ++ map_of (rev plain_claim)"
    using update_keeps_data [OF _ _ _ _ _ _ _ sealed_download upd] by metis
  then show ?thesis using upd by (auto simp: plain_claim_def)
qed

text \<open>
  An encrypted file whose metadata entry is lost: a download reports the size and digest of the plaintext, which the sidecar holds
  as \<^verbatim>\<open>original-size\<close> and \<^verbatim>\<open>original-etag\<close>. An update of its metadata creates an entry from the
  sidecar's own size and digest, those of the ciphertext, and every later request reports these.
\<close>

definition orphan_sidecar :: smap where
  "orphan_sidecar = [(''size'', ''34''), (''etag'', ''c''), (''original-size'', ''2''), (''original-etag'', ''d'')] @ sealed_sidecar"

definition orphan_system :: "((string \<times> kv_value) list, (string \<times> string \<times> smap) list, int) om_state" where
  "orphan_system = \<lparr>os_store = NewPebbleStore [], os_fs = [(getObjectPath ''b'' ''k'', (fst demo_sealed, orphan_sidecar))], os_tenants = 0\<rparr>"

lemma orphan_download:
  "\<exists>obj body. OM_GetObject demo_crypter catalog_env ''b'' ''k'' [] orphan_system = Inr (obj, body) \<and> ob_Size obj = 2 \<and> ob_ETag obj = ''d''"
proof -
  have "validateObjectName ''k''" "get_target (env_E catalog_env) ''b'' ''k'' [] (os_store orphan_system) = Inr (None, [])"
    "be_Get (env_B catalog_env) (getObjectPath ''b'' ''k'') (os_fs orphan_system) = Inr ((fst demo_sealed, None), orphan_sidecar)"
    "map_get orphan_sidecar ''encrypted'' = ''true''" "decryptionKeyFor demo_crypter orphan_sidecar = Inr demo_dek"
    "ob_Size (sidecar_object ''b'' ''k'' orphan_sidecar) = 2" "ob_ETag (sidecar_object ''b'' ''k'' orphan_sidecar) = ''d''"
    by code_simp+
  then show ?thesis by (simp add: OM_GetObject_def Let_def)
qed

lemma sidecar_only_update:
  "case UpdateObjectMetadata catalog_env 9 ''b'' ''k'' [(''colour'', ''blue'')] orphan_system of (e, sys') \<Rightarrow>
     e = None \<and> (case GetObjectMetadata catalog_env ''b'' ''k'' sys' of Inl _ \<Rightarrow> False | Inr obj \<Rightarrow> ob_Size obj = 34 \<and> ob_ETag obj = ''c'')"
  by code_simp

section \<open>Listings\<close>

text \<open>Following the markers of a flat listing.\<close>

fun OM_pages :: "'db engine \<Rightarrow> string \<Rightarrow> string \<Rightarrow> int \<Rightarrow> nat \<Rightarrow> string \<Rightarrow> 'db pstore \<Rightarrow> object list list option" where
  "OM_pages E b p n 0 start s = None"
| "OM_pages E b p n (Suc fuel) start s = (case OM_ListObjects E b p [] start n s of
     Inl e \<Rightarrow> None
   | Inr r \<Rightarrow> if \<not> lr_IsTruncated r then Some [lr_Objects r] else map_option ((#) (lr_Objects r)) (OM_pages E b p n fuel (lr_NextMarker r) s))"

abbreviation visible :: "object_metadata list \<Rightarrow> object list" where
  "visible obs \<equiv> map fromMetadataObject (filter (listed True) obs)"

lemma OM_pages_visible:
  assumes "check_bucket E b s = None"
  shows "OM_pages E b p n fuel start s = map_option (map visible) (list_pages E b p n fuel start s)"
proof (induction fuel arbitrary: start)
  case (Suc fuel)
  have "ListObjects E b p start (defaultMaxKeys n) s = ListObjects E b p start n s"
    unfolding ListObjects_def defaultMaxKeys_idem ..
  with Suc show ?case by (auto simp: OM_ListObjects_def assms Let_def option.map_comp comp_def split: sum.splits)
qed simp

lemma concat_visible: "concat (map visible pages) = visible (concat pages)"
  by (induction pages) simp_all

text \<open>
  C15. Following the markers of a flat listing through the object manager delivers every visible object of the bucket with the
  prefix exactly once and in key order, whatever the page size, and the loop ends. Visible are the objects that are
  not the store's own files, implicit folders or delete markers; a page holds at most the requested number.
\<close>

theorem object_listing_complete:
  assumes "pebble_reliable E cont" "typed (sto cont s)" "no_colon b" "b \<noteq> []" "check_bucket E b s = None"
    and "lists_objects (sto cont s) b p xs" "obj_at (sto cont s) (objectKey b []) = None"
  shows "\<exists>pages. OM_pages E b p n (Suc (length xs)) [] s = Some pages \<and> concat pages = visible (map snd xs) \<and>
    (\<forall>pg\<in>set pages. int (length pg) \<le> defaultMaxKeys n)"
proof -
  have "[] \<notin> fst ` set xs" using assms(6,7) by (force simp: lists_objects_def)
  from pebble_reliable.list_pages_after [OF assms(1-4,6) this, of "[]" "Suc (length xs)" n]
  obtain pages where pages: "list_pages E b p n (Suc (length xs)) [] s = Some pages" "concat pages = map snd xs"
    "\<forall>pg\<in>set pages. int (length pg) \<le> defaultMaxKeys n" by (auto simp: after_def)
  have "int (length (visible pg)) \<le> defaultMaxKeys n" if "pg \<in> set pages" for pg
    using pages(3) that length_filter_le [of "listed True" pg] by (simp, meson of_nat_mono order_trans)
  then have "\<forall>pg\<in>set (map visible pages). int (length pg) \<le> defaultMaxKeys n" by auto
  then show ?thesis using pages(1,2) concat_visible [of pages] by (simp add: OM_pages_visible [OF assms(5)] del: OM_pages.simps)
qed

text \<open>A bucket with a hidden marker file, two objects and a delete marker, listed one entry at a time.\<close>

definition listed_entry :: "string \<Rightarrow> string \<Rightarrow> string \<times> object_metadata" where
  "listed_entry k e = (k, zero_object\<lparr>om_Bucket := ''b'', om_Key := k, om_ETag := e\<rparr>)"

definition listed_entries :: "(string \<times> object_metadata) list" where
  "listed_entries = [listed_entry ''.maxiofs-x'' ''e'', listed_entry ''a'' ''e'', listed_entry ''b'' ''e'', listed_entry ''c'' []]"

definition listed_store :: "(string \<times> kv_value) list pstore" where
  "listed_store = NewPebbleStore ((bucketKey [] ''b'', JBucket (zero_bucket\<lparr>bm_Name := ''b''\<rparr>)) # map (\<lambda>(k, ob). (objectKey ''b'' k, JObject ob)) listed_entries)"

theorem object_listing_complete_witness:
  "\<exists>pages. OM_pages mem_engine ''b'' [] 1 5 [] listed_store = Some pages \<and> map ob_Key (concat pages) = [''a'', ''b'']"
proof -
  have sto: "sto map_of listed_store = (map_of (map (\<lambda>(k, ob). (objectKey ''b'' k, JObject ob)) listed_entries))(bucketKey [] ''b'' \<mapsto> JBucket (zero_bucket\<lparr>bm_Name := ''b''\<rparr>))"
    by (simp add: listed_store_def NewPebbleStore_simps)
  have "typed (sto map_of listed_store)"
    unfolding listed_store_def NewPebbleStore_simps by (rule typed_map_of) (simp add: listed_entries_def listed_entry_def zero_bucket_def no_colon_def)
  moreover have "lists_objects (sto map_of listed_store) ''b'' [] listed_entries"
    unfolding sto by (auto simp: lists_objects_def listed_entries_def listed_entry_def obj_at_def objectKey_def bucketKey_def split: if_split_asm)
  moreover have "obj_at (sto map_of listed_store) (objectKey ''b'' []) = None"
    unfolding sto by (simp add: listed_entries_def listed_entry_def obj_at_def objectKey_def bucketKey_def)
  moreover have "check_bucket mem_engine ''b'' listed_store = None" "no_colon ''b''" by code_simp+
  moreover have "map ob_Key (visible (map snd listed_entries)) = [''a'', ''b'']" by code_simp
  moreover have "Suc (length listed_entries) = 5" "''b'' \<noteq> []" by (simp_all add: listed_entries_def)
  ultimately show ?thesis
    using object_listing_complete [OF mem.pebble_reliable_axioms, of listed_store "''b''" "[]" listed_entries 1] by metis
qed

section \<open>Search markers\<close>

text \<open>
  The marker after a common prefix lies behind every key of the folder, as the source says. It may also lie
  behind keys that are not in the folder.
\<close>

lemma char_255: "char_of (255 :: nat) = CHR 0xFF"
  by code_simp

lemma past_prefix:
  assumes "prfx = base @ delimiter" "base \<noteq> []" "delimiter \<noteq> []" "last base \<noteq> CHR 0xFF" "HasPrefix key base"
  shows "key < advancePastPrefix prfx delimiter"
proof -
  obtain a x where base: "base = a @ [x]" using assms(2) by (metis rev_exhaust)
  obtain r where "key = a @ x # r" using assms(5) by (auto simp: HasPrefix_iff base)
  moreover have "x < char_of (of_char x + 1 :: nat)"
  proof -
    have "of_char x \<noteq> (255 :: nat)" using assms(4) base by (metis char_255 char_of_char last_snoc)
    then have "Suc (of_char x) < 256" using nat_of_char_less_256 [of x] by linarith
    then show ?thesis by (simp add: less_char_def of_char_of)
  qed
  ultimately show ?thesis using assms by (simp add: advancePastPrefix_def Let_def base)
qed

lemma marker_skips_sibling:
  "advancePastPrefix ''folder_1000/'' ''/'' = ''folder_1001''" "\<not> HasPrefix ''folder_1000a'' ''folder_1000/''"
  "''folder_1000/'' < ''folder_1000a''" "''folder_1000a'' < ''folder_1001''"
  by code_simp+

section \<open>Access control lists\<close>

lemma acl_records:
  "\<lparr>oo_ID = oo_ID w, oo_DisplayName = oo_DisplayName w\<rparr> = w"
  "\<lparr>oge_Type = oge_Type ge, oge_ID = oge_ID ge, oge_DisplayName = oge_DisplayName ge, oge_EmailAddress = oge_EmailAddress ge, oge_URI = oge_URI ge\<rparr> = ge"
  "\<lparr>ogr_Grantee = ogr_Grantee g, ogr_Permission = ogr_Permission g\<rparr> = g" "\<lparr>oac_Owner = oac_Owner a, oac_Grants = oac_Grants a\<rparr> = a"
  by simp_all

lemma object_acl_round_trip: "fromMetadataACL (toMetadataACL a) = a"
  by (simp add: fromMetadataACL_def toMetadataACL_def Let_def comp_def acl_records)

text \<open>The current object's list is stored in its entry, and in the list store for older readers; the entry decides.\<close>

lemma manager_acl_set_get:
  assumes E: "pebble_reliable (env_E env) cont" and set: "OM_SetObjectACL env now b k (Some a) [] sys = (None, sys')"
    and ob: "GetObject (env_E env) b k [] (os_store sys) = Inr ob" "om_Bucket ob = b" "om_Key ob = k" "om_VersionID ob = [] \<or> om_IsLatest ob"
  shows "OM_GetObjectACL env b k [] sys' = Inr a"
proof -
  let ?x = "stamp_object now (toMetadataObject ((fromMetadataObject ob)\<lparr>ob_ACL := Some a\<rparr>))"
  have eng: "pebble_engine (env_E env) cont" using E by (simp add: pebble_reliable_def)
  have meta: "GetObjectMetadata env b k sys = Inr (fromMetadataObject ob)"
    using set by (auto simp: OM_SetObjectACL_def getObjectMetadataForVersion_def GetObjectMetadata_def ob(1) Let_def split: sum.splits if_splits bool.splits)
  obtain t n s1 s2 where w: "PutObject (env_E env) now (Some (toMetadataObject ((fromMetadataObject ob)\<lparr>ob_ACL := Some a\<rparr>))) (os_store sys) = Inr s1"
    "PutRaw (env_E env) (objectACLKey t n k) (JAcl (convertToACLManagerType a)) s1 = Inr s2" "os_store sys' = s2" "os_fs sys' = os_fs sys"
    using set unfolding OM_SetObjectACL_def getObjectMetadataForVersion_def meta
    by (auto simp: saveObject_def SetObjectACL_def pebble_kv_def split: sum.splits prod.splits)
  have x: "om_Bucket ?x = b" "om_Key ?x = k" "om_VersionID ?x = om_VersionID ob" "om_IsLatest ?x = om_IsLatest ob" "om_ACL ?x = Some (toMetadataACL a)"
    using ob(2,3) by (simp_all add: stamp_object_def Let_def toMetadataObject_def fromMetadataObject_def)
  have "sto cont s1 (objectKey b k) = Some (JObject ?x)"
    using pebble_engine.PutObject_sound(4) [OF eng w(1)] put_object_map_object [of ?x "sto cont (os_store sys)"] x ob(4) by simp
  moreover have "objectACLKey t n k \<noteq> objectKey b k" by (simp add: objectACLKey_def objectKey_def)
  ultimately have "sto cont (os_store sys') (objKeyFor b k []) = Some (JObject ?x)"
    using w(2,3) pebble_engine.setNoSync_sound [OF eng w(2) [unfolded PutRaw_def]] by (simp add: objKeyFor_def)
  moreover have ne: "b \<noteq> []" "k \<noteq> []" using pebble_engine.PutObject_sound(1,2) [OF eng w(1)] ob(2,3) by (simp_all add: toMetadataObject_def fromMetadataObject_def)
  ultimately have "GetObject (env_E env) b k [] (os_store sys') = Inr ?x"
    using pebble_reliable.GetObject_ok [OF E] x(1,2) by (simp add: fill_object_def)
  then have "GetObjectMetadata env b k sys' = Inr (fromMetadataObject ?x)"
    using meta w(4) x(3) by (simp add: GetObjectMetadata_def ob(1) Let_def split: if_splits sum.splits bool.splits)
  then show ?thesis using x(5) by (simp add: OM_GetObjectACL_def getObjectMetadataForVersion_def fromMetadataObject_def object_acl_round_trip)
qed

lemma acl_types_round_trip: "convertFromACLManagerType (convertToACLManagerType a) = a"
  by (simp add: convertFromACLManagerType_def convertToACLManagerType_def Let_def comp_def acl_records)

end
