(* ===== verification/Spec2Isabelle.thy ===== *)
theory Spec2Isabelle
  imports Meta_Delimited Acl Bucket_Wildcard Bucket_Policy_Props Wal_Durability Circuit_Breaker Rate_Limiter
    Bucket_Manager_Props Object_Lock Filesystem_Props Multipart_Props Completion_Flights Catalog_Props
begin

text \<open>
  Verification library for MaxIOFS, an S3-compatible object store written in Go. File names are relative to
  \<^verbatim>\<open>src/\<close>.

  \<^bold>\<open>The program.\<close> A request handler calls the bucket manager and the object manager. Both keep their documents in
  the metadata store, a layer of keys and JSON documents over the Pebble key-value engine. The object manager keeps
  the bytes of objects in a data store, the filesystem backend, encrypted under a data key per object; the data key
  is wrapped by a versioned key of the key store and travels in the sidecar of the object's file. Bucket policies and
  access control lists decide who may do what. A rate limiter and a circuit breaker protect logins and cluster calls.

  \<^bold>\<open>Theories, from the bottom.\<close>

  \<^item> \<open>Prelude\<close>: Go's times, 64-bit integers with their wrap-around, strings and maps, and the shared lemmas.
    \<open>Go_Hex\<close>, \<open>Go_Net\<close>, \<open>Go_Path\<close>, \<open>Go_Os\<close>: what the sources use of \<^verbatim>\<open>encoding/hex\<close>, \<^verbatim>\<open>net\<close>, \<^verbatim>\<open>path/filepath\<close> and \<^verbatim>\<open>os\<close>.
    The disk of \<open>Go_Os\<close> follows a plan of faults, short writes and crashes.
  \<^item> \<open>Pebble_Engine\<close>: the engine as a parameter with the locales \<open>pebble_engine\<close> (calls may fail) and
    \<open>pebble_reliable\<close>, interpreted on an in-memory engine.
  \<^item> Metadata store, \<^verbatim>\<open>internal/metadata\<close>: \<open>Meta_Types\<close> (documents and errors), \<open>Meta_Keys\<close> (key scheme, filters),
    \<open>Pebble_Store\<close> (state \<open>pstore\<close>, buckets, raw keys), \<open>Meta_Objects\<close> (objects, versions, tags), \<open>Meta_Multipart\<close> (uploads and parts),
    \<open>Meta_Listing\<close> (listings and searches), \<open>Wal_Durability\<close> (the write-ahead log and its sync loop).
  \<^item> Bucket manager, \<^verbatim>\<open>internal/bucket\<close>: \<open>Bucket_Adapter\<close>, \<open>Bucket_Names\<close>, \<open>Bucket_Manager\<close>; policies in
    \<open>Bucket_Policy\<close>; access control lists, \<^verbatim>\<open>internal/acl\<close>, in \<open>Acl\<close>.
  \<^item> Data store, \<^verbatim>\<open>internal/storage\<close>: \<open>Storage_Backend\<close> (the interface as a record of calls), \<open>Filesystem\<close> (the
    implementation as state transformers of a disk), \<open>Data_Store\<close> (what the object manager relies on, as a locale, interpreted
    on the filesystem backend and on an in-memory store).
  \<^item> Encryption: \<open>Gcm_Stream\<close> (\<^verbatim>\<open>pkg/encryption\<close>), \<open>Kek_Store\<close> (\<^verbatim>\<open>internal/kek\<close>), \<open>Envelope\<close> (data keys, \<^verbatim>\<open>internal/object\<close>).
  \<^item> Object manager, \<^verbatim>\<open>internal/object\<close>: \<open>Object_Adapter\<close> (types and conversions), \<open>Object_Manager\<close> (uploads, deletions, object lock,
    tags, quotas), \<open>Object_Read\<close> (downloads and the migration to envelopes), \<open>Object_Multipart\<close> and \<open>Completion_Flights\<close>
    (uploads in parts), \<open>Object_Catalog\<close> (listings, versions, lists, metadata updates).
  \<^item> \<open>Rate_Limiter\<close> (\<^verbatim>\<open>internal/auth/rate_limiter.go\<close>) and \<open>Circuit_Breaker\<close> (\<^verbatim>\<open>internal/cluster/circuit_breaker.go\<close>).

  \<^bold>\<open>Correspondence.\<close> A Go struct is a record with its fields, an error value a constructor, a method a definition of the same
  name; a method of the object or bucket manager whose name the metadata store also uses carries the prefix \<open>OM_\<close> or \<open>BM_\<close>.
  State is passed explicitly: \<open>pstore\<close> for the metadata store, \<open>io\<close> for the disk, \<open>om_state\<close> for both with the tenants' counters.
  Fallible calls return a sum. The clock and random bytes are arguments. Go maps are association lists, with the
  iteration order left to the caller where it matters. JSON documents are the values themselves; where bytes of JSON matter, in
  the sidecar files, the codec is a parameter with its round trip as a hypothesis. Log messages and audit events are left out.

  \<^bold>\<open>What is shown.\<close>

  \<^item> Metadata store: \<open>Meta_Invariant\<close> makes each operation a step of a state machine and proves the store's invariant, and that a
    deleted bucket stays empty, for every run. \<open>Meta_Buckets\<close>, \<open>Meta_Object_Props\<close>, \<open>Meta_Multipart\<close> give the effect of each operation, errors
    included. \<open>Meta_Listing_Props\<close>, \<open>Meta_Delimited\<close> prove that paged listings and searches deliver everything once, the
    delimited one by refinement of a grouping of the keys (its pages for a delimiter of one byte and pages of two items or more).
    \<open>Wal_Durability\<close> proves that the sync loop misses no write, and that without a list of faults (sentinel files, final sync, late
    writers) no write is lost by a shutdown reported as clean; each of the faults alone is shown to break that.
  \<^item> Object data: \<open>Filesystem_Props\<close> proves that a put of a file, with no staged sidecar left before it, is atomic under every fault plan, and shows
    by example that a put of a folder, one over a leftover stage and one beside a deletion are not;
    \<open>Gcm_Stream\<close> proves the stream's round trip and that decryption of an input without a forged frame gives a prefix of the data;
    \<open>Kek_Store\<close> that no key version a running store knows is lost.
    \<open>Object_Read\<close> and \<open>Multipart_Props\<close> compose all layers: what was uploaded, at once or in parts, is what is downloaded, also after key
    rotations (in parts: if the upload's metadata names none of the protected sidecar entries). \<open>Catalog_Props\<close>: metadata updates of an object
    with an entry keep its data, and a listing shows exactly the visible objects.
  \<^item> Object lock: \<open>Object_Lock\<close> keeps a retained version through every run of requests before its date, whatever calls fail, but
    uploads that a replication request pins to that version and retentions with an unknown mode, which lift the lock.
  \<^item> Concurrency: \<open>Completion_Flights\<close> and \<open>Wal_Durability\<close> are interleaved transition systems. Elsewhere an operation is one step. Where
    the source takes no lock, examples show what an interleaving can do: \<open>Meta_Invariant\<close> for \<open>UpdateBucket\<close>, \<open>Filesystem_Props\<close> for
    \<open>FS_Delete\<close>, \<open>Bucket_Manager_Props\<close> for the configuration setters.
  \<^item> Access: \<open>Bucket_Policy\<close>, \<open>Bucket_Wildcard\<close>, \<open>Bucket_Policy_Props\<close> relate the evaluator to its declarative meaning; \<open>Acl\<close> and
    \<open>Bucket_Manager_Props\<close> prove round trips and isolation of the configurations.
  \<^item> \<open>Rate_Limiter\<close>: at most twice the limit of allowed attempts in any interval of the window's length, and no refusal unless the limit
    was reached. \<open>Circuit_Breaker\<close>: it opens, refuses and recovers.

  Lemmas named in the findings exhibit behaviours that differ from what the sources say, on concrete states.

  \<^bold>\<open>Bounds.\<close> Loops are structural or have a termination proof; the wildcard matcher is a \<open>while_option\<close> whose termination is proved.
  The fuel of \<open>list_pages\<close> and \<open>OM_pages\<close> is the number of entries plus one, which is shown to be enough. The retry of a file removal
  is the source's five attempts.

  \<^bold>\<open>Not modelled.\<close> The HTTP and XML layer (\<^verbatim>\<open>pkg/s3compat\<close>, \<^verbatim>\<open>internal/server\<close>), accounts (\<^verbatim>\<open>internal/auth\<close> but the rate limiter),
  synchronisation between nodes (\<^verbatim>\<open>internal/cluster\<close> but the circuit breaker), replication, inventory, notifications, metrics,
  settings and logs: they are input and output over SQLite and the network, or translate requests to the managers modelled here.
  Opening, compaction, backup and file-format migration of the database work below the key-value interface. AES, GCM, PBKDF2,
  MD5, Pebble and the SQLite table of keys are parameters with the laws that are used.
\<close>

end
